(* ===== verification/Prelude.thy ===== *)
theory Prelude
  imports Main "HOL-Library.Char_ord" "HOL-Library.List_Lexorder" "HOL-Library.Sublist"
begin

text \<open>
  Shared ground of the development: results of fallible code, Go's byte strings with the
  functions of package \<^verbatim>\<open>strings\<close> the sources call, and the generic lemmas on them. A Go
  string is a byte sequence, so it is a \<open>string\<close> (a list of 8-bit characters); its order is the
  lexicographic order on bytes, which is the order of \<^verbatim>\<open>sort.Strings\<close>.
\<close>

named_theorems go_string "evaluation rules of the functions of package strings"

section \<open>Results of fallible code\<close>

text \<open>
  A Go function returning \<open>(v, error)\<close> returns \<open>Inl e\<close> or \<open>Inr v\<close>. \<open>res_bind\<close> is the
  early return on error, \<open>res_map\<close> a computation that cannot fail.
\<close>

definition res_bind :: "'e + 'a \<Rightarrow> ('a \<Rightarrow> 'e + 'b) \<Rightarrow> 'e + 'b" where
  "res_bind r f = (case r of Inl e \<Rightarrow> Inl e | Inr x \<Rightarrow> f x)"

definition res_map :: "('a \<Rightarrow> 'b) \<Rightarrow> 'e + 'a \<Rightarrow> 'e + 'b" where
  "res_map f r = (case r of Inl e \<Rightarrow> Inl e | Inr x \<Rightarrow> Inr (f x))"

lemma res_bind_simps [simp]:
  "res_bind (Inl e) f = Inl e" "res_bind (Inr x) f = f x"
  by (simp_all add: res_bind_def)

lemma res_map_simps [simp]:
  "res_map g (Inl e) = Inl e" "res_map g (Inr x) = Inr (g x)"
  by (simp_all add: res_map_def)

lemma res_bind_Inr [simp]:
  "res_bind r f = Inr y \<longleftrightarrow> (\<exists>x. r = Inr x \<and> f x = Inr y)"
  by (cases r) auto

lemma res_map_Inr [simp]:
  "res_map f r = Inr y \<longleftrightarrow> (\<exists>x. r = Inr x \<and> y = f x)"
  by (cases r) auto

lemma res_bind_cong [fundef_cong]:
  "r = r' \<Longrightarrow> (\<And>x. r' = Inr x \<Longrightarrow> f x = g x) \<Longrightarrow> res_bind r f = res_bind r' g"
  by (cases r') auto

text \<open>A byte between two others, as in \<^verbatim>\<open>'a' <= c && c <= 'z'\<close>.\<close>

abbreviation char_in :: "char \<Rightarrow> char \<Rightarrow> char \<Rightarrow> bool" where
  "char_in a b c \<equiv> a \<le> c \<and> c \<le> b"

section \<open>Package strings\<close>

definition HasPrefix :: "string \<Rightarrow> string \<Rightarrow> bool" where
  "HasPrefix s p \<longleftrightarrow> take (length p) s = p"

definition HasSuffix :: "string \<Rightarrow> string \<Rightarrow> bool" where
  "HasSuffix s p \<longleftrightarrow> HasPrefix (rev s) (rev p)"

definition TrimPrefix :: "string \<Rightarrow> string \<Rightarrow> string" where
  "TrimPrefix s p = (if HasPrefix s p then drop (length p) s else s)"

definition TrimSuffix :: "string \<Rightarrow> string \<Rightarrow> string" where
  "TrimSuffix s p = (if HasSuffix s p then take (length s - length p) s else s)"

definition CutPrefix :: "string \<Rightarrow> string \<Rightarrow> string option" where
  "CutPrefix s p = (if HasPrefix s p then Some (drop (length p) s) else None)"

definition CutSuffix :: "string \<Rightarrow> string \<Rightarrow> string option" where
  "CutSuffix s p = (if HasSuffix s p then Some (take (length s - length p) s) else None)"

fun ContainsStr :: "string \<Rightarrow> string \<Rightarrow> bool" where
  "ContainsStr [] p \<longleftrightarrow> p = []"
| "ContainsStr (c # s) p \<longleftrightarrow> HasPrefix (c # s) p \<or> ContainsStr s p"

fun JoinStr :: "string list \<Rightarrow> string \<Rightarrow> string" where
  "JoinStr [] sep = []"
| "JoinStr [x] sep = x"
| "JoinStr (x # y # xs) sep = x @ sep @ JoinStr (y # xs) sep"

text \<open>\<^verbatim>\<open>strings.Split\<close> on a one-byte separator.\<close>

fun SplitChar :: "char \<Rightarrow> string \<Rightarrow> string list" where
  "SplitChar c [] = [[]]"
| "SplitChar c (x # s) =
     (if x = c then [] # SplitChar c s
      else (case SplitChar c s of [] \<Rightarrow> [[x]] | w # ws \<Rightarrow> (x # w) # ws))"

text \<open>
  \<^verbatim>\<open>strings.ReplaceAll\<close> with a non-empty pattern: leftmost, non-overlapping occurrences. The first
  argument counts the bytes of the current occurrence still to be skipped.
\<close>

fun replace_from :: "nat \<Rightarrow> string \<Rightarrow> string \<Rightarrow> string \<Rightarrow> string" where
  "replace_from n [] old new = []"
| "replace_from (Suc n) (c # s) old new = replace_from n s old new"
| "replace_from 0 (c # s) old new =
     (if HasPrefix (c # s) old then new @ replace_from (length old - 1) s old new
      else c # replace_from 0 s old new)"

definition ReplaceAll :: "string \<Rightarrow> string \<Rightarrow> string \<Rightarrow> string" where
  "ReplaceAll s old new = replace_from 0 s old new"

text \<open>
  The UTF-8 encodings of the characters \<^verbatim>\<open>unicode.IsSpace\<close> accepts. No encoding is part of the
  encoding of another character, so trimming characters is trimming these byte sequences.
\<close>

definition space_runes :: "string list" where
  "space_runes =
     [[CHR 0x09], [CHR 0x0A], [CHR 0x0B], [CHR 0x0C], [CHR 0x0D], [CHR 0x20],
      [CHR 0xC2, CHR 0x85], [CHR 0xC2, CHR 0xA0], [CHR 0xE1, CHR 0x9A, CHR 0x80],
      [CHR 0xE2, CHR 0x80, CHR 0x80], [CHR 0xE2, CHR 0x80, CHR 0x81],
      [CHR 0xE2, CHR 0x80, CHR 0x82], [CHR 0xE2, CHR 0x80, CHR 0x83],
      [CHR 0xE2, CHR 0x80, CHR 0x84], [CHR 0xE2, CHR 0x80, CHR 0x85],
      [CHR 0xE2, CHR 0x80, CHR 0x86], [CHR 0xE2, CHR 0x80, CHR 0x87],
      [CHR 0xE2, CHR 0x80, CHR 0x88], [CHR 0xE2, CHR 0x80, CHR 0x89],
      [CHR 0xE2, CHR 0x80, CHR 0x8A], [CHR 0xE2, CHR 0x80, CHR 0xA8],
      [CHR 0xE2, CHR 0x80, CHR 0xA9], [CHR 0xE2, CHR 0x80, CHR 0xAF],
      [CHR 0xE2, CHR 0x81, CHR 0x9F], [CHR 0xE3, CHR 0x80, CHR 0x80]]"

function trim_words :: "string list \<Rightarrow> string \<Rightarrow> string" where
  "trim_words ws s =
     (case find (\<lambda>w. w \<noteq> [] \<and> HasPrefix s w) ws of
        None \<Rightarrow> s
      | Some w \<Rightarrow> trim_words ws (drop (length w) s))"
  by pat_completeness auto
termination
proof (relation "measure (\<lambda>(ws, s). length s)", goal_cases)
  case (2 ws s w)
  then have "w \<noteq> [] \<and> HasPrefix s w" by (auto simp: find_Some_iff)
  then have "0 < length w" and "0 < length s" by (auto simp: HasPrefix_def)
  then show ?case by simp
qed simp

definition TrimSpace :: "string \<Rightarrow> string" where
  "TrimSpace s = rev (trim_words (map rev space_runes) (rev (trim_words space_runes s)))"

declare trim_words.simps [simp del]

section \<open>Lemmas on strings\<close>

lemma HasPrefix_prefix: "HasPrefix s p \<longleftrightarrow> prefix p s"
  unfolding HasPrefix_def prefix_def by (metis append_eq_conv_conj append_take_drop_id)

lemma HasPrefix_simps [simp, go_string]:
  "HasPrefix s []" "\<not> HasPrefix [] (c # p)"
  "HasPrefix (d # s) (c # p) \<longleftrightarrow> d = c \<and> HasPrefix s p"
  by (auto simp: HasPrefix_def)

lemma HasPrefix_append [simp]: "HasPrefix (p @ s) p"
  by (simp add: HasPrefix_def)

lemma HasPrefix_appendI: "HasPrefix s p \<Longrightarrow> HasPrefix (s @ t) p"
  by (auto simp: HasPrefix_prefix)

lemma HasPrefixE:
  assumes "HasPrefix s p" obtains t where "s = p @ t"
  using assms by (metis HasPrefix_prefix prefixE)

lemma HasSuffix_append [simp]: "HasSuffix (s @ p) p"
  by (simp add: HasSuffix_def)

lemma CutPrefix_append [simp]: "CutPrefix (p @ s) p = Some s"
  by (simp add: CutPrefix_def)

lemma CutSuffix_append [simp]: "CutSuffix (s @ p) p = Some s"
  by (simp add: CutSuffix_def)

lemma CutPrefix_Some: "CutPrefix s p = Some t \<longleftrightarrow> s = p @ t"
  by (auto simp: CutPrefix_def elim: HasPrefixE)

lemma CutSuffix_Some: "CutSuffix s p = Some t \<longleftrightarrow> s = t @ p"
proof
  assume a: "CutSuffix s p = Some t"
  then have "HasPrefix (rev s) (rev p)" by (auto simp: CutSuffix_def HasSuffix_def split: if_splits)
  then obtain u where "rev s = rev p @ u" by (rule HasPrefixE)
  then have "s = rev u @ p" by (metis rev_append rev_rev_ident)
  with a show "s = t @ p" by simp
qed simp

lemma ContainsStr_append: "ContainsStr (u @ p @ v) p"
proof (induction u)
  case Nil
  then show ?case by (cases "p @ v") (auto, metis HasPrefix_append)
qed simp

lemma ContainsStr_iff: "ContainsStr s p \<longleftrightarrow> (\<exists>u v. s = u @ p @ v)"
proof
  show "ContainsStr s p \<Longrightarrow> \<exists>u v. s = u @ p @ v"
  proof (induction s)
    case (Cons c s)
    show ?case
    proof (cases "HasPrefix (c # s) p")
      case True
      then obtain t where "c # s = p @ t" by (rule HasPrefixE)
      then have "c # s = [] @ p @ t" by simp
      then show ?thesis by blast
    next
      case False
      with Cons obtain u v where "s = u @ p @ v" by auto
      then have "c # s = (c # u) @ p @ v" by simp
      then show ?thesis by blast
    qed
  qed simp
qed (auto simp: ContainsStr_append)

lemma JoinStr_Cons: "xs \<noteq> [] \<Longrightarrow> JoinStr (x # xs) sep = x @ sep @ JoinStr xs sep"
  by (cases xs) auto

lemma SplitChar_nonempty [simp]: "SplitChar c s \<noteq> []"
  by (cases s) (auto split: list.splits)

lemma SplitChar_notin: "w \<in> set (SplitChar c s) \<Longrightarrow> c \<notin> set w"
  by (induction s arbitrary: w) (auto split: list.splits if_splits)

lemma JoinStr_SplitChar [simp]: "JoinStr (SplitChar c s) [c] = s"
proof (induction s)
  case (Cons x s)
  show ?case
  proof (cases "x = c")
    case True
    then show ?thesis using Cons by (simp add: JoinStr_Cons)
  next
    case False
    obtain w ws where w: "SplitChar c s = w # ws" by (meson SplitChar_nonempty neq_Nil_conv)
    then show ?thesis using False Cons by (cases ws) auto
  qed
qed simp

lemma SplitChar_no_sep: "c \<notin> set w \<Longrightarrow> SplitChar c w = [w]"
  by (induction w) auto

lemma SplitChar_append: "c \<notin> set w \<Longrightarrow> SplitChar c (w @ c # s) = w # SplitChar c s"
  by (induction w) auto

lemma SplitChar_JoinStr:
  "ws \<noteq> [] \<Longrightarrow> \<forall>w \<in> set ws. c \<notin> set w \<Longrightarrow> SplitChar c (JoinStr ws [c]) = ws"
proof (induction ws rule: induct_list012)
  case (3 w v ws)
  then show ?case by (simp add: SplitChar_append)
qed (auto simp: SplitChar_no_sep)

lemma replace_char: "ReplaceAll s [c] [d] = map (\<lambda>x. if x = c then d else x) s"
  unfolding ReplaceAll_def by (induction s) auto

section \<open>Lemmas on trimming\<close>

lemma trim_words_None:
  "\<forall>w \<in> set ws. w \<noteq> [] \<longrightarrow> \<not> HasPrefix s w \<Longrightarrow> trim_words ws s = s"
  by (subst trim_words.simps) (auto simp: find_Some_iff split: option.splits)

lemma trim_words_Some:
  "find (\<lambda>w. w \<noteq> [] \<and> HasPrefix s w) ws = Some w \<Longrightarrow>
   trim_words ws s = trim_words ws (drop (length w) s)"
  by (subst trim_words.simps) simp

lemma length_trim_words [simp]: "length (trim_words ws s) \<le> length s"
proof (induction ws s rule: trim_words.induct)
  case (1 ws s)
  show ?case
  proof (cases "find (\<lambda>w. w \<noteq> [] \<and> HasPrefix s w) ws")
    case None
    then show ?thesis by (subst trim_words.simps) simp
  next
    case (Some w)
    with "1" have "length (trim_words ws (drop (length w) s)) \<le> length (drop (length w) s)" by blast
    with Some show ?thesis by (subst trim_words.simps) simp
  qed
qed

lemma length_TrimSpace [simp]: "length (TrimSpace s) \<le> length s"
proof -
  have "length (trim_words (map rev space_runes) (rev (trim_words space_runes s)))
        \<le> length (rev (trim_words space_runes s))" by (rule length_trim_words)
  also have "\<dots> \<le> length s" by simp
  finally show ?thesis by (simp add: TrimSpace_def)
qed

text \<open>A byte that begins and ends no white space stops trimming on either side.\<close>

definition solid :: "char \<Rightarrow> bool" where
  "solid c \<longleftrightarrow> (\<forall>w \<in> set space_runes. hd w \<noteq> c \<and> last w \<noteq> c)"

lemma space_runes_nonempty: "w \<in> set space_runes \<Longrightarrow> w \<noteq> []"
  by (auto simp: space_runes_def)

lemma trim_left_solid: "solid c \<Longrightarrow> trim_words space_runes (c # s) = c # s"
  by (rule trim_words_None) (auto simp: solid_def neq_Nil_conv)

lemma trim_right_solid: "solid c \<Longrightarrow> trim_words (map rev space_runes) (c # s) = c # s"
proof (rule trim_words_None, intro ballI impI notI)
  fix w assume c: "solid c" and w: "w \<in> set (map rev space_runes)" "w \<noteq> []"
    and "HasPrefix (c # s) w"
  then have "hd w = c" by (cases w) auto
  with w have "last (rev w) = c" by (simp add: last_rev)
  moreover have "rev w \<in> set space_runes" using w by auto
  ultimately show False using c by (auto simp: solid_def)
qed

lemma TrimSpace_Nil [simp]: "TrimSpace [] = []"
  using length_TrimSpace [of "[]"] by simp

lemma TrimSpace_solid: "solid (hd s) \<Longrightarrow> solid (last s) \<Longrightarrow> TrimSpace s = s"
proof (cases s rule: rev_cases)
  case (snoc u d)
  assume h: "solid (hd s)" and l: "solid (last s)"
  have "trim_words space_runes s = s"
    using h snoc trim_left_solid [of "hd s" "tl s"] by simp
  then show ?thesis using l snoc by (simp add: TrimSpace_def trim_right_solid)
qed simp

lemma TrimSpace_blank: "TrimSpace (CHR '' '' # s) = TrimSpace s"
proof -
  have "find (\<lambda>w. w \<noteq> [] \<and> HasPrefix (CHR '' '' # s) w) space_runes = Some '' ''"
    by (simp add: space_runes_def)
  from trim_words_Some [OF this]
  have "trim_words space_runes (CHR '' '' # s) = trim_words space_runes s" by simp
  then show ?thesis by (simp add: TrimSpace_def)
qed

lemma solid_ascii:
  "solid (CHR ''{'')" "solid (CHR ''}'')" "solid (CHR 0x22)" "solid (CHR '','')"
  "solid (CHR ''='')" "solid (CHR ''!'')" "solid (CHR ''|'')" "solid (CHR ''_'')"
  by (simp_all add: solid_def space_runes_def)

lemma solid_alpha:
  assumes "char_in CHR ''a'' CHR ''z'' c \<or> char_in CHR ''A'' CHR ''Z'' c"
  shows "solid c"
  using assms by (auto simp: solid_def space_runes_def less_eq_char_def)

lemma trim_words_keeps:
  assumes "\<forall>w \<in> set ws. c \<notin> set w"
  shows "\<exists>v. trim_words ws (u @ [c]) = v @ [c]"
proof (induction "length u" arbitrary: u rule: less_induct)
  case less
  show ?case
  proof (cases "find (\<lambda>w. w \<noteq> [] \<and> HasPrefix (u @ [c]) w) ws")
    case None
    then show ?thesis by (subst trim_words.simps) simp
  next
    case (Some w)
    then have w: "w \<in> set ws" "w \<noteq> []" "HasPrefix (u @ [c]) w" by (auto simp: find_Some_iff)
    then obtain t where t: "u @ [c] = w @ t" by (auto elim: HasPrefixE)
    with assms w(1) have "t \<noteq> []" by (metis append_Nil2 in_set_conv_decomp)
    then obtain t' where "t = t' @ [c]" using t by (metis append_butlast_last_id last_append last_snoc)
    with t have u: "u = w @ t'" by simp
    with less [of t'] w(2) show ?thesis using trim_words_Some [OF Some] by simp
  qed
qed

text \<open>A leading character that is part of no space survives trimming.\<close>

lemma TrimSpace_keeps_hd:
  assumes "\<forall>w \<in> set space_runes. c \<notin> set w"
  shows "\<exists>v. TrimSpace (c # s) = c # v"
proof -
  have "solid c" using assms space_runes_nonempty by (auto simp: solid_def)
  then have l: "trim_words space_runes (c # s) = c # s" by (rule trim_left_solid)
  obtain v where "trim_words (map rev space_runes) (rev s @ [c]) = v @ [c]"
    using trim_words_keeps [of "map rev space_runes" c "rev s"] assms by auto
  then show ?thesis by (auto simp: TrimSpace_def l)
qed

lemma list_all_notin: "list_all P xs \<Longrightarrow> \<not> P x \<Longrightarrow> x \<notin> set xs"
  by (auto simp: list_all_iff)

end
