(* ===== verification/Strconv.thy ===== *)
theory Strconv
  imports Prelude
begin

text \<open>
  The parts of Go's \<^verbatim>\<open>unicode/utf8\<close> and \<^verbatim>\<open>strconv\<close> that both ends of a query pass through: the CLI
  renders values with \<^verbatim>\<open>strconv.Quote\<close>, the query API reads them back with
  \<^verbatim>\<open>strconv.QuotedPrefix\<close> and \<^verbatim>\<open>strconv.Unquote\<close>. Runes are natural numbers; which runes
  beyond U+00FF are printable is Unicode data and a parameter \<open>isp\<close>. The main result is that reading
  a quoted string back returns every byte of it, valid UTF-8 or not.
\<close>

section \<open>UTF-8\<close>

abbreviation byte :: "char \<Rightarrow> nat" where
  "byte c \<equiv> of_char c"

definition RuneError :: nat where
  "RuneError = 0xFFFD"

definition ValidRune :: "nat \<Rightarrow> bool" where
  "ValidRune r \<longleftrightarrow> r < 0xD800 \<or> 0xDFFF < r \<and> r \<le> 0x10FFFF"

definition cont :: "char \<Rightarrow> bool" where
  "cont c \<longleftrightarrow> 0x80 \<le> byte c \<and> byte c \<le> 0xBF"

text \<open>The second byte's range depends on the first: no overlong forms, no surrogates.\<close>

definition second_ok :: "nat \<Rightarrow> nat \<Rightarrow> bool" where
  "second_ok b0 b1 \<longleftrightarrow>
     (if b0 = 0xE0 then 0xA0 else if b0 = 0xF0 then 0x90 else 0x80) \<le> b1 \<and>
     b1 \<le> (if b0 = 0xED then 0x9F else if b0 = 0xF4 then 0x8F else 0xBF)"

text \<open>\<^verbatim>\<open>utf8.DecodeRuneInString\<close>: the rune and its width, \<open>(RuneError, 1)\<close> on an invalid byte.\<close>

definition decode_rune :: "string \<Rightarrow> nat \<times> nat" where
  "decode_rune s =
     (case s of
        [] \<Rightarrow> (RuneError, 0)
      | c0 # r0 \<Rightarrow>
          (let b0 = byte c0 in
           if b0 < 0x80 then (b0, 1)
           else if b0 < 0xC2 \<or> 0xF4 < b0 then (RuneError, 1)
           else if b0 < 0xE0 then
             (case r0 of
                c1 # _ \<Rightarrow> if cont c1 then ((b0 - 0xC0) * 64 + (byte c1 - 0x80), 2) else (RuneError, 1)
              | _ \<Rightarrow> (RuneError, 1))
           else if b0 < 0xF0 then
             (case r0 of
                c1 # c2 # _ \<Rightarrow>
                  if second_ok b0 (byte c1) \<and> cont c2
                  then ((b0 - 0xE0) * 4096 + (byte c1 - 0x80) * 64 + (byte c2 - 0x80), 3)
                  else (RuneError, 1)
              | _ \<Rightarrow> (RuneError, 1))
           else
             (case r0 of
                c1 # c2 # c3 # _ \<Rightarrow>
                  if second_ok b0 (byte c1) \<and> cont c2 \<and> cont c3
                  then ((b0 - 0xF0) * 262144 + (byte c1 - 0x80) * 4096 + (byte c2 - 0x80) * 64
                        + (byte c3 - 0x80), 4)
                  else (RuneError, 1)
              | _ \<Rightarrow> (RuneError, 1))))"

text \<open>\<^verbatim>\<open>utf8.AppendRune\<close>.\<close>

definition encode_rune :: "nat \<Rightarrow> string" where
  "encode_rune r =
     (if r < 0x80 then [char_of r]
      else if r < 0x800 then [char_of (0xC0 + r div 64), char_of (0x80 + r mod 64)]
      else if \<not> ValidRune r then [CHR 0xEF, CHR 0xBF, CHR 0xBD]
      else if r < 0x10000 then
        [char_of (0xE0 + r div 4096), char_of (0x80 + r div 64 mod 64), char_of (0x80 + r mod 64)]
      else [char_of (0xF0 + r div 262144), char_of (0x80 + r div 4096 mod 64),
            char_of (0x80 + r div 64 mod 64), char_of (0x80 + r mod 64)])"

section \<open>Unquoting\<close>

definition unhex :: "char \<Rightarrow> nat option" where
  "unhex c =
     (if byte (CHR ''0'') \<le> byte c \<and> byte c \<le> byte (CHR ''9'') then Some (byte c - byte (CHR ''0''))
      else if byte (CHR ''a'') \<le> byte c \<and> byte c \<le> byte (CHR ''f'')
        then Some (byte c - byte (CHR ''a'') + 10)
      else if byte (CHR ''A'') \<le> byte c \<and> byte c \<le> byte (CHR ''F'')
        then Some (byte c - byte (CHR ''A'') + 10)
      else None)"

fun read_hex :: "nat \<Rightarrow> nat \<Rightarrow> string \<Rightarrow> (nat \<times> string) option" where
  "read_hex 0 v s = Some (v, s)"
| "read_hex (Suc k) v [] = None"
| "read_hex (Suc k) v (c # s) =
     (case unhex c of None \<Rightarrow> None | Some x \<Rightarrow> read_hex k (v * 16 + x) s)"

definition octal :: "char \<Rightarrow> nat option" where
  "octal c = (if byte (CHR ''0'') \<le> byte c \<and> byte c \<le> byte (CHR ''7'')
              then Some (byte c - byte (CHR ''0'')) else None)"

text \<open>The escape after a backslash: the value, whether it is a multibyte rune, and the tail.\<close>

definition unquote_escape :: "string \<Rightarrow> char \<Rightarrow> (nat \<times> bool \<times> string) option" where
  "unquote_escape s quote =
     (case s of
        [] \<Rightarrow> None
      | c # t \<Rightarrow>
          if c = CHR ''a'' then Some (7, False, t)
          else if c = CHR ''b'' then Some (8, False, t)
          else if c = CHR ''f'' then Some (12, False, t)
          else if c = CHR ''n'' then Some (10, False, t)
          else if c = CHR ''r'' then Some (13, False, t)
          else if c = CHR ''t'' then Some (9, False, t)
          else if c = CHR ''v'' then Some (11, False, t)
          else if c = CHR ''x'' then
            (case read_hex 2 0 t of None \<Rightarrow> None | Some (v, t') \<Rightarrow> Some (v, False, t'))
          else if c = CHR ''u'' \<or> c = CHR ''U'' then
            (case read_hex (if c = CHR ''u'' then 4 else 8) 0 t of
               None \<Rightarrow> None
             | Some (v, t') \<Rightarrow> if ValidRune v then Some (v, True, t') else None)
          else if octal c \<noteq> None then
            (case t of
               c1 # c2 # t' \<Rightarrow>
                 (case (octal c1, octal c2) of
                    (Some x1, Some x2) \<Rightarrow>
                      (let v = the (octal c) * 64 + x1 * 8 + x2 in
                       if v > 255 then None else Some (v, False, t'))
                  | _ \<Rightarrow> None)
             | _ \<Rightarrow> None)
          else if c = CHR 0x5C then Some (0x5C, False, t)
          else if c = CHR 0x27 \<or> c = CHR 0x22 then
            (if c = quote then Some (byte c, False, t) else None)
          else None)"

definition UnquoteChar :: "string \<Rightarrow> char \<Rightarrow> (nat \<times> bool \<times> string) option" where
  "UnquoteChar s quote =
     (case s of
        [] \<Rightarrow> None
      | c # t \<Rightarrow>
          if c = quote \<and> (quote = CHR 0x27 \<or> quote = CHR 0x22) then None
          else if 0x80 \<le> byte c then
            (case decode_rune s of (r, width) \<Rightarrow> Some (r, True, drop width s))
          else if c \<noteq> CHR 0x5C then Some (byte c, False, t)
          else unquote_escape t quote)"

definition emit_rune :: "nat \<Rightarrow> bool \<Rightarrow> string" where
  "emit_rune r multibyte = (if r < 0x80 \<or> \<not> multibyte then [char_of r] else encode_rune r)"

lemma read_hex_length: "read_hex k v s = Some (w, t) \<Longrightarrow> length t \<le> length s"
proof (induction k v s rule: read_hex.induct)
  case (3 k v c s)
  then show ?case by (fastforce split: option.splits)
qed auto

lemma unquote_escape_length: "unquote_escape s q = Some (r, m, t) \<Longrightarrow> length t < length s"
  by (cases s)
    (fastforce simp: unquote_escape_def less_Suc_eq_le Let_def dest: read_hex_length
      split: if_splits option.splits prod.splits list.splits)+

lemma decode_rune_width: "s \<noteq> [] \<Longrightarrow> decode_rune s = (r, n) \<Longrightarrow> 0 < n \<and> n \<le> length s"
  by (auto simp: decode_rune_def Let_def split: if_splits list.splits)

lemma decode_rune_shrinks:
  "decode_rune (c # t) = (r, n) \<Longrightarrow> Suc (length t) - n < Suc (length t)"
  "(r, n) = decode_rune (c # t) \<Longrightarrow> Suc (length t) - n < Suc (length t)"
  using decode_rune_width [of "c # t" r n] by auto

lemma UnquoteChar_length: "UnquoteChar s q = Some (r, m, t) \<Longrightarrow> length t < length s"
  by (cases s)
    (auto simp: UnquoteChar_def dest!: unquote_escape_length intro: decode_rune_shrinks
      split: if_splits prod.splits)

text \<open>The characters up to the terminating quote, unescaped, and the text from that quote on.\<close>

function unquote_chars :: "string \<Rightarrow> (string \<times> string) option" where
  "unquote_chars s =
     (case s of
        [] \<Rightarrow> None
      | c # _ \<Rightarrow>
          if c = CHR 0x22 then Some ([], s)
          else if c = CHR 0x0A then None
          else (case UnquoteChar s (CHR 0x22) of
                  None \<Rightarrow> None
                | Some (r, m, rem) \<Rightarrow>
                    (case unquote_chars rem of
                       None \<Rightarrow> None
                     | Some (out, t) \<Rightarrow> Some (emit_rune r m @ out, t))))"
  by pat_completeness auto
termination
  by (relation "measure length") (auto dest: UnquoteChar_length)

declare unquote_chars.simps [simp del]

text \<open>A single-quoted literal holds at most one character.\<close>

definition unquote_single :: "string \<Rightarrow> (string \<times> string) option" where
  "unquote_single s =
     (case s of
        [] \<Rightarrow> None
      | c # t \<Rightarrow>
          if c = CHR 0x27 then Some ([], t)
          else if c = CHR 0x0A then None
          else (case UnquoteChar s (CHR 0x27) of
                  Some (r, m, d # rem) \<Rightarrow>
                    if d = CHR 0x27 then Some (emit_rune r m, rem) else None
                | _ \<Rightarrow> None))"

text \<open>A literal at the head of the input: its value and the rest of the input.\<close>

definition unquote :: "string \<Rightarrow> (string \<times> string) option" where
  "unquote s =
     (case s of
        [] \<Rightarrow> None
      | q # t \<Rightarrow>
          if q = CHR 0x60 then
            (if CHR 0x60 \<in> set t
             then Some (filter (\<lambda>c. c \<noteq> CHR 0x0D) (takeWhile (\<lambda>c. c \<noteq> CHR 0x60) t),
                        tl (dropWhile (\<lambda>c. c \<noteq> CHR 0x60) t))
             else None)
          else if q = CHR 0x22 then
            (case unquote_chars t of
               None \<Rightarrow> None
             | Some (out, rem) \<Rightarrow> Some (out, tl rem))
          else if q = CHR 0x27 then unquote_single t
          else None)"

definition QuotedPrefix :: "string \<Rightarrow> string option" where
  "QuotedPrefix s =
     (case unquote s of
        None \<Rightarrow> None
      | Some (_, rem) \<Rightarrow> Some (take (length s - length rem) s))"

definition Unquote :: "string \<Rightarrow> string option" where
  "Unquote s =
     (case unquote s of
        Some (out, []) \<Rightarrow> Some out
      | _ \<Rightarrow> None)"

section \<open>Quoting\<close>

definition IsPrint :: "(nat \<Rightarrow> bool) \<Rightarrow> nat \<Rightarrow> bool" where
  "IsPrint isp r =
     (if r \<le> 0xFF then
        (if 0x20 \<le> r \<and> r < 0x7F then True
         else if 0xA1 \<le> r then r \<noteq> 0xAD
         else False)
      else isp r)"

definition lowerhex :: "nat \<Rightarrow> char" where
  "lowerhex n = ''0123456789abcdef'' ! n"

fun hex_digits :: "nat \<Rightarrow> nat \<Rightarrow> string" where
  "hex_digits 0 r = []"
| "hex_digits (Suc k) r = hex_digits k (r div 16) @ [lowerhex (r mod 16)]"

text \<open>What follows the backslash for a rune that is not printed as it is.\<close>

definition escape_tail :: "nat \<Rightarrow> string" where
  "escape_tail r =
     (if r = 7 then ''a''
      else if r = 8 then ''b''
      else if r = 12 then ''f''
      else if r = 10 then ''n''
      else if r = 13 then ''r''
      else if r = 9 then ''t''
      else if r = 11 then ''v''
      else if r < 0x20 \<or> r = 0x7F then ''x'' @ hex_digits 2 r
      else if \<not> ValidRune r then ''u'' @ hex_digits 4 RuneError
      else if r < 0x10000 then ''u'' @ hex_digits 4 r
      else ''U'' @ hex_digits 8 r)"

definition appendEscapedRune :: "(nat \<Rightarrow> bool) \<Rightarrow> nat \<Rightarrow> string" where
  "appendEscapedRune isp r =
     (if r = 0x22 \<or> r = 0x5C then [CHR 0x5C, char_of r]
      else if IsPrint isp r then encode_rune r
      else CHR 0x5C # escape_tail r)"

function quote_body :: "(nat \<Rightarrow> bool) \<Rightarrow> string \<Rightarrow> string" where
  "quote_body isp s =
     (case s of
        [] \<Rightarrow> []
      | c # t \<Rightarrow>
          (case decode_rune s of
             (r, width) \<Rightarrow>
               if width = 1 \<and> r = RuneError
               then [CHR 0x5C, CHR ''x''] @ hex_digits 2 (byte c) @ quote_body isp t
               else appendEscapedRune isp r @ quote_body isp (drop width s)))"
  by pat_completeness auto
termination
  by (relation "measure (\<lambda>(isp, s). length s)") (auto intro: decode_rune_shrinks)

declare quote_body.simps [simp del]

definition Quote :: "(nat \<Rightarrow> bool) \<Rightarrow> string \<Rightarrow> string" where
  "Quote isp s = [CHR 0x22] @ quote_body isp s @ [CHR 0x22]"

section \<open>Reading back a quoted string\<close>

lemma byte_char_of [simp]: "n < 256 \<Longrightarrow> byte (char_of n) = n"
  by simp

lemma byte_less [simp]: "byte c < 256"
  by (metis nat_of_char_less_256)

text \<open>The three multi-byte shapes, with the payload bits of each byte as a variable.\<close>

lemma encode2:
  assumes "2 \<le> a" "a < 32" "b < 64"
  shows "encode_rune (a * 64 + b) = [char_of (0xC0 + a), char_of (0x80 + b)]"
proof -
  have "(a * 64 + b) div 64 = a" "(a * 64 + b) mod 64 = b" using assms by simp_all
  moreover have "\<not> a * 64 + b < 0x80" "a * 64 + b < 0x800" using assms by linarith+
  ultimately show ?thesis by (simp add: encode_rune_def)
qed

lemma encode3:
  assumes "a < 16" "b < 64" "c < 64" and "ValidRune (a * 4096 + b * 64 + c)"
    and "0x800 \<le> a * 4096 + b * 64 + c"
  shows "encode_rune (a * 4096 + b * 64 + c) =
    [char_of (0xE0 + a), char_of (0x80 + b), char_of (0x80 + c)]"
proof -
  have "(a * 4096 + b * 64 + c) div 4096 = a" using assms(2,3) by linarith
  moreover have d: "(a * 4096 + b * 64 + c) div 64 = a * 64 + b" using assms(3) by linarith
  moreover have "(a * 64 + b) mod 64 = b" using assms(2) by simp
  moreover have "(a * 4096 + b * 64 + c) mod 64 = c"
    using minus_mult_div_eq_mod [of "a * 4096 + b * 64 + c" 64] d by simp
  moreover have "a * 4096 + b * 64 + c < 0x10000" using assms by linarith
  ultimately show ?thesis using assms by (simp add: encode_rune_def)
qed

lemma encode4:
  assumes "a < 8" "b < 64" "c < 64" "d < 64"
    and "ValidRune (a * 262144 + b * 4096 + c * 64 + d)"
    and "0x10000 \<le> a * 262144 + b * 4096 + c * 64 + d"
  shows "encode_rune (a * 262144 + b * 4096 + c * 64 + d) =
    [char_of (0xF0 + a), char_of (0x80 + b), char_of (0x80 + c), char_of (0x80 + d)]"
proof -
  let ?r = "a * 262144 + b * 4096 + c * 64 + d"
  have "?r div 262144 = a" using assms(2-4) by linarith
  moreover have "?r div 4096 = a * 64 + b" using assms(3,4) by linarith
  moreover have "(a * 64 + b) mod 64 = b" using assms(2) by simp
  moreover have e: "?r div 64 = a * 4096 + b * 64 + c" using assms(4) by linarith
  moreover have "(a * 4096 + b * 64 + c) div 64 = a * 64 + b" using assms(3) by linarith
  then have "(a * 4096 + b * 64 + c) mod 64 = c"
    using minus_mult_div_eq_mod [of "a * 4096 + b * 64 + c" 64] by simp
  moreover have "?r mod 64 = d" using minus_mult_div_eq_mod [of ?r 64] e by simp
  ultimately show ?thesis using assms by (simp add: encode_rune_def)
qed

lemma rune_digits3:
  obtains a b c :: nat where "r = a * 4096 + b * 64 + c" "b < 64" "c < 64"
proof
  show "r = r div 64 div 64 * 4096 + r div 64 mod 64 * 64 + r mod 64"
    using div_mult_mod_eq [of r 64] div_mult_mod_eq [of "r div 64" 64] by linarith
qed simp_all

lemma rune_digits4:
  obtains a b c d :: nat
  where "r = a * 262144 + b * 4096 + c * 64 + d" "b < 64" "c < 64" "d < 64"
proof
  show "r = r div 64 div 64 div 64 * 262144 + r div 64 div 64 mod 64 * 4096
      + r div 64 mod 64 * 64 + r mod 64"
    using div_mult_mod_eq [of r 64] div_mult_mod_eq [of "r div 64" 64]
      div_mult_mod_eq [of "r div 64 div 64" 64] by linarith
qed simp_all

lemma decode_encode:
  assumes "ValidRune r"
  shows "decode_rune (encode_rune r @ t) = (r, length (encode_rune r))"
proof -
  consider (one) "r < 0x80" | (two) "0x80 \<le> r" "r < 0x800" | (three) "0x800 \<le> r" "r < 0x10000"
    | (four) "0x10000 \<le> r" "r \<le> 0x10FFFF"
    using assms unfolding ValidRune_def by linarith
  then show ?thesis
  proof cases
    case one
    then show ?thesis by (simp add: encode_rune_def decode_rune_def Let_def)
  next
    case two
    define a b where "a = r div 64" and "b = r mod 64"
    have "r = a * 64 + b" "b < 64" by (simp_all add: a_def b_def)
    moreover from this two have "2 \<le> a" "a < 32" by linarith+
    ultimately show ?thesis by (simp add: encode2 decode_rune_def Let_def cont_def)
  next
    case three
    obtain a b c where r: "r = a * 4096 + b * 64 + c" and bc: "b < 64" "c < 64"
      by (rule rune_digits3)
    have a: "a < 16" using r bc three by linarith
    have "second_ok (0xE0 + a) (0x80 + b)"
      using r bc a three assms by (auto simp: second_ok_def ValidRune_def)
    with r bc a three assms show ?thesis
      by (simp add: encode3 decode_rune_def Let_def cont_def)
  next
    case four
    obtain a b c d where r: "r = a * 262144 + b * 4096 + c * 64 + d"
      and bcd: "b < 64" "c < 64" "d < 64" by (rule rune_digits4)
    have a: "a < 5" using r bcd four by linarith
    have "second_ok (0xF0 + a) (0x80 + b)"
      using r bcd a four by (auto simp: second_ok_def)
    with r bcd a four assms show ?thesis
      by (simp add: encode4 decode_rune_def Let_def cont_def)
  qed
qed

lemma cont_obtain:
  assumes "cont x" obtains b where "byte x = 0x80 + b" "b < 64" "x = char_of (0x80 + b)"
proof
  show "byte x = 0x80 + (byte x - 0x80)" "byte x - 0x80 < 64" using assms by (auto simp: cont_def)
  then show "x = char_of (0x80 + (byte x - 0x80))" by (metis char_of_char)
qed

lemma second_ok_cont: "second_ok b0 (byte x) \<Longrightarrow> cont x"
  by (auto simp: second_ok_def cont_def split: if_splits)

lemma char_of_byte: "byte x = n \<Longrightarrow> x = char_of n"
  by (metis char_of_char)

lemma encode_decode2:
  assumes "decode_rune s = (r, 2)"
  shows "ValidRune r \<and> encode_rune r = take 2 s"
proof -
  from assms obtain c0 c1 t where s: "s = c0 # c1 # t" and c1: "cont c1"
    and b: "0xC2 \<le> byte c0" "byte c0 < 0xE0" and r: "r = (byte c0 - 0xC0) * 64 + (byte c1 - 0x80)"
    by (auto simp: decode_rune_def Let_def split: if_splits list.splits)
  obtain a where a: "byte c0 = 0xC0 + a" using b le_Suc_ex [of "0xC0" "byte c0"] by auto
  obtain b1 where b1: "byte c1 = 0x80 + b1" "b1 < 64" "c1 = char_of (0x80 + b1)"
    using c1 by (rule cont_obtain)
  have r': "r = a * 64 + b1" and a2: "2 \<le> a" "a < 32" using r a b1 b by simp_all
  have "ValidRune r" using r' a2 b1 unfolding ValidRune_def by linarith
  then show ?thesis using s r' a2 b1 char_of_byte [OF a] by (simp add: encode2)
qed

lemma encode_decode3:
  assumes "decode_rune s = (r, 3)"
  shows "ValidRune r \<and> encode_rune r = take 3 s"
proof -
  from assms obtain c0 c1 c2 t where s: "s = c0 # c1 # c2 # t" and c: "second_ok (byte c0) (byte c1)"
      "cont c2"
    and b: "0xE0 \<le> byte c0" "byte c0 < 0xF0"
    and r: "r = (byte c0 - 0xE0) * 4096 + (byte c1 - 0x80) * 64 + (byte c2 - 0x80)"
    by (auto simp: decode_rune_def Let_def split: if_splits list.splits)
  obtain a where a: "byte c0 = 0xE0 + a" using b le_Suc_ex [of "0xE0" "byte c0"] by auto
  obtain b1 where b1: "byte c1 = 0x80 + b1" "b1 < 64" "c1 = char_of (0x80 + b1)"
    using second_ok_cont [OF c(1)] by (rule cont_obtain)
  obtain b2 where b2: "byte c2 = 0x80 + b2" "b2 < 64" "c2 = char_of (0x80 + b2)"
    using c(2) by (rule cont_obtain)
  have r': "r = a * 4096 + b1 * 64 + b2" and a16: "a < 16" using r a b1 b2 b by simp_all
  have k: "a = 0 \<Longrightarrow> 32 \<le> b1" "a = 13 \<Longrightarrow> b1 < 32"
    using c(1) a b1 by (auto simp: second_ok_def)
  have "0x800 \<le> r" using k(1) r' by (cases "a = 0") auto
  moreover have "ValidRune r"
    using k(2) r' a16 b1(2) b2(2) unfolding ValidRune_def by (cases "a = 13"; linarith)
  ultimately show ?thesis using s r' a16 b1 b2 char_of_byte [OF a] by (simp add: encode3)
qed

lemma encode_decode4:
  assumes "decode_rune s = (r, 4)"
  shows "ValidRune r \<and> encode_rune r = take 4 s"
proof -
  from assms obtain c0 c1 c2 c3 t where s: "s = c0 # c1 # c2 # c3 # t"
    and c: "second_ok (byte c0) (byte c1)" "cont c2" "cont c3"
    and b: "0xF0 \<le> byte c0" "byte c0 \<le> 0xF4"
    and r: "r = (byte c0 - 0xF0) * 262144 + (byte c1 - 0x80) * 4096 + (byte c2 - 0x80) * 64
        + (byte c3 - 0x80)"
    by (auto simp: decode_rune_def Let_def split: if_splits list.splits)
  obtain a where a: "byte c0 = 0xF0 + a" using b le_Suc_ex [of "0xF0" "byte c0"] by auto
  obtain b1 where b1: "byte c1 = 0x80 + b1" "b1 < 64" "c1 = char_of (0x80 + b1)"
    using second_ok_cont [OF c(1)] by (rule cont_obtain)
  obtain b2 where b2: "byte c2 = 0x80 + b2" "b2 < 64" "c2 = char_of (0x80 + b2)"
    using c(2) by (rule cont_obtain)
  obtain b3 where b3: "byte c3 = 0x80 + b3" "b3 < 64" "c3 = char_of (0x80 + b3)"
    using c(3) by (rule cont_obtain)
  have r': "r = a * 262144 + b1 * 4096 + b2 * 64 + b3" and a5: "a < 5"
    using r a b1 b2 b3 b by simp_all
  have k: "a = 0 \<Longrightarrow> 16 \<le> b1" "a = 4 \<Longrightarrow> b1 < 16"
    using c(1) a b1 by (auto simp: second_ok_def)
  have "0x10000 \<le> r" using k(1) r' by (cases "a = 0") auto
  moreover have "ValidRune r"
    using k r' a5 b1(2) b2(2) b3(2) unfolding ValidRune_def by (cases "a = 4"; cases "a = 0"; linarith)
  ultimately show ?thesis using s r' a5 b1 b2 b3 char_of_byte [OF a] by (simp add: encode4)
qed

lemma decode_rune_cases:
  "decode_rune s = (r, n) \<Longrightarrow> s \<noteq> [] \<Longrightarrow>
   r = RuneError \<and> n = 1 \<and> 0x80 \<le> byte (hd s) \<or> r = byte (hd s) \<and> n = 1 \<and> r < 0x80 \<or> n = 2 \<or> n = 3 \<or> n = 4"
  by (auto simp: decode_rune_def Let_def split: if_splits list.splits)

lemma encode_decode:
  assumes "s \<noteq> []" and "decode_rune s = (r, n)" and "\<not> (n = 1 \<and> r = RuneError)"
  shows "ValidRune r \<and> encode_rune r = take n s"
proof -
  from decode_rune_cases [OF assms(2,1)] assms(3)
  consider "r = byte (hd s)" "n = 1" "r < 0x80" | "n = 2" | "n = 3" | "n = 4" by blast
  then show ?thesis
  proof cases
    case 1
    then show ?thesis using assms(1) by (cases s) (auto simp: ValidRune_def encode_rune_def)
  qed (use assms encode_decode2 encode_decode3 encode_decode4 in blast)+
qed


lemma unhex_lowerhex [simp]: "n < 16 \<Longrightarrow> unhex (lowerhex n) = Some n"
proof -
  assume "n < 16"
  then have "n \<in> set [0..<16]" by simp
  then show ?thesis by (simp add: upt_rec) (auto simp: unhex_def lowerhex_def)
qed

lemma lowerhex_plain: "n < 16 \<Longrightarrow> lowerhex n \<noteq> CHR 0x22 \<and> lowerhex n \<noteq> CHR 0x5C"
proof -
  assume "n < 16"
  then have "n \<in> set [0..<16]" by simp
  then show ?thesis by (simp add: upt_rec) (auto simp: lowerhex_def)
qed

lemma read_hex_Suc:
  "read_hex (Suc k) v s =
     (case read_hex k v s of None \<Rightarrow> None | Some (w, t) \<Rightarrow> read_hex 1 w t)"
  by (induction k v s rule: read_hex.induct) (auto split: option.splits)

lemma read_hex_digits [simp]:
  "r < 16 ^ k \<Longrightarrow> read_hex k v (hex_digits k r @ t) = Some (v * 16 ^ k + r, t)"
proof (induction k arbitrary: r t)
  case (Suc k)
  then have "r div 16 < 16 ^ k" by (simp add: less_mult_imp_div_less)
  with Suc.IH have "read_hex k v (hex_digits k (r div 16) @ lowerhex (r mod 16) # t)
      = Some (v * 16 ^ k + r div 16, lowerhex (r mod 16) # t)" by simp
  then show ?case by (simp add: read_hex_Suc [of k] algebra_simps)
qed simp

lemma length_hex_digits [simp]: "length (hex_digits k r) = k"
  by (induction k arbitrary: r) auto

lemma hex_digits_plain: "c \<in> set (hex_digits k r) \<Longrightarrow> c \<noteq> CHR 0x22 \<and> c \<noteq> CHR 0x5C"
  using lowerhex_plain [of "_ mod 16"] by (induction k arbitrary: r) auto

lemma encode_rune_bytes:
  "c \<in> set (encode_rune r) \<Longrightarrow> ValidRune r \<Longrightarrow> r < 0x80 \<and> c = char_of r \<or> 0x80 \<le> byte c \<and> 0x80 \<le> r"
  by (auto simp: encode_rune_def ValidRune_def split: if_splits)

lemma encode_rune_hd: "ValidRune r \<Longrightarrow> 0x80 \<le> r \<Longrightarrow> \<exists>c t. encode_rune r = c # t \<and> 0x80 \<le> byte c"
  by (auto simp: encode_rune_def ValidRune_def)

lemma UnquoteChar_encode:
  assumes "ValidRune r" "0x80 \<le> r"
  shows "UnquoteChar (encode_rune r @ t) (CHR 0x22) = Some (r, True, t)"
proof -
  obtain c u where c: "encode_rune r = c # u" "0x80 \<le> byte c"
    using encode_rune_hd [OF assms] by blast
  have "c \<noteq> CHR 0x22" using c(2) by auto
  with c decode_encode [OF assms(1), of t] show ?thesis by (simp add: UnquoteChar_def)
qed

lemma char_of_literals:
  "char_of (0x22 :: nat) = CHR 0x22" "char_of (0x5C :: nat) = CHR 0x5C"
  using char_of_char [of "CHR 0x22"] char_of_char [of "CHR 0x5C"] by simp_all

lemma UnquoteChar_backslash: "UnquoteChar (CHR 0x5C # t) (CHR 0x22) = unquote_escape t (CHR 0x22)"
  by (simp add: UnquoteChar_def)

lemma unquote_escape_hex:
  assumes "ValidRune r"
  shows "r < 256 \<Longrightarrow> unquote_escape (CHR ''x'' # hex_digits 2 r @ t) q = Some (r, False, t)"
    and "r < 0x10000 \<Longrightarrow> unquote_escape (CHR ''u'' # hex_digits 4 r @ t) q = Some (r, True, t)"
    and "unquote_escape (CHR ''U'' # hex_digits 8 r @ t) q = Some (r, True, t)"
proof -
  have "r < 16 ^ 8" using assms by (auto simp: ValidRune_def)
  then show "unquote_escape (CHR ''U'' # hex_digits 8 r @ t) q = Some (r, True, t)"
    using assms by (simp add: unquote_escape_def)
qed (use assms in \<open>simp_all add: unquote_escape_def\<close>)

lemma unquote_escape_tail:
  assumes "ValidRune r" "r < 0x20 \<or> 0x7F \<le> r"
  shows "\<exists>m. unquote_escape (escape_tail r @ t) (CHR 0x22) = Some (r, m, t) \<and>
             (m \<or> r < 0x80)"
proof (cases "7 \<le> r \<and> r \<le> 13")
  case True
  then have "r = 7 \<or> r = 8 \<or> r = 9 \<or> r = 10 \<or> r = 11 \<or> r = 12 \<or> r = 13" by linarith
  then show ?thesis by (elim disjE; intro exI [of _ False]; simp add: escape_tail_def unquote_escape_def)
next
  case False
  then have "escape_tail r = (if r < 0x20 \<or> r = 0x7F then ''x'' @ hex_digits 2 r
      else if r < 0x10000 then ''u'' @ hex_digits 4 r else ''U'' @ hex_digits 8 r)"
    using assms by (auto simp: escape_tail_def)
  then show ?thesis using assms unquote_escape_hex [OF assms(1)]
    by (cases "r < 0x20 \<or> r = 0x7F"; cases "r < 0x10000") auto
qed

lemma emit_True [simp]: "emit_rune r True = encode_rune r"
  by (simp add: emit_rune_def encode_rune_def)

lemma emit_ascii: "r < 0x80 \<Longrightarrow> emit_rune r m = encode_rune r"
  by (simp add: emit_rune_def encode_rune_def)

text \<open>One escaped rune is read back as that rune.\<close>

lemma IsPrint_ascii: "\<not> IsPrint isp r \<Longrightarrow> r < 0x20 \<or> 0x7F \<le> r"
  by (auto simp: IsPrint_def split: if_splits)

lemma UnquoteChar_escaped:
  assumes "ValidRune r"
  shows "\<exists>m. UnquoteChar (appendEscapedRune isp r @ t) (CHR 0x22) = Some (r, m, t) \<and>
               emit_rune r m = encode_rune r"
proof -
  consider (quote) "r = 0x22 \<or> r = 0x5C" | (print) "IsPrint isp r" "r \<noteq> 0x22" "r \<noteq> 0x5C"
    | (escape) "\<not> IsPrint isp r" "r \<noteq> 0x22" "r \<noteq> 0x5C" by linarith
  then show ?thesis
  proof cases
    case quote
    then show ?thesis
      by (elim disjE; intro exI [of _ False];
        simp add: appendEscapedRune_def UnquoteChar_backslash unquote_escape_def emit_ascii octal_def
          char_of_literals)
  next
    case print
    show ?thesis
    proof (cases "r < 0x80")
      case True
      then have "char_of r \<noteq> CHR 0x22" "char_of r \<noteq> CHR 0x5C"
        using print by (auto dest: arg_cong [of _ _ byte])
      with True print show ?thesis
        by (auto simp: appendEscapedRune_def encode_rune_def UnquoteChar_def emit_rune_def)
    next
      case False
      then show ?thesis using print assms UnquoteChar_encode [of r t]
        by (auto simp: appendEscapedRune_def intro!: exI [of _ True])
    qed
  next
    case escape
    obtain m where "unquote_escape (escape_tail r @ t) (CHR 0x22) = Some (r, m, t)" "m \<or> r < 0x80"
      using unquote_escape_tail [OF assms IsPrint_ascii [OF escape(1)]] by blast
    with escape show ?thesis
      by (auto simp: appendEscapedRune_def UnquoteChar_backslash emit_ascii)
  qed
qed

lemma appendEscapedRune_hd:
  assumes "ValidRune r"
  shows "\<exists>c u. appendEscapedRune isp r = c # u \<and> c \<noteq> CHR 0x22 \<and> c \<noteq> CHR 0x0A"
proof (cases "IsPrint isp r \<and> r \<noteq> 0x22 \<and> r \<noteq> 0x5C")
  case True
  obtain c u where c: "encode_rune r = c # u"
    by (cases "encode_rune r") (auto simp: encode_rune_def split: if_splits)
  have "r \<noteq> 10" using True by (auto simp: IsPrint_def)
  then have "c \<noteq> CHR 0x22 \<and> c \<noteq> CHR 0x0A"
    using True encode_rune_bytes [of c r] assms c by (auto dest: arg_cong [of _ _ byte])
  with True c show ?thesis by (simp add: appendEscapedRune_def)
qed (auto simp: appendEscapedRune_def)

lemma unquote_chars_step:
  assumes "UnquoteChar s (CHR 0x22) = Some (v, m, t)" "s = c # u" "c \<noteq> CHR 0x22" "c \<noteq> CHR 0x0A"
  shows "unquote_chars s = map_option (\<lambda>(out, r). (emit_rune v m @ out, r)) (unquote_chars t)"
  using assms by (subst unquote_chars.simps) (auto split: option.splits)

lemma unquote_chars_escaped:
  assumes "ValidRune r"
  shows "unquote_chars (appendEscapedRune isp r @ t) =
    map_option (\<lambda>(out, u). (encode_rune r @ out, u)) (unquote_chars t)"
proof -
  obtain m where v: "UnquoteChar (appendEscapedRune isp r @ t) (CHR 0x22) = Some (r, m, t)"
    and e: "emit_rune r m = encode_rune r" using UnquoteChar_escaped [OF assms] by blast
  obtain c u where "appendEscapedRune isp r = c # u" "c \<noteq> CHR 0x22" "c \<noteq> CHR 0x0A"
    using appendEscapedRune_hd [OF assms] by blast
  with unquote_chars_step [OF v] e show ?thesis by simp
qed

lemma unquote_chars_hex:
  "unquote_chars (CHR 0x5C # CHR ''x'' # hex_digits 2 (byte c) @ t) =
    map_option (\<lambda>(out, u). (c # out, u)) (unquote_chars t)"
proof -
  have "UnquoteChar (CHR 0x5C # CHR ''x'' # hex_digits 2 (byte c) @ t) (CHR 0x22)
      = Some (byte c, False, t)"
    by (simp add: UnquoteChar_def unquote_escape_def)
  from unquote_chars_step [OF this] show ?thesis by (simp add: emit_rune_def)
qed

lemma unquote_chars_quote_body:
  "unquote_chars (quote_body isp s @ CHR 0x22 # t) = Some (s, CHR 0x22 # t)"
proof (induction isp s rule: quote_body.induct)
  case (1 isp s)
  show ?case
  proof (cases s)
    case Nil
    then show ?thesis by (simp add: quote_body.simps unquote_chars.simps)
  next
    case (Cons c u)
    obtain r w where d: "decode_rune s = (r, w)" by fastforce
    show ?thesis
    proof (cases "w = 1 \<and> r = RuneError")
      case True
      with "1"(1) [OF Cons d [symmetric]] Cons d show ?thesis
        by (subst quote_body.simps) (simp add: unquote_chars_hex del: hex_digits.simps)
    next
      case False
      have e: "ValidRune r" "encode_rune r = take w s" using encode_decode [OF _ d] False Cons by auto
      have "quote_body isp s = appendEscapedRune isp r @ quote_body isp (drop w s)"
        using d Cons False by (subst quote_body.simps) auto
      with "1"(2) [OF Cons d [symmetric] False] e show ?thesis
        by (simp add: unquote_chars_escaped)
    qed
  qed
qed

lemma unquote_Quote: "unquote (Quote isp s @ t) = Some (s, t)"
  by (simp add: unquote_def Quote_def unquote_chars_quote_body)

lemma QuotedPrefix_Quote: "QuotedPrefix (Quote isp s @ t) = Some (Quote isp s)"
  by (simp add: QuotedPrefix_def unquote_Quote)

lemma Unquote_Quote: "Unquote (Quote isp s) = Some s"
  using unquote_Quote [of isp s "[]"] by (simp add: Unquote_def)

end
