(* ===== verification/LogQL.thy ===== *)
theory LogQL
  imports Strconv
begin

text \<open>
  The LogQL subset of the query API (queryapi/internal/logql): the matchers and filters of ast.go and
  the parser of parser.go. Regular expressions are Go's: a compiled one is represented by its source
  text, which is what its \<^verbatim>\<open>String\<close> method returns; \<open>rxc\<close> says which texts compile and \<open>rxm\<close> is
  \<^verbatim>\<open>MatchString\<close>. A nil \<^verbatim>\<open>*regexp.Regexp\<close> is \<open>None\<close>, and calling a method on it panics, which
  \<open>Matches\<close> returns as \<open>None\<close>.
\<close>

section \<open>Matchers and filters\<close>

abbreviation MatchEqual :: string where "MatchEqual \<equiv> ''=''"
abbreviation MatchNotEqual :: string where "MatchNotEqual \<equiv> ''!=''"
abbreviation MatchRegexp :: string where "MatchRegexp \<equiv> ''=~''"
abbreviation MatchNotRegexp :: string where "MatchNotRegexp \<equiv> ''!~''"

abbreviation LineContains :: string where "LineContains \<equiv> ''|=''"
abbreviation LineNotContains :: string where "LineNotContains \<equiv> ''!=''"
abbreviation LineMatchesRegexp :: string where "LineMatchesRegexp \<equiv> ''|~''"
abbreviation LineNotMatchRegexp :: string where "LineNotMatchRegexp \<equiv> ''!~''"

record LabelMatcher =
  lm_Label :: string
  lm_Operator :: string
  lm_Value :: string
  lm_Regexp :: "string option"

record LineFilter =
  lf_Operator :: string
  lf_Value :: string
  lf_Regexp :: "string option"

record Query =
  q_Matchers :: "LabelMatcher list"
  q_Filters :: "LineFilter list"

definition LabelMatcher_Matches ::
  "(string \<Rightarrow> string \<Rightarrow> bool) \<Rightarrow> LabelMatcher \<Rightarrow> string \<Rightarrow> bool option" where
  "LabelMatcher_Matches rxm m value =
     (if lm_Operator m = MatchEqual then Some (value = lm_Value m)
      else if lm_Operator m = MatchNotEqual then Some (value \<noteq> lm_Value m)
      else if lm_Operator m = MatchRegexp then map_option (\<lambda>re. rxm re value) (lm_Regexp m)
      else if lm_Operator m = MatchNotRegexp then map_option (\<lambda>re. \<not> rxm re value) (lm_Regexp m)
      else Some False)"

definition LineFilter_Matches ::
  "(string \<Rightarrow> string \<Rightarrow> bool) \<Rightarrow> LineFilter \<Rightarrow> string \<Rightarrow> bool option" where
  "LineFilter_Matches rxm f line =
     (if lf_Operator f = LineContains then Some (ContainsStr line (lf_Value f))
      else if lf_Operator f = LineNotContains then Some (\<not> ContainsStr line (lf_Value f))
      else if lf_Operator f = LineMatchesRegexp then map_option (\<lambda>re. rxm re line) (lf_Regexp f)
      else if lf_Operator f = LineNotMatchRegexp then map_option (\<lambda>re. \<not> rxm re line) (lf_Regexp f)
      else Some False)"

section \<open>The parser\<close>

datatype logql_error =
    EmptyQuery
  | MetricQuery
  | UnterminatedSelector
  | UnclosedSelector
  | NoMatchers
  | InvalidRegexp string
  | UnexpectedInSelector string
  | RangeVector
  | Unsupported string
  | ExpectedLabel string
  | ExpectedMatchOp string
  | UnexpectedAfterSelector string
  | UnterminatedString string
  | InvalidString string

definition unsupported :: "string list" where
  "unsupported =
     [''json'', ''logfmt'', ''pattern'', ''regexp'', ''unpack'', ''line_format'', ''label_format'',
      ''unwrap'', ''drop'', ''keep'', ''decolorize'']"

text \<open>
  The scan of \<^verbatim>\<open>closingBrace\<close> from index \<open>i\<close>: the index of the closing brace, or whether the end was
  reached inside a quote.
\<close>

function closing_from :: "bool \<Rightarrow> nat \<Rightarrow> string \<Rightarrow> bool + nat" where
  "closing_from inQuote i [] = Inl inQuote"
| "closing_from inQuote i (c # s) =
     (if inQuote \<and> c = CHR 0x5C then closing_from inQuote (i + 2) (drop 1 s)
      else if c = CHR 0x22 then closing_from (\<not> inQuote) (i + 1) s
      else if c = CHR ''}'' \<and> \<not> inQuote then Inr i
      else closing_from inQuote (i + 1) s)"
  by pat_completeness auto
termination
  by (relation "measure (\<lambda>(inQuote, i, s). length s)") auto

definition closingBrace :: "string \<Rightarrow> logql_error + nat" where
  "closingBrace s =
     (case closing_from False 1 (drop 1 s) of
        Inl inQuote \<Rightarrow> Inl (if inQuote then UnterminatedSelector else UnclosedSelector)
      | Inr i \<Rightarrow> Inr i)"

definition ident_char :: "nat \<Rightarrow> char \<Rightarrow> bool" where
  "ident_char i c \<longleftrightarrow>
     c = CHR ''_'' \<or> char_in CHR ''a'' CHR ''z'' c \<or> char_in CHR ''A'' CHR ''Z'' c \<or>
     0 < i \<and> char_in CHR ''0'' CHR ''9'' c"

fun scan_ident_from :: "nat \<Rightarrow> string \<Rightarrow> nat" where
  "scan_ident_from i [] = i"
| "scan_ident_from i (c # s) = (if ident_char i c then scan_ident_from (Suc i) s else i)"

definition scanIdent :: "string \<Rightarrow> logql_error + (string \<times> string)" where
  "scanIdent s =
     (let i = scan_ident_from 0 s in
      if i = 0 then Inl (ExpectedLabel s) else Inr (take i s, drop i s))"

definition scanMatchOp :: "string \<Rightarrow> logql_error + (string \<times> string)" where
  "scanMatchOp s =
     (case find (HasPrefix s) [MatchRegexp, MatchNotRegexp, MatchNotEqual, MatchEqual] of
        Some op \<Rightarrow> Inr (op, drop (length op) s)
      | None \<Rightarrow> Inl (ExpectedMatchOp s))"

definition scanFilterOp :: "string \<Rightarrow> logql_error + (string \<times> string)" where
  "scanFilterOp s =
     (case find (HasPrefix s) [LineContains, LineMatchesRegexp, LineNotContains, LineNotMatchRegexp] of
        Some op \<Rightarrow> Inr (op, drop (length op) s)
      | None \<Rightarrow> Inl (UnexpectedAfterSelector s))"

definition scanString :: "string \<Rightarrow> logql_error + (string \<times> string)" where
  "scanString s =
     (case QuotedPrefix s of
        None \<Rightarrow> Inl (UnterminatedString s)
      | Some quoted \<Rightarrow>
          (case Unquote quoted of
             None \<Rightarrow> Inl (InvalidString quoted)
           | Some value \<Rightarrow> Inr (value, drop (length quoted) s)))"

definition rejectUnsupported :: "string \<Rightarrow> logql_error + unit" where
  "rejectUnsupported rest =
     (if HasPrefix rest ''['' then Inl RangeVector
      else if \<not> HasPrefix rest ''|'' then Inr ()
      else (let tail = TrimSpace (drop 1 rest) in
            case find (\<lambda>name. tail = name \<or> HasPrefix tail (name @ '' '') \<or> HasPrefix tail (name @ ''=''))
                   unsupported of
              Some name \<Rightarrow> Inl (Unsupported name)
            | None \<Rightarrow> Inr ()))"

text \<open>Label-matcher patterns are anchored, line-filter patterns are not.\<close>

definition anchored :: "string \<Rightarrow> string" where
  "anchored value = ''^(?:'' @ value @ '')$''"

definition newMatcher ::
  "(string \<Rightarrow> bool) \<Rightarrow> string \<Rightarrow> string \<Rightarrow> string \<Rightarrow> logql_error + LabelMatcher" where
  "newMatcher rxc label op value =
     (if op = MatchRegexp \<or> op = MatchNotRegexp then
        (if rxc (anchored value)
         then Inr \<lparr>lm_Label = label, lm_Operator = op, lm_Value = value,
                   lm_Regexp = Some (anchored value)\<rparr>
         else Inl (InvalidRegexp value))
      else Inr \<lparr>lm_Label = label, lm_Operator = op, lm_Value = value, lm_Regexp = None\<rparr>)"

definition newFilter :: "(string \<Rightarrow> bool) \<Rightarrow> string \<Rightarrow> string \<Rightarrow> logql_error + LineFilter" where
  "newFilter rxc op value =
     (if op = LineMatchesRegexp \<or> op = LineNotMatchRegexp then
        (if rxc value then Inr \<lparr>lf_Operator = op, lf_Value = value, lf_Regexp = Some value\<rparr>
         else Inl (InvalidRegexp value))
      else Inr \<lparr>lf_Operator = op, lf_Value = value, lf_Regexp = None\<rparr>)"

subsection \<open>Every scanner consumes input\<close>

lemma scan_ident_from_ge: "i \<le> scan_ident_from i s"
  by (induction i s rule: scan_ident_from.induct) auto

lemma scanIdent_length: "scanIdent s = Inr (x, r) \<Longrightarrow> length r < length s"
  by (cases s) (auto simp: scanIdent_def Let_def split: if_splits)

lemma scanMatchOp_length: "scanMatchOp s = Inr (op, r) \<Longrightarrow> length r \<le> length s"
  by (auto simp: scanMatchOp_def split: option.splits)

lemma scanFilterOp_length: "scanFilterOp s = Inr (op, r) \<Longrightarrow> length r < length s"
  by (cases s) (auto simp: scanFilterOp_def split: option.splits if_splits)

lemma scanString_length: "scanString s = Inr (v, r) \<Longrightarrow> length r \<le> length s"
  by (auto simp: scanString_def split: option.splits)

lemma TrimSpace_le: "length s \<le> n \<Longrightarrow> length (TrimSpace s) \<le> n"
  using length_TrimSpace [of s] by linarith

lemma TrimSpace_less: "length s < n \<Longrightarrow> length (TrimSpace s) < n"
  using length_TrimSpace [of s] by linarith

lemma matcher_rest_length:
  assumes "scanIdent rest = Inr (label, r1)" "scanMatchOp (TrimSpace r1) = Inr (op, r2)"
    "scanString (TrimSpace r2) = Inr (value, r3)"
  shows "length (TrimSpace (drop 1 (TrimSpace r3))) < length rest"
proof -
  have "length r2 \<le> length r1" using scanMatchOp_length [OF assms(2)] length_TrimSpace [of r1] by linarith
  moreover have "length r3 \<le> length r2"
    using scanString_length [OF assms(3)] length_TrimSpace [of r2] by linarith
  ultimately have "length r3 < length rest" using scanIdent_length [OF assms(1)] by linarith
  then have "length (TrimSpace r3) < length rest" by (rule TrimSpace_less)
  then have "length (drop 1 (TrimSpace r3)) < length rest" by simp
  then show ?thesis by (rule TrimSpace_less)
qed

lemma filter_rest_length:
  assumes "scanFilterOp rest = Inr (op, r1)" "scanString (TrimSpace r1) = Inr (value, r2)"
  shows "length (TrimSpace r2) < length rest"
proof -
  have "length r2 \<le> length r1"
    using scanString_length [OF assms(2)] length_TrimSpace [of r1] by linarith
  then have "length r2 < length rest" using scanFilterOp_length [OF assms(1)] by linarith
  then show ?thesis by (rule TrimSpace_less)
qed

subsection \<open>The loops\<close>

function parseMatchers_loop ::
  "(string \<Rightarrow> bool) \<Rightarrow> LabelMatcher list \<Rightarrow> string \<Rightarrow> logql_error + LabelMatcher list" where
  "parseMatchers_loop rxc out rest =
     (if rest = [] then Inr out
      else res_bind (scanIdent rest) (\<lambda>(label, r1).
           res_bind (scanMatchOp (TrimSpace r1)) (\<lambda>(op, r2).
           res_bind (scanString (TrimSpace r2)) (\<lambda>(value, r3).
           res_bind (newMatcher rxc label op value) (\<lambda>m.
             if HasPrefix (TrimSpace r3) '',''
             then parseMatchers_loop rxc (out @ [m]) (TrimSpace (drop 1 (TrimSpace r3)))
             else if TrimSpace r3 \<noteq> [] then Inl (UnexpectedInSelector (TrimSpace r3))
             else Inr (out @ [m]))))))"
  by pat_completeness auto
termination
  by (relation "measure (\<lambda>(rxc, out, rest). length rest)") (auto dest: matcher_rest_length)

definition parseMatchers :: "(string \<Rightarrow> bool) \<Rightarrow> string \<Rightarrow> logql_error + LabelMatcher list" where
  "parseMatchers rxc body = parseMatchers_loop rxc [] (TrimSpace body)"

function parseFilters_loop ::
  "(string \<Rightarrow> bool) \<Rightarrow> LineFilter list \<Rightarrow> string \<Rightarrow> logql_error + LineFilter list" where
  "parseFilters_loop rxc out rest =
     (if rest = [] then Inr out
      else res_bind (rejectUnsupported rest) (\<lambda>_.
           res_bind (scanFilterOp rest) (\<lambda>(op, r1).
           res_bind (scanString (TrimSpace r1)) (\<lambda>(value, r2).
           res_bind (newFilter rxc op value) (\<lambda>f.
             parseFilters_loop rxc (out @ [f]) (TrimSpace r2))))))"
  by pat_completeness auto
termination
  by (relation "measure (\<lambda>(rxc, out, rest). length rest)") (auto dest: filter_rest_length)

definition parseFilters :: "(string \<Rightarrow> bool) \<Rightarrow> string \<Rightarrow> logql_error + LineFilter list" where
  "parseFilters rxc rest = parseFilters_loop rxc [] rest"

declare parseMatchers_loop.simps [simp del] parseFilters_loop.simps [simp del]

definition Parse :: "(string \<Rightarrow> bool) \<Rightarrow> string \<Rightarrow> logql_error + Query" where
  "Parse rxc raw =
     (let s = TrimSpace raw in
      if s = [] then Inl EmptyQuery
      else if hd s \<noteq> CHR ''{'' then Inl MetricQuery
      else res_bind (closingBrace s) (\<lambda>brace.
           res_bind (parseMatchers rxc (take (brace - 1) (drop 1 s))) (\<lambda>matchers.
           if matchers = [] then Inl NoMatchers
           else res_bind (parseFilters rxc (TrimSpace (drop (brace + 1) s))) (\<lambda>filters.
                Inr \<lparr>q_Matchers = matchers, q_Filters = filters\<rparr>))))"

section \<open>What the parser guarantees\<close>

text \<open>A LogQL label name, \<^verbatim>\<open>[_A-Za-z][_A-Za-z0-9]*\<close>.\<close>

definition ident_rest :: "char \<Rightarrow> bool" where
  "ident_rest c \<longleftrightarrow> ident_char 1 c"

definition ident :: "string \<Rightarrow> bool" where
  "ident x \<longleftrightarrow> x \<noteq> [] \<and> ident_char 0 (hd x) \<and> list_all ident_rest (tl x)"

definition wf_matcher :: "(string \<Rightarrow> bool) \<Rightarrow> LabelMatcher \<Rightarrow> bool" where
  "wf_matcher rxc m \<longleftrightarrow>
     ident (lm_Label m) \<and>
     (lm_Operator m \<in> {MatchEqual, MatchNotEqual} \<and> lm_Regexp m = None \<or>
      lm_Operator m \<in> {MatchRegexp, MatchNotRegexp} \<and> lm_Regexp m = Some (anchored (lm_Value m)) \<and>
      rxc (anchored (lm_Value m)))"

definition wf_filter :: "(string \<Rightarrow> bool) \<Rightarrow> LineFilter \<Rightarrow> bool" where
  "wf_filter rxc f \<longleftrightarrow>
     lf_Operator f \<in> {LineContains, LineNotContains} \<and> lf_Regexp f = None \<or>
     lf_Operator f \<in> {LineMatchesRegexp, LineNotMatchRegexp} \<and> lf_Regexp f = Some (lf_Value f) \<and>
     rxc (lf_Value f)"

definition wf_query :: "(string \<Rightarrow> bool) \<Rightarrow> Query \<Rightarrow> bool" where
  "wf_query rxc q \<longleftrightarrow>
     q_Matchers q \<noteq> [] \<and> list_all (wf_matcher rxc) (q_Matchers q) \<and>
     list_all (wf_filter rxc) (q_Filters q)"

lemma ident_char_Suc [simp]: "ident_char (Suc i) c \<longleftrightarrow> ident_rest c"
  by (simp add: ident_char_def ident_rest_def)

lemma ident_char_0: "ident_char 0 c \<Longrightarrow> ident_rest c"
  by (auto simp: ident_char_def ident_rest_def)

lemma scan_ident_from_prefix:
  "scan_ident_from i s = i + n \<Longrightarrow> n \<le> length s \<and> (\<forall>k < n. ident_char (i + k) (s ! k))"
proof (induction i s arbitrary: n rule: scan_ident_from.induct)
  case (2 i c s)
  show ?case
  proof (cases "ident_char i c")
    case True
    then have e: "scan_ident_from (Suc i) s = i + n" using "2.prems" by simp
    with scan_ident_from_ge [of "Suc i" s] obtain m where m: "n = Suc m"
      by (cases n) auto
    with e have "scan_ident_from (Suc i) s = Suc i + m" by simp
    from "2.IH" [OF True this] show ?thesis using True m
      by (auto simp: nth_Cons split: nat.splits)
  qed (use "2.prems" in simp)
qed simp

lemma scanIdent_ident:
  assumes "scanIdent s = Inr (x, r)"
  shows "ident x \<and> s = x @ r"
proof -
  define n where "n = scan_ident_from 0 s"
  from assms have n: "n \<noteq> 0" "x = take n s" "r = drop n s"
    by (auto simp: scanIdent_def n_def Let_def split: if_splits)
  have k: "n \<le> length s" "\<forall>k < n. ident_char k (s ! k)"
    using scan_ident_from_prefix [of 0 s n] by (simp_all add: n_def)
  have "ident_char 0 (hd x)" using n k by (cases s) (auto simp: take_Cons')
  moreover have "ident_rest (tl x ! k)" if "k < length (tl x)" for k
    using that n k(1) k(2) [rule_format, of "Suc k"] by (auto simp: nth_tl)
  ultimately have "ident x" using n k by (auto simp: ident_def list_all_length)
  then show ?thesis using n by simp
qed

lemma scanIdent_append:
  assumes "ident x" and "t = [] \<or> \<not> ident_rest (hd t)"
  shows "scanIdent (x @ t) = Inr (x, t)"
proof -
  have "scan_ident_from (Suc i) (u @ t) = Suc i + length u" if "list_all ident_rest u" for i u
    using that
  proof (induction u arbitrary: i)
    case Nil
    then show ?case using assms(2) by (cases t) auto
  qed auto
  from this [of "tl x" 0] assms(1) have "scan_ident_from 0 (x @ t) = length x"
    by (cases x) (auto simp: ident_def)
  moreover have "x \<noteq> []" using assms(1) by (simp add: ident_def)
  ultimately show ?thesis by (simp add: scanIdent_def)
qed

lemma scanMatchOp_op:
  "scanMatchOp s = Inr (op, r) \<Longrightarrow> op \<in> {MatchEqual, MatchNotEqual, MatchRegexp, MatchNotRegexp}"
  by (auto simp: scanMatchOp_def split: option.splits if_splits)

lemma scanFilterOp_op:
  "scanFilterOp s = Inr (op, r) \<Longrightarrow>
   op \<in> {LineContains, LineNotContains, LineMatchesRegexp, LineNotMatchRegexp}"
  by (auto simp: scanFilterOp_def split: option.splits if_splits)

lemma newMatcher_wf:
  "newMatcher rxc label op value = Inr m \<Longrightarrow> ident label \<Longrightarrow>
   op \<in> {MatchEqual, MatchNotEqual, MatchRegexp, MatchNotRegexp} \<Longrightarrow> wf_matcher rxc m"
  by (auto simp: newMatcher_def wf_matcher_def split: if_splits)

lemma newFilter_wf:
  "newFilter rxc op value = Inr f \<Longrightarrow>
   op \<in> {LineContains, LineNotContains, LineMatchesRegexp, LineNotMatchRegexp} \<Longrightarrow> wf_filter rxc f"
  by (auto simp: newFilter_def wf_filter_def split: if_splits)

lemma parseMatchers_loop_wf:
  "parseMatchers_loop rxc out rest = Inr ms \<Longrightarrow> list_all (wf_matcher rxc) out \<Longrightarrow>
   list_all (wf_matcher rxc) ms"
proof (induction rxc out rest rule: parseMatchers_loop.induct)
  case (1 rxc out rest)
  show ?case
  proof (cases "rest = []")
    case False
    with "1.prems"(1) obtain label r1 op r2 v r3 m where
      s: "scanIdent rest = Inr (label, r1)" "scanMatchOp (TrimSpace r1) = Inr (op, r2)"
        "scanString (TrimSpace r2) = Inr (v, r3)" "newMatcher rxc label op v = Inr m"
      and e: "parseMatchers_loop rxc out rest =
        (if HasPrefix (TrimSpace r3) '',''
         then parseMatchers_loop rxc (out @ [m]) (TrimSpace (drop 1 (TrimSpace r3)))
         else if TrimSpace r3 \<noteq> [] then Inl (UnexpectedInSelector (TrimSpace r3))
         else Inr (out @ [m]))"
      by (subst (asm) parseMatchers_loop.simps) (fastforce simp: parseMatchers_loop.simps [of rxc out rest])
    have "wf_matcher rxc m"
      using newMatcher_wf [OF s(4)] scanIdent_ident [OF s(1)] scanMatchOp_op [OF s(2)] by blast
    then have "list_all (wf_matcher rxc) (out @ [m])" using "1.prems"(2) by simp
    with "1.prems"(1) "1.IH" [OF False s(1) refl s(2) refl s(3) refl s(4)] e show ?thesis
      by (auto split: if_splits)
  qed (use "1.prems" in \<open>simp add: parseMatchers_loop.simps\<close>)
qed

lemma parseFilters_loop_wf:
  "parseFilters_loop rxc out rest = Inr fs \<Longrightarrow> list_all (wf_filter rxc) out \<Longrightarrow>
   list_all (wf_filter rxc) fs"
proof (induction rxc out rest rule: parseFilters_loop.induct)
  case (1 rxc out rest)
  show ?case
  proof (cases "rest = []")
    case False
    with "1.prems"(1) obtain op r1 v r2 f where
      s: "rejectUnsupported rest = Inr ()" "scanFilterOp rest = Inr (op, r1)"
        "scanString (TrimSpace r1) = Inr (v, r2)" "newFilter rxc op v = Inr f"
      and e: "parseFilters_loop rxc (out @ [f]) (TrimSpace r2) = Inr fs"
      by (subst (asm) parseFilters_loop.simps) fastforce
    have "wf_filter rxc f" using newFilter_wf [OF s(4)] scanFilterOp_op [OF s(2)] by blast
    then have "list_all (wf_filter rxc) (out @ [f])" using "1.prems"(2) by simp
    with "1.IH" [OF False s(1,2) refl s(3) refl s(4) e] show ?thesis by blast
  qed (use "1.prems" in \<open>simp add: parseFilters_loop.simps\<close>)
qed

lemma parseMatchers_wf: "parseMatchers rxc body = Inr ms \<Longrightarrow> list_all (wf_matcher rxc) ms"
  by (auto simp: parseMatchers_def dest: parseMatchers_loop_wf)

lemma parseFilters_wf: "parseFilters rxc rest = Inr fs \<Longrightarrow> list_all (wf_filter rxc) fs"
  by (auto simp: parseFilters_def dest: parseFilters_loop_wf)

lemma Parse_InrE:
  assumes "Parse rxc raw = Inr q"
  obtains i where "closingBrace (TrimSpace raw) = Inr i"
    and "parseMatchers rxc (take (i - 1) (drop 1 (TrimSpace raw))) = Inr (q_Matchers q)"
    and "q_Matchers q \<noteq> []"
    and "parseFilters rxc (TrimSpace (drop (i + 1) (TrimSpace raw))) = Inr (q_Filters q)"
  using assms by (auto simp: Parse_def Let_def split: if_splits)

lemma Parse_wf_query: "Parse rxc raw = Inr q \<Longrightarrow> wf_query rxc q"
  by (auto simp: wf_query_def elim!: Parse_InrE dest: parseMatchers_wf parseFilters_wf)

lemma wf_matcher_no_panic: "wf_matcher rxc m \<Longrightarrow> LabelMatcher_Matches rxm m value \<noteq> None"
  by (auto simp: wf_matcher_def LabelMatcher_Matches_def)

lemma wf_filter_no_panic: "wf_filter rxc f \<Longrightarrow> LineFilter_Matches rxm f line \<noteq> None"
  by (auto simp: wf_filter_def LineFilter_Matches_def)

section \<open>Properties\<close>

text \<open>
  C9. A query the parser accepts is well-formed: it has at least one matcher; every label is an
  identifier and every operator one of the four; a matcher or filter carries a compiled expression
  exactly when its operator is a regular-expression one (anchored for labels, as written for lines),
  so matching it against any value or line never dereferences a nil expression.
\<close>

theorem Parse_well_formed:
  assumes "Parse rxc raw = Inr q"
  shows "wf_query rxc q \<and>
    (\<forall>m v. m \<in> set (q_Matchers q) \<longrightarrow> LabelMatcher_Matches rxm m v \<noteq> None) \<and>
    (\<forall>f l. f \<in> set (q_Filters q) \<longrightarrow> LineFilter_Matches rxm f l \<noteq> None)"
  using Parse_wf_query [OF assms]
  unfolding wf_query_def list_all_iff using wf_matcher_no_panic wf_filter_no_panic by blast

theorem Parse_well_formed_witness:
  "Parse (\<lambda>_. True) ''{a=~`x+`} |= `y`'' =
     Inr \<lparr>q_Matchers = [\<lparr>lm_Label = ''a'', lm_Operator = ''=~'', lm_Value = ''x+'',
                          lm_Regexp = Some ''^(?:x+)$''\<rparr>],
          q_Filters = [\<lparr>lf_Operator = ''|='', lf_Value = ''y'', lf_Regexp = None\<rparr>]\<rparr> \<and>
   LabelMatcher_Matches (\<lambda>re v. v = re)
     \<lparr>lm_Label = ''a'', lm_Operator = ''=~'', lm_Value = ''x+'', lm_Regexp = Some ''^(?:x+)$''\<rparr> ''xx'' \<noteq> None"
proof -
  have "Parse (\<lambda>_. True) ''{a=~`x+`} |= `y`'' =
     Inr \<lparr>q_Matchers = [\<lparr>lm_Label = ''a'', lm_Operator = ''=~'', lm_Value = ''x+'',
                          lm_Regexp = Some ''^(?:x+)$''\<rparr>],
          q_Filters = [\<lparr>lf_Operator = ''|='', lf_Value = ''y'', lf_Regexp = None\<rparr>]\<rparr>" by code_simp
  with Parse_well_formed [OF this, of "\<lambda>re v. v = re"] show ?thesis by simp
qed

end
