(* ===== verification/Numbers.thy ===== *)
theory Numbers
  imports Prelude
begin

text \<open>
  Decimal numbers and machine integers as Go has them: printing (\<^verbatim>\<open>%d\<close>, \<^verbatim>\<open>strconv.Itoa\<close>), parsing
  (\<^verbatim>\<open>strconv.ParseInt\<close> in base 10 at 64 bits) and wrapping to 64 bits; and instants of time, which
  are integers of nanoseconds since the Unix epoch.
\<close>

section \<open>64-bit integers\<close>

definition int64 :: "int \<Rightarrow> bool" where
  "int64 n \<longleftrightarrow> - (2 ^ 63) \<le> n \<and> n < 2 ^ 63"

definition wrap64 :: "int \<Rightarrow> int" where
  "wrap64 n = (n + 2 ^ 63) mod 2 ^ 64 - 2 ^ 63"

lemma wrap64_int64: "int64 (wrap64 n)"
  using pos_mod_bound [of "2 ^ 64" "n + 2 ^ 63"] pos_mod_sign [of "2 ^ 64" "n + 2 ^ 63"]
  by (simp add: int64_def wrap64_def)

lemma wrap64_id: "int64 n \<Longrightarrow> wrap64 n = n"
  by (simp add: int64_def wrap64_def)

text \<open>Go's division truncates towards zero and the remainder has the sign of the dividend.\<close>

definition go_div :: "int \<Rightarrow> int \<Rightarrow> int" where
  "go_div a b = (if (a < 0) = (b < 0) then \<bar>a\<bar> div \<bar>b\<bar> else - (\<bar>a\<bar> div \<bar>b\<bar>))"

definition go_mod :: "int \<Rightarrow> int \<Rightarrow> int" where
  "go_mod a b = a - go_div a b * b"

lemma go_div_nonneg: "0 \<le> a \<Longrightarrow> 0 < b \<Longrightarrow> go_div a b = a div b"
  by (simp add: go_div_def)

lemma le_div_iff:
  fixes a b i :: int assumes "0 < b" shows "i \<le> a div b \<longleftrightarrow> i * b \<le> a"
proof
  assume "i \<le> a div b"
  then have "i * b \<le> a div b * b" using assms by (simp add: mult_right_mono)
  also have "\<dots> \<le> a" using assms by (simp add: minus_mod_eq_div_mult [symmetric])
  finally show "i * b \<le> a" .
next
  assume "i * b \<le> a"
  from zdiv_mono1 [OF this assms] show "i \<le> a div b" using assms by simp
qed

lemma go_mod_nonneg: "0 \<le> a \<Longrightarrow> 0 < b \<Longrightarrow> go_mod a b = a mod b"
  by (simp add: go_mod_def go_div_nonneg minus_div_mult_eq_mod)

lemma go_mod_neg: "a < 0 \<Longrightarrow> 0 < b \<Longrightarrow> go_mod a b = - ((- a) mod b)"
  using minus_div_mult_eq_mod [of "- a" b] by (simp add: go_mod_def go_div_def)

section \<open>Decimal digits\<close>

definition digit :: "nat \<Rightarrow> char" where
  "digit d = char_of (48 + d)"

definition is_digit :: "char \<Rightarrow> bool" where
  "is_digit c \<longleftrightarrow> char_in CHR ''0'' CHR ''9'' c"

definition digit_val :: "char \<Rightarrow> nat" where
  "digit_val c = of_char c - 48"

fun dec :: "nat \<Rightarrow> string" where
  "dec n = (if n < 10 then [digit n] else dec (n div 10) @ [digit (n mod 10)])"

declare dec.simps [simp del]

definition dec_val :: "string \<Rightarrow> nat" where
  "dec_val s = foldl (\<lambda>n c. 10 * n + digit_val c) 0 s"

definition Itoa :: "int \<Rightarrow> string" where
  "Itoa i = (if i < 0 then CHR ''-'' # dec (nat (- i)) else dec (nat i))"

text \<open>\<^verbatim>\<open>strconv.ParseInt(s, 10, 64)\<close> and \<^verbatim>\<open>strconv.Atoi\<close>: \<open>None\<close> is either of their errors.\<close>

definition ParseInt :: "string \<Rightarrow> int option" where
  "ParseInt s =
     (let neg = HasPrefix s ''-'';
          ds = (if HasPrefix s ''-'' \<or> HasPrefix s ''+'' then drop 1 s else s);
          n = int (dec_val ds) in
      if ds = [] \<or> \<not> list_all is_digit ds then None
      else if neg \<and> n \<le> 2 ^ 63 then Some (- n)
      else if \<not> neg \<and> n < 2 ^ 63 then Some n
      else None)"

lemma digit_inverse: "d < 10 \<Longrightarrow> digit_val (digit d) = d \<and> is_digit (digit d)"
  by (simp add: digit_def digit_val_def is_digit_def less_eq_char_def)

lemma is_digit_plain: "\<not> is_digit (CHR '':'')" "\<not> is_digit (CHR ''-'')" "\<not> is_digit (CHR ''+'')"
  by (simp_all add: is_digit_def less_eq_char_def)

lemma dec_digits: "list_all is_digit (dec n) \<and> dec n \<noteq> []"
  by (induction n rule: dec.induct) (subst (1 2) dec.simps, auto simp: digit_inverse)

lemma dec_val_snoc: "dec_val (s @ [c]) = 10 * dec_val s + digit_val c"
  by (simp add: dec_val_def)

lemma dec_val_dec [simp]: "dec_val (dec n) = n"
proof (induction n rule: dec.induct)
  case (1 n)
  show ?case
  proof (cases "n < 10")
    case True
    then show ?thesis by (simp add: dec.simps [of n] dec_val_def digit_inverse)
  next
    case False
    then have "dec n = dec (n div 10) @ [digit (n mod 10)]" by (simp add: dec.simps [of n])
    with 1 [OF False] show ?thesis by (simp add: dec_val_snoc digit_inverse)
  qed
qed

lemma dec_inj: "dec m = dec n \<longleftrightarrow> m = n"
  by (metis dec_val_dec)

lemma dec_hd: "\<not> HasPrefix (dec n) ''-''" "\<not> HasPrefix (dec n) ''+''"
  using dec_digits [of n] is_digit_plain by (cases "dec n"; auto)+

lemma ParseInt_Itoa: "int64 i \<Longrightarrow> ParseInt (Itoa i) = Some i"
  using dec_digits by (auto simp: ParseInt_def Itoa_def int64_def dec_hd)

lemma ParseInt_int64: "ParseInt s = Some i \<Longrightarrow> int64 i"
  by (auto simp: ParseInt_def int64_def Let_def split: if_splits)

text \<open>A run of digits followed by anything else can be split in one way only.\<close>

lemma dec_prefix_unique:
  assumes "dec m @ c # u = dec n @ c # v" "\<not> is_digit c"
  shows "m = n \<and> u = v"
proof -
  have "takeWhile is_digit (dec k @ c # w) = dec k" for k w
    using assms(2) dec_digits [of k] by (simp add: takeWhile_append2 list_all_iff)
  then have "dec m = dec n" using assms(1) by metis
  then show ?thesis using assms(1) by (simp add: dec_inj)
qed

section \<open>Time\<close>

text \<open>
  A \<^verbatim>\<open>time.Time\<close> is the number of nanoseconds from the Unix epoch to it, a \<^verbatim>\<open>time.Duration\<close> a
  number of nanoseconds. The zero \<^verbatim>\<open>time.Time\<close> is the first instant of year 1.
\<close>

abbreviation second :: int where "second \<equiv> 1000000000"
abbreviation millisecond :: int where "millisecond \<equiv> 1000000"
abbreviation microsecond :: int where "microsecond \<equiv> 1000"

definition zero_time :: int where
  "zero_time = -62135596800 * second"

text \<open>\<^verbatim>\<open>t.Sub(u)\<close> saturates at the ends of the duration range.\<close>

definition time_Sub :: "int \<Rightarrow> int \<Rightarrow> int" where
  "time_Sub t u = max (- (2 ^ 63)) (min (2 ^ 63 - 1) (t - u))"

text \<open>\<^verbatim>\<open>time.Unix\<close> counts its seconds from year 1 in 64 bits, and wraps there.\<close>

definition time_Unix :: "int \<Rightarrow> int \<Rightarrow> int" where
  "time_Unix sec nsec = (wrap64 (sec + 62135596800) - 62135596800) * second + nsec"

lemma time_Unix_id: "- (2 ^ 63) \<le> sec \<Longrightarrow> sec < 2 ^ 63 - 62135596800 \<Longrightarrow> time_Unix sec nsec = sec * second + nsec"
  by (simp add: time_Unix_def wrap64_id int64_def)

definition UnixNano :: "int \<Rightarrow> int" where
  "UnixNano t = wrap64 t"

end
