(* ===== verification/Storage.thy ===== *)
theory Storage
  imports LogQL Numbers "HOL-Library.AList" "HOL-Library.Multiset"
begin

text \<open>
  The storage contract of the query API (queryapi/internal/storage): errors, queries, label sets and
  rows, the mapping of LogQL labels to storage, and the identity of a stream. A Go map is the
  association list of its entries in the order an iteration visits them; the keys are distinct
  (\<open>LabelSet_inv\<close>), and nothing may depend on that order.
\<close>

section \<open>Types\<close>

datatype storage_error =
    ErrNotImplemented
  | ErrNoProject
  | ErrInvalidLimit
  | ErrBackendUnavailable
  | ErrResponseTooLarge
  | QueryError string
  | BackendError string
  | NilPanic
  | Canceled
  | DeadlineExceeded

record TimeRange =
  tr_Start :: int
  tr_End :: int

abbreviation DirectionBackward :: string where "DirectionBackward \<equiv> ''backward''"
abbreviation DirectionForward :: string where "DirectionForward \<equiv> ''forward''"

record LogQuery =
  lq_Matchers :: "LabelMatcher list"
  lq_Filters :: "LineFilter list"
  lq_Range :: TimeRange
  lq_Limit :: int
  lq_Direction :: string

type_synonym LabelSet = "(string \<times> string) list"

definition LabelSet_inv :: "LabelSet \<Rightarrow> bool" where
  "LabelSet_inv l \<longleftrightarrow> distinct (map fst l)"

record Row =
  row_Timestamp :: int
  row_Labels :: LabelSet
  row_Line :: string

section \<open>Labels\<close>

datatype LabelKind = LabelColumn | LabelAttribute

definition columns :: "string \<rightharpoonup> string" where
  "columns = map_of
     [(''service_name'', ''ServiceName''), (''severity'', ''SeverityText''), (''trace_id'', ''TraceId'')]"

definition Sanitize :: "string \<Rightarrow> string" where
  "Sanitize key = ReplaceAll key ''.'' ''_''"

definition Resolve :: "string \<Rightarrow> string \<times> LabelKind" where
  "Resolve label =
     (case columns label of
        Some col \<Rightarrow> (col, LabelColumn)
      | None \<Rightarrow> (Sanitize label, LabelAttribute))"

text \<open>\<^verbatim>\<open>^[a-zA-Z_][a-zA-Z0-9_]*$\<close>\<close>

definition name_start :: "char \<Rightarrow> bool" where
  "name_start c \<longleftrightarrow> char_in CHR ''a'' CHR ''z'' c \<or> char_in CHR ''A'' CHR ''Z'' c \<or> c = CHR ''_''"

definition ValidLabelName :: "string \<Rightarrow> bool" where
  "ValidLabelName name =
     (case name of [] \<Rightarrow> False | c # s \<Rightarrow> name_start c \<and> list_all (\<lambda>d. name_start d \<or> is_digit d) s)"

lemma ValidLabelName_ident: "ValidLabelName name \<longleftrightarrow> ident name"
  by (cases name)
    (auto simp: ValidLabelName_def name_start_def is_digit_def ident_def ident_rest_def ident_char_def
      list_all_iff simp del: ident_char_Suc)

lemma Sanitize_map: "Sanitize key = map (\<lambda>c. if c = CHR ''.'' then CHR ''_'' else c) key"
  by (simp add: Sanitize_def replace_char)

lemma Sanitize_idem [simp]: "Sanitize (Sanitize key) = Sanitize key"
  by (simp add: Sanitize_map)

lemma Sanitize_no_dot: "CHR ''.'' \<notin> set (Sanitize key)"
  by (auto simp: Sanitize_map)

lemma ident_set: "ident name \<Longrightarrow> c \<in> set name \<Longrightarrow> ident_rest c"
  by (cases name) (auto simp: ident_def list_all_iff dest: ident_char_0)

lemma not_ident_dot: "\<not> ident_rest (CHR ''.'')"
  unfolding ident_rest_def by (simp add: ident_char_def less_eq_char_def del: ident_char_Suc)

lemma ident_no_dot: "ident name \<Longrightarrow> CHR ''.'' \<notin> set name"
  using ident_set not_ident_dot by blast

lemma Sanitize_ident [simp]: "ident name \<Longrightarrow> Sanitize name = name"
  using ident_no_dot by (auto simp: Sanitize_map intro!: map_idI)

section \<open>The identity of a stream\<close>

definition pair_key :: "string \<times> string \<Rightarrow> string" where
  "pair_key kv = dec (length (fst kv)) @ '':'' @ fst kv @ ''='' @ dec (length (snd kv)) @ '':'' @ snd kv"

text \<open>\<^verbatim>\<open>sort.Strings\<close> orders by bytes.\<close>

definition sort_strings :: "string list \<Rightarrow> string list" where
  "sort_strings = sort_key (map (of_char :: char \<Rightarrow> nat))"

definition LabelSet_Key :: "LabelSet \<Rightarrow> string" where
  "LabelSet_Key l = JoinStr (sort_strings (map pair_key l)) '',''"

lemma pair_key_unique:
  assumes "pair_key p @ u = pair_key q @ v"
  shows "p = q \<and> u = v"
proof -
  have c: "\<not> is_digit (CHR '':'')" by (rule is_digit_plain)
  from assms have "length (fst p) = length (fst q) \<and>
      fst p @ CHR ''='' # dec (length (snd p)) @ CHR '':'' # snd p @ u =
      fst q @ CHR ''='' # dec (length (snd q)) @ CHR '':'' # snd q @ v"
    by (intro dec_prefix_unique [OF _ c]) (simp add: pair_key_def)
  then have f: "fst p = fst q" and
      "dec (length (snd p)) @ CHR '':'' # snd p @ u = dec (length (snd q)) @ CHR '':'' # snd q @ v"
    by auto
  from dec_prefix_unique [OF this(2) c] show ?thesis using f by (auto simp: prod_eq_iff)
qed

lemma pair_key_inj: "pair_key p = pair_key q \<longleftrightarrow> p = q"
  using pair_key_unique [of p "[]" q "[]"] by auto

lemma pair_key_nonempty: "pair_key p \<noteq> []"
  by (simp add: pair_key_def)

definition comma_pairs :: "(string \<times> string) list \<Rightarrow> string" where
  "comma_pairs ps = concat (map (\<lambda>p. CHR '','' # pair_key p) ps)"

lemma JoinStr_pairs: "JoinStr (map pair_key (p # ps)) '','' = pair_key p @ comma_pairs ps"
  by (induction ps arbitrary: p) (auto simp: comma_pairs_def)

lemma comma_pairs_inj: "comma_pairs ps = comma_pairs qs \<Longrightarrow> ps = qs"
proof (induction ps arbitrary: qs)
  case Nil
  then show ?case by (cases qs) (auto simp: comma_pairs_def)
next
  case (Cons p ps)
  then obtain q qs' where q: "qs = q # qs'" by (cases qs) (auto simp: comma_pairs_def)
  with Cons.prems have "pair_key p @ comma_pairs ps = pair_key q @ comma_pairs qs'"
    by (simp add: comma_pairs_def)
  from pair_key_unique [OF this] Cons.IH q show ?case by blast
qed

lemma JoinStr_pairs_inj:
  assumes "JoinStr (map pair_key ps) '','' = JoinStr (map pair_key qs) '',''"
  shows "ps = qs"
proof (cases ps; cases qs)
  fix p ps' q qs' assume c: "ps = p # ps'" "qs = q # qs'"
  with assms have "pair_key p @ comma_pairs ps' = pair_key q @ comma_pairs qs'"
    by (simp only: JoinStr_pairs)
  from pair_key_unique [OF this] comma_pairs_inj [of ps' qs'] c show ?thesis by simp
qed (use assms in \<open>auto simp: JoinStr_pairs pair_key_nonempty simp del: list.map(2)\<close>)

lemma map_sort_strings:
  "map (map of_char) (sort_strings xs) = sort (map (map (of_char :: char \<Rightarrow> nat)) xs)"
  unfolding sort_strings_def by (rule properties_for_sort [symmetric]) simp_all

lemma sort_strings_mset:
  assumes "mset xs = mset ys" shows "sort_strings xs = sort_strings ys"
proof -
  have "sort (map (map (of_char :: char \<Rightarrow> nat)) xs) = sort (map (map of_char) ys)"
    by (rule properties_for_sort) (simp_all add: assms)
  then have "map (map (of_char :: char \<Rightarrow> nat)) (sort_strings xs) = map (map of_char) (sort_strings ys)"
    by (simp add: map_sort_strings)
  moreover have "inj (map (of_char :: char \<Rightarrow> nat))" by (simp add: inj_on_def)
  ultimately show ?thesis by (simp add: inj_map_eq_map)
qed

lemma pair_key_mset:
  assumes "mset (map pair_key ps) = mset (map pair_key qs)" shows "mset ps = mset qs"
proof -
  have i: "inv pair_key \<circ> pair_key = id" using pair_key_inj by (intro inv_o_cancel injI) simp
  from assms have "image_mset (inv pair_key) (image_mset pair_key (mset ps)) =
    image_mset (inv pair_key) (image_mset pair_key (mset qs))" by simp
  then show ?thesis by (simp add: multiset.map_comp i)
qed

lemma sort_pairs:
  obtains ps where "sort_strings (map pair_key l) = map pair_key ps" "mset ps = mset l"
proof -
  have "set (sort_strings (map pair_key l)) \<subseteq> range pair_key" by (auto simp: sort_strings_def)
  then obtain ps where ps: "sort_strings (map pair_key l) = map pair_key ps"
    by (metis ex_map_conv rangeE subsetD)
  then have "mset (map pair_key ps) = mset (map pair_key l)" by (metis mset_sort sort_strings_def)
  with ps that pair_key_mset show ?thesis by blast
qed

lemma map_of_mset:
  assumes "LabelSet_inv a" "LabelSet_inv b"
  shows "map_of a = map_of b \<longleftrightarrow> mset a = mset b"
proof -
  have "distinct a" "distinct b" using assms by (auto simp: LabelSet_inv_def distinct_map)
  then have "mset a = mset b \<longleftrightarrow> set a = set b" by (simp add: set_eq_iff_mset_eq_distinct)
  also have "\<dots> \<longleftrightarrow> map_of a = map_of b"
    using assms by (simp add: LabelSet_inv_def map_of_inject_set)
  finally show ?thesis by simp
qed

lemma LabelSet_Key_iff:
  assumes "LabelSet_inv a" "LabelSet_inv b"
  shows "LabelSet_Key a = LabelSet_Key b \<longleftrightarrow> map_of a = map_of b"
proof
  assume k: "LabelSet_Key a = LabelSet_Key b"
  obtain pa where a: "sort_strings (map pair_key a) = map pair_key pa" "mset pa = mset a"
    by (rule sort_pairs)
  obtain pb where b: "sort_strings (map pair_key b) = map pair_key pb" "mset pb = mset b"
    by (rule sort_pairs)
  have "pa = pb" using k a(1) b(1) by (intro JoinStr_pairs_inj) (simp add: LabelSet_Key_def)
  then show "map_of a = map_of b" using a b by (simp add: map_of_mset assms)
next
  assume "map_of a = map_of b"
  then have "mset (map pair_key a) = mset (map pair_key b)" by (simp add: map_of_mset assms)
  from sort_strings_mset [OF this] show "LabelSet_Key a = LabelSet_Key b" by (simp add: LabelSet_Key_def)
qed

section \<open>Properties\<close>

text \<open>
  C10. The stream key is a faithful identity: two label sets have the same key exactly when they hold
  the same labels with the same values, in whatever order the map iterations visit them and whatever
  bytes names and values contain, so rows of different streams are never grouped together and rows
  of one stream never split.
\<close>

theorem stream_key_identity:
  assumes "LabelSet_inv a" "LabelSet_inv b"
  shows "LabelSet_Key a = LabelSet_Key b \<longleftrightarrow> map_of a = map_of b"
  using assms by (rule LabelSet_Key_iff)

theorem stream_key_identity_witness:
  "LabelSet_Key [(''a'', ''1,1:b=1:2'')] \<noteq> LabelSet_Key [(''b'', ''2''), (''a'', ''1'')] \<and>
   LabelSet_Key [(''a'', ''1''), (''b'', ''2'')] = LabelSet_Key [(''b'', ''2''), (''a'', ''1'')]"
proof -
  have "LabelSet_inv [(''a'', ''1,1:b=1:2'')]" "LabelSet_inv [(''b'', ''2''), (''a'', ''1'')]"
    "LabelSet_inv [(''a'', ''1''), (''b'', ''2'')]" by (simp_all add: LabelSet_inv_def)
  note k = stream_key_identity [OF this(1,2)] stream_key_identity [OF this(3,2)]
  have "map_of [(''a'', ''1,1:b=1:2'')] ''b'' \<noteq> map_of [(''b'', ''2''), (''a'', ''1'')] ''b''" by simp
  then have "map_of [(''a'', ''1,1:b=1:2'')] \<noteq> map_of [(''b'', ''2''), (''a'', ''1'')]" by metis
  moreover have "map_of [(''a'', ''1''), (''b'', ''2'')] = map_of [(''b'', ''2''), (''a'', ''1'')]"
    by (simp add: fun_eq_iff)
  ultimately show ?thesis using k by blast
qed

end
