(* ===== verification/Loki.thy ===== *)
theory Loki
  imports Storage
begin

text \<open>
  Grouping rows into Loki streams (queryapi/loki.go, \<^verbatim>\<open>collectStreams\<close>) and the iterator interface it
  drains (\<^verbatim>\<open>storage.LogIterator\<close>). The loop runs until the iterator says it is done, so it is a partial
  function; the locale \<open>log_iterator\<close> states what an implementation owes, and under it the loop returns
  and groups exactly the rows the iterator yields.
\<close>

section \<open>Iterators\<close>

text \<open>
  An iterator state \<open>s\<close> with \<^verbatim>\<open>Next\<close> (which moves it) and \<^verbatim>\<open>Row\<close>; \<open>drain s\<close> are the rows still to come
  and the state in which it stops.
\<close>

locale log_iterator =
  fixes nxt :: "'s \<Rightarrow> bool \<times> 's" and row :: "'s \<Rightarrow> Row" and drain :: "'s \<Rightarrow> Row list \<times> 's"
  assumes drain_stop: "nxt s = (False, s') \<Longrightarrow> drain s = ([], s')"
    and drain_step: "nxt s = (True, s') \<Longrightarrow> drain s = (row s' # fst (drain s'), snd (drain s'))"
begin

lemma drain_Nil: "fst (drain s) = [] \<Longrightarrow> nxt s = (False, snd (drain s))"
  using drain_stop drain_step by (cases "nxt s"; cases "fst (nxt s)") fastforce+

lemma drain_Cons:
  "fst (drain s) = r # rs \<Longrightarrow>
   \<exists>s'. nxt s = (True, s') \<and> r = row s' \<and> rs = fst (drain s') \<and> snd (drain s) = snd (drain s')"
  using drain_stop drain_step by (cases "nxt s"; cases "fst (nxt s)") fastforce+

end

section \<open>Streams\<close>

record lokiStream =
  st_Stream :: LabelSet
  st_Values :: "(string \<times> string) list"

type_synonym collect_state = "(string \<rightharpoonup> nat) \<times> lokiStream list"

definition row_value :: "Row \<Rightarrow> string \<times> string" where
  "row_value r = (Itoa (UnixNano (row_Timestamp r)), row_Line r)"

definition add_value :: "nat \<Rightarrow> string \<times> string \<Rightarrow> lokiStream list \<Rightarrow> lokiStream list" where
  "add_value i v result = result[i := (result ! i)\<lparr>st_Values := st_Values (result ! i) @ [v]\<rparr>]"

text \<open>One round of the loop: \<^verbatim>\<open>byKey\<close> and \<^verbatim>\<open>result\<close> after a row.\<close>

definition collect_row :: "Row \<Rightarrow> collect_state \<Rightarrow> collect_state" where
  "collect_row r st =
     (case st of (byKey, result) \<Rightarrow>
        let key = LabelSet_Key (row_Labels r) in
        case byKey key of
          Some i \<Rightarrow> (byKey, add_value i (row_value r) result)
        | None \<Rightarrow>
            (byKey(key \<mapsto> length result),
             add_value (length result) (row_value r) (result @ [\<lparr>st_Stream = row_Labels r, st_Values = []\<rparr>])))"

partial_function (option) collect_loop ::
  "('s \<Rightarrow> bool \<times> 's) \<Rightarrow> ('s \<Rightarrow> Row) \<Rightarrow> collect_state \<Rightarrow> 's \<Rightarrow> (collect_state \<times> 's) option" where
  "collect_loop nxt row acc s =
     (case nxt s of (ok, s') \<Rightarrow>
        if ok then collect_loop nxt row (collect_row (row s') acc) s' else Some (acc, s'))"

text \<open>The streams and the iterator's error; \<^verbatim>\<open>errors.Join\<close> with the result of \<^verbatim>\<open>Close\<close>.\<close>

definition collectStreams ::
  "('s \<Rightarrow> bool \<times> 's) \<Rightarrow> ('s \<Rightarrow> Row) \<Rightarrow> ('s \<Rightarrow> storage_error option) \<Rightarrow> ('s \<Rightarrow> storage_error option) \<Rightarrow>
   's \<Rightarrow> (storage_error + lokiStream list) option" where
  "collectStreams nxt row err close s =
     map_option (\<lambda>((byKey, result), s').
        case err s' of Some e \<Rightarrow> Inl e
        | None \<Rightarrow> (case close s' of Some e \<Rightarrow> Inl e | None \<Rightarrow> Inr result))
       (collect_loop nxt row (Map.empty, []) s)"

section \<open>The reference: one stream per key, in order of first appearance\<close>

abbreviation row_key :: "Row \<Rightarrow> string" where "row_key r \<equiv> LabelSet_Key (row_Labels r)"

fun first_keys :: "string list \<Rightarrow> Row list \<Rightarrow> string list" where
  "first_keys ks [] = ks"
| "first_keys ks (r # rs) = first_keys (if row_key r \<in> set ks then ks else ks @ [row_key r]) rs"

definition stream_of :: "Row list \<Rightarrow> string \<Rightarrow> lokiStream" where
  "stream_of rows k =
     (let mine = filter (\<lambda>r. row_key r = k) rows in
      \<lparr>st_Stream = row_Labels (hd mine), st_Values = map row_value mine\<rparr>)"

definition group_streams :: "Row list \<Rightarrow> lokiStream list" where
  "group_streams rows = map (stream_of rows) (first_keys [] rows)"

lemma first_keys_snoc:
  "first_keys ks (rs @ [r]) =
   (if row_key r \<in> set (first_keys ks rs) then first_keys ks rs else first_keys ks rs @ [row_key r])"
  by (induction ks rs rule: first_keys.induct) auto

lemma first_keys_set: "set (first_keys ks rs) = set ks \<union> row_key ` set rs"
  by (induction ks rs rule: first_keys.induct) auto

lemma first_keys_distinct: "distinct ks \<Longrightarrow> distinct (first_keys ks rs)"
  by (induction ks rs rule: first_keys.induct) auto

lemma stream_of_snoc:
  "stream_of (rs @ [r]) k =
   (if row_key r = k then
      (if k \<in> row_key ` set rs then (stream_of rs k)\<lparr>st_Values := st_Values (stream_of rs k) @ [row_value r]\<rparr>
       else \<lparr>st_Stream = row_Labels r, st_Values = [row_value r]\<rparr>)
    else stream_of rs k)"
proof -
  have "k \<in> row_key ` set rs \<longleftrightarrow> filter (\<lambda>r. row_key r = k) rs \<noteq> []"
    by (auto simp: filter_empty_conv)
  then show ?thesis by (auto simp: stream_of_def Let_def)
qed

text \<open>The loop's state after the rows \<open>rs\<close>.\<close>

definition collect_inv :: "Row list \<Rightarrow> collect_state \<Rightarrow> bool" where
  "collect_inv rs st \<longleftrightarrow>
     snd st = group_streams rs \<and>
     (\<forall>k i. fst st k = Some i \<longleftrightarrow> i < length (first_keys [] rs) \<and> first_keys [] rs ! i = k)"

lemma collect_inv_None:
  "collect_inv rs (b, res) \<Longrightarrow> b k = None \<longleftrightarrow> k \<notin> row_key ` set rs"
  using first_keys_set [of "[]" rs] unfolding collect_inv_def
  by (metis (no_types, lifting) fst_conv in_set_conv_nth not_None_eq set_empty sup_bot.left_neutral list.set(1))

lemma collect_row_inv:
  assumes "collect_inv rs st"
  shows "collect_inv (rs @ [r]) (collect_row r st)"
proof -
  obtain b res where st: "st = (b, res)" by fastforce
  let ?k = "row_key r" and ?ks = "first_keys [] rs"
  have res: "res = map (stream_of rs) ?ks" and b: "\<And>k i. b k = Some i \<longleftrightarrow> i < length ?ks \<and> ?ks ! i = k"
    using assms by (auto simp: st collect_inv_def group_streams_def)
  have kset: "set ?ks = row_key ` set rs" using first_keys_set [of "[]" rs] by simp
  have dist: "distinct ?ks" using first_keys_distinct by simp
  show ?thesis
  proof (cases "b ?k")
    case None
    then have new: "?k \<notin> row_key ` set rs" using collect_inv_None assms st by blast
    have "map (stream_of (rs @ [r])) ?ks = map (stream_of rs) ?ks"
      using new kset by (intro map_cong) (auto simp: stream_of_snoc)
    then have "group_streams (rs @ [r]) = res @ [\<lparr>st_Stream = row_Labels r, st_Values = [row_value r]\<rparr>]"
      using new kset by (simp add: group_streams_def first_keys_snoc res stream_of_snoc)
    moreover have c: "collect_row r st =
        (b(?k \<mapsto> length res), res @ [\<lparr>st_Stream = row_Labels r, st_Values = [row_value r]\<rparr>])"
      using None by (simp add: st collect_row_def add_value_def)
    moreover have ks: "first_keys [] (rs @ [r]) = ?ks @ [?k]" using new kset by (simp add: first_keys_snoc)
    moreover have "(b(?k \<mapsto> length res)) k = Some i \<longleftrightarrow> i < length (?ks @ [?k]) \<and> (?ks @ [?k]) ! i = k" for k i
    proof (cases "k = ?k")
      case True
      have "?ks ! i \<noteq> ?k" if "i < length ?ks" using new kset nth_mem [OF that] by metis
      with True show ?thesis by (auto simp: res nth_append)
    next
      case False
      then have "(b(?k \<mapsto> length res)) k = b k" by simp
      with False show ?thesis using b [of k i] by (auto simp: nth_append)
    qed
    ultimately show ?thesis unfolding collect_inv_def by simp
  next
    case (Some i)
    then have i: "i < length ?ks" "?ks ! i = ?k" using b by auto
    have "?ks ! i \<in> set ?ks" using i(1) by (rule nth_mem)
    then have old: "?k \<in> row_key ` set rs" using i(2) kset by simp
    have ks: "first_keys [] (rs @ [r]) = ?ks" using old kset by (simp add: first_keys_snoc)
    have "group_streams (rs @ [r]) = add_value i (row_value r) res"
    proof (rule nth_equalityI)
      show "length (group_streams (rs @ [r])) = length (add_value i (row_value r) res)"
        by (simp add: group_streams_def ks add_value_def res)
      fix j assume "j < length (group_streams (rs @ [r]))"
      then have j: "j < length ?ks" by (simp add: group_streams_def ks)
      have "?ks ! j = ?k \<longleftrightarrow> j = i" using i j dist by (metis nth_eq_iff_index_eq)
      then show "group_streams (rs @ [r]) ! j = add_value i (row_value r) res ! j"
        using i j old by (cases "j = i") (simp_all add: group_streams_def ks add_value_def res stream_of_snoc)
    qed
    moreover have "collect_row r st = (b, add_value i (row_value r) res)"
      using Some by (simp add: st collect_row_def)
    ultimately show ?thesis using b unfolding collect_inv_def ks by simp
  qed
qed

lemma collect_fold_inv: "collect_inv rs st \<Longrightarrow> collect_inv (rs @ ss) (fold collect_row ss st)"
proof (induction ss arbitrary: rs st)
  case (Cons r ss)
  from Cons.IH [OF collect_row_inv [OF Cons.prems, of r]] show ?case by simp
qed simp

lemma fold_collect: "snd (fold collect_row rows (Map.empty, [])) = group_streams rows"
  using collect_fold_inv [of "[]" "(Map.empty, [])" rows]
  by (simp add: collect_inv_def group_streams_def)

section \<open>The loop, for every iterator\<close>

context log_iterator
begin

lemma collect_loop_drain:
  "collect_loop nxt row acc s = Some (fold collect_row (fst (drain s)) acc, snd (drain s))"
proof (induction "fst (drain s)" arbitrary: s acc)
  case Nil
  then have "nxt s = (False, snd (drain s))" using drain_Nil by simp
  with Nil show ?case by (subst collect_loop.simps) simp
next
  case (Cons r rs)
  then obtain s' where s': "nxt s = (True, s')" "r = row s'" "rs = fst (drain s')" "snd (drain s) = snd (drain s')"
    using drain_Cons [of s r rs] by metis
  from Cons.hyps(1) [OF s'(3)] have "collect_loop nxt row (collect_row r acc) s' =
    Some (fold collect_row rs (collect_row r acc), snd (drain s))" using s' by simp
  with s' Cons.hyps(2) [symmetric] show ?case by (subst collect_loop.simps) simp
qed

lemma collectStreams_drain:
  "collectStreams nxt row err close s =
   Some (case err (snd (drain s)) of Some e \<Rightarrow> Inl e
         | None \<Rightarrow> (case close (snd (drain s)) of Some e \<Rightarrow> Inl e | None \<Rightarrow> Inr (group_streams (fst (drain s)))))"
  using fold_collect [of "fst (drain s)"]
  by (auto simp: collectStreams_def collect_loop_drain split: option.splits prod.splits)

end

section \<open>What grouping keeps\<close>

lemma group_streams_keys: "length (group_streams rows) = card (row_key ` set rows)"
  using first_keys_set [of "[]" rows] first_keys_distinct [of "[]" rows]
  by (metis distinct.simps(1) distinct_card group_streams_def length_map list.set(1) sup_bot.left_neutral)

lemma sum_filter_keys:
  "distinct ks \<Longrightarrow> row_key ` set rows \<subseteq> set ks \<Longrightarrow>
   sum_list (map (\<lambda>k. length (filter (\<lambda>r. row_key r = k) rows)) ks) = length rows"
proof (induction rows)
  case (Cons r rows)
  have "sum_list (map (\<lambda>k. if row_key r = k then 1 else 0) ks) = (1 :: nat)"
    using Cons.prems by (simp add: sum_list_distinct_conv_sum_set)
  moreover have "sum_list (map (\<lambda>k. length (filter (\<lambda>r. row_key r = k) (r # rows))) ks) =
    sum_list (map (\<lambda>k. if row_key r = k then 1 else 0) ks) + sum_list (map (\<lambda>k. length (filter (\<lambda>r. row_key r = k) rows)) ks)"
    by (simp add: sum_list_addf [symmetric] cong: map_cong) (rule arg_cong [of _ _ sum_list], auto)
  ultimately show ?case using Cons by simp
qed (simp add: sum_list_0)

lemma group_streams_values:
  "sum_list (map (length \<circ> st_Values) (group_streams rows)) = length rows"
  using sum_filter_keys [of "first_keys [] rows" rows] first_keys_set [of "[]" rows] first_keys_distinct [of "[]" rows]
  by (simp add: group_streams_def stream_of_def Let_def comp_def)

end
