(* ===== verification/MiloAuth.thy ===== *)
theory MiloAuth
  imports Numbers
begin

text \<open>
  Where the tenant comes from (queryapi/internal/miloauth): the project a verified identity is scoped
  to (resolve.go), its place on the request context (context.go) and the middleware that puts it there
  or refuses the request (middleware.go). The locale \<open>tenant_scoped\<close> is the contract every storage
  operation keeps: it acts for the project on its context and for no other.
\<close>

section \<open>Context\<close>

text \<open>\<^verbatim>\<open>user.Info\<close>; a key missing from the extras reads as the nil slice.\<close>

record UserInfo =
  u_Name :: string
  u_Extra :: "string \<Rightarrow> string list"

text \<open>The two values of a request context the service reads.\<close>

record Context =
  ctx_User :: "UserInfo option"
  ctx_Project :: "string option"

definition WithProject :: "Context \<Rightarrow> string \<Rightarrow> Context" where
  "WithProject ctx pid = ctx\<lparr>ctx_Project := Some pid\<rparr>"

definition ProjectID :: "Context \<Rightarrow> string option" where
  "ProjectID ctx = (case ctx_Project ctx of None \<Rightarrow> None | Some pid \<Rightarrow> if pid \<noteq> [] then Some pid else None)"

section \<open>Resolving the project\<close>

abbreviation parentTypeExtra :: string where "parentTypeExtra \<equiv> ''iam.miloapis.com/parent-type''"
abbreviation parentNameExtra :: string where "parentNameExtra \<equiv> ''iam.miloapis.com/parent-name''"

definition id_edge :: "char \<Rightarrow> bool" where
  "id_edge c \<longleftrightarrow> char_in CHR ''a'' CHR ''z'' c \<or> is_digit c"

definition id_inner :: "char \<Rightarrow> bool" where
  "id_inner c \<longleftrightarrow> c = CHR ''-'' \<or> id_edge c \<or> c = CHR ''.''"

text \<open>\<^verbatim>\<open>^[a-z0-9]([-a-z0-9.]*[a-z0-9])?$\<close>: an edge character, or edge characters around inner ones.\<close>

definition validProjectID :: "string \<Rightarrow> bool" where
  "validProjectID s \<longleftrightarrow> s \<noteq> [] \<and> id_edge (hd s) \<and> id_edge (last s) \<and> list_all id_inner s"

definition validID :: "string \<Rightarrow> bool" where
  "validID pid \<longleftrightarrow> pid \<noteq> [] \<and> length pid \<le> 253 \<and> validProjectID pid"

definition first :: "string list \<Rightarrow> string" where
  "first vs = (if vs = [] then [] else hd vs)"

definition Resolve_user :: "UserInfo option \<Rightarrow> string option" where
  "Resolve_user u =
     (case u of None \<Rightarrow> None
      | Some i \<Rightarrow>
          if first (u_Extra i parentTypeExtra) \<noteq> ''Project'' then None
          else if validID (first (u_Extra i parentNameExtra))
          then Some (first (u_Extra i parentNameExtra)) else None)"

section \<open>The middleware\<close>

text \<open>
  The response is the middleware's own 403 (\<open>Inl\<close> with the body it writes) or whatever \<open>next\<close> makes of
  the request on the extended context.
\<close>

definition forbidden_body :: "string \<Rightarrow> string" where
  "forbidden_body message =
     ''{'' @ [CHR 0x22] @ ''status'' @ [CHR 0x22] @ '':'' @ [CHR 0x22] @ ''error'' @ [CHR 0x22] @ '','' @
     [CHR 0x22] @ ''error'' @ [CHR 0x22] @ '':'' @ [CHR 0x22] @ message @ [CHR 0x22] @ ''}''"

definition Middleware :: "(Context \<Rightarrow> 'r) \<Rightarrow> Context \<Rightarrow> (int \<times> string) + 'r" where
  "Middleware next ctx =
     (case ctx_User ctx of
        None \<Rightarrow> Inl (403, forbidden_body ''request is not authenticated'')
      | Some u \<Rightarrow>
          (case Resolve_user (Some u) of
             None \<Rightarrow> Inl (403, forbidden_body ''request is not scoped to a project'')
           | Some pid \<Rightarrow> Inr (next (WithProject ctx pid))))"

lemma Resolve_user_Some:
  "Resolve_user u = Some pid \<longleftrightarrow>
   (\<exists>i. u = Some i \<and> first (u_Extra i parentTypeExtra) = ''Project'' \<and>
        pid = first (u_Extra i parentNameExtra) \<and> validID pid)"
  by (auto simp: Resolve_user_def split: option.splits)

lemma validID_nonempty: "validID pid \<Longrightarrow> pid \<noteq> []"
  by (simp add: validID_def)

lemma ProjectID_WithProject: "validID pid \<Longrightarrow> ProjectID (WithProject ctx pid) = Some pid"
  by (simp add: ProjectID_def WithProject_def validID_def)

lemma Middleware_cases:
  "Middleware next ctx =
   (case Resolve_user (ctx_User ctx) of
      None \<Rightarrow> Inl (403, forbidden_body
        (if ctx_User ctx = None then ''request is not authenticated'' else ''request is not scoped to a project''))
    | Some pid \<Rightarrow> Inr (next (WithProject ctx pid)))"
  by (auto simp: Middleware_def Resolve_user_def split: option.splits)

section \<open>Tenant-scoped operations\<close>

text \<open>
  An operation \<open>op\<close> of a store reads a backend \<open>be\<close>, which answers per project. It is tenant scoped
  when it answers \<open>none\<close> without a project, and otherwise looks at nothing of the backend but the
  answers for the context's project.
\<close>

locale tenant_scoped =
  fixes op :: "(string \<Rightarrow> 'b) \<Rightarrow> Context \<Rightarrow> 'r" and none :: 'r
  assumes unscoped: "ProjectID ctx = None \<Longrightarrow> op be ctx = none"
    and scoped: "ProjectID ctx = Some p \<Longrightarrow> be p = be' p \<Longrightarrow> op be ctx = op be' ctx"
    and only_project: "ProjectID ctx = ProjectID ctx' \<Longrightarrow> op be ctx = op be ctx'"
begin

lemma unscoped_no_backend: "ProjectID ctx = None \<Longrightarrow> op be ctx = op be' ctx"
  by (simp add: unscoped)

text \<open>Behind the middleware, what a caller gets is a function of its own project's data.\<close>

lemma middleware_isolated:
  assumes "\<And>p. Resolve_user (ctx_User ctx) = Some p \<Longrightarrow> be p = be' p"
  shows "Middleware (op be) ctx = Middleware (op be') ctx"
proof (cases "Resolve_user (ctx_User ctx)")
  case (Some p)
  then have "validID p" by (auto simp: Resolve_user_Some)
  then have "op be (WithProject ctx p) = op be' (WithProject ctx p)"
    using assms [OF Some] by (intro scoped) (auto simp: ProjectID_WithProject)
  with Some show ?thesis by (simp add: Middleware_cases)
qed (simp add: Middleware_cases)

lemma middleware_same_project:
  assumes "Resolve_user (ctx_User ctx) = Some p" "Resolve_user (ctx_User ctx') = Some p"
  shows "Middleware (op be) ctx = Middleware (op be) ctx'"
proof -
  have "validID p" using assms(1) by (auto simp: Resolve_user_Some)
  then have "op be (WithProject ctx p) = op be (WithProject ctx' p)"
    by (intro only_project) (simp add: ProjectID_WithProject)
  with assms show ?thesis by (simp add: Middleware_cases)
qed

end

section \<open>Properties\<close>

text \<open>
  C5. Fail closed: the wrapped handler runs exactly when the caller is authenticated, the identity's
  parent is a project and its name is a well-formed identifier, and then with that project on the
  context; every other request is answered 403 and the handler is not called. What a project already
  on the context says (or a client claims elsewhere) plays no role.
\<close>

theorem middleware_fails_closed:
  "(case Middleware next ctx of
      Inr r \<Rightarrow> \<exists>u pid. ctx_User ctx = Some u \<and> first (u_Extra u parentTypeExtra) = ''Project'' \<and>
        pid = first (u_Extra u parentNameExtra) \<and> validID pid \<and>
        ProjectID (WithProject ctx pid) = Some pid \<and> r = next (WithProject ctx pid)
    | Inl e \<Rightarrow> fst e = 403 \<and>
        \<not> (\<exists>u. ctx_User ctx = Some u \<and> first (u_Extra u parentTypeExtra) = ''Project'' \<and>
             validID (first (u_Extra u parentNameExtra)))) \<and>
   Middleware next (ctx\<lparr>ctx_Project := p\<rparr>) = Middleware next ctx"
proof -
  have "Middleware next (ctx\<lparr>ctx_Project := p\<rparr>) = Middleware next ctx"
    by (simp add: Middleware_def WithProject_def cong: option.case_cong)
  moreover have "case Middleware next ctx of
      Inr r \<Rightarrow> \<exists>u pid. ctx_User ctx = Some u \<and> first (u_Extra u parentTypeExtra) = ''Project'' \<and>
        pid = first (u_Extra u parentNameExtra) \<and> validID pid \<and>
        ProjectID (WithProject ctx pid) = Some pid \<and> r = next (WithProject ctx pid)
    | Inl e \<Rightarrow> fst e = 403 \<and>
        \<not> (\<exists>u. ctx_User ctx = Some u \<and> first (u_Extra u parentTypeExtra) = ''Project'' \<and>
             validID (first (u_Extra u parentNameExtra)))"
    by (cases "ctx_User ctx")
      (auto simp: Middleware_def Resolve_user_def ProjectID_WithProject split: option.splits)
  ultimately show ?thesis by simp
qed

end
