(* ===== verification/PromStore.thy ===== *)
theory PromStore
  imports Storage Strconv MiloAuth
begin

text \<open>
  The Prometheus metric backend (queryapi/internal/storage/prometheus). Each operation builds a form
  and posts it; the model returns the result together with the requests sent and the counter
  increments made. Parameters: the HTTP client \<open>http\<close> (from path and form to what came back), the JSON
  decoder \<open>json\<close> for the response envelope, the error of the context \<open>cerr\<close>, and the renderings of
  times and durations.
\<close>

section \<open>Configuration\<close>

abbreviation TenancyExtraLabel :: string where "TenancyExtraLabel \<equiv> ''extra-label''"

datatype prom_config_error =
    TenancyRequired | UnknownTenancy string | BadURL string | BadProjectLabel string | BadMaxResponse int

definition ParseTenancy :: "string \<Rightarrow> prom_config_error + string" where
  "ParseTenancy s =
     (if s = TenancyExtraLabel then Inr TenancyExtraLabel
      else if s = [] then Inl TenancyRequired else Inl (UnknownTenancy s))"

record PromConfig =
  pc_URL :: string
  pc_Tenancy :: string
  pc_ProjectLabel :: string
  pc_MaxResponseBytes :: int

text \<open>\<open>url s\<close> is the scheme and host of a URL that parses.\<close>

definition NewStore :: "(string \<Rightarrow> (string \<times> string) option) \<Rightarrow> PromConfig \<Rightarrow> prom_config_error + PromConfig" where
  "NewStore url cfg =
     res_bind (ParseTenancy (pc_Tenancy cfg)) (\<lambda>_.
       let bad = (case url (pc_URL cfg) of None \<Rightarrow> True
                  | Some (scheme, host) \<Rightarrow> scheme \<noteq> ''http'' \<and> scheme \<noteq> ''https'' \<or> host = []) in
       if bad then Inl (BadURL (pc_URL cfg))
       else if \<not> ValidLabelName (pc_ProjectLabel cfg) then Inl (BadProjectLabel (pc_ProjectLabel cfg))
       else if pc_MaxResponseBytes cfg \<le> 0 then Inl (BadMaxResponse (pc_MaxResponseBytes cfg))
       else Inr cfg)"

section \<open>Requests\<close>

type_synonym form = "string \<Rightarrow> string list"

definition form_Set :: "string \<Rightarrow> string \<Rightarrow> form \<Rightarrow> form" where
  "form_Set k v f = f(k := [v])"

definition form_Add :: "string \<Rightarrow> string \<Rightarrow> form \<Rightarrow> form" where
  "form_Add k v f = f(k := f k @ [v])"

abbreviation empty_form :: form where "empty_form \<equiv> \<lambda>_. []"

record InstantQuery =
  iq_Query :: string
  iq_Time :: int
  iq_Timeout :: int

record RangeQuery =
  rgq_Query :: string
  rgq_Range :: TimeRange
  rgq_Step :: int
  rgq_Timeout :: int

record envelope =
  env_Status :: string
  env_Data :: string
  env_ErrorType :: string
  env_Error :: string

definition isTimeout :: "envelope \<Rightarrow> bool" where
  "isTimeout env \<longleftrightarrow> env_ErrorType env = ''timeout'' \<or> ContainsStr (env_Error env) ''timeout exceeded''"

definition decode :: "(string \<Rightarrow> envelope option) \<Rightarrow> int \<Rightarrow> string \<Rightarrow> storage_error + string" where
  "decode json status body =
     (let env = (case json body of Some e \<Rightarrow> if env_Status e \<noteq> [] then Some e else None | None \<Rightarrow> None) in
      case env of
        Some e \<Rightarrow>
          if (status = 422 \<or> status = 503) \<and> isTimeout e then Inl DeadlineExceeded
          else if status = 200 \<and> env_Status e = ''success'' \<and> env_Data e \<noteq> [] then Inr (env_Data e)
          else if (status = 400 \<or> status = 422) \<and> env_Error e \<noteq> [] then Inl (QueryError (env_Error e))
          else Inl ErrBackendUnavailable
      | None \<Rightarrow> Inl ErrBackendUnavailable)"

text \<open>What the client returns: no response, or a status and a body that may fail to be read or closed.\<close>

record response =
  rsp_Status :: int
  rsp_Body :: string
  rsp_ReadFails :: bool
  rsp_CloseFails :: bool

type_synonym client = "string \<Rightarrow> form \<Rightarrow> response option"

record prom_effects =
  pe_requests :: "(string \<times> form) list"
  pe_counts :: "(string \<times> string) list"

definition no_effects :: prom_effects where
  "no_effects = \<lparr>pe_requests = [], pe_counts = []\<rparr>"

definition or_ctx_err :: "storage_error option \<Rightarrow> storage_error \<Rightarrow> storage_error + 'a" where
  "or_ctx_err cerr e = (case cerr of Some c \<Rightarrow> Inl c | None \<Rightarrow> Inl e)"

definition read_response ::
  "(string \<Rightarrow> envelope option) \<Rightarrow> int \<Rightarrow> storage_error option \<Rightarrow> response \<Rightarrow> storage_error + string" where
  "read_response json mx cerr resp =
     (let body = take (nat (mx + 1)) (rsp_Body resp) in
      if rsp_ReadFails resp then or_ctx_err cerr ErrBackendUnavailable
      else if int (length body) > mx then Inl ErrResponseTooLarge
      else case decode json (rsp_Status resp) body of
        Inl e \<Rightarrow> or_ctx_err cerr e
      | Inr data \<Rightarrow> if rsp_CloseFails resp then Inl (BackendError ''close'') else Inr data)"

definition prom_do ::
  "(string \<Rightarrow> envelope option) \<Rightarrow> client \<Rightarrow> storage_error option \<Rightarrow> PromConfig \<Rightarrow> Context \<Rightarrow>
   string \<Rightarrow> string \<Rightarrow> form \<Rightarrow> (storage_error + string) \<times> prom_effects" where
  "prom_do json http cerr cfg ctx path route form =
     (case ProjectID ctx of
        None \<Rightarrow> (Inl ErrNoProject, no_effects)
      | Some project \<Rightarrow>
          let f = form_Set ''extra_label'' (pc_ProjectLabel cfg @ ''='' @ project) form in
          (case http path f of
             None \<Rightarrow> (or_ctx_err cerr ErrBackendUnavailable,
                      \<lparr>pe_requests = [(path, f)], pe_counts = [(route, ''error'')]\<rparr>)
           | Some resp \<Rightarrow> (read_response json (pc_MaxResponseBytes cfg) cerr resp,
                      \<lparr>pe_requests = [(path, f)], pe_counts = [(route, Itoa (rsp_Status resp))]\<rparr>)))"

definition selectorForm :: "(int \<Rightarrow> string) \<Rightarrow> string list \<Rightarrow> TimeRange \<Rightarrow> form" where
  "selectorForm fmtTime matchers tr =
     (let f0 = fold (form_Add ''match[]'') matchers empty_form;
          f1 = (if tr_Start tr \<noteq> zero_time then form_Set ''start'' (fmtTime (tr_Start tr)) f0 else f0) in
      if tr_End tr \<noteq> zero_time then form_Set ''end'' (fmtTime (tr_End tr)) f1 else f1)"

definition instant_form :: "(int \<Rightarrow> string) \<Rightarrow> (int \<Rightarrow> string) \<Rightarrow> InstantQuery \<Rightarrow> form" where
  "instant_form fmtTime fmtSeconds q =
     (let f = form_Set ''time'' (fmtTime (iq_Time q)) (form_Set ''query'' (iq_Query q) empty_form) in
      if iq_Timeout q > 0 then form_Set ''timeout'' (fmtSeconds (iq_Timeout q)) f else f)"

definition range_form :: "(int \<Rightarrow> string) \<Rightarrow> (int \<Rightarrow> string) \<Rightarrow> RangeQuery \<Rightarrow> form" where
  "range_form fmtTime fmtSeconds q =
     (let f = form_Set ''step'' (fmtSeconds (rgq_Step q)) (form_Set ''end'' (fmtTime (tr_End (rgq_Range q)))
                (form_Set ''start'' (fmtTime (tr_Start (rgq_Range q))) (form_Set ''query'' (rgq_Query q) empty_form))) in
      if rgq_Timeout q > 0 then form_Set ''timeout'' (fmtSeconds (rgq_Timeout q)) f else f)"

section \<open>The operations\<close>

text \<open>The five calls of the interface, as data.\<close>

datatype metric_call =
    MQuery InstantQuery
  | MQueryRange RangeQuery
  | MSeries "string list" TimeRange
  | MLabelNames "string list" TimeRange
  | MLabelValues string "string list" TimeRange

definition call_route :: "metric_call \<Rightarrow> string" where
  "call_route c =
     (case c of MQuery q \<Rightarrow> ''/api/v1/query'' | MQueryRange q \<Rightarrow> ''/api/v1/query_range''
      | MSeries ms tr \<Rightarrow> ''/api/v1/series'' | MLabelNames ms tr \<Rightarrow> ''/api/v1/labels''
      | MLabelValues n ms tr \<Rightarrow> ''/api/v1/label/{name}/values'')"

definition call_path :: "metric_call \<Rightarrow> string" where
  "call_path c =
     (case c of MLabelValues n ms tr \<Rightarrow> ''/api/v1/label/'' @ n @ ''/values'' | _ \<Rightarrow> call_route c)"

definition call_form :: "(int \<Rightarrow> string) \<Rightarrow> (int \<Rightarrow> string) \<Rightarrow> metric_call \<Rightarrow> form" where
  "call_form fmtTime fmtSeconds c =
     (case c of MQuery q \<Rightarrow> instant_form fmtTime fmtSeconds q
      | MQueryRange q \<Rightarrow> range_form fmtTime fmtSeconds q
      | MSeries ms tr \<Rightarrow> selectorForm fmtTime ms tr
      | MLabelNames ms tr \<Rightarrow> selectorForm fmtTime ms tr
      | MLabelValues n ms tr \<Rightarrow> selectorForm fmtTime ms tr)"

definition prom_call ::
  "(string \<Rightarrow> envelope option) \<Rightarrow> client \<Rightarrow> storage_error option \<Rightarrow> (int \<Rightarrow> string) \<Rightarrow> (int \<Rightarrow> string) \<Rightarrow>
   (nat \<Rightarrow> bool) \<Rightarrow> PromConfig \<Rightarrow> metric_call \<Rightarrow> Context \<Rightarrow> (storage_error + string) \<times> prom_effects" where
  "prom_call json http cerr fmtTime fmtSeconds isp cfg c ctx =
     (case c of
        MLabelValues n ms tr \<Rightarrow>
          if \<not> ValidLabelName n then (Inl (QueryError (''invalid label name '' @ Quote isp n)), no_effects)
          else prom_do json http cerr cfg ctx (call_path c) (call_route c) (call_form fmtTime fmtSeconds c)
      | _ \<Rightarrow> prom_do json http cerr cfg ctx (call_path c) (call_route c) (call_form fmtTime fmtSeconds c))"

text \<open>\<^verbatim>\<open>Ping\<close>: the health endpoint answers 200 and its body closes.\<close>

definition prom_Ping :: "response option \<Rightarrow> storage_error option" where
  "prom_Ping resp =
     (case resp of
        None \<Rightarrow> Some ErrBackendUnavailable
      | Some r \<Rightarrow> if rsp_Status r \<noteq> 200 then Some ErrBackendUnavailable
                  else if rsp_CloseFails r then Some (BackendError ''close'') else None)"

section \<open>Lemmas\<close>

definition bad_label :: "metric_call \<Rightarrow> bool" where
  "bad_label c = (case c of MLabelValues n ms tr \<Rightarrow> \<not> ValidLabelName n | _ \<Rightarrow> False)"

lemma prom_call_good:
  "\<not> bad_label c \<Longrightarrow> prom_call json http cerr ft fs isp cfg c ctx =
   prom_do json http cerr cfg ctx (call_path c) (call_route c) (call_form ft fs c)"
  by (cases c) (simp_all add: prom_call_def bad_label_def)

lemma prom_call_bad:
  "bad_label c \<Longrightarrow> snd (prom_call json http cerr ft fs isp cfg c ctx) = no_effects \<and>
   isl (fst (prom_call json http cerr ft fs isp cfg c ctx))"
  by (cases c) (simp_all add: prom_call_def bad_label_def)

lemma prom_do_requests:
  "pe_requests (snd (prom_do json http cerr cfg ctx path route form)) =
   (case ProjectID ctx of None \<Rightarrow> []
    | Some p \<Rightarrow> [(path, form_Set ''extra_label'' (pc_ProjectLabel cfg @ ''='' @ p) form)])"
  by (simp add: prom_do_def no_effects_def Let_def split: option.splits)

text \<open>The project a request is confined to, as the backend reads it.\<close>

definition tenant_of :: "PromConfig \<Rightarrow> form \<Rightarrow> string" where
  "tenant_of cfg f = drop (Suc (length (pc_ProjectLabel cfg))) (concat (f ''extra_label''))"

lemma tenant_of_Set: "tenant_of cfg (form_Set ''extra_label'' (pc_ProjectLabel cfg @ ''='' @ p) f) = p"
  by (simp add: tenant_of_def form_Set_def)

text \<open>A backend that answers each request from the data of the project in its extra label.\<close>

abbreviation tenant_client :: "PromConfig \<Rightarrow> (string \<Rightarrow> client) \<Rightarrow> client" where
  "tenant_client cfg be \<equiv> \<lambda>path f. be (tenant_of cfg f) path f"

lemma prom_do_scoped:
  "tenant_scoped (\<lambda>be ctx. prom_do json (tenant_client cfg be) cerr cfg ctx path route form)
     (Inl ErrNoProject, no_effects)"
proof
  fix ctx p and be be' :: "string \<Rightarrow> client"
  assume "ProjectID ctx = Some p" "be p = be' p"
  then show "prom_do json (tenant_client cfg be) cerr cfg ctx path route form =
    prom_do json (tenant_client cfg be') cerr cfg ctx path route form"
    by (simp add: prom_do_def Let_def tenant_of_Set [simplified])
qed (simp_all add: prom_do_def)

interpretation prom_do: tenant_scoped
  "\<lambda>be ctx. prom_do json (tenant_client cfg be) cerr cfg ctx path route form" "(Inl ErrNoProject, no_effects)"
  by (rule prom_do_scoped)

lemma prom_do_count:
  "pe_counts (snd (prom_do json http cerr cfg ctx path route form)) =
   (case ProjectID ctx of None \<Rightarrow> []
    | Some p \<Rightarrow> [(route, case http path (form_Set ''extra_label'' (pc_ProjectLabel cfg @ ''='' @ p) form) of
        None \<Rightarrow> ''error'' | Some r \<Rightarrow> Itoa (rsp_Status r))])"
  by (simp add: prom_do_def no_effects_def Let_def split: option.splits)

section \<open>Properties\<close>

text \<open>
  C18. Every call is confined to the caller's project: whichever of the five calls is made and
  whatever its arguments hold, at most one request is sent, its form carries exactly one extra label,
  the project label with the caller's project, and it goes to the call's own path, where a label name
  can only be an identifier; without a project, or with an invalid label name, nothing is sent. The
  metric label of a request is the route, never the label name.
\<close>

theorem metric_requests_confined:
  "let r = prom_call json http cerr fmtTime fmtSeconds isp cfg c ctx in
   (case ProjectID ctx of
      None \<Rightarrow> pe_requests (snd r) = [] \<and> isl (fst r)
    | Some p \<Rightarrow>
        if bad_label c then pe_requests (snd r) = [] \<and> isl (fst r)
        else (\<exists>f. pe_requests (snd r) = [(call_path c, f)] \<and>
               f ''extra_label'' = [pc_ProjectLabel cfg @ ''='' @ p])) \<and>
   set (map fst (pe_counts (snd r))) \<subseteq>
     {''/api/v1/query'', ''/api/v1/query_range'', ''/api/v1/series'', ''/api/v1/labels'', ''/api/v1/label/{name}/values''}"
proof (cases "bad_label c")
  case True
  then show ?thesis
    using prom_call_bad [OF True, of json http cerr fmtTime fmtSeconds isp cfg ctx]
    by (simp add: Let_def no_effects_def split: option.splits)
next
  case False
  have "call_route c \<in> {''/api/v1/query'', ''/api/v1/query_range'', ''/api/v1/series'', ''/api/v1/labels'',
      ''/api/v1/label/{name}/values''}" by (cases c) (simp_all add: call_route_def)
  with False show ?thesis unfolding Let_def prom_call_good [OF False] prom_do_requests prom_do_count
    by (cases "ProjectID ctx") (simp_all add: form_Set_def prom_do_def)
qed

text \<open>
  Isolation of the metric store behind the middleware, for a backend that confines a request to
  the project in its extra label: what a caller is answered depends on no other project's data.
\<close>

theorem metric_tenant_isolation:
  assumes "\<And>p. Resolve_user (ctx_User ctx) = Some p \<Longrightarrow> be p = be' p"
  shows "Middleware (prom_call json (tenant_client cfg be) cerr fmtTime fmtSeconds isp cfg c) ctx =
    Middleware (prom_call json (tenant_client cfg be') cerr fmtTime fmtSeconds isp cfg c) ctx"
proof (cases "bad_label c")
  case True
  then show ?thesis by (cases c) (simp_all add: bad_label_def prom_call_def [abs_def])
next
  case False
  then show ?thesis unfolding prom_call_good [OF False, abs_def]
    by (intro prom_do.middleware_isolated) (rule assms)
qed

theorem metric_tenant_isolation_witness:
  "Middleware (prom_call (\<lambda>b. Some \<lparr>env_Status = ''success'', env_Data = b, env_ErrorType = [], env_Error = []\<rparr>)
      (tenant_client \<lparr>pc_URL = ''http://x'', pc_Tenancy = ''extra-label'', pc_ProjectLabel = ''project'', pc_MaxResponseBytes = 100\<rparr>
         (\<lambda>p path f. Some \<lparr>rsp_Status = 200, rsp_Body = (if p = ''acme'' then ''[1]'' else ''[2]''), rsp_ReadFails = False, rsp_CloseFails = False\<rparr>))
      None (\<lambda>_. []) (\<lambda>_. []) (\<lambda>_. True)
      \<lparr>pc_URL = ''http://x'', pc_Tenancy = ''extra-label'', pc_ProjectLabel = ''project'', pc_MaxResponseBytes = 100\<rparr>
      (MSeries [''up''] \<lparr>tr_Start = 0, tr_End = 9\<rparr>))
    \<lparr>ctx_User = Some \<lparr>u_Name = ''u'', u_Extra = (\<lambda>k. if k = parentTypeExtra then [''Project''] else [''acme''])\<rparr>, ctx_Project = None\<rparr> =
   Middleware (prom_call (\<lambda>b. Some \<lparr>env_Status = ''success'', env_Data = b, env_ErrorType = [], env_Error = []\<rparr>)
      (tenant_client \<lparr>pc_URL = ''http://x'', pc_Tenancy = ''extra-label'', pc_ProjectLabel = ''project'', pc_MaxResponseBytes = 100\<rparr>
         (\<lambda>p path f. Some \<lparr>rsp_Status = 200, rsp_Body = ''[1]'', rsp_ReadFails = False, rsp_CloseFails = False\<rparr>))
      None (\<lambda>_. []) (\<lambda>_. []) (\<lambda>_. True)
      \<lparr>pc_URL = ''http://x'', pc_Tenancy = ''extra-label'', pc_ProjectLabel = ''project'', pc_MaxResponseBytes = 100\<rparr>
      (MSeries [''up''] \<lparr>tr_Start = 0, tr_End = 9\<rparr>))
    \<lparr>ctx_User = Some \<lparr>u_Name = ''u'', u_Extra = (\<lambda>k. if k = parentTypeExtra then [''Project''] else [''acme''])\<rparr>, ctx_Project = None\<rparr>"
proof (rule metric_tenant_isolation)
  fix p
  let ?u = "Some \<lparr>u_Name = ''u'', u_Extra = (\<lambda>k. if k = parentTypeExtra then [''Project''] else [''acme''])\<rparr>"
  assume "Resolve_user (ctx_User \<lparr>ctx_User = ?u, ctx_Project = None\<rparr>) = Some p"
  moreover have "Resolve_user ?u = Some ''acme''" by code_simp
  ultimately have "p = ''acme''" by simp
  then show "(\<lambda>path f. Some \<lparr>rsp_Status = 200, rsp_Body = (if p = ''acme'' then ''[1]'' else ''[2]''), rsp_ReadFails = False, rsp_CloseFails = False\<rparr>) =
    (\<lambda>path f. Some \<lparr>rsp_Status = 200, rsp_Body = ''[1]'', rsp_ReadFails = False, rsp_CloseFails = False\<rparr>)" by simp
qed

text \<open>
  C19. How a response is read: a body over the size limit is refused whatever its status, and it is
  never decoded; otherwise a success needs status 200 and an envelope that says success and has
  data, which is returned unchanged; a rejected query (400 or 422 with a message) is reported with
  the backend's own message, a backend timeout (422 or 503) as a deadline, and everything else as an
  unavailable backend.
\<close>

theorem response_classification:
  assumes "0 < mx"
  shows "(length (rsp_Body r) > nat mx \<longrightarrow> \<not> rsp_ReadFails r \<longrightarrow> read_response json mx cerr r = Inl ErrResponseTooLarge) \<and>
    (\<forall>d. read_response json mx cerr r = Inr d \<longrightarrow>
       rsp_Status r = 200 \<and> length (rsp_Body r) \<le> nat mx \<and>
       (\<exists>e. json (rsp_Body r) = Some e \<and> env_Status e = ''success'' \<and> env_Data e = d \<and> d \<noteq> [])) \<and>
    (\<forall>m. read_response json mx None r = Inl (QueryError m) \<longrightarrow>
       rsp_Status r \<in> {400, 422} \<and> m \<noteq> [] \<and>
       (\<exists>e. json (rsp_Body r) = Some e \<and> env_Error e = m \<and> (rsp_Status r = 422 \<longrightarrow> \<not> isTimeout e)))"
proof -
  have t: "length (rsp_Body r) \<le> nat mx \<Longrightarrow> take (nat (mx + 1)) (rsp_Body r) = rsp_Body r" by simp
  have l: "int (length (take (nat (mx + 1)) (rsp_Body r))) > mx \<longleftrightarrow> length (rsp_Body r) > nat mx"
    using assms by auto
  have big: "length (rsp_Body r) > nat mx \<Longrightarrow> \<not> rsp_ReadFails r \<Longrightarrow> read_response json mx c r = Inl ErrResponseTooLarge" for c
    using l by (simp add: read_response_def Let_def)
  have small: "read_response json mx c r = (if rsp_ReadFails r then or_ctx_err c ErrBackendUnavailable else
      case decode json (rsp_Status r) (rsp_Body r) of Inl e \<Rightarrow> or_ctx_err c e
      | Inr data \<Rightarrow> if rsp_CloseFails r then Inl (BackendError ''close'') else Inr data)"
    if "length (rsp_Body r) \<le> nat mx" for c
    using l that by (simp add: read_response_def Let_def t [OF that] not_less)
  show ?thesis
  proof (cases "length (rsp_Body r) \<le> nat mx")
    case True
    then show ?thesis unfolding small [OF True]
      by (auto simp: decode_def or_ctx_err_def Let_def split: option.splits if_splits sum.splits)
  next
    case False
    then show ?thesis using big
      by (cases "rsp_ReadFails r") (auto simp: read_response_def or_ctx_err_def split: option.splits)
  qed
qed

theorem response_classification_witness:
  "read_response (\<lambda>b. None) 3 None \<lparr>rsp_Status = 200, rsp_Body = ''abcd'', rsp_ReadFails = False, rsp_CloseFails = False\<rparr> =
   Inl ErrResponseTooLarge"
  using response_classification [of 3 "\<lparr>rsp_Status = 200, rsp_Body = ''abcd'', rsp_ReadFails = False, rsp_CloseFails = False\<rparr>"
      "\<lambda>b. None" None] by simp

end
