(* ===== verification/Authz.thy ===== *)
theory Authz
  imports MiloAuth
begin

text \<open>
  The closed permission vocabulary and the guard in front of the apiserver's authorizer
  (queryapi/internal/authz). The delegate authorizer is the framework's and is a parameter; the
  guard's counter is the list of the increments made.
\<close>

section \<open>Vocabulary\<close>

abbreviation APIGroup :: string where "APIGroup \<equiv> ''o11y.miloapis.com''"
abbreviation APIVersion :: string where "APIVersion \<equiv> ''v1alpha1''"

record Permission =
  p_Resource :: string
  p_Verb :: string

definition Permissions :: "Permission list" where
  "Permissions =
     [\<lparr>p_Resource = ''logs'', p_Verb = ''query''\<rparr>,
      \<lparr>p_Resource = ''logs'', p_Verb = ''getLabels''\<rparr>,
      \<lparr>p_Resource = ''logs'', p_Verb = ''getSeries''\<rparr>,
      \<lparr>p_Resource = ''metrics'', p_Verb = ''query''\<rparr>,
      \<lparr>p_Resource = ''metrics'', p_Verb = ''getLabels''\<rparr>,
      \<lparr>p_Resource = ''metrics'', p_Verb = ''getSeries''\<rparr>]"

definition Known :: "Permission \<Rightarrow> bool" where
  "Known p \<longleftrightarrow> p \<in> set Permissions"

text \<open>\<^verbatim>\<open>authorizer.Attributes\<close>: what its getters return; a nil interface value is \<open>None\<close>.\<close>

record Attributes =
  a_IsResourceRequest :: bool
  a_APIGroup :: string
  a_APIVersion :: string
  a_Resource :: string
  a_Subresource :: string
  a_Name :: string
  a_Namespace :: string
  a_Verb :: string
  a_Path :: string

definition permissionFor :: "Attributes option \<Rightarrow> Permission option" where
  "permissionFor attrs =
     (case attrs of None \<Rightarrow> None
      | Some a \<Rightarrow>
          if \<not> a_IsResourceRequest a then None
          else if a_APIGroup a \<noteq> APIGroup \<or> a_APIVersion a \<noteq> APIVersion then None
          else if a_Subresource a \<noteq> [] \<or> a_Name a \<noteq> [] \<or> a_Namespace a \<noteq> [] then None
          else let p = \<lparr>p_Resource = a_Resource a, p_Verb = a_Verb a\<rparr> in
               if Known p then Some p else None)"

abbreviation GroupPrefix :: string where "GroupPrefix \<equiv> ''/apis/'' @ APIGroup"

definition ValidateAlwaysAllowPaths :: "string list \<Rightarrow> string option" where
  "ValidateAlwaysAllowPaths paths =
     find (\<lambda>p. let normalized = ''/'' @ TrimPrefix p ''/'' in
               HasPrefix normalized GroupPrefix \<or> HasPrefix GroupPrefix (TrimSuffix normalized ''*''))
       paths"

section \<open>The guard\<close>

datatype Decision = DecisionDeny | DecisionAllow | DecisionNoOpinion

definition discoveryPaths :: "string list" where
  "discoveryPaths = [GroupPrefix, GroupPrefix @ ''/'' @ APIVersion]"

definition ours :: "Attributes \<Rightarrow> bool" where
  "ours a \<longleftrightarrow>
     (if a_IsResourceRequest a then a_APIGroup a = APIGroup
      else a_Path a = GroupPrefix \<or> HasPrefix (a_Path a) (GroupPrefix @ ''/''))"

definition outcome :: "Decision \<Rightarrow> string option \<Rightarrow> string" where
  "outcome decision err =
     (if err \<noteq> None then ''error'' else if decision = DecisionAllow then ''allow'' else ''deny'')"

type_synonym auth_result = "Decision \<times> string \<times> string option"
type_synonym authorizer = "Context \<Rightarrow> Attributes \<Rightarrow> auth_result"
type_synonym auth_counter = "(string \<times> string \<times> string) list"

text \<open>\<^verbatim>\<open>Guard\<close> refuses a nil delegate; the guard it returns is given by \<open>guard_Authorize\<close>.\<close>

record guard =
  g_delegate :: authorizer

definition Guard :: "authorizer option \<Rightarrow> string + guard" where
  "Guard delegate =
     (case delegate of
        None \<Rightarrow> Inl ''an authorizer is required: queryapi serves nothing unreviewed''
      | Some d \<Rightarrow> Inr \<lparr>g_delegate = d\<rparr>)"

definition guard_Authorize ::
  "guard \<Rightarrow> Context \<Rightarrow> Attributes option \<Rightarrow> auth_counter \<Rightarrow> auth_result \<times> auth_counter" where
  "guard_Authorize g ctx attrs cnt =
     (case attrs of
        None \<Rightarrow> ((DecisionDeny, ''no attributes to authorize'', None), cnt)
      | Some a \<Rightarrow>
          if \<not> ours a then (g_delegate g ctx a, cnt)
          else if \<not> a_IsResourceRequest a then
            (if a_Path a \<notin> set discoveryPaths
             then ((DecisionDeny, ''queryapi serves no such path'', None), cnt @ [([], [], ''unmapped'')])
             else (g_delegate g ctx a, cnt))
          else (case permissionFor attrs of
                  None \<Rightarrow> ((DecisionDeny, ''queryapi serves no such resource'', None),
                           cnt @ [(a_Resource a, a_Verb a, ''unmapped'')])
                | Some p \<Rightarrow>
                    (case g_delegate g ctx a of (decision, reason, err) \<Rightarrow>
                       ((decision, reason, err),
                        cnt @ [(p_Resource p, p_Verb p, outcome decision err)]))))"

definition guard_EvaluateConditions :: auth_result where
  "guard_EvaluateConditions = (DecisionDeny, [], Some ''condition evaluation not supported'')"

section \<open>Lemmas\<close>

lemma permissionFor_Some:
  "permissionFor (Some a) = Some p \<longleftrightarrow>
   a_IsResourceRequest a \<and> a_APIGroup a = APIGroup \<and> a_APIVersion a = APIVersion \<and>
   a_Subresource a = [] \<and> a_Name a = [] \<and> a_Namespace a = [] \<and>
   p = \<lparr>p_Resource = a_Resource a, p_Verb = a_Verb a\<rparr> \<and> Known p"
  by (auto simp: permissionFor_def Let_def)

text \<open>What the guard forwards: everything outside the group, discovery, and known permissions.\<close>

definition forwarded :: "Attributes \<Rightarrow> bool" where
  "forwarded a \<longleftrightarrow>
     \<not> ours a \<or> (\<not> a_IsResourceRequest a \<and> a_Path a \<in> set discoveryPaths) \<or> permissionFor (Some a) \<noteq> None"

lemma guard_forwarded:
  "fst (guard_Authorize g ctx (Some a) cnt) =
   (if forwarded a then g_delegate g ctx a
    else (DecisionDeny,
      if a_IsResourceRequest a then ''queryapi serves no such resource'' else ''queryapi serves no such path'',
      None))"
proof (cases "ours a")
  case False
  then show ?thesis by (simp add: guard_Authorize_def forwarded_def)
next
  case True
  show ?thesis
  proof (cases "a_IsResourceRequest a")
    case False
    then have "permissionFor (Some a) = None" by (simp add: permissionFor_def)
    with True False show ?thesis by (simp add: guard_Authorize_def forwarded_def)
  next
    case r: True
    with True show ?thesis
      by (cases "permissionFor (Some a)")
        (auto simp: guard_Authorize_def forwarded_def split: prod.splits)
  qed
qed

lemma guard_known:
  assumes "ours a" "permissionFor (Some a) = Some p"
  shows "snd (guard_Authorize g ctx (Some a) cnt) =
    cnt @ [(p_Resource p, p_Verb p, outcome (fst (g_delegate g ctx a)) (snd (snd (g_delegate g ctx a))))]"
proof -
  have "a_IsResourceRequest a" using assms(2) by (simp add: permissionFor_Some)
  with assms show ?thesis by (simp add: guard_Authorize_def split: prod.splits)
qed

text \<open>
  How the framework's path authorizer reads one entry of the flag: a leading slash is dropped on both
  sides, and a trailing star makes it a prefix.
\<close>

definition always_allows :: "string \<Rightarrow> string \<Rightarrow> bool" where
  "always_allows entry path =
     (let e = TrimPrefix entry ''/''; p = TrimPrefix path ''/'' in
      case CutSuffix e ''*'' of Some q \<Rightarrow> HasPrefix p q | None \<Rightarrow> p = e)"

lemma TrimPrefix_slash: "HasPrefix path (CHR ''/'' # g) \<Longrightarrow> path = CHR ''/'' # TrimPrefix path ''/''"
  by (cases path) (auto simp: TrimPrefix_def)

lemma always_allow_rejected:
  assumes path: "HasPrefix path GroupPrefix" and e: "always_allows entry path"
  shows "let normalized = ''/'' @ TrimPrefix entry ''/'' in
    HasPrefix normalized GroupPrefix \<or> HasPrefix GroupPrefix (TrimSuffix normalized ''*'')"
proof (cases "CutSuffix (TrimPrefix entry ''/'') ''*''")
  case None
  then have "TrimPrefix path ''/'' = TrimPrefix entry ''/''" using e by (simp add: always_allows_def)
  then have "path = CHR ''/'' # TrimPrefix entry ''/''"
    using TrimPrefix_slash [of path "''apis/'' @ APIGroup"] path by simp
  then show ?thesis using path by (simp only: Let_def append_Cons append_Nil) blast
next
  case (Some q)
  then have q: "TrimPrefix entry ''/'' = q @ ''*''" by (simp add: CutSuffix_Some)
  have "HasPrefix (TrimPrefix path ''/'') q" using e Some by (simp add: always_allows_def)
  then have p: "HasPrefix path (CHR ''/'' # q)"
    using TrimPrefix_slash [of path "''apis/'' @ APIGroup"] path
    by (metis HasPrefix_simps(3) append_Cons)
  have t: "TrimSuffix (CHR ''/'' # q @ ''*'') ''*'' = CHR ''/'' # q"
    using HasSuffix_append [of "CHR ''/'' # q" "''*''"] by (simp add: TrimSuffix_def)
  have "prefix (CHR ''/'' # q) GroupPrefix \<or> prefix GroupPrefix (CHR ''/'' # q)"
    using p path by (meson HasPrefix_prefix prefix_same_cases)
  then have "HasPrefix GroupPrefix (CHR ''/'' # q) \<or> HasPrefix (CHR ''/'' # q @ ''*'') GroupPrefix"
    unfolding HasPrefix_prefix by (auto simp: prefix_def)
  then show ?thesis unfolding Let_def q using t by auto
qed

section \<open>Properties\<close>

text \<open>
  C11. The guard reviews a closed vocabulary: a request to the service's own group reaches the
  delegate only as one of the two discovery documents or as a resource request for a permission of
  the vocabulary at the group's version with no name, namespace or subresource; everything else of
  the group is denied without asking the delegate, and nothing of the group is ever allowed unless
  the delegate allowed it. Requests outside the group are passed through unchanged.
\<close>

theorem guard_closed_vocabulary:
  "guard_Authorize g ctx None cnt = ((DecisionDeny, ''no attributes to authorize'', None), cnt) \<and>
   (if \<not> ours a then guard_Authorize g ctx (Some a) cnt = (g_delegate g ctx a, cnt)
    else if forwarded a
    then fst (guard_Authorize g ctx (Some a) cnt) = g_delegate g ctx a \<and>
      (a_Path a \<in> set discoveryPaths \<and> \<not> a_IsResourceRequest a \<or>
       a_IsResourceRequest a \<and> a_APIGroup a = APIGroup \<and> a_APIVersion a = APIVersion \<and>
       a_Subresource a = [] \<and> a_Name a = [] \<and> a_Namespace a = [] \<and>
       Known \<lparr>p_Resource = a_Resource a, p_Verb = a_Verb a\<rparr> \<and>
       snd (guard_Authorize g ctx (Some a) cnt) =
         cnt @ [(a_Resource a, a_Verb a, outcome (fst (g_delegate g ctx a)) (snd (snd (g_delegate g ctx a))))])
    else fst (fst (guard_Authorize g ctx (Some a) cnt)) = DecisionDeny \<and>
      length (snd (guard_Authorize g ctx (Some a) cnt)) = Suc (length cnt) \<and>
      fst (guard_Authorize g ctx (Some a) cnt) = fst (guard_Authorize g' ctx (Some a) cnt))"
proof -
  have "guard_Authorize g ctx None cnt = ((DecisionDeny, ''no attributes to authorize'', None), cnt)"
    by (simp add: guard_Authorize_def)
  moreover have "guard_Authorize g ctx (Some a) cnt = (g_delegate g ctx a, cnt)" if "\<not> ours a"
    using that by (simp add: guard_Authorize_def)
  moreover have "a_Path a \<in> set discoveryPaths \<and> \<not> a_IsResourceRequest a \<or>
       a_IsResourceRequest a \<and> a_APIGroup a = APIGroup \<and> a_APIVersion a = APIVersion \<and>
       a_Subresource a = [] \<and> a_Name a = [] \<and> a_Namespace a = [] \<and>
       Known \<lparr>p_Resource = a_Resource a, p_Verb = a_Verb a\<rparr> \<and>
       snd (guard_Authorize g ctx (Some a) cnt) =
         cnt @ [(a_Resource a, a_Verb a, outcome (fst (g_delegate g ctx a)) (snd (snd (g_delegate g ctx a))))]"
    if "ours a" "forwarded a"
  proof (cases "a_IsResourceRequest a")
    case True
    with that obtain p where p: "permissionFor (Some a) = Some p" by (auto simp: forwarded_def)
    with guard_known [OF that(1) p, of g ctx cnt] show ?thesis by (auto simp: permissionFor_Some)
  qed (use that in \<open>auto simp: forwarded_def permissionFor_def\<close>)
  moreover have "length (snd (guard_Authorize g ctx (Some a) cnt)) = Suc (length cnt)"
    if "ours a" "\<not> forwarded a"
    using that by (auto simp: forwarded_def guard_Authorize_def)
  ultimately show ?thesis by (auto simp: guard_forwarded)
qed

text \<open>
  C12. A list of always-allow paths that passes validation cannot open any path of the service's own
  group, exact entries and star prefixes alike.
\<close>

theorem always_allow_paths_safe:
  assumes "ValidateAlwaysAllowPaths paths = None" "HasPrefix path GroupPrefix"
  shows "\<not> (\<exists>entry \<in> set paths. always_allows entry path)"
  using assms always_allow_rejected [of path] unfolding ValidateAlwaysAllowPaths_def find_None_iff
  by blast

theorem always_allow_paths_safe_witness:
  "ValidateAlwaysAllowPaths [''/healthz'', ''/livez*'', ''metrics''] = None \<and>
   \<not> always_allows ''/livez*'' ''/apis/o11y.miloapis.com/v1alpha1/logs/loki/api/v1/query''"
proof -
  have v: "ValidateAlwaysAllowPaths [''/healthz'', ''/livez*'', ''metrics''] = None" by code_simp
  have "HasPrefix ''/apis/o11y.miloapis.com/v1alpha1/logs/loki/api/v1/query'' GroupPrefix" by code_simp
  from always_allow_paths_safe [OF v this] v show ?thesis by simp
qed

end
