(* ===== verification/Routes.thy ===== *)
theory Routes
  imports Authz
begin

text \<open>
  The route table of the query API (queryapi/routes.go): what is served, with which permission, the
  request-info resolver built on the same table, and the rewriting of short paths. \<^verbatim>\<open>net/url\<close> and
  \<^verbatim>\<open>http.ServeMux\<close> are modelled as far as the table uses them: methods, literal segments and
  single-segment wildcards, matched on the cleaned escaped path.
\<close>

section \<open>Requests and their paths\<close>

record Request =
  rq_Method :: string
  rq_Path :: string
  rq_RawPath :: string
  rq_Query :: "string \<Rightarrow> string list"

definition unreserved :: "char \<Rightarrow> bool" where
  "unreserved c \<longleftrightarrow>
     char_in CHR ''a'' CHR ''z'' c \<or> char_in CHR ''A'' CHR ''Z'' c \<or> is_digit c \<or> c \<in> set ''-_.~''"

definition path_char :: "char \<Rightarrow> bool" where
  "path_char c \<longleftrightarrow> unreserved c \<or> c \<in> set ''$&+,/:;=@''"

definition upperhex :: "nat \<Rightarrow> char" where
  "upperhex n = (if n < 10 then char_of (48 + n) else char_of (55 + n))"

definition escape_path :: "string \<Rightarrow> string" where
  "escape_path s =
     concat (map (\<lambda>c. if path_char c then [c]
                       else [CHR ''%'', upperhex (of_char c div 16), upperhex (of_char c mod 16)]) s)"

definition hex_value :: "char \<Rightarrow> nat option" where
  "hex_value c =
     (if is_digit c then Some (of_char c - 48)
      else if char_in CHR ''a'' CHR ''f'' c then Some (of_char c - 87)
      else if char_in CHR ''A'' CHR ''F'' c then Some (of_char c - 55)
      else None)"

fun unescape_path :: "string \<Rightarrow> string option" where
  "unescape_path [] = Some []"
| "unescape_path (c # s) =
     (if c = CHR ''%'' then
        (case s of
           h # l # t \<Rightarrow>
             (case (hex_value h, hex_value l, unescape_path t) of
                (Some x, Some y, Some u) \<Rightarrow> Some (char_of (16 * x + y) # u)
              | _ \<Rightarrow> None)
         | _ \<Rightarrow> None)
      else map_option ((#) c) (unescape_path s))"

definition validEncoded :: "string \<Rightarrow> bool" where
  "validEncoded s \<longleftrightarrow> list_all (\<lambda>c. c \<in> set (CHR 0x27 # ''!$&()*+,;=:@[]%'') \<or> path_char c) s"

definition EscapedPath :: "Request \<Rightarrow> string" where
  "EscapedPath r =
     (if rq_RawPath r \<noteq> [] \<and> validEncoded (rq_RawPath r) \<and> unescape_path (rq_RawPath r) = Some (rq_Path r)
      then rq_RawPath r
      else if rq_Path r = ''*'' then ''*''
      else escape_path (rq_Path r))"

text \<open>\<^verbatim>\<open>path.Clean\<close> of a rooted path, and the \<^verbatim>\<open>cleanPath\<close> of \<^verbatim>\<open>http.ServeMux\<close>.\<close>

fun clean_segs :: "string list \<Rightarrow> string list \<Rightarrow> string list" where
  "clean_segs out [] = out"
| "clean_segs out (w # ws) =
     (if w = [] \<or> w = ''.'' then clean_segs out ws
      else if w = ''..'' then clean_segs (butlast out) ws
      else clean_segs (out @ [w]) ws)"

definition path_Clean :: "string \<Rightarrow> string" where
  "path_Clean p = ''/'' @ JoinStr (clean_segs [] (SplitChar CHR ''/'' p)) ''/''"

definition cleanPath :: "string \<Rightarrow> string" where
  "cleanPath p =
     (if p = [] then ''/''
      else let q = (if hd p = CHR ''/'' then p else CHR ''/'' # p); np = path_Clean q in
           if last q = CHR ''/'' \<and> np \<noteq> ''/'' then np @ ''/'' else np)"

text \<open>
  The segments a pattern is matched against, each unescaped on its own; a trailing slash is the
  segment \<^verbatim>\<open>/\<close>, which no wildcard matches.
\<close>

definition pathUnescape :: "string \<Rightarrow> string" where
  "pathUnescape s = (case unescape_path s of Some u \<Rightarrow> u | None \<Rightarrow> s)"

definition match_segs :: "string \<Rightarrow> string list" where
  "match_segs p =
     (let ws = SplitChar CHR ''/'' (drop 1 p) in
      if last ws = [] then map pathUnescape (butlast ws) @ [''/''] else map pathUnescape ws)"

section \<open>The table\<close>

abbreviation APIPrefix :: string where "APIPrefix \<equiv> ''/apis/'' @ APIGroup @ ''/'' @ APIVersion"

datatype endpoint =
    lokiQuery | lokiQueryRange | lokiLabelNames | lokiLabelValues | lokiSeries
  | promQuery | promQueryRange | promLabelNames | promLabelValues | promSeries

datatype seg = Lit string | Wild

record route =
  rt_method :: string
  rt_path :: "seg list"
  rt_permission :: Permission
  rt_handler :: endpoint

text \<open>A pattern's path as text: \<^verbatim>\<open>{name}\<close> is the only wildcard of the table.\<close>

definition pattern_segs :: "string \<Rightarrow> seg list" where
  "pattern_segs p = map (\<lambda>w. if w = ''{name}'' then Wild else Lit w) (SplitChar CHR ''/'' (drop 1 p))"

definition mk_route :: "string \<Rightarrow> string \<Rightarrow> string \<Rightarrow> string \<Rightarrow> endpoint \<Rightarrow> route" where
  "mk_route m p res vb h =
     \<lparr>rt_method = m, rt_path = pattern_segs (APIPrefix @ p),
      rt_permission = \<lparr>p_Resource = res, p_Verb = vb\<rparr>, rt_handler = h\<rparr>"

definition routes :: "route list" where
  "routes =
     [mk_route ''GET'' ''/logs/loki/api/v1/query'' ''logs'' ''query'' lokiQuery,
      mk_route ''GET'' ''/logs/loki/api/v1/query_range'' ''logs'' ''query'' lokiQueryRange,
      mk_route ''GET'' ''/logs/loki/api/v1/labels'' ''logs'' ''getLabels'' lokiLabelNames,
      mk_route ''GET'' ''/logs/loki/api/v1/label/{name}/values'' ''logs'' ''getLabels'' lokiLabelValues,
      mk_route ''GET'' ''/logs/loki/api/v1/series'' ''logs'' ''getSeries'' lokiSeries,
      mk_route ''POST'' ''/metrics/api/v1/query'' ''metrics'' ''query'' promQuery,
      mk_route ''POST'' ''/metrics/api/v1/query_range'' ''metrics'' ''query'' promQueryRange,
      mk_route ''GET'' ''/metrics/api/v1/labels'' ''metrics'' ''getLabels'' promLabelNames,
      mk_route ''GET'' ''/metrics/api/v1/label/{name}/values'' ''metrics'' ''getLabels'' promLabelValues,
      mk_route ''GET'' ''/metrics/api/v1/series'' ''metrics'' ''getSeries'' promSeries]"

text \<open>\<^verbatim>\<open>newRouter\<close> refuses a table with an unknown permission.\<close>

definition newRouter :: "route list \<Rightarrow> route + route list" where
  "newRouter rts = (case find (\<lambda>rt. \<not> Known (rt_permission rt)) rts of Some rt \<Rightarrow> Inl rt | None \<Rightarrow> Inr rts)"

fun segs_match :: "seg list \<Rightarrow> string list \<Rightarrow> bool" where
  "segs_match [] [] \<longleftrightarrow> True"
| "segs_match (Lit l # ps) (w # ws) \<longleftrightarrow> w = l \<and> segs_match ps ws"
| "segs_match (Wild # ps) (w # ws) \<longleftrightarrow> w \<noteq> ''/'' \<and> segs_match ps ws"
| "segs_match _ _ \<longleftrightarrow> False"

definition route_matches :: "string \<Rightarrow> string \<Rightarrow> route \<Rightarrow> bool" where
  "route_matches m path rt \<longleftrightarrow>
     (m = rt_method rt \<or> m = ''HEAD'' \<and> rt_method rt = ''GET'') \<and> segs_match (rt_path rt) (match_segs path)"

text \<open>
  \<^verbatim>\<open>ServeMux.Handler\<close>: the handler that serves the request and the pattern it reports. A path that
  is not in clean form is answered with a redirect, under the pattern its clean form has.
\<close>

datatype mux_result = Serve route | Redirect "route option" | NoRoute

definition mux_Handler :: "route list \<Rightarrow> Request \<Rightarrow> mux_result" where
  "mux_Handler rts r =
     (if rq_Method r = ''CONNECT'' then
        (case find (route_matches ''CONNECT'' (EscapedPath r)) rts of Some rt \<Rightarrow> Serve rt | None \<Rightarrow> NoRoute)
      else
        let n = find (route_matches (rq_Method r) (cleanPath (EscapedPath r))) rts in
        if cleanPath (EscapedPath r) \<noteq> EscapedPath r then Redirect n
        else (case n of Some rt \<Rightarrow> Serve rt | None \<Rightarrow> NoRoute))"

definition mux_pattern :: "mux_result \<Rightarrow> route option" where
  "mux_pattern m = (case m of Serve rt \<Rightarrow> Some rt | Redirect n \<Rightarrow> n | NoRoute \<Rightarrow> None)"

section \<open>The request-info resolver\<close>

record RequestInfo =
  ri_IsResourceRequest :: bool
  ri_Path :: string
  ri_Verb :: string
  ri_APIPrefix :: string
  ri_APIGroup :: string
  ri_APIVersion :: string
  ri_Resource :: string

definition to_lower :: "string \<Rightarrow> string" where
  "to_lower s = map (\<lambda>c. if char_in CHR ''A'' CHR ''Z'' c then char_of (of_char c + 32 :: nat) else c) s"

definition in_group :: "string \<Rightarrow> bool" where
  "in_group path \<longleftrightarrow> path = GroupPrefix \<or> HasPrefix path (GroupPrefix @ ''/'')"

definition NewRequestInfo :: "route list \<Rightarrow> (Request \<Rightarrow> string + RequestInfo) \<Rightarrow> Request \<Rightarrow> string + RequestInfo" where
  "NewRequestInfo rts fallback r =
     (if \<not> in_group (rq_Path r) then fallback r
      else case mux_pattern (mux_Handler rts r) of
        Some rt \<Rightarrow>
          Inr \<lparr>ri_IsResourceRequest = True, ri_Path = rq_Path r, ri_Verb = p_Verb (rt_permission rt),
               ri_APIPrefix = ''apis'', ri_APIGroup = APIGroup, ri_APIVersion = APIVersion,
               ri_Resource = p_Resource (rt_permission rt)\<rparr>
      | None \<Rightarrow>
          Inr \<lparr>ri_IsResourceRequest = False, ri_Path = rq_Path r, ri_Verb = to_lower (rq_Method r),
               ri_APIPrefix = [], ri_APIGroup = [], ri_APIVersion = [], ri_Resource = []\<rparr>)"

section \<open>Canonical paths\<close>

definition canonicalPath :: "string \<Rightarrow> string" where
  "canonicalPath path =
     (let segs = SplitChar CHR ''/'' (TrimPrefix path ''/'') in
      if take 3 segs = [''loki'', ''api'', ''v1'']
      then ''/'' @ JoinStr ([''apis'', APIGroup, APIVersion, ''logs''] @ segs) ''/''
      else if take 2 segs = [APIVersion, ''logs''] \<or> take 2 segs = [APIVersion, ''metrics'']
      then ''/'' @ JoinStr ([''apis'', APIGroup] @ segs) ''/''
      else path)"

definition withCanonicalPaths :: "(Request \<Rightarrow> 'r) \<Rightarrow> Request \<Rightarrow> 'r" where
  "withCanonicalPaths next r =
     (let path = canonicalPath (rq_Path r) in
      if path = rq_Path r then next r else next (r\<lparr>rq_Path := path, rq_RawPath := []\<rparr>))"

section \<open>Lemmas\<close>

lemma routes_Known: "\<forall>rt \<in> set routes. Known (rt_permission rt)"
  by code_simp

lemma mux_pattern_route: "mux_pattern (mux_Handler rts r) = Some rt \<Longrightarrow> rt \<in> set rts"
  by (auto simp: mux_pattern_def mux_Handler_def Let_def find_Some_iff split: if_splits option.splits)

lemma mux_Serve_matches:
  "mux_Handler rts r = Serve rt \<Longrightarrow> rt \<in> set rts \<and> route_matches (rq_Method r) (EscapedPath r) rt"
  by (auto simp: mux_Handler_def Let_def find_Some_iff split: if_splits option.splits)

lemma in_group_APIPrefix: "HasPrefix path (APIPrefix @ ''/'') \<Longrightarrow> in_group path"
  unfolding in_group_def HasPrefix_prefix by (auto simp: prefix_def)

text \<open>The framework copies a request info into the attributes it authorizes.\<close>

definition copies_info :: "(RequestInfo \<Rightarrow> Attributes) \<Rightarrow> bool" where
  "copies_info attrs \<longleftrightarrow>
     (\<forall>i. attrs i = \<lparr>a_IsResourceRequest = ri_IsResourceRequest i, a_APIGroup = ri_APIGroup i,
        a_APIVersion = ri_APIVersion i, a_Resource = ri_Resource i, a_Subresource = [], a_Name = [],
        a_Namespace = [], a_Verb = ri_Verb i, a_Path = ri_Path i\<rparr>)"

lemma mapped_forwarded:
  assumes "copies_info attrs" "in_group (rq_Path r)" "mux_pattern (mux_Handler routes r) = Some rt"
    "NewRequestInfo routes fb r = Inr i"
  shows "permissionFor (Some (attrs i)) = Some (rt_permission rt) \<and> ours (attrs i)"
proof -
  have "Known (rt_permission rt)" using routes_Known mux_pattern_route [OF assms(3)] by blast
  with assms show ?thesis
    by (auto simp: NewRequestInfo_def copies_info_def permissionFor_Some ours_def)
qed

lemma unmapped_not_resource:
  assumes "copies_info attrs" "in_group (rq_Path r)" "mux_pattern (mux_Handler routes r) = None"
    "NewRequestInfo routes fb r = Inr i"
  shows "\<not> a_IsResourceRequest (attrs i) \<and> ours (attrs i) \<and> a_Path (attrs i) = rq_Path r"
  using assms by (auto simp: NewRequestInfo_def copies_info_def ours_def in_group_def)

section \<open>Canonical paths\<close>

lemma take_hd: "take (Suc n) ws = x # xs \<Longrightarrow> \<exists>t. ws = x # t \<and> take n t = xs"
  by (cases ws) auto

lemma slash_free:
  "CHR ''/'' \<notin> set ''apis''" "CHR ''/'' \<notin> set APIGroup" "CHR ''/'' \<notin> set APIVersion" "CHR ''/'' \<notin> set ''logs''"
  by simp_all

lemma Split_Join_prefix:
  assumes "\<forall>w \<in> set pre. CHR ''/'' \<notin> set w"
  shows "SplitChar CHR ''/'' (JoinStr (pre @ SplitChar CHR ''/'' s) ''/'') = pre @ SplitChar CHR ''/'' s"
  using assms by (intro SplitChar_JoinStr) (auto dest: SplitChar_notin)

lemma canonicalPath_default:
  assumes "hd (SplitChar CHR ''/'' (TrimPrefix path ''/'')) = ''apis''"
  shows "canonicalPath path = path"
  using assms by (cases "SplitChar CHR ''/'' (TrimPrefix path ''/'')") (auto simp: canonicalPath_def)

lemma canonical_form:
  assumes "\<forall>w \<in> set pre. CHR ''/'' \<notin> set w" "pre \<noteq> []" "hd pre = ''apis''"
  shows "canonicalPath (''/'' @ JoinStr (pre @ SplitChar CHR ''/'' s) ''/'') =
    ''/'' @ JoinStr (pre @ SplitChar CHR ''/'' s) ''/''"
  using Split_Join_prefix [OF assms(1), of s] assms(2,3)
  by (intro canonicalPath_default) (simp add: TrimPrefix_def)

lemma canonicalPath_cases:
  obtains (loki) "canonicalPath path =
      ''/'' @ JoinStr ([''apis'', APIGroup, APIVersion, ''logs''] @ SplitChar CHR ''/'' (TrimPrefix path ''/'')) ''/''"
  | (short) "canonicalPath path =
      ''/'' @ JoinStr ([''apis'', APIGroup] @ SplitChar CHR ''/'' (TrimPrefix path ''/'')) ''/''"
  | (same) "canonicalPath path = path"
  unfolding canonicalPath_def Let_def by presburger

lemma canonicalPath_idem: "canonicalPath (canonicalPath path) = canonicalPath path"
proof (cases rule: canonicalPath_cases [of path])
  case loki
  then show ?thesis
    using canonical_form [of "[''apis'', APIGroup, APIVersion, ''logs'']"] slash_free by simp
next
  case short
  then show ?thesis using canonical_form [of "[''apis'', APIGroup]"] slash_free by simp
qed simp

lemma JoinStr_append:
  "ys \<noteq> [] \<Longrightarrow> JoinStr (xs @ ys) sep = concat (map (\<lambda>x. x @ sep) xs) @ JoinStr ys sep"
  by (induction xs) (auto simp: JoinStr_Cons)

lemma canonicalPath_text:
  "canonicalPath path = path \<or>
   canonicalPath path = APIPrefix @ ''/logs/'' @ TrimPrefix path ''/'' \<or>
   canonicalPath path = GroupPrefix @ ''/'' @ TrimPrefix path ''/''"
proof (cases rule: canonicalPath_cases [of path])
  case loki
  then have "canonicalPath path = APIPrefix @ ''/logs/'' @ TrimPrefix path ''/''"
    unfolding JoinStr_append [OF SplitChar_nonempty] by simp
  then show ?thesis by blast
next
  case short
  then have "canonicalPath path = GroupPrefix @ ''/'' @ TrimPrefix path ''/''"
    unfolding JoinStr_append [OF SplitChar_nonempty] by simp
  then show ?thesis by blast
qed simp

section \<open>Properties\<close>

text \<open>
  C13. The permission that is reviewed belongs to the handler that runs: under the service's own
  group, when the tenant mux serves a request with a route, the guard forwards that request and the
  delegate is asked about exactly that route's resource and verb, a known permission; when no route
  matches, a path that is not a discovery document is denied whatever the delegate would say.
\<close>

theorem reviewed_route_is_served_route:
  assumes "copies_info attrs" "in_group (rq_Path r)" "NewRequestInfo routes fb r = Inr i"
  shows "(\<forall>rt. mux_Handler routes r = Serve rt \<longrightarrow>
            fst (guard_Authorize g ctx (Some (attrs i)) cnt) = g_delegate g ctx (attrs i) \<and>
            a_Resource (attrs i) = p_Resource (rt_permission rt) \<and>
            a_Verb (attrs i) = p_Verb (rt_permission rt) \<and> a_IsResourceRequest (attrs i) \<and>
            Known (rt_permission rt)) \<and>
         (mux_Handler routes r = NoRoute \<longrightarrow> rq_Path r \<notin> set discoveryPaths \<longrightarrow>
            fst (fst (guard_Authorize g ctx (Some (attrs i)) cnt)) = DecisionDeny)"
proof (intro conjI allI impI)
  fix rt assume "mux_Handler routes r = Serve rt"
  then have p: "mux_pattern (mux_Handler routes r) = Some rt" by (simp add: mux_pattern_def)
  from mapped_forwarded [OF assms(1,2) p assms(3)]
  have f: "permissionFor (Some (attrs i)) = Some (rt_permission rt)" by blast
  then show "fst (guard_Authorize g ctx (Some (attrs i)) cnt) = g_delegate g ctx (attrs i)"
    by (simp add: guard_forwarded forwarded_def)
  from f show "a_Resource (attrs i) = p_Resource (rt_permission rt)"
    "a_Verb (attrs i) = p_Verb (rt_permission rt)" "a_IsResourceRequest (attrs i)" "Known (rt_permission rt)"
    by (auto simp: permissionFor_Some)
next
  assume "mux_Handler routes r = NoRoute" and d: "rq_Path r \<notin> set discoveryPaths"
  then have p: "mux_pattern (mux_Handler routes r) = None" by (simp add: mux_pattern_def)
  from unmapped_not_resource [OF assms(1,2) p assms(3)] d
  have "\<not> forwarded (attrs i)" by (auto simp: forwarded_def permissionFor_def)
  then show "fst (fst (guard_Authorize g ctx (Some (attrs i)) cnt)) = DecisionDeny"
    by (simp add: guard_forwarded)
qed

definition copy_info :: "RequestInfo \<Rightarrow> Attributes" where
  "copy_info i = \<lparr>a_IsResourceRequest = ri_IsResourceRequest i, a_APIGroup = ri_APIGroup i,
     a_APIVersion = ri_APIVersion i, a_Resource = ri_Resource i, a_Subresource = [], a_Name = [],
     a_Namespace = [], a_Verb = ri_Verb i, a_Path = ri_Path i\<rparr>"

definition example_request :: "string \<Rightarrow> Request" where
  "example_request p = \<lparr>rq_Method = ''GET'', rq_Path = p, rq_RawPath = [], rq_Query = (\<lambda>_. [])\<rparr>"

theorem reviewed_route_is_served_route_witness:
  "\<exists>i. NewRequestInfo routes (\<lambda>_. Inl [])
         (example_request (APIPrefix @ ''/logs/loki/api/v1/label/pod/values'')) = Inr i \<and>
       fst (guard_Authorize \<lparr>g_delegate = (\<lambda>_ a. (DecisionAllow, a_Verb a, None))\<rparr>
         \<lparr>ctx_User = None, ctx_Project = None\<rparr> (Some (copy_info i)) []) = (DecisionAllow, ''getLabels'', None)"
  (is "\<exists>i. NewRequestInfo routes ?fb ?r = Inr i \<and> fst (guard_Authorize ?g ?ctx _ []) = _")
proof -
  have c: "copies_info copy_info" by (simp add: copies_info_def copy_info_def)
  have g: "in_group (rq_Path ?r)" by code_simp
  have s: "mux_Handler routes ?r =
    Serve (mk_route ''GET'' ''/logs/loki/api/v1/label/{name}/values'' ''logs'' ''getLabels'' lokiLabelValues)"
    by code_simp
  obtain i where i: "NewRequestInfo routes ?fb ?r = Inr i"
    using g s by (simp add: NewRequestInfo_def mux_pattern_def)
  from reviewed_route_is_served_route [OF c g i, of ?g ?ctx "[]"] s i show ?thesis
    by (auto simp: mk_route_def)
qed

text \<open>
  Rewriting to the canonical path is idempotent, only ever puts the group's own prefix in front
  of the path as it was, and leaves every path that already starts with \<^verbatim>\<open>apis\<close> alone, so one path
  is matched, reviewed and served however often it is applied.
\<close>

theorem canonical_path_stable:
  "canonicalPath (canonicalPath path) = canonicalPath path \<and>
   (canonicalPath path = path \<or>
    canonicalPath path = APIPrefix @ ''/logs/'' @ TrimPrefix path ''/'' \<or>
    canonicalPath path = GroupPrefix @ ''/'' @ TrimPrefix path ''/'') \<and>
   canonicalPath (''/apis/'' @ path) = ''/apis/'' @ path \<and>
   withCanonicalPaths (withCanonicalPaths next) r = withCanonicalPaths next r"
proof -
  have "canonicalPath (''/apis/'' @ path) = ''/apis/'' @ path"
    using SplitChar_append [of "CHR ''/''" "''apis''" path]
    by (intro canonicalPath_default) (simp add: TrimPrefix_def)
  moreover have "withCanonicalPaths (withCanonicalPaths next) r = withCanonicalPaths next r"
    by (simp add: withCanonicalPaths_def Let_def canonicalPath_idem)
  ultimately show ?thesis using canonicalPath_idem canonicalPath_text by blast
qed

end
