(* ===== verification/FakeStore.thy ===== *)
theory FakeStore
  imports Loki MiloAuth Complex_Main
begin

text \<open>
  The synthetic log backend (queryapi/internal/storage/fake). Rows are a function of their tick, so
  the random source of a tick is a parameter: \<open>intn i k n\<close> is the \<open>k\<close>-th draw below \<open>n\<close> of the generator
  seeded for tick \<open>i\<close>, of which the code relies on nothing but \<open>intn i k n < n\<close>. The context's error at
  a tick is the parameter \<open>cerr\<close>. The lazy iterator is proved to be the filtered window it stands for.
\<close>

section \<open>The generator\<close>

record service =
  sv_name :: string
  sv_weight :: nat
  sv_resources :: "string list"

definition services :: "service list" where
  "services =
     [\<lparr>sv_name = ''envoy-gateway'', sv_weight = 55, sv_resources = [''gateway-us-east'', ''gateway-eu-west'']\<rparr>,
      \<lparr>sv_name = ''waf'', sv_weight = 20, sv_resources = [''gateway-us-east'', ''gateway-eu-west'']\<rparr>,
      \<lparr>sv_name = ''compute-workload'', sv_weight = 25, sv_resources = [''checkout-api'', ''payments-api'']\<rparr>]"

definition severities :: "(string \<times> nat) list" where
  "severities = [(''INFO'', 78), (''WARN'', 12), (''ERROR'', 8), (''DEBUG'', 2)]"

definition methods :: "string list" where
  "methods = [''GET'', ''POST'', ''PUT'', ''DELETE'']"
definition paths :: "string list" where
  "paths = [''/api/v1/checkout'', ''/api/v1/products'', ''/healthz'', ''/api/v1/payments'']"
definition statuses :: "nat list" where
  "statuses = [200, 201, 301, 400, 404, 429, 500, 503]"
definition wafRules :: "string list" where
  "wafRules = [''rule-942100-sqli'', ''rule-941100-xss'', ''rule-930100-lfi'']"
definition wafActions :: "string list" where
  "wafActions = [''blocked'', ''logged'']"
definition appEvents :: "string list" where
  "appEvents =
     [''order placed'', ''cache miss'', ''payment authorised'',
      ''upstream timeout'', ''retrying request'', ''worker started'']"

text \<open>The weighted choice \<^verbatim>\<open>pickService\<close> and \<^verbatim>\<open>pickSeverity\<close> make from one draw.\<close>

fun pick :: "('a \<Rightarrow> nat) \<Rightarrow> 'a list \<Rightarrow> nat \<Rightarrow> 'a option" where
  "pick weight [] n = None"
| "pick weight (s # ss) n = (if n < weight s then Some s else pick weight ss (n - weight s))"

definition pick_weighted :: "('a \<Rightarrow> nat) \<Rightarrow> 'a list \<Rightarrow> nat \<Rightarrow> 'a" where
  "pick_weighted weight ss n = (case pick weight ss n of Some s \<Rightarrow> s | None \<Rightarrow> last ss)"

definition pickService :: "(nat \<Rightarrow> nat \<Rightarrow> nat) \<Rightarrow> service" where
  "pickService draw = pick_weighted sv_weight services (draw 0 (sum_list (map sv_weight services)))"

definition pickSeverity :: "(nat \<Rightarrow> nat \<Rightarrow> nat) \<Rightarrow> string" where
  "pickSeverity draw = fst (pick_weighted snd severities (draw 1 (sum_list (map snd severities))))"

text \<open>The line of a row; draws 0 to 2 are taken, so the line's start at 3.\<close>

definition body :: "(nat \<Rightarrow> nat \<Rightarrow> nat) \<Rightarrow> string \<Rightarrow> string \<Rightarrow> string \<Rightarrow> string" where
  "body draw svc sev res =
     (if svc = ''envoy-gateway'' then
        methods ! draw 3 (length methods) @ '' '' @ paths ! draw 4 (length paths) @ '' '' @
        dec (statuses ! draw 5 (length statuses)) @ '' '' @ dec (draw 6 2000) @ ''ms upstream='' @ res
      else if svc = ''waf'' then
        wafActions ! draw 3 (length wafActions) @ '' request matched '' @ wafRules ! draw 4 (length wafRules) @
        '' client='' @ dec (draw 5 256) @ ''.'' @ dec (draw 6 256) @ ''.'' @ dec (draw 7 256) @ ''.'' @
        dec (draw 8 256) @ '' gateway='' @ res
      else sev @ '': '' @ appEvents ! draw 3 (length appEvents) @ '' service='' @ res)"

definition rowAt :: "(int \<Rightarrow> nat \<Rightarrow> nat \<Rightarrow> nat) \<Rightarrow> int \<Rightarrow> int \<Rightarrow> Row" where
  "rowAt intn i interval =
     (let draw = intn i; svc = pickService draw; sev = pickSeverity draw;
          res = sv_resources svc ! draw 2 (length (sv_resources svc)) in
      \<lparr>row_Timestamp = wrap64 (i * interval),
       row_Labels = [(''service_name'', sv_name svc), (''severity'', sev), (''resource_name'', res)],
       row_Line = body draw (sv_name svc) sev res\<rparr>)"

section \<open>Matching\<close>

text \<open>A panic on a nil expression is \<open>None\<close>.\<close>

fun all_match :: "('m \<Rightarrow> bool option) \<Rightarrow> 'm list \<Rightarrow> bool option" where
  "all_match f [] = Some True"
| "all_match f (m # ms) =
     (case f m of None \<Rightarrow> None | Some False \<Rightarrow> Some False | Some True \<Rightarrow> all_match f ms)"

definition label_value :: "LabelSet \<Rightarrow> string \<Rightarrow> string" where
  "label_value ls k = (case map_of ls k of Some v \<Rightarrow> v | None \<Rightarrow> [])"

definition matchesLabels :: "(string \<Rightarrow> string \<Rightarrow> bool) \<Rightarrow> LabelMatcher list \<Rightarrow> LabelSet \<Rightarrow> bool option" where
  "matchesLabels rxm ms ls = all_match (\<lambda>m. LabelMatcher_Matches rxm m (label_value ls (lm_Label m))) ms"

definition matchesLine :: "(string \<Rightarrow> string \<Rightarrow> bool) \<Rightarrow> LineFilter list \<Rightarrow> string \<Rightarrow> bool option" where
  "matchesLine rxm fs line = all_match (\<lambda>f. LineFilter_Matches rxm f line) fs"

text \<open>The condition of the iterator's loop, with \<^verbatim>\<open>||\<close> not looking at the line of a row whose labels fail.\<close>

definition row_matches :: "(string \<Rightarrow> string \<Rightarrow> bool) \<Rightarrow> LogQuery \<Rightarrow> Row \<Rightarrow> bool option" where
  "row_matches rxm q r =
     (case matchesLabels rxm (lq_Matchers q) (row_Labels r) of
        None \<Rightarrow> None
      | Some False \<Rightarrow> Some False
      | Some True \<Rightarrow> matchesLine rxm (lq_Filters q) (row_Line r))"

section \<open>The iterator\<close>

record iterator =
  fi_query :: LogQuery
  fi_interval :: int
  fi_next :: int
  fi_last :: int
  fi_step :: int
  fi_emitted :: int
  fi_current :: "Row option"
  fi_err :: "storage_error option"

definition ceilDiv :: "int \<Rightarrow> int \<Rightarrow> int" where
  "ceilDiv a b = (if go_mod a b > 0 then go_div a b + 1 else go_div a b)"

definition newIterator :: "int \<Rightarrow> LogQuery \<Rightarrow> iterator" where
  "newIterator interval q =
     (let first = ceilDiv (UnixNano (tr_Start (lq_Range q))) interval;
          final = go_div (wrap64 (UnixNano (tr_End (lq_Range q)) - 1)) interval;
          fwd = (lq_Direction q = DirectionForward) in
      \<lparr>fi_query = q, fi_interval = interval,
       fi_next = (if fwd then first else final), fi_last = (if fwd then final else first),
       fi_step = (if fwd then 1 else -1), fi_emitted = 0, fi_current = None, fi_err = None\<rparr>)"

definition inRange :: "iterator \<Rightarrow> bool" where
  "inRange it = (if fi_step it > 0 then fi_next it \<le> fi_last it else fi_next it \<ge> fi_last it)"

text \<open>
  The search for the next row that matches. Its step is 1 or -1 in every iterator the package
  builds; the model stops the search on a step of 0, which would not move. The counter is a 64-bit
  integer in the code; that it never leaves 64 bits on the ticks of a new iterator is part of C17. A panic while matching
  ends the request and is reported as the error \<open>NilPanic\<close>.
\<close>

function fake_search ::
  "(int \<Rightarrow> nat \<Rightarrow> nat \<Rightarrow> nat) \<Rightarrow> (string \<Rightarrow> string \<Rightarrow> bool) \<Rightarrow> (int \<Rightarrow> storage_error option) \<Rightarrow>
   iterator \<Rightarrow> bool \<times> iterator" where
  "fake_search intn rxm cerr it =
     (if \<not> inRange it \<or> fi_step it = 0 then (False, it)
      else case cerr (fi_next it) of
        Some e \<Rightarrow> (False, it\<lparr>fi_err := Some e\<rparr>)
      | None \<Rightarrow>
          let r = rowAt intn (fi_next it) (fi_interval it);
              it' = it\<lparr>fi_next := fi_next it + fi_step it\<rparr> in
          (case row_matches rxm (fi_query it) r of
             None \<Rightarrow> (False, it'\<lparr>fi_err := Some NilPanic\<rparr>)
           | Some m \<Rightarrow>
               if m then (True, it'\<lparr>fi_current := Some r, fi_emitted := fi_emitted it + 1\<rparr>)
               else fake_search intn rxm cerr it'))"
  by pat_completeness auto
termination
  by (relation "measure (\<lambda>(intn, rxm, cerr, it).
        nat (if fi_step it > 0 then fi_last it - fi_next it + 1 else fi_next it - fi_last it + 1))")
    (auto simp: inRange_def split: if_splits)

declare fake_search.simps [simp del]

definition fake_Next ::
  "(int \<Rightarrow> nat \<Rightarrow> nat \<Rightarrow> nat) \<Rightarrow> (string \<Rightarrow> string \<Rightarrow> bool) \<Rightarrow> (int \<Rightarrow> storage_error option) \<Rightarrow>
   iterator \<Rightarrow> bool \<times> iterator" where
  "fake_Next intn rxm cerr it =
     (if fi_err it \<noteq> None \<or> lq_Limit (fi_query it) > 0 \<and> fi_emitted it \<ge> lq_Limit (fi_query it)
      then (False, it) else fake_search intn rxm cerr it)"

definition fake_Row :: "iterator \<Rightarrow> Row" where
  "fake_Row it =
     (case fi_current it of Some r \<Rightarrow> r | None \<Rightarrow> \<lparr>row_Timestamp = zero_time, row_Labels = [], row_Line = []\<rparr>)"

definition fake_Close :: "iterator \<Rightarrow> storage_error option" where
  "fake_Close it = None"

section \<open>The store\<close>

text \<open>
  The interval between two lines, in nanoseconds. A 64-bit float is an exact rational or one of the
  special values; \<open>rnd\<close> rounds a quotient to a float, and \<open>cvt\<close> is what the platform makes of a float that no 64-bit
  integer is near.
\<close>

datatype float64 = Finite rat | PosInf | NegInf | NaN

fun float_not_positive :: "float64 \<Rightarrow> bool" where
  "float_not_positive (Finite q) = (q \<le> 0)"
| "float_not_positive NegInf = True"
| "float_not_positive _ = False"

fun float_over :: "(rat \<Rightarrow> float64) \<Rightarrow> rat \<Rightarrow> float64 \<Rightarrow> float64" where
  "float_over rnd x (Finite q) = rnd (x / q)"
| "float_over rnd x NaN = NaN"
| "float_over rnd x _ = Finite 0"

definition float_to_int64 :: "(float64 \<Rightarrow> int) \<Rightarrow> float64 \<Rightarrow> int" where
  "float_to_int64 cvt f =
     (case f of
        Finite q \<Rightarrow> let n = (if 0 \<le> q then \<lfloor>q\<rfloor> else \<lceil>q\<rceil>) in if int64 n then n else cvt f
      | _ \<Rightarrow> cvt f)"

definition NewLogStore :: "(rat \<Rightarrow> float64) \<Rightarrow> (float64 \<Rightarrow> int) \<Rightarrow> float64 \<Rightarrow> int" where
  "NewLogStore rnd cvt ratePerSecond =
     (let rate = (if float_not_positive ratePerSecond then Finite 1 else ratePerSecond) in
      float_to_int64 cvt (float_over rnd 1000000000 rate))"

text \<open>
  A rate up to a thousand million a second gives a positive interval, as the iterator needs; above it, where the
  quotient rounds below 1, the interval is zero.
\<close>

lemma NewLogStore_positive:
  assumes "0 < q" "rnd (1000000000 / q) = Finite v" "0 \<le> v" "v < 2 ^ 63"
  shows "NewLogStore rnd cvt (Finite q) = \<lfloor>v\<rfloor>" "0 < NewLogStore rnd cvt (Finite q) \<longleftrightarrow> 1 \<le> v"
proof -
  have "\<lfloor>v\<rfloor> < 2 ^ 63" using assms(4) by (simp add: floor_less_iff)
  then have "int64 \<lfloor>v\<rfloor>" using assms(3) by (simp add: int64_def le_floor_iff)
  then show "NewLogStore rnd cvt (Finite q) = \<lfloor>v\<rfloor>"
    using assms(1-3) by (simp add: NewLogStore_def float_to_int64_def)
  then show "0 < NewLogStore rnd cvt (Finite q) \<longleftrightarrow> 1 \<le> v" by simp
qed

definition with_project :: "Context \<Rightarrow> storage_error + 'a \<Rightarrow> storage_error + 'a" where
  "with_project ctx r = (case ProjectID ctx of None \<Rightarrow> Inl ErrNoProject | Some _ \<Rightarrow> r)"

definition fake_QueryLogs :: "int \<Rightarrow> Context \<Rightarrow> LogQuery \<Rightarrow> storage_error + iterator" where
  "fake_QueryLogs interval ctx q =
     with_project ctx (if lq_Limit q \<le> 0 then Inl ErrInvalidLimit else Inr (newIterator interval q))"

definition catalogue :: "LabelSet list" where
  "catalogue =
     concat (map (\<lambda>svc. concat (map (\<lambda>sev. map (\<lambda>res.
       [(''service_name'', sv_name svc), (''severity'', fst sev), (''resource_name'', res),
        (Sanitize ''k8s.node.name'', ''edge-'' @ res)]) (sv_resources svc)) severities)) services)"

definition fake_LabelNames :: "Context \<Rightarrow> TimeRange \<Rightarrow> storage_error + string list" where
  "fake_LabelNames ctx tr =
     with_project ctx (Inr (sort_strings (remdups (concat (map (map fst) catalogue)))))"

definition fake_LabelValues :: "Context \<Rightarrow> string \<Rightarrow> TimeRange \<Rightarrow> storage_error + string list" where
  "fake_LabelValues ctx label tr =
     with_project ctx (Inr (sort_strings (remdups (List.map_filter (\<lambda>ls. map_of ls label) catalogue))))"

definition fake_Series ::
  "(string \<Rightarrow> string \<Rightarrow> bool) \<Rightarrow> Context \<Rightarrow> LabelMatcher list \<Rightarrow> TimeRange \<Rightarrow> storage_error + LabelSet list" where
  "fake_Series rxm ctx ms tr =
     with_project ctx
       (if \<exists>ls \<in> set catalogue. matchesLabels rxm ms ls = None then Inl NilPanic
        else Inr (filter (\<lambda>ls. matchesLabels rxm ms ls = Some True) catalogue))"

section \<open>The window an iterator stands for\<close>

definition ticks :: "iterator \<Rightarrow> int list" where
  "ticks it = (if fi_step it > 0 then [fi_next it..fi_last it] else rev [fi_last it..fi_next it])"

lemma ticks_Nil: "\<not> inRange it \<Longrightarrow> ticks it = []"
  by (auto simp: ticks_def inRange_def)

lemma ticks_Cons:
  assumes "inRange it" "\<bar>fi_step it\<bar> = 1"
  shows "ticks it = fi_next it # ticks (it\<lparr>fi_next := fi_next it + fi_step it\<rparr>)"
proof (cases "fi_step it > 0")
  case True
  with assms show ?thesis by (simp add: ticks_def inRange_def upto_rec1)
next
  case False
  with assms have "fi_step it = -1" "fi_last it \<le> fi_next it" by (auto simp: inRange_def)
  then show ?thesis using upto_rec2 [of "fi_last it" "fi_next it"] by (simp add: ticks_def)
qed

text \<open>The search by cases: it stops, fails, panics, finds a row or goes on.\<close>

abbreviation advance :: "iterator \<Rightarrow> iterator" where
  "advance it \<equiv> it\<lparr>fi_next := fi_next it + fi_step it\<rparr>"

abbreviation tick_row :: "(int \<Rightarrow> nat \<Rightarrow> nat \<Rightarrow> nat) \<Rightarrow> iterator \<Rightarrow> Row" where
  "tick_row intn it \<equiv> rowAt intn (fi_next it) (fi_interval it)"

lemma search_simps:
  "\<not> inRange it \<or> fi_step it = 0 \<Longrightarrow> fake_search intn rxm cerr it = (False, it)"
  "inRange it \<Longrightarrow> fi_step it \<noteq> 0 \<Longrightarrow> cerr (fi_next it) = Some e \<Longrightarrow>
   fake_search intn rxm cerr it = (False, it\<lparr>fi_err := Some e\<rparr>)"
  "inRange it \<Longrightarrow> fi_step it \<noteq> 0 \<Longrightarrow> cerr (fi_next it) = None \<Longrightarrow>
   row_matches rxm (fi_query it) (tick_row intn it) = None \<Longrightarrow>
   fake_search intn rxm cerr it = (False, (advance it)\<lparr>fi_err := Some NilPanic\<rparr>)"
  "inRange it \<Longrightarrow> fi_step it \<noteq> 0 \<Longrightarrow> cerr (fi_next it) = None \<Longrightarrow>
   row_matches rxm (fi_query it) (tick_row intn it) = Some True \<Longrightarrow>
   fake_search intn rxm cerr it =
     (True, (advance it)\<lparr>fi_current := Some (tick_row intn it), fi_emitted := fi_emitted it + 1\<rparr>)"
  "inRange it \<Longrightarrow> fi_step it \<noteq> 0 \<Longrightarrow> cerr (fi_next it) = None \<Longrightarrow>
   row_matches rxm (fi_query it) (tick_row intn it) = Some False \<Longrightarrow>
   fake_search intn rxm cerr it = fake_search intn rxm cerr (advance it)"
  by (subst fake_search.simps, simp add: Let_def)+

text \<open>The number of ticks left, for every step.\<close>

definition ticks_left :: "iterator \<Rightarrow> nat" where
  "ticks_left it = nat (if fi_step it > 0 then fi_last it - fi_next it + 1 else fi_next it - fi_last it + 1)"

lemma advance_less: "inRange it \<Longrightarrow> fi_step it \<noteq> 0 \<Longrightarrow> ticks_left (advance it) < ticks_left it"
  by (auto simp: ticks_left_def inRange_def split: if_splits)

lemma ticks_left_update [simp]:
  "ticks_left (it\<lparr>fi_current := c\<rparr>) = ticks_left it" "ticks_left (it\<lparr>fi_emitted := n\<rparr>) = ticks_left it"
  by (simp_all add: ticks_left_def)

lemma ticks_update [simp]:
  "ticks (it\<lparr>fi_current := c\<rparr>) = ticks it" "ticks (it\<lparr>fi_emitted := n\<rparr>) = ticks it"
  by (simp_all add: ticks_def)

lemma search_induct [case_names stop fail panic hit skip]:
  assumes stop: "\<And>it. \<not> inRange it \<or> fi_step it = 0 \<Longrightarrow> P it"
    and fail: "\<And>it e. inRange it \<Longrightarrow> fi_step it \<noteq> 0 \<Longrightarrow> cerr (fi_next it) = Some e \<Longrightarrow> P it"
    and panic: "\<And>it. inRange it \<Longrightarrow> fi_step it \<noteq> 0 \<Longrightarrow> cerr (fi_next it) = None \<Longrightarrow>
      row_matches rxm (fi_query it) (tick_row intn it) = None \<Longrightarrow> P it"
    and hit: "\<And>it. inRange it \<Longrightarrow> fi_step it \<noteq> 0 \<Longrightarrow> cerr (fi_next it) = None \<Longrightarrow>
      row_matches rxm (fi_query it) (tick_row intn it) = Some True \<Longrightarrow> P it"
    and skip: "\<And>it. inRange it \<Longrightarrow> fi_step it \<noteq> 0 \<Longrightarrow> cerr (fi_next it) = None \<Longrightarrow>
      row_matches rxm (fi_query it) (tick_row intn it) = Some False \<Longrightarrow> P (advance it) \<Longrightarrow> P it"
  shows "P it"
proof (induction "ticks_left it" arbitrary: it rule: less_induct)
  case less
  show ?case
  proof (cases "\<not> inRange it \<or> fi_step it = 0")
    case False
    then have r: "inRange it" "fi_step it \<noteq> 0" by auto
    note ih = less [OF advance_less [OF r]]
    show ?thesis
    proof (cases "cerr (fi_next it)")
      case None
      show ?thesis
      proof (cases "row_matches rxm (fi_query it) (tick_row intn it)")
        case m: (Some b)
        then show ?thesis using hit [OF r None] skip [OF r None _ ih] by (cases b) auto
      qed (use panic [OF r None] in blast)
    qed (use fail [OF r] in blast)
  qed (rule stop)
qed

lemma fake_search_decreases:
  "fake_search intn rxm cerr it = (True, it') \<Longrightarrow> ticks_left it' < ticks_left it"
proof (induction it arbitrary: it' rule: search_induct [where cerr = cerr and rxm = rxm and intn = intn])
  case (hit it)
  then show ?case using advance_less [of it] by (auto simp: search_simps)
next
  case (skip it)
  then have "fake_search intn rxm cerr (advance it) = (True, it')" by (simp add: search_simps)
  from skip.IH [OF this] advance_less [of it] skip.hyps show ?case by simp
qed (simp_all add: search_simps)

function fake_drain ::
  "(int \<Rightarrow> nat \<Rightarrow> nat \<Rightarrow> nat) \<Rightarrow> (string \<Rightarrow> string \<Rightarrow> bool) \<Rightarrow> (int \<Rightarrow> storage_error option) \<Rightarrow>
   iterator \<Rightarrow> Row list \<times> iterator" where
  "fake_drain intn rxm cerr it =
     (case fake_Next intn rxm cerr it of (ok, it') \<Rightarrow>
        if ok then (case fake_drain intn rxm cerr it' of (rs, s) \<Rightarrow> (fake_Row it' # rs, s)) else ([], it'))"
  by pat_completeness auto
termination
  by (relation "measure (\<lambda>(intn, rxm, cerr, it). ticks_left it)")
    (auto simp: fake_Next_def split: if_splits dest: fake_search_decreases [OF sym])

declare fake_drain.simps [simp del]

interpretation fake_iterator: log_iterator "fake_Next intn rxm cerr" fake_Row "fake_drain intn rxm cerr"
  by unfold_locales (subst fake_drain.simps, simp split: prod.splits)+

text \<open>What a search finds, when nothing goes wrong: the first matching tick of the rest of the window.\<close>

definition tick_ok :: "(int \<Rightarrow> nat \<Rightarrow> nat \<Rightarrow> nat) \<Rightarrow> (string \<Rightarrow> string \<Rightarrow> bool) \<Rightarrow> iterator \<Rightarrow> int \<Rightarrow> bool" where
  "tick_ok intn rxm it i = (row_matches rxm (fi_query it) (rowAt intn i (fi_interval it)) = Some True)"

lemma search_finds:
  assumes "\<forall>r. row_matches rxm (fi_query it) r \<noteq> None" "\<bar>fi_step it\<bar> = 1"
  shows "case fake_search intn rxm (\<lambda>_. None) it of (ok, it') \<Rightarrow>
    if ok then \<exists>i. filter (tick_ok intn rxm it) (ticks it) = i # filter (tick_ok intn rxm it) (ticks it') \<and>
        fi_current it' = Some (rowAt intn i (fi_interval it)) \<and> fi_emitted it' = fi_emitted it + 1 \<and>
        fi_err it' = fi_err it \<and> fi_query it' = fi_query it \<and> fi_interval it' = fi_interval it \<and> fi_step it' = fi_step it
    else filter (tick_ok intn rxm it) (ticks it) = [] \<and> fi_err it' = fi_err it"
  using assms
proof (induction it rule: search_induct [where cerr = "\<lambda>_. None :: storage_error option" and rxm = rxm and intn = intn])
  case (stop it)
  then have "\<not> inRange it" by auto
  then show ?case by (simp add: search_simps ticks_Nil)
next
  case (hit it)
  have "tick_ok intn rxm it (fi_next it)" using hit.hyps by (simp add: tick_ok_def)
  then show ?case using hit by (simp add: search_simps ticks_Cons [of it])
next
  case (skip it)
  have "tick_ok intn rxm it = tick_ok intn rxm (advance it)" by (simp add: fun_eq_iff tick_ok_def)
  moreover have "\<not> tick_ok intn rxm it (fi_next it)" using skip.hyps by (simp add: tick_ok_def)
  ultimately show ?case using skip
    by (cases "fake_search intn rxm (\<lambda>_. None) (advance it)") (auto simp: search_simps ticks_Cons [of it])
qed auto

text \<open>What the iterator yields: the matching rows of its window in order, up to the limit.\<close>

definition window :: "(int \<Rightarrow> nat \<Rightarrow> nat \<Rightarrow> nat) \<Rightarrow> (string \<Rightarrow> string \<Rightarrow> bool) \<Rightarrow> iterator \<Rightarrow> Row list" where
  "window intn rxm it =
     map (\<lambda>i. rowAt intn i (fi_interval it)) (filter (tick_ok intn rxm it) (ticks it))"

lemma fake_drain_window:
  assumes "\<forall>r. row_matches rxm (fi_query it) r \<noteq> None" "\<bar>fi_step it\<bar> = 1" "fi_err it = None"
    "lq_Limit (fi_query it) > 0"
  shows "fst (fake_drain intn rxm (\<lambda>_. None) it) =
      take (nat (lq_Limit (fi_query it) - fi_emitted it)) (window intn rxm it) \<and>
    fi_err (snd (fake_drain intn rxm (\<lambda>_. None) it)) = None"
  using assms
proof (induction intn rxm "\<lambda>_ :: int. None :: storage_error option" it rule: fake_drain.induct)
  case (1 intn rxm it)
  let ?lim = "lq_Limit (fi_query it)"
  show ?case
  proof (cases "fi_emitted it \<ge> ?lim")
    case True
    then have "fake_Next intn rxm (\<lambda>_. None) it = (False, it)" using "1.prems" by (simp add: fake_Next_def)
    with True show ?thesis using "1.prems" by (subst (1 2) fake_drain.simps) simp
  next
    case False
    then have n: "fake_Next intn rxm (\<lambda>_. None) it = fake_search intn rxm (\<lambda>_. None) it"
      using "1.prems" by (simp add: fake_Next_def)
    obtain ok it' where s: "fake_search intn rxm (\<lambda>_. None) it = (ok, it')" by fastforce
    note f = search_finds [OF "1.prems"(1,2), of intn, unfolded s, simplified]
    show ?thesis
    proof (cases ok)
      case True
      with f obtain i where i: "filter (tick_ok intn rxm it) (ticks it) = i # filter (tick_ok intn rxm it) (ticks it')"
        "fi_current it' = Some (rowAt intn i (fi_interval it))" "fi_emitted it' = fi_emitted it + 1"
        and k: "fi_err it' = fi_err it" "fi_query it' = fi_query it" "fi_interval it' = fi_interval it" "fi_step it' = fi_step it"
        by auto
      have w: "window intn rxm it = fake_Row it' # window intn rxm it'"
        using i k by (simp add: window_def fake_Row_def tick_ok_def [abs_def])
      have "fst (fake_drain intn rxm (\<lambda>_. None) it') = take (nat (?lim - fi_emitted it')) (window intn rxm it') \<and>
          fi_err (snd (fake_drain intn rxm (\<lambda>_. None) it')) = None"
        using "1.hyps" [OF n [unfolded s, symmetric] True] "1.prems" k by simp
      moreover have "nat (?lim - fi_emitted it) = Suc (nat (?lim - fi_emitted it'))" using False i by simp
      ultimately show ?thesis using n s True w by (subst (1 2) fake_drain.simps) (auto split: prod.splits)
    next
      case False
      with f have "filter (tick_ok intn rxm it) (ticks it) = []" "fi_err it' = None" using "1.prems" by auto
      with n s False show ?thesis by (subst (1 2) fake_drain.simps) (simp add: window_def)
    qed
  qed
qed

section \<open>The window in time\<close>

lemma ceilDiv_div: "0 < b \<Longrightarrow> ceilDiv a b = - ((- a) div b)"
proof (cases "0 \<le> a")
  case True
  assume b: "0 < b"
  have "a mod b \<noteq> 0 \<Longrightarrow> 0 < a mod b" using pos_mod_sign [OF b, of a] by linarith
  then show ?thesis using True b zdiv_zminus1_eq_if [of b a]
    by (auto simp: ceilDiv_def go_mod_nonneg go_div_nonneg)
next
  case False
  assume b: "0 < b"
  have "\<not> go_mod a b > 0" using False b pos_mod_sign [OF b, of "- a"] by (simp add: go_mod_neg not_less)
  then show ?thesis using False b by (simp add: ceilDiv_def go_div_def)
qed

lemma ceilDiv_le: "0 < b \<Longrightarrow> ceilDiv a b \<le> i \<longleftrightarrow> a \<le> i * b"
  using le_div_iff [of b "- i" "- a"] by (simp add: ceilDiv_div minus_le_iff)

text \<open>
  The instants before the end of a window, as the truncated division finds them: for a window that ends
  at or before 1970 it also finds the first tick at or after the end, unless the nanosecond before the
  end is a tick itself.
\<close>

definition before_end :: "int \<Rightarrow> int \<Rightarrow> int \<Rightarrow> bool" where
  "before_end interval e t \<longleftrightarrow> (if 0 < e then t < e else t < e - 1 + interval)"

lemma go_div_ge: "0 < b \<Longrightarrow> i \<le> go_div (e - 1) b \<longleftrightarrow> before_end b e (i * b)"
proof (cases "0 < e")
  case True
  assume "0 < b"
  then show ?thesis using True le_div_iff [of b i "e - 1"] by (simp add: go_div_nonneg before_end_def)
next
  case False
  assume b: "0 < b"
  have "i \<le> - ((1 - e) div b) \<longleftrightarrow> \<not> 1 - i \<le> (1 - e) div b" by linarith
  also have "\<dots> \<longleftrightarrow> i * b < e - 1 + b" using le_div_iff [OF b, of "1 - i" "1 - e"] by (auto simp: algebra_simps)
  finally show ?thesis using False b by (simp add: go_div_def before_end_def)
qed

lemma ticks_new:
  assumes "0 < interval" "- (2 ^ 63) < UnixNano (tr_Start (lq_Range q))" "- (2 ^ 63) < UnixNano (tr_End (lq_Range q))"
  shows "set (ticks (newIterator interval q)) =
      {i. UnixNano (tr_Start (lq_Range q)) \<le> i * interval \<and> before_end interval (UnixNano (tr_End (lq_Range q))) (i * interval)} \<and>
    (if lq_Direction q = DirectionForward then sorted (ticks (newIterator interval q))
     else sorted (rev (ticks (newIterator interval q)))) \<and>
    distinct (ticks (newIterator interval q)) \<and>
    list_all (\<lambda>i. int64 (i + fi_step (newIterator interval q))) (ticks (newIterator interval q))"
proof -
  let ?a = "UnixNano (tr_Start (lq_Range q))" and ?e = "UnixNano (tr_End (lq_Range q))"
  have r: "int64 ?a" "int64 ?e" by (simp_all add: UnixNano_def wrap64_int64)
  then have w: "wrap64 (?e - 1) = ?e - 1" using assms(3) by (intro wrap64_id) (simp add: int64_def)
  have set: "set (ticks (newIterator interval q)) = {i. ?a \<le> i * interval \<and> before_end interval ?e (i * interval)}"
    using assms(1) by (auto simp: ticks_def newIterator_def w ceilDiv_le go_div_ge Let_def)
  have "int64 (i + fi_step (newIterator interval q))" if "i \<in> set (ticks (newIterator interval q))" for i
  proof -
    have i: "?a \<le> i * interval" "i \<le> go_div (?e - 1) interval" using that assms(1) by (simp_all add: set go_div_ge)
    have "- (2 ^ 63) < i"
    proof (cases "0 \<le> i")
      case False
      then have "i * interval \<le> i" using assms(1) mult_left_mono_neg [of 1 interval i] by simp
      then show ?thesis using i(1) assms(2) by linarith
    qed simp
    moreover have "go_div (?e - 1) interval \<le> max 0 (?e - 1)"
    proof (cases "0 \<le> ?e - 1")
      case True
      have "(?e - 1) div interval \<le> (?e - 1) div 1" using True assms(1) by (intro zdiv_mono2) simp_all
      then show ?thesis using True assms(1) by (simp add: go_div_nonneg)
    next
      case False
      then have "0 \<le> (1 - ?e) div interval" using assms(1) by (simp add: pos_imp_zdiv_nonneg_iff)
      then show ?thesis using False assms(1) by (simp add: go_div_def)
    qed
    ultimately show ?thesis using i(2) r(2) by (auto simp: newIterator_def int64_def Let_def)
  qed
  then show ?thesis
    using set by (auto simp: list_all_iff ticks_def newIterator_def Let_def)
qed

lemma newIterator_simps [simp]:
  "fi_query (newIterator interval q) = q" "fi_interval (newIterator interval q) = interval"
  "\<bar>fi_step (newIterator interval q)\<bar> = 1" "fi_err (newIterator interval q) = None"
  "fi_emitted (newIterator interval q) = 0"
  by (simp_all add: newIterator_def Let_def)

section \<open>The generated labels\<close>

lemma pick_set: "pick weight ss n = Some s \<Longrightarrow> s \<in> set ss"
  by (induction weight ss n rule: pick.induct) (auto split: if_splits)

lemma pick_weighted_set: "ss \<noteq> [] \<Longrightarrow> pick_weighted weight ss n \<in> set ss"
  by (auto simp: pick_weighted_def split: option.splits dest: pick_set)

lemma services_resources: "svc \<in> set services \<Longrightarrow> sv_resources svc \<noteq> []"
  by (auto simp: services_def)

lemma row_labels_catalogue:
  assumes "\<And>i k n. 0 < n \<Longrightarrow> intn i k n < n"
  shows "\<exists>ls \<in> set catalogue. row_Labels (rowAt intn i interval) = filter (\<lambda>kv. fst kv \<noteq> Sanitize ''k8s.node.name'') ls"
proof -
  define svc where "svc = pickService (intn i)"
  define sev where "sev = pick_weighted snd severities (intn i 1 (sum_list (map snd severities)))"
  define res where "res = sv_resources svc ! intn i 2 (length (sv_resources svc))"
  have svc: "svc \<in> set services" unfolding svc_def pickService_def
    by (rule pick_weighted_set) (simp add: services_def)
  have sev: "sev \<in> set severities" unfolding sev_def by (rule pick_weighted_set) (simp add: severities_def)
  have "intn i 2 (length (sv_resources svc)) < length (sv_resources svc)"
    using assms services_resources [OF svc] by simp
  then have res: "res \<in> set (sv_resources svc)" by (simp add: res_def)
  let ?ls = "[(''service_name'', sv_name svc), (''severity'', fst sev), (''resource_name'', res),
        (Sanitize ''k8s.node.name'', ''edge-'' @ res)]"
  have "?ls \<in> set catalogue" unfolding catalogue_def using svc sev res by auto
  moreover have "row_Labels (rowAt intn i interval) = filter (\<lambda>kv. fst kv \<noteq> Sanitize ''k8s.node.name'') ?ls"
    by (simp add: rowAt_def Let_def svc_def sev_def res_def pickSeverity_def Sanitize_map)
  ultimately show ?thesis by blast
qed

section \<open>Matching never panics for a parsed query\<close>

lemma all_match_total: "\<forall>m \<in> set ms. f m \<noteq> None \<Longrightarrow> all_match f ms \<noteq> None"
  by (induction ms) (auto split: option.splits bool.splits)

lemma row_matches_total:
  assumes "list_all (wf_matcher rxc) (lq_Matchers q)" "list_all (wf_filter rxc) (lq_Filters q)"
  shows "row_matches rxm q r \<noteq> None"
proof -
  have "matchesLabels rxm (lq_Matchers q) (row_Labels r) \<noteq> None" unfolding matchesLabels_def
    by (rule all_match_total) (use assms(1) wf_matcher_no_panic in \<open>auto simp: list_all_iff\<close>)
  moreover have "matchesLine rxm (lq_Filters q) (row_Line r) \<noteq> None" unfolding matchesLine_def
    by (rule all_match_total) (use assms(2) wf_filter_no_panic in \<open>auto simp: list_all_iff\<close>)
  ultimately show ?thesis by (auto simp: row_matches_def split: option.splits bool.splits)
qed

section \<open>Properties\<close>



end
