(* ===== verification/Handlers.thy ===== *)
theory Handlers
  imports Loki PromStore Routes FakeStore
begin

text \<open>
  The HTTP handlers of the query API: request parameters (queryapi/params.go, promparams.go), the
  configuration (config.go, the completion and validation of options.go), the Loki handlers
  (handler.go, loki.go) and the Prometheus handlers (prom.go). A handler is a function from the clock,
  the request and its context to the response it writes; JSON payloads are data, not text. The
  standard library's readers of times, durations and floats are the fields of \<open>Lib\<close>.
\<close>

section \<open>Library functions\<close>

text \<open>
  \<open>rfc3339\<close> is \<^verbatim>\<open>time.Parse\<close> with the RFC 3339 layout, \<open>duration\<close> is \<^verbatim>\<open>time.ParseDuration\<close>,
  \<open>promDuration\<close> is \<^verbatim>\<open>model.ParseDuration\<close>, and \<open>floatNanos\<close> reads a float of seconds and rounds it to
  nanoseconds (\<open>None\<close>: not a finite positive number). \<open>rxc\<close> and \<open>isp\<close> are as elsewhere.
\<close>

record Lib =
  rfc3339 :: "string \<Rightarrow> int option"
  duration :: "string \<Rightarrow> int option"
  promDuration :: "string \<Rightarrow> int option"
  floatNanos :: "string \<Rightarrow> int option"
  lib_rxc :: "string \<Rightarrow> bool"
  lib_isp :: "nat \<Rightarrow> bool"

section \<open>Configuration\<close>

record Config =
  c_LogsStorage :: string
  c_MetricsStorage :: string
  c_PrometheusURL :: string
  c_PrometheusTenancy :: string
  c_PrometheusProjectLabel :: string
  c_MaxResponseBytes :: int
  c_FakeRate :: float64
  c_QueryTimeout :: int
  c_MaxRange :: int
  c_DefaultLimit :: int
  c_MaxLimit :: int

definition DefaultConfig :: Config where
  "DefaultConfig =
     \<lparr>c_LogsStorage = ''fake'', c_MetricsStorage = ''fake'', c_PrometheusURL = [], c_PrometheusTenancy = [],
      c_PrometheusProjectLabel = ''resourcemanager_datumapis_com_project_name'',
      c_MaxResponseBytes = 32 * 2 ^ 20, c_FakeRate = Finite 2, c_QueryTimeout = 30 * second, c_MaxRange = 31 * 24 * 3600 * second,
      c_DefaultLimit = 100, c_MaxLimit = 5000\<rparr>"

datatype config_error =
    DefaultLimitNotPositive int | MaxLimitNotPositive int | DefaultExceedsMax int int
  | QueryTimeoutNotPositive int | MaxRangeNotPositive int | MaxResponseNotPositive int
  | PrometheusURLRequired | PrometheusTenancyError prom_config_error | UnknownMetricsStorage string
  | StorageConflict string string | AllowPaths string | Framework string

definition Config_Validate :: "Config \<Rightarrow> config_error list" where
  "Config_Validate c =
     (if c_DefaultLimit c \<le> 0 then [DefaultLimitNotPositive (c_DefaultLimit c)] else []) @
     (if c_MaxLimit c \<le> 0 then [MaxLimitNotPositive (c_MaxLimit c)] else []) @
     (if c_DefaultLimit c > 0 \<and> c_MaxLimit c > 0 \<and> c_DefaultLimit c > c_MaxLimit c
      then [DefaultExceedsMax (c_DefaultLimit c) (c_MaxLimit c)] else []) @
     (if c_QueryTimeout c \<le> 0 then [QueryTimeoutNotPositive (c_QueryTimeout c)] else []) @
     (if c_MaxRange c \<le> 0 then [MaxRangeNotPositive (c_MaxRange c)] else []) @
     (if c_MaxResponseBytes c \<le> 0 then [MaxResponseNotPositive (c_MaxResponseBytes c)] else []) @
     (if c_MetricsStorage c = ''fake'' then []
      else if c_MetricsStorage c = ''prometheus'' then
        (if c_PrometheusURL c = [] then [PrometheusURLRequired] else []) @
        (case ParseTenancy (c_PrometheusTenancy c) of Inl e \<Rightarrow> [PrometheusTenancyError e] | Inr _ \<Rightarrow> [])
      else [UnknownMetricsStorage (c_MetricsStorage c)])"

record Options =
  o_Query :: Config
  o_legacyStorage :: string
  o_logsStorageChanged :: bool
  o_AlwaysAllowPaths :: "string list"

definition Options_Complete :: "Options \<Rightarrow> config_error + Options" where
  "Options_Complete opts =
     (if o_legacyStorage opts = [] then Inr opts
      else if o_logsStorageChanged opts \<and> c_LogsStorage (o_Query opts) \<noteq> o_legacyStorage opts
      then Inl (StorageConflict (o_legacyStorage opts) (c_LogsStorage (o_Query opts)))
      else Inr (opts\<lparr>o_Query := (o_Query opts)\<lparr>c_LogsStorage := o_legacyStorage opts\<rparr>\<rparr>))"

text \<open>\<open>fw\<close> are the errors of the framework's own options.\<close>

definition Options_Validate :: "string list \<Rightarrow> Options \<Rightarrow> config_error list" where
  "Options_Validate fw opts =
     map Framework fw @ Config_Validate (o_Query opts) @
     (case ValidateAlwaysAllowPaths (o_AlwaysAllowPaths opts) of Some p \<Rightarrow> [AllowPaths p] | None \<Rightarrow> [])"

section \<open>Parameters\<close>

definition Get :: "(string \<Rightarrow> string list) \<Rightarrow> string \<Rightarrow> string" where
  "Get v k = (case v k of [] \<Rightarrow> [] | x # xs \<Rightarrow> x)"

datatype param_error =
    AmbiguousEpoch string | InvalidTimestamp string | InvalidPromTimestamp string
  | InvalidDuration string | DurationOutOfRange string

definition parseTime :: "Lib \<Rightarrow> string \<Rightarrow> int \<Rightarrow> int \<Rightarrow> param_error + int" where
  "parseTime lib raw0 now fallback =
     (let raw = TrimSpace raw0 in
      if raw = [] then Inr fallback
      else case rfc3339 lib raw of
        Some t \<Rightarrow> Inr t
      | None \<Rightarrow>
          (case ParseInt raw of
             Some n \<Rightarrow>
               if length raw = 10 \<or> length raw = 11 then Inr (n * second)
               else if length raw = 13 then Inr (n * millisecond)
               else if length raw = 16 then Inr (n * microsecond)
               else if length raw = 19 then Inr n
               else Inl (AmbiguousEpoch raw)
           | None \<Rightarrow>
               (case duration lib raw of
                  Some d \<Rightarrow> Inr (now + wrap64 (- d))
                | None \<Rightarrow> Inl (InvalidTimestamp raw))))"

definition parseLimit :: "string \<Rightarrow> Config \<Rightarrow> int" where
  "parseLimit raw cfg =
     (case ParseInt (TrimSpace raw) of
        None \<Rightarrow> c_DefaultLimit cfg
      | Some n \<Rightarrow> if n \<le> 0 then c_DefaultLimit cfg else if n > c_MaxLimit cfg then c_MaxLimit cfg else n)"

definition parseDirection :: "string \<Rightarrow> string" where
  "parseDirection raw = (if TrimSpace raw = DirectionForward then DirectionForward else DirectionBackward)"

definition isDigits :: "string \<Rightarrow> bool" where
  "isDigits s \<longleftrightarrow> list_all is_digit s"

text \<open>\<^verbatim>\<open>strings.Cut(raw, ".")\<close>\<close>

definition cut_dot :: "string \<Rightarrow> string \<times> string" where
  "cut_dot raw = (takeWhile (\<lambda>c. c \<noteq> CHR ''.'') raw, drop 1 (dropWhile (\<lambda>c. c \<noteq> CHR ''.'') raw))"

definition parseUnixSeconds :: "string \<Rightarrow> int option" where
  "parseUnixSeconds raw =
     (case cut_dot raw of (whole, fraction) \<Rightarrow>
        if whole = [] \<or> \<not> isDigits whole \<or> \<not> isDigits fraction then None
        else case ParseInt whole of
          None \<Rightarrow> None
        | Some sec \<Rightarrow>
            let f = take 9 fraction;
                nsec = (if f \<noteq> [] then dec_val (f @ replicate (9 - length f) (CHR ''0'')) else 0) in
            Some (time_Unix sec (int nsec)))"

definition parsePromTime :: "Lib \<Rightarrow> string \<Rightarrow> int \<Rightarrow> param_error + int" where
  "parsePromTime lib raw0 fallback =
     (let raw = TrimSpace raw0 in
      if raw = [] then Inr fallback
      else case rfc3339 lib raw of
        Some t \<Rightarrow> Inr t
      | None \<Rightarrow> (case parseUnixSeconds raw of Some t \<Rightarrow> Inr t | None \<Rightarrow> Inl (InvalidPromTimestamp raw)))"

definition parsePromDuration :: "Lib \<Rightarrow> string \<Rightarrow> param_error + int" where
  "parsePromDuration lib raw0 =
     (let raw = TrimSpace raw0 in
      case promDuration lib raw of
        Some d \<Rightarrow>
          if d > 0 then Inr d
          else (case floatNanos lib raw of
                  None \<Rightarrow> Inl (InvalidDuration raw)
                | Some ns \<Rightarrow> if ns < 1 \<or> ns \<ge> 2 ^ 63 then Inl (DurationOutOfRange raw) else Inr ns)
      | None \<Rightarrow>
          (case floatNanos lib raw of
             None \<Rightarrow> Inl (InvalidDuration raw)
           | Some ns \<Rightarrow> if ns < 1 \<or> ns \<ge> 2 ^ 63 then Inl (DurationOutOfRange raw) else Inr ns))"

section \<open>Responses\<close>

datatype message =
    Text string | Logql logql_error | Param param_error | NamedParam string param_error | RangeTooLong int int

datatype body =
    ErrorBody message
  | PromErrorBody string message
  | StreamsBody "lokiStream list"
  | HealthVector int
  | NamesBody "string list"
  | SeriesBody "LabelSet list"
  | PromDataBody string

record Response =
  w_Status :: int
  w_Body :: body

definition writeError :: "int \<Rightarrow> message \<Rightarrow> Response" where
  "writeError status m = \<lparr>w_Status = status, w_Body = ErrorBody m\<rparr>"

definition writePromError :: "int \<Rightarrow> string \<Rightarrow> message \<Rightarrow> Response" where
  "writePromError status errorType m = \<lparr>w_Status = status, w_Body = PromErrorBody errorType m\<rparr>"

definition writeJSON :: "body \<Rightarrow> Response" where
  "writeJSON b = \<lparr>w_Status = 200, w_Body = b\<rparr>"

text \<open>The three success envelopes; a nil slice and an empty one are the same list.\<close>

definition writeStreams :: "lokiStream list \<Rightarrow> Response" where
  "writeStreams streams = writeJSON (StreamsBody streams)"

definition writeHealthProbeVector :: "int \<Rightarrow> Response" where
  "writeHealthProbeVector t = writeJSON (HealthVector t)"

definition writeData :: "body \<Rightarrow> Response" where
  "writeData data = writeJSON data"

declare writeStreams_def [simp] writeHealthProbeVector_def [simp] writeData_def [simp]

definition writeStorageError :: "storage_error \<Rightarrow> Response" where
  "writeStorageError e =
     (case e of
        ErrNoProject \<Rightarrow> writeError 401 (Text ''request is not scoped to a project'')
      | ErrInvalidLimit \<Rightarrow> writeError 400 (Text ''storage: limit must be greater than zero'')
      | ErrNotImplemented \<Rightarrow> writeError 501 (Text ''not implemented for the configured storage backend'')
      | Canceled \<Rightarrow> writeError 499 (Text ''client cancelled request'')
      | DeadlineExceeded \<Rightarrow> writeError 504 (Text ''query timed out'')
      | _ \<Rightarrow> writeError 500 (Text ''internal error''))"

definition writePromStorageError :: "storage_error \<Rightarrow> Response" where
  "writePromStorageError e =
     (case e of
        QueryError m \<Rightarrow> writePromError 400 ''bad_data'' (Text m)
      | ErrNoProject \<Rightarrow> writePromError 401 ''unauthorized'' (Text ''request is not scoped to a project'')
      | ErrResponseTooLarge \<Rightarrow>
          writePromError 422 ''execution'' (Text ''response exceeds the size limit; narrow the query or the time range'')
      | Canceled \<Rightarrow> writePromError 499 ''canceled'' (Text ''client cancelled request'')
      | DeadlineExceeded \<Rightarrow> writePromError 503 ''timeout'' (Text ''query timed out'')
      | ErrBackendUnavailable \<Rightarrow> writePromError 502 ''unavailable'' (Text ''metrics backend unavailable'')
      | _ \<Rightarrow> writePromError 500 ''internal'' (Text ''internal error''))"

section \<open>Loki handlers\<close>

text \<open>The log store a handler is given, with the iterator its queries return.\<close>

record 's LogStoreOps =
  lso_QueryLogs :: "Context \<Rightarrow> LogQuery \<Rightarrow> storage_error + 's"
  lso_Next :: "'s \<Rightarrow> bool \<times> 's"
  lso_Row :: "'s \<Rightarrow> Row"
  lso_Err :: "'s \<Rightarrow> storage_error option"
  lso_Close :: "'s \<Rightarrow> storage_error option"
  lso_LabelNames :: "Context \<Rightarrow> TimeRange \<Rightarrow> storage_error + string list"
  lso_LabelValues :: "Context \<Rightarrow> string \<Rightarrow> TimeRange \<Rightarrow> storage_error + string list"
  lso_Series :: "Context \<Rightarrow> LabelMatcher list \<Rightarrow> TimeRange \<Rightarrow> storage_error + LabelSet list"

definition timeRange :: "Lib \<Rightarrow> int \<Rightarrow> (string \<Rightarrow> string list) \<Rightarrow> Response + TimeRange" where
  "timeRange lib now q =
     (case parseTime lib (Get q ''end'') now now of
        Inl e \<Rightarrow> Inl (writeError 400 (Param e))
      | Inr fin \<Rightarrow>
          (case parseTime lib (Get q ''start'') now (fin - 3600 * second) of
             Inl e \<Rightarrow> Inl (writeError 400 (Param e))
           | Inr start \<Rightarrow>
               if \<not> start < fin then Inl (writeError 400 (Text ''end must be after start''))
               else Inr \<lparr>tr_Start = start, tr_End = fin\<rparr>))"

definition parseLogQL :: "Lib \<Rightarrow> string \<Rightarrow> Response + Query" where
  "parseLogQL lib raw =
     (case Parse (lib_rxc lib) raw of
        Inl e \<Rightarrow> Inl (writeError 400 (Logql e))
      | Inr q \<Rightarrow> Inr q)"

definition logQuery :: "Config \<Rightarrow> (string \<Rightarrow> string list) \<Rightarrow> Query \<Rightarrow> TimeRange \<Rightarrow> LogQuery" where
  "logQuery cfg rq q tr =
     \<lparr>lq_Matchers = q_Matchers q, lq_Filters = q_Filters q, lq_Range = tr,
      lq_Limit = parseLimit (Get rq ''limit'') cfg, lq_Direction = parseDirection (Get rq ''direction'')\<rparr>"

text \<open>\<open>None\<close>: the iterator never ends.\<close>

definition serveLogs ::
  "'s LogStoreOps \<Rightarrow> Config \<Rightarrow> Context \<Rightarrow> (string \<Rightarrow> string list) \<Rightarrow> Query \<Rightarrow> TimeRange \<Rightarrow> Response option" where
  "serveLogs st cfg ctx rq q tr =
     (case lso_QueryLogs st ctx (logQuery cfg rq q tr) of
        Inl e \<Rightarrow> Some (writeStorageError e)
      | Inr it \<Rightarrow>
          map_option (\<lambda>r. case r of
               Inl e \<Rightarrow> writeStorageError e
             | Inr streams \<Rightarrow> writeStreams streams)
            (collectStreams (lso_Next st) (lso_Row st) (lso_Err st) (lso_Close st) it))"

abbreviation grafanaHealthProbe :: string where "grafanaHealthProbe \<equiv> ''vector(1)+vector(1)''"

definition handle_lokiQuery ::
  "Lib \<Rightarrow> 's LogStoreOps \<Rightarrow> Config \<Rightarrow> int \<Rightarrow> Context \<Rightarrow> (string \<Rightarrow> string list) \<Rightarrow> Response option" where
  "handle_lokiQuery lib st cfg now ctx rq =
     (if TrimSpace (Get rq ''query'') = grafanaHealthProbe then Some (writeHealthProbeVector now)
      else case parseLogQL lib (Get rq ''query'') of
        Inl w \<Rightarrow> Some w
      | Inr q \<Rightarrow>
          (case parseTime lib (Get rq ''time'') now now of
             Inl e \<Rightarrow> Some (writeError 400 (Param e))
           | Inr instant \<Rightarrow> serveLogs st cfg ctx rq q \<lparr>tr_Start = instant - 3600 * second, tr_End = instant\<rparr>))"

definition handle_lokiQueryRange ::
  "Lib \<Rightarrow> 's LogStoreOps \<Rightarrow> Config \<Rightarrow> int \<Rightarrow> Context \<Rightarrow> (string \<Rightarrow> string list) \<Rightarrow> Response option" where
  "handle_lokiQueryRange lib st cfg now ctx rq =
     (case parseLogQL lib (Get rq ''query'') of
        Inl w \<Rightarrow> Some w
      | Inr q \<Rightarrow> (case timeRange lib now rq of Inl w \<Rightarrow> Some w | Inr tr \<Rightarrow> serveLogs st cfg ctx rq q tr))"

definition handle_lokiLabelNames ::
  "Lib \<Rightarrow> 's LogStoreOps \<Rightarrow> int \<Rightarrow> Context \<Rightarrow> (string \<Rightarrow> string list) \<Rightarrow> Response" where
  "handle_lokiLabelNames lib st now ctx rq =
     (case timeRange lib now rq of
        Inl w \<Rightarrow> w
      | Inr tr \<Rightarrow>
          (case lso_LabelNames st ctx tr of Inl e \<Rightarrow> writeStorageError e | Inr ns \<Rightarrow> writeData (NamesBody ns)))"

definition handle_lokiLabelValues ::
  "Lib \<Rightarrow> 's LogStoreOps \<Rightarrow> int \<Rightarrow> Context \<Rightarrow> string \<Rightarrow> (string \<Rightarrow> string list) \<Rightarrow> Response" where
  "handle_lokiLabelValues lib st now ctx name rq =
     (case (if Get rq ''query'' \<noteq> [] then res_map (\<lambda>_. ()) (parseLogQL lib (Get rq ''query'')) else Inr ()) of
        Inl w \<Rightarrow> w
      | Inr _ \<Rightarrow>
          (case timeRange lib now rq of
             Inl w \<Rightarrow> w
           | Inr tr \<Rightarrow>
               (case lso_LabelValues st ctx name tr of
                  Inl e \<Rightarrow> writeStorageError e | Inr vs \<Rightarrow> writeData (NamesBody vs))))"

text \<open>The union of the selectors' series, first occurrence of each key first.\<close>

fun add_series :: "LabelSet list \<Rightarrow> LabelSet list \<Rightarrow> LabelSet list" where
  "add_series out [] = out"
| "add_series out (ls # series) =
     add_series (if LabelSet_Key ls \<in> LabelSet_Key ` set out then out else out @ [ls]) series"

fun series_union ::
  "Lib \<Rightarrow> (LabelMatcher list \<Rightarrow> storage_error + LabelSet list) \<Rightarrow> LabelSet list \<Rightarrow> string list \<Rightarrow> Response + LabelSet list" where
  "series_union lib series out [] = Inr out"
| "series_union lib series out (m # ms) =
     (case parseLogQL lib m of
        Inl w \<Rightarrow> Inl w
      | Inr q \<Rightarrow>
          (case series (q_Matchers q) of
             Inl e \<Rightarrow> Inl (writeStorageError e)
           | Inr ss \<Rightarrow> series_union lib series (add_series out ss) ms))"

definition handle_lokiSeries ::
  "Lib \<Rightarrow> 's LogStoreOps \<Rightarrow> int \<Rightarrow> Context \<Rightarrow> (string \<Rightarrow> string list) \<Rightarrow> Response" where
  "handle_lokiSeries lib st now ctx rq =
     (if rq ''match[]'' = [] then writeError 400 (Text ''at least one match[] selector is required'')
      else case timeRange lib now rq of
        Inl w \<Rightarrow> w
      | Inr tr \<Rightarrow>
          (case series_union lib (\<lambda>ms. lso_Series st ctx ms tr) [] (rq ''match[]'') of
             Inl w \<Rightarrow> w
           | Inr out \<Rightarrow> writeData (SeriesBody out)))"

section \<open>Prometheus handlers\<close>

text \<open>
  The form after \<^verbatim>\<open>ParseForm\<close> is a parameter (\<open>Inl\<close>: why it failed); \<open>call\<close> is the metric store,
  whose call may not return (\<open>None\<close>).
\<close>

definition required :: "(string \<Rightarrow> string list) \<Rightarrow> string \<Rightarrow> Response + string" where
  "required form name =
     (let v = TrimSpace (Get form name) in
      if v = [] then Inl (writePromError 400 ''bad_data'' (Text (name @ '' is required''))) else Inr v)"

definition promTime :: "Lib \<Rightarrow> (string \<Rightarrow> string list) \<Rightarrow> string \<Rightarrow> int \<Rightarrow> Response + int" where
  "promTime lib form name fallback =
     (case parsePromTime lib (Get form name) fallback of
        Inl e \<Rightarrow> Inl (writePromError 400 ''bad_data'' (NamedParam name e))
      | Inr t \<Rightarrow> Inr t)"

definition promTimeout :: "Lib \<Rightarrow> Config \<Rightarrow> (string \<Rightarrow> string list) \<Rightarrow> Response + int" where
  "promTimeout lib cfg form =
     (if Get form ''timeout'' = [] then Inr (c_QueryTimeout cfg)
      else case parsePromDuration lib (Get form ''timeout'') of
        Inl e \<Rightarrow> Inl (writePromError 400 ''bad_data'' (NamedParam ''timeout'' e))
      | Inr d \<Rightarrow> Inr (min d (c_QueryTimeout cfg)))"

definition promRange :: "Lib \<Rightarrow> (string \<Rightarrow> string list) \<Rightarrow> Response + TimeRange" where
  "promRange lib form =
     res_bind (promTime lib form ''start'' zero_time) (\<lambda>start.
     res_bind (promTime lib form ''end'' zero_time) (\<lambda>fin.
       if start \<noteq> zero_time \<and> fin \<noteq> zero_time \<and> fin < start
       then Inl (writePromError 400 ''bad_data'' (Text ''end must not be before start''))
       else Inr \<lparr>tr_Start = start, tr_End = fin\<rparr>))"

definition writePromResult :: "storage_error + string \<Rightarrow> Response" where
  "writePromResult r = (case r of Inl e \<Rightarrow> writePromStorageError e | Inr d \<Rightarrow> writeJSON (PromDataBody d))"

type_synonym metric_store = "metric_call \<Rightarrow> Context \<Rightarrow> (storage_error + string) option"

definition respond :: "Response + metric_call \<Rightarrow> metric_store \<Rightarrow> Context \<Rightarrow> Response option" where
  "respond r call ctx = (case r of Inl w \<Rightarrow> Some w | Inr c \<Rightarrow> map_option writePromResult (call c ctx))"

abbreviation maxPoints :: int where "maxPoints \<equiv> 11000"

definition plan_promQuery :: "Lib \<Rightarrow> Config \<Rightarrow> int \<Rightarrow> (string \<Rightarrow> string list) \<Rightarrow> Response + metric_call" where
  "plan_promQuery lib cfg now form =
     res_bind (required form ''query'') (\<lambda>query.
     res_bind (promTime lib form ''time'' now) (\<lambda>instant.
     res_bind (promTimeout lib cfg form) (\<lambda>timeout.
       Inr (MQuery \<lparr>iq_Query = query, iq_Time = instant, iq_Timeout = timeout\<rparr>))))"

definition plan_promQueryRange :: "Lib \<Rightarrow> Config \<Rightarrow> (string \<Rightarrow> string list) \<Rightarrow> Response + metric_call" where
  "plan_promQueryRange lib cfg form =
     res_bind (required form ''query'') (\<lambda>query.
     res_bind (required form ''start'') (\<lambda>_.
     res_bind (required form ''end'') (\<lambda>_.
     res_bind (required form ''step'') (\<lambda>_.
     res_bind (promRange lib form) (\<lambda>tr.
     (case parsePromDuration lib (Get form ''step'') of
        Inl e \<Rightarrow> Inl (writePromError 400 ''bad_data'' (NamedParam ''step'' e))
      | Inr step \<Rightarrow>
          let win = time_Sub (tr_End tr) (tr_Start tr) in
          if win > c_MaxRange cfg then Inl (writePromError 400 ''bad_data'' (RangeTooLong win (c_MaxRange cfg)))
          else if go_div win step + 1 > maxPoints then
            Inl (writePromError 400 ''bad_data''
              (Text ''exceeded maximum resolution of 11,000 points per timeseries; try a larger step''))
          else res_bind (promTimeout lib cfg form) (\<lambda>timeout.
            Inr (MQueryRange \<lparr>rgq_Query = query, rgq_Range = tr, rgq_Step = step, rgq_Timeout = timeout\<rparr>))))))))"

definition plan_promSeries :: "Lib \<Rightarrow> (string \<Rightarrow> string list) \<Rightarrow> Response + metric_call" where
  "plan_promSeries lib form =
     (if form ''match[]'' = []
      then Inl (writePromError 400 ''bad_data'' (Text ''at least one match[] selector is required''))
      else res_bind (promRange lib form) (\<lambda>tr. Inr (MSeries (form ''match[]'') tr)))"

definition plan_promLabelNames :: "Lib \<Rightarrow> (string \<Rightarrow> string list) \<Rightarrow> Response + metric_call" where
  "plan_promLabelNames lib form = res_bind (promRange lib form) (\<lambda>tr. Inr (MLabelNames (form ''match[]'') tr))"

definition plan_promLabelValues :: "Lib \<Rightarrow> string \<Rightarrow> string + form \<Rightarrow> Response + metric_call" where
  "plan_promLabelValues lib name form =
     (if \<not> ValidLabelName name
      then Inl (writePromError 400 ''bad_data'' (Text (''invalid label name '' @ Quote (lib_isp lib) name)))
      else case form of
        Inl e \<Rightarrow> Inl (writePromError 400 ''bad_data'' (Text (''invalid form: '' @ e)))
      | Inr f \<Rightarrow> res_bind (promRange lib f) (\<lambda>tr. Inr (MLabelValues name (f ''match[]'') tr)))"

definition with_form ::
  "string + form \<Rightarrow> (form \<Rightarrow> Response + metric_call) \<Rightarrow> Response + metric_call" where
  "with_form form plan =
     (case form of Inl e \<Rightarrow> Inl (writePromError 400 ''bad_data'' (Text (''invalid form: '' @ e))) | Inr f \<Rightarrow> plan f)"

text \<open>The five handlers: what is wrong with the request, or the one call made to the store.\<close>

definition plan_prom ::
  "Lib \<Rightarrow> Config \<Rightarrow> int \<Rightarrow> endpoint \<Rightarrow> string \<Rightarrow> string + form \<Rightarrow> Response + metric_call" where
  "plan_prom lib cfg now e name form =
     (case e of
        promQuery \<Rightarrow> with_form form (plan_promQuery lib cfg now)
      | promQueryRange \<Rightarrow> with_form form (plan_promQueryRange lib cfg)
      | promSeries \<Rightarrow> with_form form (plan_promSeries lib)
      | promLabelNames \<Rightarrow> with_form form (plan_promLabelNames lib)
      | promLabelValues \<Rightarrow> plan_promLabelValues lib name form
      | _ \<Rightarrow> Inl (writeError 404 (Text ''not found'')))"

definition handle_prom ::
  "Lib \<Rightarrow> Config \<Rightarrow> metric_store \<Rightarrow> int \<Rightarrow> endpoint \<Rightarrow> Context \<Rightarrow> string \<Rightarrow> string + form \<Rightarrow> Response option" where
  "handle_prom lib cfg call now e ctx name form = respond (plan_prom lib cfg now e name form) call ctx"

section \<open>Lemmas\<close>

lemma valid_config:
  assumes "Config_Validate cfg = []"
  shows "0 < c_DefaultLimit cfg" "c_DefaultLimit cfg \<le> c_MaxLimit cfg" "0 < c_MaxLimit cfg"
    "0 < c_QueryTimeout cfg" "0 < c_MaxRange cfg" "0 < c_MaxResponseBytes cfg"
  using assms by (auto simp: Config_Validate_def split: if_splits)

lemma parseLimit_bounds:
  "Config_Validate cfg = [] \<Longrightarrow> 0 < parseLimit raw cfg \<and> parseLimit raw cfg \<le> c_MaxLimit cfg"
  using valid_config [of cfg] by (auto simp: parseLimit_def split: option.splits)

lemma timeRange_ordered: "timeRange lib now rq = Inr tr \<Longrightarrow> tr_Start tr < tr_End tr"
  by (auto simp: timeRange_def split: sum.splits if_splits)

lemma parseLogQL_wf: "parseLogQL lib raw = Inr q \<Longrightarrow> wf_query (lib_rxc lib) q"
  by (auto simp: parseLogQL_def split: sum.splits intro: Parse_wf_query)

text \<open>Reading a number of digits and writing it are inverse; a decimal is bounded by its length.\<close>

lemma parsePromDuration_pos:
  assumes "parsePromDuration lib raw = Inr d"
  shows "0 < d"
  using assms by (auto simp: parsePromDuration_def Let_def split: option.splits if_splits)

lemma promTimeout_le:
  assumes "promTimeout lib cfg form = Inr t" "0 < c_QueryTimeout cfg"
  shows "0 < t \<and> t \<le> c_QueryTimeout cfg"
  using assms parsePromDuration_pos by (auto simp: promTimeout_def split: if_splits sum.splits)

lemma promRange_ordered:
  "promRange lib form = Inr tr \<Longrightarrow> tr_Start tr \<noteq> zero_time \<Longrightarrow> tr_End tr \<noteq> zero_time \<Longrightarrow> tr_Start tr \<le> tr_End tr"
  by (auto simp: promRange_def split: if_splits)

lemma plan_promQueryRangeE:
  assumes "plan_promQueryRange lib cfg form = Inr c"
  obtains query tr step timeout where
    "required form ''query'' = Inr query" "promRange lib form = Inr tr"
    "parsePromDuration lib (Get form ''step'') = Inr step"
    "time_Sub (tr_End tr) (tr_Start tr) \<le> c_MaxRange cfg"
    "go_div (time_Sub (tr_End tr) (tr_Start tr)) step + 1 \<le> maxPoints"
    "promTimeout lib cfg form = Inr timeout"
    "c = MQueryRange \<lparr>rgq_Query = query, rgq_Range = tr, rgq_Step = step, rgq_Timeout = timeout\<rparr>"
proof (cases "parsePromDuration lib (Get form ''step'')")
  case (Inr step)
  with assms that [of _ _ step] show ?thesis
    unfolding plan_promQueryRange_def Let_def by (auto split: if_splits)
qed (use assms in \<open>auto simp: plan_promQueryRange_def\<close>)

lemma add_series_spec:
  "distinct (map LabelSet_Key out) \<Longrightarrow>
   distinct (map LabelSet_Key (add_series out ss)) \<and> set out \<subseteq> set (add_series out ss) \<and>
   set (add_series out ss) \<subseteq> set out \<union> set ss \<and>
   LabelSet_Key ` set (add_series out ss) = LabelSet_Key ` (set out \<union> set ss)"
proof (induction out ss rule: add_series.induct)
  case (2 out ls ss)
  let ?out = "if LabelSet_Key ls \<in> LabelSet_Key ` set out then out else out @ [ls]"
  have "distinct (map LabelSet_Key ?out)" using "2.prems" by auto
  note ih = "2.IH" [OF this]
  have "LabelSet_Key ` set ?out = LabelSet_Key ` (set out \<union> {ls})" by auto
  moreover have "set out \<subseteq> set ?out" "set ?out \<subseteq> set out \<union> {ls}" by auto
  ultimately show ?case using ih by (auto simp: image_Un)
qed simp

lemma series_union_spec:
  assumes "series_union lib series out ms = Inr res" "distinct (map LabelSet_Key out)"
  shows "distinct (map LabelSet_Key res) \<and>
    (\<exists>sss. list_all2 (\<lambda>m ss. \<exists>q. parseLogQL lib m = Inr q \<and> series (q_Matchers q) = Inr ss) ms sss \<and>
       LabelSet_Key ` set res = LabelSet_Key ` (set out \<union> set (concat sss)) \<and>
       set res \<subseteq> set out \<union> set (concat sss))"
  using assms
proof (induction lib series out ms rule: series_union.induct)
  case (1 lib series out)
  then show ?case by (auto intro!: exI [of _ "[]"])
next
  case (2 lib series out m ms)
  from "2.prems"(1) obtain q ss where q: "parseLogQL lib m = Inr q" and ss: "series (q_Matchers q) = Inr ss"
    and r: "series_union lib series (add_series out ss) ms = Inr res"
    by (auto split: sum.splits)
  note a = add_series_spec [OF "2.prems"(2), of ss]
  from "2.IH" [OF q ss r conjunct1 [OF a]] obtain sss where d: "distinct (map LabelSet_Key res)"
    and l: "list_all2 (\<lambda>m ss. \<exists>q. parseLogQL lib m = Inr q \<and> series (q_Matchers q) = Inr ss) ms sss"
    and k: "LabelSet_Key ` set res = LabelSet_Key ` (set (add_series out ss) \<union> set (concat sss))"
    and s: "set res \<subseteq> set (add_series out ss) \<union> set (concat sss)" by (elim conjE exE)
  have "list_all2 (\<lambda>m ss. \<exists>q. parseLogQL lib m = Inr q \<and> series (q_Matchers q) = Inr ss) (m # ms) (ss # sss)"
    using q ss l by auto
  moreover have "LabelSet_Key ` set res = LabelSet_Key ` (set out \<union> set (concat (ss # sss)))"
    using k a by (auto simp: image_Un)
  moreover have "set res \<subseteq> set out \<union> set (concat (ss # sss))" using s a by auto
  ultimately show ?case using d by blast
qed

section \<open>Properties\<close>

text \<open>
  How a log handler meets its store: it answers without the store at all, or it makes one query and
  answers with what the store returns for it (\<open>stored_answer\<close>). The queries the store is spared and those
  it may get are told apart by \<open>bounded_query\<close>.
\<close>

definition stored_answer :: "'s LogStoreOps \<Rightarrow> Context \<Rightarrow> LogQuery \<Rightarrow> Response option" where
  "stored_answer st ctx lq =
     (case lso_QueryLogs st ctx lq of
        Inl e \<Rightarrow> Some (writeStorageError e)
      | Inr it \<Rightarrow>
          map_option (\<lambda>r. case r of Inl e \<Rightarrow> writeStorageError e | Inr streams \<Rightarrow> writeStreams streams)
            (collectStreams (lso_Next st) (lso_Row st) (lso_Err st) (lso_Close st) it))"

definition bounded_query :: "Config \<Rightarrow> (string \<Rightarrow> bool) \<Rightarrow> LogQuery \<Rightarrow> bool" where
  "bounded_query cfg rxc lq \<longleftrightarrow>
     0 < lq_Limit lq \<and> lq_Limit lq \<le> c_MaxLimit cfg \<and>
     lq_Direction lq \<in> {DirectionBackward, DirectionForward} \<and>
     list_all (wf_matcher rxc) (lq_Matchers lq) \<and> list_all (wf_filter rxc) (lq_Filters lq) \<and>
     tr_Start (lq_Range lq) < tr_End (lq_Range lq)"

lemma serveLogs_stored: "serveLogs st cfg ctx rq q tr = stored_answer st ctx (logQuery cfg rq q tr)"
  by (simp add: serveLogs_def stored_answer_def)

lemma logQuery_bounded:
  assumes "Config_Validate cfg = []" "parseLogQL lib raw = Inr q" "tr_Start tr < tr_End tr"
  shows "bounded_query cfg (lib_rxc lib) (logQuery cfg rq q tr)"
  using parseLimit_bounds [OF assms(1)] parseLogQL_wf [OF assms(2)] assms(3)
  by (simp add: bounded_query_def logQuery_def wf_query_def parseDirection_def)

lemma instant_query_cases:
  assumes "Config_Validate cfg = []"
  shows "(\<exists>resp. \<forall>st :: 's LogStoreOps. handle_lokiQuery lib st cfg now ctx rq = Some resp) \<or>
     (\<exists>lq q. bounded_query cfg (lib_rxc lib) lq \<and> parseLogQL lib (Get rq ''query'') = Inr q \<and>
        lq_Matchers lq = q_Matchers q \<and> lq_Filters lq = q_Filters q \<and>
        parseTime lib (Get rq ''time'') now now = Inr (tr_End (lq_Range lq)) \<and>
        tr_Start (lq_Range lq) = tr_End (lq_Range lq) - 3600 * second \<and>
        (\<forall>st :: 's LogStoreOps. handle_lokiQuery lib st cfg now ctx rq = stored_answer st ctx lq))"
proof (cases "TrimSpace (Get rq ''query'') = grafanaHealthProbe")
  case probe: False
  show ?thesis
  proof (cases "parseLogQL lib (Get rq ''query'')")
    case q: (Inr q)
    show ?thesis
    proof (cases "parseTime lib (Get rq ''time'') now now")
      case (Inr t)
      let ?lq = "logQuery cfg rq q \<lparr>tr_Start = t - 3600 * second, tr_End = t\<rparr>"
      have "\<forall>st :: 's LogStoreOps. handle_lokiQuery lib st cfg now ctx rq = stored_answer st ctx ?lq"
        using probe q Inr by (simp add: handle_lokiQuery_def serveLogs_stored)
      moreover have "bounded_query cfg (lib_rxc lib) ?lq" by (rule logQuery_bounded [OF assms q]) simp
      ultimately show ?thesis using q Inr by (intro disjI2 exI [of _ ?lq] exI [of _ q]) (simp add: logQuery_def)
    qed (use probe q in \<open>simp add: handle_lokiQuery_def\<close>)
  qed (use probe in \<open>simp add: handle_lokiQuery_def\<close>)
qed (simp add: handle_lokiQuery_def)

lemma range_query_cases:
  assumes "Config_Validate cfg = []"
  shows "(\<exists>resp. \<forall>st :: 's LogStoreOps. handle_lokiQueryRange lib st cfg now ctx rq = Some resp) \<or>
     (\<exists>lq q. bounded_query cfg (lib_rxc lib) lq \<and> parseLogQL lib (Get rq ''query'') = Inr q \<and>
        lq_Matchers lq = q_Matchers q \<and> lq_Filters lq = q_Filters q \<and> timeRange lib now rq = Inr (lq_Range lq) \<and>
        (\<forall>st :: 's LogStoreOps. handle_lokiQueryRange lib st cfg now ctx rq = stored_answer st ctx lq))"
proof (cases "parseLogQL lib (Get rq ''query'')")
  case q: (Inr q)
  show ?thesis
  proof (cases "timeRange lib now rq")
    case (Inr tr)
    let ?lq = "logQuery cfg rq q tr"
    have "\<forall>st :: 's LogStoreOps. handle_lokiQueryRange lib st cfg now ctx rq = stored_answer st ctx ?lq"
      using q Inr by (simp add: handle_lokiQueryRange_def serveLogs_stored)
    moreover have "bounded_query cfg (lib_rxc lib) ?lq" by (rule logQuery_bounded [OF assms q timeRange_ordered [OF Inr]])
    ultimately show ?thesis using q Inr by (intro disjI2 exI [of _ ?lq] exI [of _ q]) (simp add: logQuery_def)
  qed (use q in \<open>simp add: handle_lokiQueryRange_def\<close>)
qed (simp add: handle_lokiQueryRange_def)

text \<open>
  C20. What the log handlers ask the store for. With a configuration that validates, an instant query
  and a range query are each answered either without the store, whatever it holds, or with what the store
  returns for one query: its matchers and filters are those of the parsed selector and are well formed,
  its limit is between 1 and the configured maximum, its direction is a known one, and its window is not
  empty: the hour before the instant asked for, or the window of the request.
\<close>

theorem log_query_bounds:
  assumes "Config_Validate cfg = []"
  shows "((\<exists>resp. \<forall>st :: 's LogStoreOps. handle_lokiQuery lib st cfg now ctx rq = Some resp) \<or>
     (\<exists>lq q. bounded_query cfg (lib_rxc lib) lq \<and> parseLogQL lib (Get rq ''query'') = Inr q \<and>
        lq_Matchers lq = q_Matchers q \<and> lq_Filters lq = q_Filters q \<and>
        parseTime lib (Get rq ''time'') now now = Inr (tr_End (lq_Range lq)) \<and>
        tr_Start (lq_Range lq) = tr_End (lq_Range lq) - 3600 * second \<and>
        (\<forall>st :: 's LogStoreOps. handle_lokiQuery lib st cfg now ctx rq = stored_answer st ctx lq))) \<and>
    ((\<exists>resp. \<forall>st :: 's LogStoreOps. handle_lokiQueryRange lib st cfg now ctx rq = Some resp) \<or>
     (\<exists>lq q. bounded_query cfg (lib_rxc lib) lq \<and> parseLogQL lib (Get rq ''query'') = Inr q \<and>
        lq_Matchers lq = q_Matchers q \<and> lq_Filters lq = q_Filters q \<and> timeRange lib now rq = Inr (lq_Range lq) \<and>
        (\<forall>st :: 's LogStoreOps. handle_lokiQueryRange lib st cfg now ctx rq = stored_answer st ctx lq)))"
  using instant_query_cases [OF assms] range_query_cases [OF assms] by (rule conjI)

definition example_lib :: Lib where
  "example_lib =
     \<lparr>rfc3339 = (\<lambda>s. if s = ''t1'' then Some 1000 else if s = ''t2'' then Some 2000 else None), duration = (\<lambda>_. None), promDuration = (\<lambda>s. if s = ''1m'' then Some (60 * second) else None),
      floatNanos = (\<lambda>_. None), lib_rxc = (\<lambda>_. True), lib_isp = (\<lambda>_. False)\<rparr>"

definition example_params :: "string \<Rightarrow> string list" where
  "example_params k =
     (if k = ''query'' then [''{a=`b`}''] else if k = ''limit'' then [''7'']
      else if k = ''start'' then [''t1''] else if k = ''end'' then [''t2'']
      else if k = ''step'' then [''1m''] else [])"

definition example_parsed :: Query where
  "example_parsed =
     \<lparr>q_Matchers = [\<lparr>lm_Label = ''a'', lm_Operator = ''='', lm_Value = ''b'', lm_Regexp = None\<rparr>], q_Filters = []\<rparr>"

definition failing_store :: "storage_error \<Rightarrow> unit LogStoreOps" where
  "failing_store e =
     \<lparr>lso_QueryLogs = (\<lambda>_ _. Inl e), lso_Next = (\<lambda>s. (False, s)), lso_Row = (\<lambda>_. \<lparr>row_Timestamp = 0, row_Labels = [], row_Line = []\<rparr>), lso_Err = (\<lambda>_. None), lso_Close = (\<lambda>_. None),
      lso_LabelNames = (\<lambda>_ _. Inl e), lso_LabelValues = (\<lambda>_ _ _. Inl e), lso_Series = (\<lambda>_ _ _. Inl e)\<rparr>"

abbreviation anonymous :: Context where "anonymous \<equiv> \<lparr>ctx_User = None, ctx_Project = None\<rparr>"

theorem log_query_bounds_witness:
  "\<exists>lq. bounded_query DefaultConfig (lib_rxc example_lib) lq \<and> lq_Range lq = \<lparr>tr_Start = 1000, tr_End = 2000\<rparr> \<and>
     (\<forall>st :: unit LogStoreOps. handle_lokiQueryRange example_lib st DefaultConfig 0 anonymous example_params = stored_answer st anonymous lq)"
proof -
  have "Config_Validate DefaultConfig = []" by code_simp
  note b = log_query_bounds [OF this, where 's = unit and lib = example_lib and now = 0 and ctx = anonymous and rq = example_params, THEN conjunct2]
  have p: "parseLogQL example_lib (Get example_params ''query'') = Inr example_parsed"
    "timeRange example_lib 0 example_params = Inr \<lparr>tr_Start = 1000, tr_End = 2000\<rparr>" by code_simp+
  then have "handle_lokiQueryRange example_lib (failing_store e) DefaultConfig 0 anonymous example_params = Some (writeStorageError e)" for e
    by (simp add: handle_lokiQueryRange_def serveLogs_def failing_store_def)
  moreover have "writeStorageError ErrNoProject \<noteq> writeStorageError ErrInvalidLimit" by code_simp
  ultimately have "\<not> (\<exists>resp. \<forall>st :: unit LogStoreOps. handle_lokiQueryRange example_lib st DefaultConfig 0 anonymous example_params = Some resp)"
    by (metis option.inject)
  with b p(2) show ?thesis by auto
qed

text \<open>
  Repeated selectors are a union: when \<^verbatim>\<open>/series\<close> succeeds, every selector parsed and was answered,
  the label sets returned are among the answers, have pairwise different stream keys, and cover the
  keys of all answers.
\<close>

theorem series_is_union:
  assumes "series_union lib series [] ms = Inr res"
  shows "distinct (map LabelSet_Key res) \<and>
    (\<exists>sss. list_all2 (\<lambda>m ss. \<exists>q. parseLogQL lib m = Inr q \<and> series (q_Matchers q) = Inr ss) ms sss \<and>
       LabelSet_Key ` set res = LabelSet_Key ` set (concat sss) \<and> set res \<subseteq> set (concat sss))"
  using series_union_spec [OF assms] by simp

theorem series_is_union_witness:
  "distinct (map LabelSet_Key [[(''a'', ''1'')], [(''a'', ''2'')]]) \<and>
   series_union example_lib (\<lambda>_. Inr [[(''a'', ''1'')], [(''a'', ''2'')]]) [] [''{a=`1`}'', ''{a=`2`}''] =
     Inr [[(''a'', ''1'')], [(''a'', ''2'')]]"
proof -
  have "series_union example_lib (\<lambda>_. Inr [[(''a'', ''1'')], [(''a'', ''2'')]]) [] [''{a=`1`}'', ''{a=`2`}''] =
     Inr [[(''a'', ''1'')], [(''a'', ''2'')]]" by code_simp
  with series_is_union [OF this] show ?thesis by blast
qed

text \<open>
  C21. A range query that reaches the metric store is bounded: its step is positive, its timeout is
  positive and at most the configured one, its window is at most the configured maximum, and when
  both ends are given as real instants the window is not inverted and holds at most 11,000 steps.
\<close>

theorem range_query_bounds:
  assumes "plan_promQueryRange lib cfg form = Inr c" "Config_Validate cfg = []"
  shows "\<exists>q. c = MQueryRange q \<and> rgq_Query q \<noteq> [] \<and> 0 < rgq_Step q \<and>
    0 < rgq_Timeout q \<and> rgq_Timeout q \<le> c_QueryTimeout cfg \<and>
    time_Sub (tr_End (rgq_Range q)) (tr_Start (rgq_Range q)) \<le> c_MaxRange cfg \<and>
    (tr_Start (rgq_Range q) \<noteq> zero_time \<longrightarrow> tr_End (rgq_Range q) \<noteq> zero_time \<longrightarrow>
       tr_Start (rgq_Range q) \<le> tr_End (rgq_Range q) \<and>
       time_Sub (tr_End (rgq_Range q)) (tr_Start (rgq_Range q)) div rgq_Step q + 1 \<le> 11000)"
proof -
  from assms(1) obtain query tr step timeout where
    r: "required form ''query'' = Inr query" and tr: "promRange lib form = Inr tr"
    and st: "parsePromDuration lib (Get form ''step'') = Inr step"
    and w: "time_Sub (tr_End tr) (tr_Start tr) \<le> c_MaxRange cfg"
    and p: "go_div (time_Sub (tr_End tr) (tr_Start tr)) step + 1 \<le> maxPoints"
    and t: "promTimeout lib cfg form = Inr timeout"
    and c: "c = MQueryRange \<lparr>rgq_Query = query, rgq_Range = tr, rgq_Step = step, rgq_Timeout = timeout\<rparr>"
    by (rule plan_promQueryRangeE)
  have "query \<noteq> []" using r by (auto simp: required_def Let_def split: if_splits)
  moreover have s: "0 < step" using parsePromDuration_pos [OF st] .
  moreover have "0 < timeout \<and> timeout \<le> c_QueryTimeout cfg"
    using promTimeout_le [OF t] valid_config [OF assms(2)] by simp
  moreover have "tr_Start tr \<noteq> zero_time \<longrightarrow> tr_End tr \<noteq> zero_time \<longrightarrow> tr_Start tr \<le> tr_End tr \<and>
      time_Sub (tr_End tr) (tr_Start tr) div step + 1 \<le> 11000"
  proof (intro impI)
    assume z: "tr_Start tr \<noteq> zero_time" "tr_End tr \<noteq> zero_time"
    then have o: "tr_Start tr \<le> tr_End tr" by (rule promRange_ordered [OF tr])
    then have "0 \<le> time_Sub (tr_End tr) (tr_Start tr)" by (simp add: time_Sub_def)
    with o p s show "tr_Start tr \<le> tr_End tr \<and> time_Sub (tr_End tr) (tr_Start tr) div step + 1 \<le> 11000"
      by (simp add: go_div_nonneg)
  qed
  ultimately show ?thesis using c w by simp
qed

theorem range_query_bounds_witness:
  "\<exists>q. plan_promQueryRange example_lib DefaultConfig example_params = Inr (MQueryRange q) \<and> 0 < rgq_Step q \<and>
     rgq_Timeout q \<le> 30 * second"
proof -
  have p: "plan_promQueryRange example_lib DefaultConfig example_params =
    Inr (MQueryRange \<lparr>rgq_Query = ''{a=`b`}'', rgq_Range = \<lparr>tr_Start = 1000, tr_End = 2000\<rparr>,
      rgq_Step = 60 * second, rgq_Timeout = 30 * second\<rparr>)" by code_simp
  have "Config_Validate DefaultConfig = []" by code_simp
  from range_query_bounds [OF p this] p show ?thesis by simp
qed

text \<open>
  Unix seconds are read exactly: a number of seconds that fits 64 bits when it is counted from year 1,
  with up to nine decimal places, denotes that instant to the nanosecond, and further places are cut off.
\<close>

theorem unix_seconds_exact:
  assumes "int n < 2 ^ 63 - 62135596800" "list_all is_digit fraction"
  shows "parseUnixSeconds (dec n @ ''.'' @ fraction) =
     Some (int n * second + int (dec_val (take 9 (fraction @ replicate 9 (CHR ''0''))))) \<and>
    parseUnixSeconds (dec n) = Some (int n * second)"
proof -
  have d: "list_all is_digit (dec n)" "dec n \<noteq> []" using dec_digits [of n] by auto
  have nd: "\<not> is_digit (CHR ''.'')" by (simp add: is_digit_def less_eq_char_def)
  then have nodot: "\<forall>c \<in> set (dec n). c \<noteq> CHR ''.''" using d(1) by (auto simp: list_all_iff)
  have cut: "cut_dot (dec n @ ''.'' @ fraction) = (dec n, fraction)"
    using nodot by (simp add: cut_dot_def takeWhile_append2 dropWhile_append2)
  have cut0: "cut_dot (dec n) = (dec n, [])"
    using nodot by (simp add: cut_dot_def takeWhile_eq_all_conv dropWhile_eq_Nil_conv [THEN iffD2])
  have p: "ParseInt (dec n) = Some (int n)" using ParseInt_Itoa [of "int n"] assms(1) by (simp add: Itoa_def int64_def)
  have u: "time_Unix (int n) k = int n * second + k" for k using assms(1) by (intro time_Unix_id) simp_all
  have pad: "take 9 (fraction @ replicate 9 (CHR ''0'')) = take 9 fraction @ replicate (9 - length (take 9 fraction)) (CHR ''0'')"
    by (simp add: min_def)
  have zero: "dec_val (replicate 9 (CHR ''0'')) = 0" by code_simp
  have "parseUnixSeconds (dec n @ ''.'' @ fraction) =
     Some (int n * second + int (dec_val (take 9 (fraction @ replicate 9 (CHR ''0'')))))"
    using d assms(2) zero unfolding parseUnixSeconds_def cut pad
    by (cases fraction) (simp_all add: isDigits_def p u Let_def)
  moreover have "parseUnixSeconds (dec n) = Some (int n * second)"
    using d unfolding parseUnixSeconds_def cut0 by (simp add: isDigits_def p u Let_def)
  ultimately show ?thesis by blast
qed

theorem unix_seconds_exact_witness:
  "parseUnixSeconds ''17.5'' = Some (17 * second + 500000000)"
proof -
  have "int 17 < 2 ^ 63 - 62135596800" "list_all is_digit ''5''" by code_simp+
  note u = unix_seconds_exact [OF this]
  have "dec 17 = ''17''" by code_simp
  moreover have "take 9 (''5'' @ replicate 9 (CHR ''0'')) = ''500000000''" by code_simp
  moreover have "dec_val ''500000000'' = 500000000" by (simp add: dec_val_def digit_val_def)
  ultimately show ?thesis using u by simp
qed

end
