(* ===== verification/Server.thy ===== *)
theory Server
  imports Handlers FakeStore
begin

text \<open>
  The query API as a process (\<^verbatim>\<open>queryapi/cmd/main.go\<close>, \<^verbatim>\<open>options.go\<close>, \<^verbatim>\<open>apiserver.go\<close>, \<^verbatim>\<open>health.go\<close>): choosing the
  stores, assembling the server on the Kubernetes apiserver runtime, its routes and readiness checks,
  and running it. The runtime itself (options, authentication, the default handler chain, the generic
  server) is a parameter; what the assembly relies on is stated of the chain as \<open>default_chain\<close>. The
  synthetic metric store (\<^verbatim>\<open>internal/storage/fake/metrics.go\<close>) is here too.
\<close>

section \<open>The synthetic metric store\<close>

definition FakeMetric :: string where "FakeMetric = ''fake_up''"
definition fakeProjectLabel :: string where "fakeProjectLabel = ''resourcemanager_datumapis_com_project_name''"

definition fake_labels :: "Context \<Rightarrow> storage_error + (string \<times> string) list" where
  "fake_labels ctx =
     (case ProjectID ctx of
        None \<Rightarrow> Inl ErrNoProject
      | Some project \<Rightarrow> Inr [(''__name__'', FakeMetric), (fakeProjectLabel, project)])"

text \<open>What is marshalled: a sample is its time, in milliseconds, with the value 1.\<close>

datatype fake_data =
    FakeVector "(string \<times> string) list" int
  | FakeMatrix "(string \<times> string) list" "int list"
  | FakeSeries "(string \<times> string) list list"
  | FakeNames "string list"

definition UnixMilli :: "int \<Rightarrow> int" where
  "UnixMilli t = wrap64 (t div 1000000)"

text \<open>The loop over steps; \<open>None\<close> when it does not end.\<close>

partial_function (option) fake_steps :: "int \<Rightarrow> int \<Rightarrow> int \<Rightarrow> int list \<Rightarrow> int list option" where
  "fake_steps t till step acc =
     (if till < t then Some acc else fake_steps (t + step) till step (acc @ [UnixMilli t]))"

definition fake_metric_call :: "metric_call \<Rightarrow> Context \<Rightarrow> (storage_error + fake_data) option" where
  "fake_metric_call call ctx =
     (case fake_labels ctx of
        Inl e \<Rightarrow> Some (Inl e)
      | Inr ls \<Rightarrow>
          (case call of
             MQuery q \<Rightarrow> Some (Inr (FakeVector ls (UnixMilli (iq_Time q))))
           | MQueryRange q \<Rightarrow>
               (case fake_steps (tr_Start (rgq_Range q)) (tr_End (rgq_Range q)) (rgq_Step q) [] of
                  None \<Rightarrow> None
                | Some values' \<Rightarrow> Some (Inr (FakeMatrix ls values')))
           | MSeries _ _ \<Rightarrow> Some (Inr (FakeSeries [ls]))
           | MLabelNames _ _ \<Rightarrow> Some (Inr (FakeNames [''__name__'', fakeProjectLabel]))
           | MLabelValues name _ _ \<Rightarrow>
               Some (Inr (FakeNames (case map_of ls name of Some v \<Rightarrow> [v] | None \<Rightarrow> [])))))"

section \<open>Stores\<close>

record ch_config =
  ch_Host :: string
  ch_Port :: int
  ch_User :: string
  ch_Database :: string
  ch_TLSCertFile :: string
  ch_TLSKeyFile :: string
  ch_TLSCAFile :: string

definition ch_envOr :: "(string \<Rightarrow> string) \<Rightarrow> string \<Rightarrow> string \<Rightarrow> string" where
  "ch_envOr env key fallback = (if env key \<noteq> [] then env key else fallback)"

datatype start_error =
    MissingHost
  | InvalidPort string
  | CertificateError string
  | ReadCAError string
  | NoCACertificates
  | OpenError string
  | UnknownLogStore string
  | UnknownMetricStore string
  | MetricStoreError prom_config_error
  | InvalidConfiguration "config_error list"
  | FlagError string
  | FrameworkError string
  | NoAuthenticator
  | NoLogStore
  | NoMetricStore
  | NoLogger
  | UnknownPermission route
  | NoAuthorizer string

definition ConfigFromEnv :: "(string \<Rightarrow> string) \<Rightarrow> start_error + ch_config" where
  "ConfigFromEnv env =
     (let cfg = \<lparr>ch_Host = env ''CLICKHOUSE_HOST'', ch_Port = 9440, ch_User = ch_envOr env ''CLICKHOUSE_USER'' ''queryapi'',
            ch_Database = ch_envOr env ''CLICKHOUSE_DATABASE'' ''o11y'',
            ch_TLSCertFile = ch_envOr env ''CLICKHOUSE_TLS_CERT_FILE'' ''/etc/clickhouse-client/certs/tls.crt'',
            ch_TLSKeyFile = ch_envOr env ''CLICKHOUSE_TLS_KEY_FILE'' ''/etc/clickhouse-client/certs/tls.key'',
            ch_TLSCAFile = ch_envOr env ''CLICKHOUSE_TLS_CA_FILE'' ''/etc/clickhouse-client/certs/ca.crt''\<rparr>;
          raw = env ''CLICKHOUSE_PORT'' in
      if ch_Host cfg = [] then Inl MissingHost
      else if raw \<noteq> [] then (case ParseInt raw of None \<Rightarrow> Inl (InvalidPort raw) | Some port \<Rightarrow> Inr (cfg\<lparr>ch_Port := port\<rparr>))
      else Inr cfg)"

text \<open>The certificate files, the PEM reader and the driver are given by \<open>tls_files\<close>.\<close>

record tls_files =
  tf_LoadKeyPair :: "string \<Rightarrow> string \<Rightarrow> string + string"
  tf_ReadFile :: "string \<Rightarrow> string + string"
  tf_HasCertificates :: "string \<Rightarrow> bool"
  tf_Open :: "string \<Rightarrow> string \<Rightarrow> string \<Rightarrow> string option"

record ch_tls =
  ct_Certificate :: string
  ct_RootCAs :: string

definition tlsConfig :: "tls_files \<Rightarrow> ch_config \<Rightarrow> start_error + ch_tls" where
  "tlsConfig fs c =
     (case tf_LoadKeyPair fs (ch_TLSCertFile c) (ch_TLSKeyFile c) of
        Inl e \<Rightarrow> Inl (CertificateError e)
      | Inr cert \<Rightarrow>
     (case tf_ReadFile fs (ch_TLSCAFile c) of
        Inl e \<Rightarrow> Inl (ReadCAError e)
      | Inr ca \<Rightarrow> if \<not> tf_HasCertificates fs ca then Inl NoCACertificates else Inr \<lparr>ct_Certificate = cert, ct_RootCAs = ca\<rparr>))"

datatype log_store = FakeLogs int | ClickHouseLogs ch_config ch_tls

datatype metric_backend = FakeMetrics | PrometheusMetrics PromConfig

definition clickhouse_New :: "tls_files \<Rightarrow> ch_config \<Rightarrow> start_error + log_store" where
  "clickhouse_New fs cfg =
     (case tlsConfig fs cfg of
        Inl e \<Rightarrow> Inl e
      | Inr tls \<Rightarrow>
          (case tf_Open fs (ch_Host cfg @ '':'' @ Itoa (ch_Port cfg)) (ch_Database cfg) (ch_User cfg) of
             Some e \<Rightarrow> Inl (OpenError e)
           | None \<Rightarrow> Inr (ClickHouseLogs cfg tls)))"

definition newLogStore :: "(rat \<Rightarrow> float64) \<Rightarrow> (float64 \<Rightarrow> int) \<Rightarrow> (string \<Rightarrow> string) \<Rightarrow> tls_files \<Rightarrow> Config \<Rightarrow> start_error + log_store" where
  "newLogStore rnd cvt env fs cfg =
     (if c_LogsStorage cfg = ''fake'' then Inr (FakeLogs (NewLogStore rnd cvt (c_FakeRate cfg)))
      else if c_LogsStorage cfg = ''clickhouse'' then res_bind (ConfigFromEnv env) (clickhouse_New fs)
      else Inl (UnknownLogStore (c_LogsStorage cfg)))"

definition newMetricStore :: "(string \<Rightarrow> (string \<times> string) option) \<Rightarrow> Config \<Rightarrow> start_error + metric_backend" where
  "newMetricStore url cfg =
     (if c_MetricsStorage cfg = ''fake'' then Inr FakeMetrics
      else if c_MetricsStorage cfg = ''prometheus'' then
        (case ParseTenancy (c_PrometheusTenancy cfg) of
           Inl e \<Rightarrow> Inl (MetricStoreError e)
         | Inr tenancy \<Rightarrow>
             (case NewStore url \<lparr>pc_URL = c_PrometheusURL cfg, pc_Tenancy = tenancy, pc_ProjectLabel = c_PrometheusProjectLabel cfg,
                                 pc_MaxResponseBytes = c_MaxResponseBytes cfg\<rparr> of
                Inl e \<Rightarrow> Inl (MetricStoreError e)
              | Inr pc \<Rightarrow> Inr (PrometheusMetrics pc)))
      else Inl (UnknownMetricStore (c_MetricsStorage cfg)))"

section \<open>The server\<close>

text \<open>
  The framework: what parsing the flags yields, its own validation errors, the self-signed certificate,
  its options applied to a configuration (an authenticator and an authorizer, each possibly absent) and
  the construction of the generic server and of its readiness checks.
\<close>

type_synonym authenticator = "Request \<Rightarrow> UserInfo option"

record GenericConfig =
  gc_Authenticator :: "authenticator option"
  gc_Authorizer :: "authorizer option"
  gc_EnableProfiling :: bool

definition NewGenericConfig :: GenericConfig where
  "NewGenericConfig = \<lparr>gc_Authenticator = None, gc_Authorizer = None, gc_EnableProfiling = False\<rparr>"

record framework =
  fk_Parse :: "string list \<Rightarrow> Options \<Rightarrow> string + Options"
  fk_Validate :: "Options \<Rightarrow> string list"
  fk_SelfSigned :: "string option"
  fk_ApplyTo :: "Options \<Rightarrow> GenericConfig \<Rightarrow> string + GenericConfig"
  fk_New :: "GenericConfig \<Rightarrow> string option"
  fk_AddReadyz :: "string list \<Rightarrow> string option"
  fk_Fallback :: "Request \<Rightarrow> string + RequestInfo"

definition NewOptions :: "string list \<Rightarrow> Options" where
  "NewOptions defaultAllow =
     \<lparr>o_Query = DefaultConfig, o_legacyStorage = [], o_logsStorageChanged = False, o_AlwaysAllowPaths = defaultAllow @ [''/metrics'']\<rparr>"

record ServerConfig =
  sc_Generic :: GenericConfig
  sc_Logger :: bool
  sc_LogStore :: "log_store option"
  sc_MetricStore :: "metric_backend option"
  sc_Query :: Config

definition Options_Config :: "framework \<Rightarrow> Options \<Rightarrow> log_store \<Rightarrow> metric_backend \<Rightarrow> start_error + ServerConfig" where
  "Options_Config fk opts logs metrics =
     (case fk_SelfSigned fk of
        Some e \<Rightarrow> Inl (FrameworkError (''generate a self-signed serving certificate: '' @ e))
      | None \<Rightarrow>
     (case fk_ApplyTo fk opts NewGenericConfig of
        Inl e \<Rightarrow> Inl (FrameworkError (''apply the apiserver options: '' @ e))
      | Inr generic \<Rightarrow>
          if gc_Authenticator generic = None then Inl NoAuthenticator
          else Inr \<lparr>sc_Generic = generic, sc_Logger = True, sc_LogStore = Some logs, sc_MetricStore = Some metrics, sc_Query = o_Query opts\<rparr>))"

text \<open>
  A completed configuration: the guard has taken the place of the authorizer, and the resolver and the
  outermost filter read the same table of routes.
\<close>

record CompletedServerConfig =
  cc_Authenticator :: "authenticator option"
  cc_Guard :: guard
  cc_router :: "route list"
  cc_Resolver :: "Request \<Rightarrow> string + RequestInfo"
  cc_LogStore :: log_store
  cc_MetricStore :: metric_backend
  cc_Query :: Config

definition Complete :: "framework \<Rightarrow> ServerConfig \<Rightarrow> start_error + CompletedServerConfig" where
  "Complete fk c =
     (case sc_LogStore c of
        None \<Rightarrow> Inl NoLogStore
      | Some logs \<Rightarrow>
     (case sc_MetricStore c of
        None \<Rightarrow> Inl NoMetricStore
      | Some metrics \<Rightarrow>
      if \<not> sc_Logger c then Inl NoLogger
      else case newRouter routes of
        Inl rt \<Rightarrow> Inl (UnknownPermission rt)
      | Inr router \<Rightarrow>
     (case Guard (gc_Authorizer (sc_Generic c)) of
        Inl e \<Rightarrow> Inl (NoAuthorizer e)
      | Inr guarded \<Rightarrow>
          Inr \<lparr>cc_Authenticator = gc_Authenticator (sc_Generic c), cc_Guard = guarded, cc_router = router,
               cc_Resolver = NewRequestInfo router (fk_Fallback fk), cc_LogStore = logs, cc_MetricStore = metrics,
               cc_Query = sc_Query c\<rparr>)))"

text \<open>
  What the generic server serves besides its own paths: the two discovery documents and, under the
  prefix, the tenant mux behind the middleware. A route that runs is given with the context it runs in.
\<close>

datatype tenant_answer = RouteRun route Context | MuxAnswer mux_result

datatype api_answer =
    GroupDocument
  | VersionDocument
  | TenantRequest "(int \<times> string) + tenant_answer"
  | GenericHandler

definition tenant_mux :: "route list \<Rightarrow> Request \<Rightarrow> Context \<Rightarrow> tenant_answer" where
  "tenant_mux rts r ctx = (case mux_Handler rts r of Serve rt \<Rightarrow> RouteRun rt ctx | m \<Rightarrow> MuxAnswer m)"

definition installed :: "route list \<Rightarrow> Context \<Rightarrow> Request \<Rightarrow> api_answer" where
  "installed rts ctx r =
     (if rq_Path r = GroupPrefix then GroupDocument
      else if rq_Path r = APIPrefix then VersionDocument
      else if HasPrefix (rq_Path r) (APIPrefix @ ''/'') then TenantRequest (Middleware (tenant_mux rts r) ctx)
      else GenericHandler)"

record Server =
  sv_config :: CompletedServerConfig
  sv_readyz :: "(string \<times> int) list"

definition storageReady :: "string \<Rightarrow> int \<Rightarrow> string \<times> int" where
  "storageReady name timeout = (name, timeout)"

text \<open>The checks of \<^verbatim>\<open>/readyz\<close>: each pings its store within the query timeout.\<close>

definition ready :: "(string \<Rightarrow> int \<Rightarrow> string option) \<Rightarrow> Server \<Rightarrow> bool" where
  "ready ping s \<longleftrightarrow> list_all (\<lambda>(name, timeout). ping name timeout = None) (sv_readyz s)"

definition Server_New :: "framework \<Rightarrow> GenericConfig \<Rightarrow> CompletedServerConfig \<Rightarrow> start_error + Server" where
  "Server_New fk generic c =
     (case fk_New fk generic of
        Some e \<Rightarrow> Inl (FrameworkError e)
      | None \<Rightarrow>
          let checks = [storageReady ''logs-storage'' (c_QueryTimeout (cc_Query c)), storageReady ''metrics-storage'' (c_QueryTimeout (cc_Query c))] in
          (case fk_AddReadyz fk (map fst checks) of
             Some e \<Rightarrow> Inl (FrameworkError (''register the storage readiness checks: '' @ e))
           | None \<Rightarrow> Inr \<lparr>sv_config = c, sv_readyz = checks\<rparr>))"

text \<open>
  One request: the path is made canonical ahead of the framework's chain, which is given the
  authenticator, the resolver, the guard and what is installed. \<open>None\<close> is an answer of the chain's own.
\<close>

type_synonym handler_chain =
  "authenticator option \<Rightarrow> (Request \<Rightarrow> string + RequestInfo) \<Rightarrow> authorizer \<Rightarrow> (Context \<Rightarrow> Request \<Rightarrow> api_answer) \<Rightarrow> Request \<Rightarrow> api_answer option"

definition guarded :: "guard \<Rightarrow> authorizer" where
  "guarded g ctx a = fst (guard_Authorize g ctx (Some a) [])"

definition serve :: "handler_chain \<Rightarrow> Server \<Rightarrow> Request \<Rightarrow> api_answer option" where
  "serve chain s =
     (let c = sv_config s in
      withCanonicalPaths (chain (cc_Authenticator c) (cc_Resolver c) (guarded (cc_Guard c)) (installed (cc_router c))))"

text \<open>The process: everything up to serving, and what \<^verbatim>\<open>Run\<close> does.\<close>

definition queryapi_run ::
  "framework \<Rightarrow> (rat \<Rightarrow> float64) \<Rightarrow> (float64 \<Rightarrow> int) \<Rightarrow> (string \<Rightarrow> string) \<Rightarrow> tls_files \<Rightarrow> (string \<Rightarrow> (string \<times> string) option) \<Rightarrow> string list \<Rightarrow> string list \<Rightarrow> start_error + Server" where
  "queryapi_run fk rnd cvt env fs url defaultAllow args =
     (case fk_Parse fk args (NewOptions defaultAllow) of
        Inl e \<Rightarrow> Inl (FlagError e)
      | Inr opts0 \<Rightarrow>
     (case Options_Complete opts0 of
        Inl e \<Rightarrow> Inl (InvalidConfiguration [e])
      | Inr opts \<Rightarrow>
      let errs = Options_Validate (fk_Validate fk opts) opts in
      if errs \<noteq> [] then Inl (InvalidConfiguration errs)
      else
        res_bind (newLogStore rnd cvt env fs (o_Query opts)) (\<lambda>logs.
        res_bind (newMetricStore url (o_Query opts)) (\<lambda>metrics.
        res_bind (Options_Config fk opts logs metrics) (\<lambda>cfg.
        res_bind (Complete fk cfg) (\<lambda>completed.
        Server_New fk (sc_Generic cfg) completed))))))"

datatype run_event = Served | Closed | CloseFailed string

text \<open>\<^verbatim>\<open>Run\<close> serves and then closes the log store, which only the ClickHouse one can be.\<close>

definition Server_Run :: "(string option) \<Rightarrow> string option \<Rightarrow> Server \<Rightarrow> string option \<times> run_event list" where
  "Server_Run served closing s =
     (served, Served # (case cc_LogStore (sv_config s) of
        FakeLogs _ \<Rightarrow> []
      | ClickHouseLogs _ _ \<Rightarrow> [case closing of None \<Rightarrow> Closed | Some e \<Rightarrow> CloseFailed e]))"

section \<open>Lemmas\<close>

text \<open>The synthetic range query ends for a positive step, with a sample at every step of the range.\<close>

lemma fake_steps_ends:
  assumes "0 < step"
  shows "fake_steps t till step acc = Some (acc @ map (\<lambda>i. UnixMilli (t + int i * step)) [0..<nat ((till - t) div step + 1)])"
proof (induction "nat (till - t + 1)" arbitrary: t acc rule: less_induct)
  case less
  show ?case
  proof (cases "till < t")
    case True
    then have "(till - t) div step < 0" using assms by (simp add: pos_imp_zdiv_neg_iff)
    then have "nat ((till - t) div step + 1) = 0" by simp
    then show ?thesis using True by (simp add: fake_steps.simps [of t])
  next
    case False
    define n where "n = nat ((till - (t + step)) div step + 1)"
    have "(till - t) div step = (till - (t + step)) div step + 1"
      using assms div_add_self2 [of step "till - (t + step)"] by (simp add: algebra_simps)
    moreover have "0 \<le> (till - t) div step" using False assms by (simp add: pos_imp_zdiv_nonneg_iff)
    ultimately have "nat ((till - t) div step + 1) = Suc n" by (simp add: n_def)
    then have r: "[0..<nat ((till - t) div step + 1)] = 0 # map Suc [0..<n]" by (simp only: upt_conv_Cons map_Suc_upt zero_less_Suc)
    have "fake_steps t till step acc = fake_steps (t + step) till step (acc @ [UnixMilli t])"
      using False by (simp add: fake_steps.simps [of t])
    also have "\<dots> = Some ((acc @ [UnixMilli t]) @ map (\<lambda>i. UnixMilli (t + step + int i * step)) [0..<n])"
      unfolding n_def using False assms by (intro less) auto
    finally show ?thesis unfolding r by (simp add: o_def algebra_simps)
  qed
qed

text \<open>A store that answers is asked for one project, and says so in every series.\<close>

lemma fake_metric_answers:
  assumes "\<And>q. call = MQueryRange q \<Longrightarrow> 0 < rgq_Step q"
  shows "case ProjectID ctx of
      None \<Rightarrow> fake_metric_call call ctx = Some (Inl ErrNoProject)
    | Some p \<Rightarrow> \<exists>d. fake_metric_call call ctx = Some (Inr d) \<and>
        (case d of
           FakeVector ls t \<Rightarrow> ls = [(''__name__'', FakeMetric), (fakeProjectLabel, p)]
         | FakeMatrix ls ts \<Rightarrow> ls = [(''__name__'', FakeMetric), (fakeProjectLabel, p)]
         | FakeSeries lss \<Rightarrow> lss = [[(''__name__'', FakeMetric), (fakeProjectLabel, p)]]
         | FakeNames ns \<Rightarrow> True)"
  using assms by (cases call) (auto simp: fake_metric_call_def fake_labels_def fake_steps_ends split: option.split)

lemma run_assembles:
  assumes "queryapi_run fk rnd cvt env fs url defaultAllow args = Inr s"
  obtains opts generic d where "Options_Validate (fk_Validate fk opts) opts = []"
    "fk_ApplyTo fk opts NewGenericConfig = Inr generic" "gc_Authenticator generic \<noteq> None" "gc_Authorizer generic = Some d"
    "cc_Authenticator (sv_config s) = gc_Authenticator generic" "cc_Guard (sv_config s) = \<lparr>g_delegate = d\<rparr>"
    "cc_router (sv_config s) = routes" "cc_Resolver (sv_config s) = NewRequestInfo routes (fk_Fallback fk)"
    "cc_Query (sv_config s) = o_Query opts" "newLogStore rnd cvt env fs (o_Query opts) = Inr (cc_LogStore (sv_config s))"
    "newMetricStore url (o_Query opts) = Inr (cc_MetricStore (sv_config s))"
    "sv_readyz s = [(''logs-storage'', c_QueryTimeout (o_Query opts)), (''metrics-storage'', c_QueryTimeout (o_Query opts))]"
proof -
  obtain opts0 where p: "fk_Parse fk args (NewOptions defaultAllow) = Inr opts0"
    using assms by (auto simp: queryapi_run_def split: sum.splits)
  obtain opts where o: "Options_Complete opts0 = Inr opts"
    using assms p by (auto simp: queryapi_run_def split: sum.splits)
  have v: "Options_Validate (fk_Validate fk opts) opts = []"
    using assms p o by (auto simp: queryapi_run_def Let_def split: if_splits)
  obtain logs metrics cfg completed where
    l: "newLogStore rnd cvt env fs (o_Query opts) = Inr logs" and m: "newMetricStore url (o_Query opts) = Inr metrics"
    and c: "Options_Config fk opts logs metrics = Inr cfg" and cc: "Complete fk cfg = Inr completed"
    and n: "Server_New fk (sc_Generic cfg) completed = Inr s"
    using assms p o v by (auto simp: queryapi_run_def Let_def res_bind_def split: sum.splits)
  obtain generic where g: "fk_ApplyTo fk opts NewGenericConfig = Inr generic" "gc_Authenticator generic \<noteq> None"
    "cfg = \<lparr>sc_Generic = generic, sc_Logger = True, sc_LogStore = Some logs, sc_MetricStore = Some metrics, sc_Query = o_Query opts\<rparr>"
    using c by (auto simp: Options_Config_def split: option.splits sum.splits if_splits)
  have "find (\<lambda>rt. \<not> Known (rt_permission rt)) routes = None" using routes_Known by (simp add: find_None_iff)
  then have r: "newRouter routes = Inr routes" by (simp add: newRouter_def)
  obtain d where d: "gc_Authorizer generic = Some d"
    "completed = \<lparr>cc_Authenticator = gc_Authenticator generic, cc_Guard = \<lparr>g_delegate = d\<rparr>, cc_router = routes,
       cc_Resolver = NewRequestInfo routes (fk_Fallback fk), cc_LogStore = logs, cc_MetricStore = metrics, cc_Query = o_Query opts\<rparr>"
    using cc g(3) r by (auto simp: Complete_def Guard_def split: option.splits)
  have s: "s = \<lparr>sv_config = completed, sv_readyz = [(''logs-storage'', c_QueryTimeout (o_Query opts)), (''metrics-storage'', c_QueryTimeout (o_Query opts))]\<rparr>"
    using n d(2) by (auto simp: Server_New_def storageReady_def Let_def split: option.splits)
  show ?thesis by (rule that [OF v g(1,2) d(1)]) (simp_all add: s d(2) l m)
qed

section \<open>Properties\<close>

text \<open>
  What the framework's default handler chain is relied on for. The authenticator must know the caller.
  A request whose \<^verbatim>\<open>Impersonate-*\<close> headers ask to act as another user (\<open>imp\<close>: that user and the
  permissions to impersonate them, groups, uid and extras included) goes on as that user, and only when
  the authorizer allows the caller every one of those permissions; a request without such headers goes
  on as the caller. Then the resolver must describe the request and the authorizer allow the acting
  user what the description says, and the handler runs with the acting user on the context.
\<close>

abbreviation caller :: "UserInfo \<Rightarrow> Context" where
  "caller u \<equiv> \<lparr>ctx_User = Some u, ctx_Project = None\<rparr>"

type_synonym impersonation = "Request \<Rightarrow> (UserInfo \<times> Attributes list) option"

definition acts_as :: "authorizer \<Rightarrow> (UserInfo \<times> Attributes list) option \<Rightarrow> UserInfo \<Rightarrow> UserInfo \<Rightarrow> bool" where
  "acts_as az wanted u0 u \<longleftrightarrow>
     (case wanted of
        None \<Rightarrow> u = u0
      | Some (v, as) \<Rightarrow> u = v \<and> as \<noteq> [] \<and> (\<forall>a\<in>set as. fst (az (caller u0) a) = DecisionAllow))"

definition default_chain :: "handler_chain \<Rightarrow> impersonation \<Rightarrow> (RequestInfo \<Rightarrow> Attributes) \<Rightarrow> bool" where
  "default_chain chain imp attrs \<longleftrightarrow>
     (\<forall>authn info az h r x. chain (Some authn) info az h r = Some x \<longrightarrow>
        (\<exists>u0 u i. authn r = Some u0 \<and> acts_as az (imp r) u0 u \<and> info r = Inr i \<and>
           fst (az (caller u) (attrs i)) = DecisionAllow \<and> x = h (caller u) r))"

definition canonical_request :: "Request \<Rightarrow> Request" where
  "canonical_request r = withCanonicalPaths (\<lambda>r. r) r"

lemma withCanonicalPaths_app: "withCanonicalPaths f r = f (canonical_request r)"
  by (simp add: canonical_request_def withCanonicalPaths_def Let_def)

lemma guarded_allows:
  assumes "fst (guarded \<lparr>g_delegate = d\<rparr> ctx a) = DecisionAllow"
  shows "forwarded a \<and> fst (d ctx a) = DecisionAllow"
  using assms guard_forwarded [of "\<lparr>g_delegate = d\<rparr>" ctx a "[]"] by (cases "forwarded a") (auto simp: guarded_def)

lemma acts_as_guarded: "acts_as (guarded \<lparr>g_delegate = d\<rparr>) wanted u0 u \<Longrightarrow> acts_as d wanted u0 u"
  by (auto simp: acts_as_def dest: guarded_allows split: option.splits)

text \<open>
  C1. A server that has started serves nothing unreviewed. It starts only with valid options, both
  stores, an authenticator and an authorizer; and whenever one of its routes then runs, the request, its
  path made canonical, came from an authenticated caller. The user it acts as is that caller, or, when
  its headers ask to impersonate another user, that user, and then the configured authorizer has allowed
  the caller each permission the impersonation needs. The authorizer allowed the acting user the
  permission of that very route, in the group and version of the API, and the route runs in a context
  whose project is the one of the acting user's identity. Readiness pings both stores, within the query
  timeout.
\<close>

theorem server_serves_reviewed:
  assumes "queryapi_run fk rnd cvt env fs url defaultAllow args = Inr s" "default_chain chain imp attrs" "copies_info attrs"
    "serve chain s r = Some (TenantRequest (Inr (RouteRun rt ctx)))"
  shows "\<exists>opts generic authn d u0 u pid a.
    Options_Validate (fk_Validate fk opts) opts = [] \<and> cc_Query (sv_config s) = o_Query opts \<and>
    fk_ApplyTo fk opts NewGenericConfig = Inr generic \<and> gc_Authenticator generic = Some authn \<and> gc_Authorizer generic = Some d \<and>
    authn (canonical_request r) = Some u0 \<and> acts_as d (imp (canonical_request r)) u0 u \<and> fst (d (caller u) a) = DecisionAllow \<and>
    permissionFor (Some a) = Some (rt_permission rt) \<and> rt \<in> set routes \<and>
    route_matches (rq_Method r) (EscapedPath (canonical_request r)) rt \<and>
    Resolve_user (Some u) = Some pid \<and> ctx = WithProject (caller u) pid \<and> ProjectID ctx = Some pid \<and>
    (\<forall>ping. ready ping s \<longleftrightarrow> ping ''logs-storage'' (c_QueryTimeout (o_Query opts)) = None \<and> ping ''metrics-storage'' (c_QueryTimeout (o_Query opts)) = None)"
proof -
  from run_assembles [OF assms(1)] obtain opts generic d where
    v: "Options_Validate (fk_Validate fk opts) opts = []" and g: "fk_ApplyTo fk opts NewGenericConfig = Inr generic"
      "gc_Authenticator generic \<noteq> None" "gc_Authorizer generic = Some d"
    and c: "cc_Authenticator (sv_config s) = gc_Authenticator generic" "cc_Guard (sv_config s) = \<lparr>g_delegate = d\<rparr>"
      "cc_router (sv_config s) = routes" "cc_Resolver (sv_config s) = NewRequestInfo routes (fk_Fallback fk)"
      "cc_Query (sv_config s) = o_Query opts"
      "sv_readyz s = [(''logs-storage'', c_QueryTimeout (o_Query opts)), (''metrics-storage'', c_QueryTimeout (o_Query opts))]"
    by metis
  let ?r = "canonical_request r"
  obtain authn where authn: "gc_Authenticator generic = Some authn" using g(2) by blast
  have "chain (Some authn) (NewRequestInfo routes (fk_Fallback fk)) (guarded \<lparr>g_delegate = d\<rparr>) (installed routes) ?r =
      Some (TenantRequest (Inr (RouteRun rt ctx)))"
    using assms(4) c authn by (simp add: serve_def Let_def withCanonicalPaths_app)
  then obtain u0 u i where u0: "authn ?r = Some u0" "acts_as (guarded \<lparr>g_delegate = d\<rparr>) (imp ?r) u0 u"
    and u: "NewRequestInfo routes (fk_Fallback fk) ?r = Inr i"
    "fst (guarded \<lparr>g_delegate = d\<rparr> (caller u) (attrs i)) = DecisionAllow"
    "TenantRequest (Inr (RouteRun rt ctx)) = installed routes (caller u) ?r"
    using assms(2) unfolding default_chain_def by blast
  have h: "HasPrefix (rq_Path ?r) (APIPrefix @ ''/'')" "Middleware (tenant_mux routes ?r) (caller u) = Inr (RouteRun rt ctx)"
    using u(3) by (auto simp: installed_def split: if_splits)
  then obtain pid where pid: "Resolve_user (Some u) = Some pid" "tenant_mux routes ?r (WithProject (caller u) pid) = RouteRun rt ctx"
    by (auto simp: Middleware_cases split: option.splits)
  have m: "mux_Handler routes ?r = Serve rt" "ctx = WithProject (caller u) pid"
    using pid(2) by (auto simp: tenant_mux_def split: mux_result.splits)
  have p: "permissionFor (Some (attrs i)) = Some (rt_permission rt)"
    using mapped_forwarded [OF assms(3) in_group_APIPrefix [OF h(1)] _ u(1)] m(1) by (simp add: mux_pattern_def)
  have a: "fst (d (caller u) (attrs i)) = DecisionAllow" using guarded_allows [OF u(2)] by blast
  have "validID pid" using pid(1) by (auto simp: Resolve_user_Some)
  moreover have "rq_Method ?r = rq_Method r" by (simp add: canonical_request_def withCanonicalPaths_def Let_def)
  moreover have "ready ping s \<longleftrightarrow> ping ''logs-storage'' (c_QueryTimeout (o_Query opts)) = None \<and> ping ''metrics-storage'' (c_QueryTimeout (o_Query opts)) = None" for ping
    by (simp add: ready_def c(6))
  ultimately show ?thesis
    using v g(1,3) c(5) authn u0(1) acts_as_guarded [OF u0(2)] a p mux_Serve_matches [OF m(1)] pid(1) m(2)
    by (intro exI [of _ opts] exI [of _ generic] exI [of _ authn] exI [of _ d] exI [of _ u0] exI [of _ u] exI [of _ pid] exI [of _ "attrs i"])
      (simp add: ProjectID_WithProject)
qed

definition server_caller :: UserInfo where
  "server_caller = \<lparr>u_Name = ''ada'', u_Extra = (\<lambda>k. if k = parentTypeExtra then [''Project''] else if k = parentNameExtra then [''p1''] else [])\<rparr>"

definition impersonated_user :: UserInfo where
  "impersonated_user = \<lparr>u_Name = ''grace'', u_Extra = (\<lambda>k. if k = parentTypeExtra then [''Project''] else if k = parentNameExtra then [''p2''] else [])\<rparr>"

definition impersonate_grace :: Attributes where
  "impersonate_grace = \<lparr>a_IsResourceRequest = True, a_APIGroup = [], a_APIVersion = ''v1'', a_Resource = ''users'', a_Subresource = [],
     a_Name = ''grace'', a_Namespace = [], a_Verb = ''impersonate'', a_Path = []\<rparr>"

definition example_framework :: framework where
  "example_framework = \<lparr>fk_Parse = (\<lambda>_ opts. Inr opts), fk_Validate = (\<lambda>_. []), fk_SelfSigned = None,
     fk_ApplyTo = (\<lambda>_ g. Inr (g\<lparr>gc_Authenticator := Some (\<lambda>_. Some server_caller), gc_Authorizer := Some (\<lambda>_ _. (DecisionAllow, [], None))\<rparr>)),
     fk_New = (\<lambda>_. None), fk_AddReadyz = (\<lambda>_. None), fk_Fallback = (\<lambda>_. Inl [])\<rparr>"

definition example_chain :: "impersonation \<Rightarrow> handler_chain" where
  "example_chain imp authn info az h r =
     (case authn of
        None \<Rightarrow> None
      | Some f \<Rightarrow> (case f r of None \<Rightarrow> None | Some u0 \<Rightarrow>
          let u = (case imp r of None \<Rightarrow> u0 | Some (v, as) \<Rightarrow> v) in
          if \<not> (case imp r of None \<Rightarrow> True | Some (v, as) \<Rightarrow> as \<noteq> [] \<and> (\<forall>a\<in>set as. fst (az (caller u0) a) = DecisionAllow)) then None
          else (case info r of Inl _ \<Rightarrow> None | Inr i \<Rightarrow>
            if fst (az (caller u) (copy_info i)) = DecisionAllow then Some (h (caller u) r) else None)))"

lemma example_chain_default: "default_chain (example_chain imp) imp copy_info"
  by (auto simp: default_chain_def example_chain_def acts_as_def Let_def split: option.splits sum.splits if_splits)

abbreviation as_grace :: impersonation where "as_grace \<equiv> \<lambda>_. Some (impersonated_user, [impersonate_grace])"

definition example_files :: tls_files where
  "example_files = \<lparr>tf_LoadKeyPair = (\<lambda>_ _. Inr []), tf_ReadFile = (\<lambda>_. Inr []), tf_HasCertificates = (\<lambda>_. True), tf_Open = (\<lambda>_ _ _. None)\<rparr>"

lemma example_serves:
  "case queryapi_run example_framework Finite (\<lambda>_. 0) (\<lambda>_. []) example_files (\<lambda>_. None) [] [] of
     Inl _ \<Rightarrow> False
   | Inr s \<Rightarrow> (case serve (example_chain as_grace) s (example_request ''/loki/api/v1/labels'') of
       Some (TenantRequest (Inr (RouteRun rt ctx))) \<Rightarrow> rt_handler rt = lokiLabelNames | _ \<Rightarrow> False)"
  by code_simp

lemma route_ran:
  assumes "case ao of Some (TenantRequest (Inr (RouteRun rt ctx))) \<Rightarrow> P rt | _ \<Rightarrow> False"
  shows "\<exists>rt ctx. ao = Some (TenantRequest (Inr (RouteRun rt ctx)))"
proof -
  from assms obtain x where x: "ao = Some x" by (cases ao) auto
  with assms obtain y where y: "x = TenantRequest y" by (cases x) auto
  with assms x obtain z where "y = Inr z" by (cases y) auto
  with assms x y show ?thesis by (cases z) auto
qed

theorem server_serves_reviewed_witness:
  "\<exists>s rt ctx a (d :: Attributes \<Rightarrow> auth_result). queryapi_run example_framework Finite (\<lambda>_. 0) (\<lambda>_. []) example_files (\<lambda>_. None) [] [] = Inr s \<and>
     serve (example_chain as_grace) s (example_request ''/loki/api/v1/labels'') = Some (TenantRequest (Inr (RouteRun rt ctx))) \<and>
     fst (d a) = DecisionAllow \<and> permissionFor (Some a) = Some (rt_permission rt) \<and> ProjectID ctx = Some ''p2''"
proof -
  obtain s where s0: "queryapi_run example_framework Finite (\<lambda>_. 0) (\<lambda>_. []) example_files (\<lambda>_. None) [] [] = Inr s"
    using example_serves by (cases "queryapi_run example_framework Finite (\<lambda>_. 0) (\<lambda>_. []) example_files (\<lambda>_. None) [] []") simp_all
  obtain rt ctx where s: "queryapi_run example_framework Finite (\<lambda>_. 0) (\<lambda>_. []) example_files (\<lambda>_. None) [] [] = Inr s"
    "serve (example_chain as_grace) s (example_request ''/loki/api/v1/labels'') = Some (TenantRequest (Inr (RouteRun rt ctx)))"
    using route_ran [OF example_serves [unfolded s0 sum.case]] s0 by blast
  have p2: "Resolve_user (Some impersonated_user) = Some ''p2''" by code_simp
  have i: "copies_info copy_info" by (simp add: copies_info_def copy_info_def)
  from server_serves_reviewed [OF s(1) example_chain_default i s(2)] show ?thesis
  proof (elim exE conjE, goal_cases)
    case (1 opts generic authn d u0 u pid a)
    have "u = impersonated_user" using "1"(7) by (simp add: acts_as_def)
    then have "ProjectID ctx = Some ''p2''" using "1"(12,14) p2 by simp
    then show ?case
      by (intro exI [of _ s] exI [of _ rt] exI [of _ ctx] exI [of _ a] exI [of _ "d (caller u)"] conjI s "1"(8,9))
  qed
qed

end
