(* ===== verification/ClickHouse.thy ===== *)
theory ClickHouse
  imports Loki MiloAuth
begin

text \<open>
  The ClickHouse log backend (queryapi/internal/storage/clickhouse): the SQL builder (query.go), the
  row iterator (iterator.go) and the store (clickhouse.go). The driver is a parameter: \<open>conn p q args\<close>
  is what a query with text \<open>q\<close> and bound arguments \<open>args\<close> returns when the connection carries the
  project setting \<open>p\<close>; that setting is what the row policy of the database filters by. A nil
  dereference is the error \<open>NilPanic\<close>.
\<close>

section \<open>The query builder\<close>

datatype sql_arg = SqlString string | SqlInt int

definition logsSelect :: string where
  "logsSelect = ''ObservedTimestamp, Body, ServiceName, SeverityText, TraceId, mapKeys(Labels), mapValues(Labels)''"

text \<open>1900-01-01T00:00:00Z and 2262-04-11T23:47:16Z.\<close>

definition minTimestamp :: int where "minTimestamp = -2208988800 * second"
definition maxTimestamp :: int where "maxTimestamp = 9223372036 * second"

definition unixNano :: "int \<Rightarrow> int" where
  "unixNano t =
     UnixNano (if t < minTimestamp then minTimestamp else if t > maxTimestamp then maxTimestamp else t)"

definition projectRange :: "string \<Rightarrow> TimeRange \<Rightarrow> string \<times> sql_arg list" where
  "projectRange project tr =
     (''ProjectId = ? AND ObservedTimestamp >= fromUnixTimestamp64Nano(?) AND ObservedTimestamp < fromUnixTimestamp64Nano(?)'',
      [SqlString project, SqlInt (unixNano (tr_Start tr)), SqlInt (unixNano (tr_End tr))])"

definition labelExpr :: "string \<Rightarrow> string \<times> sql_arg list" where
  "labelExpr label =
     (case Resolve label of
        (target, LabelColumn) \<Rightarrow> (target, [])
      | (target, LabelAttribute) \<Rightarrow> (''Labels[?]'', [SqlString target]))"

definition matcherFragment :: "LabelMatcher \<Rightarrow> storage_error + string \<times> sql_arg list" where
  "matcherFragment m =
     (case labelExpr (lm_Label m) of (expr, eargs) \<Rightarrow>
        if lm_Operator m = MatchEqual then Inr (expr @ '' = ?'', eargs @ [SqlString (lm_Value m)])
        else if lm_Operator m = MatchNotEqual then
          Inr (''('' @ expr @ '' != ?)'', eargs @ [SqlString (lm_Value m)])
        else if lm_Operator m = MatchRegexp then
          (case lm_Regexp m of None \<Rightarrow> Inl NilPanic
           | Some re \<Rightarrow> Inr (''match('' @ expr @ '', ?)'', eargs @ [SqlString re]))
        else if lm_Operator m = MatchNotRegexp then
          (case lm_Regexp m of None \<Rightarrow> Inl NilPanic
           | Some re \<Rightarrow> Inr (''NOT match('' @ expr @ '', ?)'', eargs @ [SqlString re]))
        else Inr (''1 = 1'', eargs))"

definition lineFilterFragment :: "LineFilter \<Rightarrow> storage_error + string \<times> sql_arg list" where
  "lineFilterFragment f =
     (if lf_Operator f = LineContains then Inr (''position(Body, ?) > 0'', [SqlString (lf_Value f)])
      else if lf_Operator f = LineNotContains then Inr (''position(Body, ?) = 0'', [SqlString (lf_Value f)])
      else if lf_Operator f = LineMatchesRegexp then
        (case lf_Regexp f of None \<Rightarrow> Inl NilPanic | Some re \<Rightarrow> Inr (''match(Body, ?)'', [SqlString re]))
      else if lf_Operator f = LineNotMatchRegexp then
        (case lf_Regexp f of None \<Rightarrow> Inl NilPanic | Some re \<Rightarrow> Inr (''NOT match(Body, ?)'', [SqlString re]))
      else Inr (''1 = 1'', []))"

text \<open>The two loops that append conditions to \<^verbatim>\<open>where\<close> and their arguments to \<^verbatim>\<open>args\<close>.\<close>

fun appendConds ::
  "('m \<Rightarrow> storage_error + string \<times> sql_arg list) \<Rightarrow> 'm list \<Rightarrow> string \<times> sql_arg list \<Rightarrow>
   storage_error + string \<times> sql_arg list" where
  "appendConds frag [] acc = Inr acc"
| "appendConds frag (m # ms) acc =
     res_bind (frag m) (\<lambda>(cond, margs). appendConds frag ms (fst acc @ '' AND '' @ cond, snd acc @ margs))"

definition buildLogsQuery :: "string \<Rightarrow> LogQuery \<Rightarrow> storage_error + string \<times> sql_arg list" where
  "buildLogsQuery project q =
     (if lq_Limit q \<le> 0 then Inl ErrInvalidLimit
      else res_bind (appendConds matcherFragment (lq_Matchers q) (projectRange project (lq_Range q))) (\<lambda>w.
           res_bind (appendConds lineFilterFragment (lq_Filters q) w) (\<lambda>(where, args).
             let order = (if lq_Direction q = DirectionBackward then ''DESC'' else ''ASC'') in
             Inr (''SELECT '' @ logsSelect @ '' FROM logs WHERE '' @ where @
                  '' ORDER BY ObservedTimestamp '' @ order @ '' LIMIT ?'',
                  args @ [SqlInt (lq_Limit q)]))))"

definition fixedSchemaLabels :: "string list" where
  "fixedSchemaLabels = [''service_name'', ''severity'']"

definition buildLabelNamesQuery :: "string \<Rightarrow> TimeRange \<Rightarrow> string \<times> sql_arg list" where
  "buildLabelNamesQuery project tr =
     (case projectRange project tr of (cond, args) \<Rightarrow>
        (''SELECT name FROM ('' @
         ''SELECT arrayJoin(arrayDistinct(mapKeys(Labels))) AS name, '' @
         ''countEqual(mapKeys(Labels), name) > 1 AS collided '' @
         ''FROM logs WHERE '' @ cond @
         '') GROUP BY name HAVING max(collided) = 0'', args))"

definition buildLabelValuesQuery :: "string \<Rightarrow> string \<Rightarrow> TimeRange \<Rightarrow> string \<times> sql_arg list" where
  "buildLabelValuesQuery project label tr =
     (case (labelExpr label, projectRange project tr) of ((expr, eargs), (where, wargs)) \<Rightarrow>
        (''SELECT DISTINCT '' @ expr @ '' FROM logs WHERE '' @ where, eargs @ wargs))"

record slot =
  sl_label :: string
  sl_kind :: LabelKind
  sl_target :: string

definition seriesAllowlist :: "slot list" where
  "seriesAllowlist =
     [\<lparr>sl_label = ''service_name'', sl_kind = LabelColumn, sl_target = ''ServiceName''\<rparr>,
      \<lparr>sl_label = ''severity'', sl_kind = LabelColumn, sl_target = ''SeverityText''\<rparr>,
      \<lparr>sl_label = ''resource_name'', sl_kind = LabelAttribute, sl_target = ''resource_name''\<rparr>]"

definition seriesExpr :: "slot \<Rightarrow> string \<times> sql_arg list" where
  "seriesExpr s =
     (case sl_kind s of
        LabelColumn \<Rightarrow> (sl_target s, [])
      | LabelAttribute \<Rightarrow> (''Labels[?]'', [SqlString (sl_target s)]))"

definition buildSeriesQuery ::
  "string \<Rightarrow> LabelMatcher list \<Rightarrow> TimeRange \<Rightarrow> storage_error + string \<times> sql_arg list" where
  "buildSeriesQuery project matchers tr =
     (let exprs = map (fst \<circ> seriesExpr) seriesAllowlist;
          selectArgs = concat (map (snd \<circ> seriesExpr) seriesAllowlist);
          groupArgs = concat (map (snd \<circ> seriesExpr) seriesAllowlist);
          groupBy = JoinStr exprs '', '' in
      res_bind (appendConds matcherFragment matchers (projectRange project tr)) (\<lambda>(where, wargs).
        Inr (''SELECT '' @ JoinStr exprs '', '' @ '' FROM logs WHERE '' @ where @ '' GROUP BY '' @ groupBy,
             selectArgs @ wargs @ groupArgs)))"

section \<open>What the builder promises: one text, arguments at their places\<close>

text \<open>
  A statement as pieces: fixed text, and values at the places where they belong. Its rendering puts
  a question mark for each value and lists the values in that order, which is how the driver binds.
\<close>

datatype piece = Txt string | Val sql_arg

fun sql_text :: "piece list \<Rightarrow> string" where
  "sql_text [] = []"
| "sql_text (Txt t # ps) = t @ sql_text ps"
| "sql_text (Val v # ps) = ''?'' @ sql_text ps"

fun sql_args :: "piece list \<Rightarrow> sql_arg list" where
  "sql_args [] = []"
| "sql_args (Txt t # ps) = sql_args ps"
| "sql_args (Val v # ps) = v # sql_args ps"

abbreviation sql_bind :: "piece list \<Rightarrow> string \<times> sql_arg list" where
  "sql_bind ps \<equiv> (sql_text ps, sql_args ps)"

definition label_sql :: "string \<Rightarrow> piece list" where
  "label_sql label =
     (case columns label of
        Some col \<Rightarrow> [Txt col]
      | None \<Rightarrow> [Txt ''Labels['', Val (SqlString (Sanitize label)), Txt '']''])"

definition matcher_sql :: "LabelMatcher \<Rightarrow> piece list" where
  "matcher_sql m =
     (let e = label_sql (lm_Label m); re = Val (SqlString (the (lm_Regexp m))); v = Val (SqlString (lm_Value m)) in
      if lm_Operator m = MatchEqual then e @ [Txt '' = '', v]
      else if lm_Operator m = MatchNotEqual then Txt ''('' # e @ [Txt '' != '', v, Txt '')'']
      else if lm_Operator m = MatchRegexp then Txt ''match('' # e @ [Txt '', '', re, Txt '')'']
      else Txt ''NOT match('' # e @ [Txt '', '', re, Txt '')''])"

definition filter_sql :: "LineFilter \<Rightarrow> piece list" where
  "filter_sql f =
     (let re = Val (SqlString (the (lf_Regexp f))); v = Val (SqlString (lf_Value f)) in
      if lf_Operator f = LineContains then [Txt ''position(Body, '', v, Txt '') > 0'']
      else if lf_Operator f = LineNotContains then [Txt ''position(Body, '', v, Txt '') = 0'']
      else if lf_Operator f = LineMatchesRegexp then [Txt ''match(Body, '', re, Txt '')'']
      else [Txt ''NOT match(Body, '', re, Txt '')''])"

text \<open>The tenant's rows in the window, and nothing else, before any further condition.\<close>

definition scope_sql :: "string \<Rightarrow> TimeRange \<Rightarrow> piece list" where
  "scope_sql project tr =
     [Txt ''ProjectId = '', Val (SqlString project),
      Txt '' AND ObservedTimestamp >= fromUnixTimestamp64Nano('', Val (SqlInt (unixNano (tr_Start tr))),
      Txt '') AND ObservedTimestamp < fromUnixTimestamp64Nano('', Val (SqlInt (unixNano (tr_End tr))), Txt '')'']"

definition and_sql :: "piece list list \<Rightarrow> piece list" where
  "and_sql cs = concat (map (\<lambda>c. Txt '' AND '' # c) cs)"

definition logs_sql :: "string \<Rightarrow> LogQuery \<Rightarrow> piece list" where
  "logs_sql project q =
     Txt (''SELECT '' @ logsSelect @ '' FROM logs WHERE '') # scope_sql project (lq_Range q) @
     and_sql (map matcher_sql (lq_Matchers q)) @ and_sql (map filter_sql (lq_Filters q)) @
     [Txt ('' ORDER BY ObservedTimestamp '' @ (if lq_Direction q = DirectionBackward then ''DESC'' else ''ASC'')),
      Txt '' LIMIT '', Val (SqlInt (lq_Limit q))]"

definition series_columns_sql :: "piece list" where
  "series_columns_sql =
     [Txt ''ServiceName, SeverityText, Labels['', Val (SqlString ''resource_name''), Txt '']'']"

definition series_sql :: "string \<Rightarrow> LabelMatcher list \<Rightarrow> TimeRange \<Rightarrow> piece list" where
  "series_sql project ms tr =
     Txt ''SELECT '' # series_columns_sql @ Txt '' FROM logs WHERE '' # scope_sql project tr @
     and_sql (map matcher_sql ms) @ Txt '' GROUP BY '' # series_columns_sql"

definition values_sql :: "string \<Rightarrow> string \<Rightarrow> TimeRange \<Rightarrow> piece list" where
  "values_sql project label tr =
     Txt ''SELECT DISTINCT '' # label_sql label @ Txt '' FROM logs WHERE '' # scope_sql project tr"

definition names_sql :: "string \<Rightarrow> TimeRange \<Rightarrow> piece list" where
  "names_sql project tr =
     Txt (''SELECT name FROM (SELECT arrayJoin(arrayDistinct(mapKeys(Labels))) AS name, '' @
       ''countEqual(mapKeys(Labels), name) > 1 AS collided FROM logs WHERE '') # scope_sql project tr @
     [Txt '') GROUP BY name HAVING max(collided) = 0'']"

text \<open>What of a matcher the text depends on.\<close>

definition matcher_shape :: "LabelMatcher \<Rightarrow> string \<times> string option" where
  "matcher_shape m = (lm_Operator m, columns (lm_Label m))"

subsection \<open>Lemmas\<close>

lemma sql_append [simp]:
  "sql_text (p @ q) = sql_text p @ sql_text q" "sql_args (p @ q) = sql_args p @ sql_args q"
  by (induction p rule: sql_text.induct; simp)+

text \<open>The text of a condition is determined by its operator and the column it reads.\<close>

fun matcher_text_of :: "string \<times> string option \<Rightarrow> string" where
  "matcher_text_of (op, col) =
     (let e = (case col of Some c \<Rightarrow> c | None \<Rightarrow> ''Labels[?]'') in
      if op = MatchEqual then e @ '' = ?''
      else if op = MatchNotEqual then ''('' @ e @ '' != ?)''
      else if op = MatchRegexp then ''match('' @ e @ '', ?)''
      else ''NOT match('' @ e @ '', ?)'')"

definition filter_text_of :: "string \<Rightarrow> string" where
  "filter_text_of op =
     (if op = LineContains then ''position(Body, ?) > 0''
      else if op = LineNotContains then ''position(Body, ?) = 0''
      else if op = LineMatchesRegexp then ''match(Body, ?)''
      else ''NOT match(Body, ?)'')"

lemma matcher_text: "sql_text \<circ> matcher_sql = matcher_text_of \<circ> matcher_shape"
  by (rule ext) (simp add: matcher_sql_def matcher_shape_def label_sql_def Let_def if_distrib [of sql_text]
      split: option.split cong: if_cong)

lemma filter_text: "sql_text \<circ> filter_sql = filter_text_of \<circ> lf_Operator"
  by (rule ext) (simp add: filter_sql_def filter_text_of_def Let_def if_distrib [of sql_text] cong: if_cong)

lemma and_sql_text: "sql_text (and_sql (map f ms)) = concat (map ((@) '' AND '') (map (sql_text \<circ> f) ms))"
  by (induction ms) (auto simp: and_sql_def)

lemma projectRange_sql: "projectRange project tr = sql_bind (scope_sql project tr)"
  by (simp add: projectRange_def scope_sql_def)

lemma labelExpr_sql: "labelExpr label = sql_bind (label_sql label)"
  by (simp add: labelExpr_def label_sql_def Resolve_def split: option.splits)

lemma matcherFragment_sql: "wf_matcher rxc m \<Longrightarrow> matcherFragment m = Inr (sql_bind (matcher_sql m))"
  by (auto simp: wf_matcher_def matcherFragment_def labelExpr_sql matcher_sql_def Let_def)

lemma lineFilterFragment_sql: "wf_filter rxc f \<Longrightarrow> lineFilterFragment f = Inr (sql_bind (filter_sql f))"
  by (auto simp: wf_filter_def lineFilterFragment_def filter_sql_def Let_def)

lemma appendConds_sql:
  "\<forall>m \<in> set ms. frag m = Inr (sql_bind (sql m)) \<Longrightarrow>
   appendConds frag ms (w, a) =
   Inr (w @ sql_text (and_sql (map sql ms)), a @ sql_args (and_sql (map sql ms)))"
  by (induction ms arbitrary: w a) (auto simp: and_sql_def)

lemma appendConds_matchers:
  "list_all (wf_matcher rxc) ms \<Longrightarrow> appendConds matcherFragment ms (w, a) =
   Inr (w @ sql_text (and_sql (map matcher_sql ms)), a @ sql_args (and_sql (map matcher_sql ms)))"
  by (rule appendConds_sql) (auto simp: list_all_iff matcherFragment_sql)

lemma appendConds_filters:
  "list_all (wf_filter rxc) fs \<Longrightarrow> appendConds lineFilterFragment fs (w, a) =
   Inr (w @ sql_text (and_sql (map filter_sql fs)), a @ sql_args (and_sql (map filter_sql fs)))"
  by (rule appendConds_sql) (auto simp: list_all_iff lineFilterFragment_sql)

lemma buildLogsQuery_sql:
  assumes "list_all (wf_matcher rxc) (lq_Matchers q)" "list_all (wf_filter rxc) (lq_Filters q)"
  shows "buildLogsQuery project q =
    (if lq_Limit q \<le> 0 then Inl ErrInvalidLimit else Inr (sql_bind (logs_sql project q)))"
  using assms
  by (simp add: buildLogsQuery_def projectRange_sql appendConds_matchers appendConds_filters logs_sql_def Let_def)

lemma series_columns:
  "JoinStr (map (fst \<circ> seriesExpr) seriesAllowlist) '', '' = sql_text series_columns_sql"
  "concat (map (snd \<circ> seriesExpr) seriesAllowlist) = sql_args series_columns_sql"
  by (simp_all add: seriesAllowlist_def seriesExpr_def series_columns_sql_def)

lemma buildSeriesQuery_sql:
  "list_all (wf_matcher rxc) ms \<Longrightarrow>
   buildSeriesQuery project ms tr = Inr (sql_bind (series_sql project ms tr))"
  by (simp add: buildSeriesQuery_def projectRange_sql appendConds_matchers series_columns series_sql_def Let_def)

lemma buildLabelValuesQuery_sql: "buildLabelValuesQuery project label tr = sql_bind (values_sql project label tr)"
  by (simp add: buildLabelValuesQuery_def labelExpr_sql projectRange_sql values_sql_def)

lemma buildLabelNamesQuery_sql: "buildLabelNamesQuery project tr = sql_bind (names_sql project tr)"
  by (simp add: buildLabelNamesQuery_def projectRange_sql names_sql_def)

lemma unixNano_clamp: "unixNano t = max minTimestamp (min maxTimestamp t) \<and> int64 (unixNano t)"
proof -
  let ?t = "if t < minTimestamp then minTimestamp else if t > maxTimestamp then maxTimestamp else t"
  have "minTimestamp \<le> ?t" "?t \<le> maxTimestamp" by (auto simp: minTimestamp_def maxTimestamp_def)
  then have "int64 ?t" by (simp add: int64_def minTimestamp_def maxTimestamp_def)
  moreover have "?t = max minTimestamp (min maxTimestamp t)" by (auto simp: minTimestamp_def maxTimestamp_def)
  ultimately show ?thesis by (simp add: unixNano_def UnixNano_def wrap64_id)
qed

section \<open>The row iterator\<close>

text \<open>
  A driver result: the rows left, the error after the last of them, and what closing it returns.
  \<^verbatim>\<open>Scan\<close> fails when a row does not have the columns asked for.
\<close>

datatype cell = CTime int | CStr string | CStrs "string list"

record Rows =
  rs_items :: "cell list list"
  rs_err :: "storage_error option"
  rs_close :: "storage_error option"

definition internalLogAttributes :: "string list" where
  "internalLogAttributes = [Sanitize ''telemetry.observed_time_unix_nano'']"

definition withoutInternalAttributes :: "string list \<Rightarrow> string list" where
  "withoutInternalAttributes names = filter (\<lambda>n. n \<notin> set internalLogAttributes) names"

fun assemble_loop :: "LabelSet \<Rightarrow> string list \<Rightarrow> string list \<Rightarrow> LabelSet" where
  "assemble_loop ls (name # keys) (v # vs) =
     (if name \<in> set internalLogAttributes then assemble_loop ls keys vs
      else if map_of ls name \<noteq> None then assemble_loop ls keys vs
      else if v \<noteq> [] then assemble_loop (AList.update name v ls) keys vs
      else assemble_loop ls keys vs)"
| "assemble_loop ls keys vs = ls"

definition put_nonempty :: "string \<Rightarrow> string \<Rightarrow> LabelSet \<Rightarrow> LabelSet" where
  "put_nonempty k v ls = (if v \<noteq> [] then AList.update k v ls else ls)"

definition assembleLabels :: "string \<Rightarrow> string \<Rightarrow> string \<Rightarrow> string list \<Rightarrow> string list \<Rightarrow> LabelSet" where
  "assembleLabels service severity trace keys values =
     assemble_loop
       (put_nonempty ''trace_id'' trace (put_nonempty ''severity'' severity
          (put_nonempty ''service_name'' service [])))
       keys values"

record rowIterator =
  it_rows :: Rows
  it_row :: "Row option"
  it_err :: "storage_error option"

fun scanLog :: "cell list \<Rightarrow> (int \<times> string \<times> string \<times> string \<times> string \<times> string list \<times> string list) option" where
  "scanLog [CTime t, CStr b, CStr s, CStr sv, CStr tr, CStrs ks, CStrs vs] = Some (t, b, s, sv, tr, ks, vs)"
| "scanLog _ = None"

definition rowIterator_Next :: "rowIterator \<Rightarrow> bool \<times> rowIterator" where
  "rowIterator_Next it =
     (case rs_items (it_rows it) of
        [] \<Rightarrow> (False, it\<lparr>it_err := rs_err (it_rows it)\<rparr>)
      | cells # rest \<Rightarrow>
          let it' = it\<lparr>it_rows := (it_rows it)\<lparr>rs_items := rest\<rparr>\<rparr> in
          (case scanLog cells of
             None \<Rightarrow> (False, it'\<lparr>it_err := Some (BackendError ''scan'')\<rparr>)
           | Some (t, b, s, sv, tr, ks, vs) \<Rightarrow>
               (True, it'\<lparr>it_row := Some \<lparr>row_Timestamp = t, row_Labels = assembleLabels s sv tr ks vs, row_Line = b\<rparr>\<rparr>)))"

text \<open>\<^verbatim>\<open>Row\<close> before the first \<^verbatim>\<open>Next\<close> is the zero row.\<close>

definition rowIterator_Row :: "rowIterator \<Rightarrow> Row" where
  "rowIterator_Row it =
     (case it_row it of Some r \<Rightarrow> r | None \<Rightarrow> \<lparr>row_Timestamp = zero_time, row_Labels = [], row_Line = []\<rparr>)"

definition rowIterator_Close :: "rowIterator \<Rightarrow> storage_error option" where
  "rowIterator_Close it = rs_close (it_rows it)"

text \<open>The rows up to the first one that does not scan.\<close>

definition log_row :: "int \<times> string \<times> string \<times> string \<times> string \<times> string list \<times> string list \<Rightarrow> Row" where
  "log_row = (\<lambda>(t, b, s, sv, tr, ks, vs). \<lparr>row_Timestamp = t, row_Labels = assembleLabels s sv tr ks vs, row_Line = b\<rparr>)"

function rowIterator_drain :: "rowIterator \<Rightarrow> Row list \<times> rowIterator" where
  "rowIterator_drain it =
     (case rs_items (it_rows it) of
        [] \<Rightarrow> ([], it\<lparr>it_err := rs_err (it_rows it)\<rparr>)
      | cells # rest \<Rightarrow>
          let it' = it\<lparr>it_rows := (it_rows it)\<lparr>rs_items := rest\<rparr>\<rparr> in
          (case scanLog cells of
             None \<Rightarrow> ([], it'\<lparr>it_err := Some (BackendError ''scan'')\<rparr>)
           | Some c \<Rightarrow>
               (case rowIterator_drain (it'\<lparr>it_row := Some (log_row c)\<rparr>) of
                  (rs, s) \<Rightarrow> (log_row c # rs, s))))"
  by pat_completeness auto
termination by (relation "measure (\<lambda>it. length (rs_items (it_rows it)))") auto

declare rowIterator_drain.simps [simp del]

interpretation ch_iterator: log_iterator rowIterator_Next rowIterator_Row rowIterator_drain
proof
  fix it it' assume n: "rowIterator_Next it = (False, it')"
  then show "rowIterator_drain it = ([], it')"
    by (subst rowIterator_drain.simps)
      (auto simp: rowIterator_Next_def Let_def split: list.splits option.splits prod.splits)
next
  fix it it' assume n: "rowIterator_Next it = (True, it')"
  then show "rowIterator_drain it = (rowIterator_Row it' # fst (rowIterator_drain it'), snd (rowIterator_drain it'))"
    by (subst (1) rowIterator_drain.simps)
      (auto simp: rowIterator_Next_def rowIterator_Row_def log_row_def Let_def
        split: list.splits option.splits prod.splits)
qed

section \<open>The store\<close>

type_synonym conn = "string \<Rightarrow> string \<Rightarrow> sql_arg list \<Rightarrow> storage_error + Rows"

definition ctx_project_id :: "Context \<Rightarrow> storage_error + string" where
  "ctx_project_id ctx = (case ProjectID ctx of None \<Rightarrow> Inl ErrNoProject | Some p \<Rightarrow> Inr p)"

definition Store_QueryLogs :: "conn \<Rightarrow> LogQuery \<Rightarrow> Context \<Rightarrow> storage_error + rowIterator" where
  "Store_QueryLogs conn q ctx =
     res_bind (ctx_project_id ctx) (\<lambda>p.
     res_bind (buildLogsQuery p q) (\<lambda>(query, args).
     res_bind (conn p query args) (\<lambda>rows.
       Inr \<lparr>it_rows = rows, it_row = None, it_err = None\<rparr>)))"

text \<open>
  \<^verbatim>\<open>scanStrings\<close> reads one string column, dropping blanks and repetitions; \<^verbatim>\<open>Close\<close> joins its error
  to the outcome, so a failing close is an error too.
\<close>

fun scanOne :: "cell list \<Rightarrow> string option" where
  "scanOne [CStr v] = Some v"
| "scanOne _ = None"

fun scan_strings_loop :: "string list \<Rightarrow> cell list list \<Rightarrow> (string list) option" where
  "scan_strings_loop out [] = Some out"
| "scan_strings_loop out (row # rows) =
     (case scanOne row of
        Some v \<Rightarrow> scan_strings_loop (if v \<noteq> [] \<and> v \<notin> set out then out @ [v] else out) rows
      | None \<Rightarrow> None)"

definition close_rows :: "Rows \<Rightarrow> storage_error + 'a \<Rightarrow> storage_error + 'a" where
  "close_rows rows r =
     (case r of Inl e \<Rightarrow> Inl e
      | Inr x \<Rightarrow> (case rs_close rows of Some e \<Rightarrow> Inl e | None \<Rightarrow> Inr x))"

definition scanStrings :: "conn \<Rightarrow> string \<Rightarrow> string \<Rightarrow> sql_arg list \<Rightarrow> storage_error + string list" where
  "scanStrings conn p query args =
     res_bind (conn p query args) (\<lambda>rows.
       close_rows rows
         (case scan_strings_loop [] (rs_items rows) of
            None \<Rightarrow> Inl (BackendError ''scan'')
          | Some out \<Rightarrow>
              (case rs_err rows of Some e \<Rightarrow> Inl e | None \<Rightarrow> Inr (sort_strings out))))"

text \<open>Adjacent repetitions, as \<^verbatim>\<open>dedupe\<close> removes them from a sorted slice.\<close>

fun dedupe_sorted :: "string list \<Rightarrow> string list \<Rightarrow> string list" where
  "dedupe_sorted out [] = out"
| "dedupe_sorted out (v # vs) =
     (if out = [] \<or> last out \<noteq> v then dedupe_sorted (out @ [v]) vs else dedupe_sorted out vs)"

definition Store_LabelNames :: "conn \<Rightarrow> TimeRange \<Rightarrow> Context \<Rightarrow> storage_error + string list" where
  "Store_LabelNames conn tr ctx =
     res_bind (ctx_project_id ctx) (\<lambda>p.
       case buildLabelNamesQuery p tr of (query, args) \<Rightarrow>
       res_bind (scanStrings conn p query args) (\<lambda>names.
         Inr (dedupe_sorted [] (sort_strings (withoutInternalAttributes names @ fixedSchemaLabels)))))"

definition nonEmpty :: "string list \<Rightarrow> string list" where
  "nonEmpty vs = filter (\<lambda>v. v \<noteq> []) vs"

definition Store_LabelValues :: "conn \<Rightarrow> string \<Rightarrow> TimeRange \<Rightarrow> Context \<Rightarrow> storage_error + string list" where
  "Store_LabelValues conn label tr ctx =
     res_bind (ctx_project_id ctx) (\<lambda>p.
       case buildLabelValuesQuery p label tr of (query, args) \<Rightarrow>
       res_bind (scanStrings conn p query args) (\<lambda>values. Inr (nonEmpty values)))"

fun scanSeries :: "cell list \<Rightarrow> (string list) option" where
  "scanSeries [] = Some []"
| "scanSeries (CStr v # cs) = map_option ((#) v) (scanSeries cs)"
| "scanSeries _ = None"

definition series_labels :: "string list \<Rightarrow> LabelSet" where
  "series_labels values =
     fold (\<lambda>(s, v) ls. put_nonempty (sl_label s) v ls) (zip seriesAllowlist values) []"

fun series_loop :: "LabelSet list \<Rightarrow> cell list list \<Rightarrow> (LabelSet list) option" where
  "series_loop out [] = Some out"
| "series_loop out (row # rows) =
     (case scanSeries row of
        Some values \<Rightarrow>
          if length values = length seriesAllowlist then series_loop (out @ [series_labels values]) rows
          else None
      | None \<Rightarrow> None)"

definition Store_Series :: "conn \<Rightarrow> LabelMatcher list \<Rightarrow> TimeRange \<Rightarrow> Context \<Rightarrow> storage_error + LabelSet list" where
  "Store_Series conn matchers tr ctx =
     res_bind (ctx_project_id ctx) (\<lambda>p.
     res_bind (buildSeriesQuery p matchers tr) (\<lambda>(query, args).
     res_bind (conn p query args) (\<lambda>rows.
       close_rows rows
         (case series_loop [] (rs_items rows) of
            None \<Rightarrow> Inl (BackendError ''scan'')
          | Some out \<Rightarrow> (case rs_err rows of Some e \<Rightarrow> Inl e | None \<Rightarrow> Inr out)))))"

subsection \<open>Tenancy\<close>

lemma ctx_project_id_simps:
  "ProjectID ctx = None \<Longrightarrow> ctx_project_id ctx = Inl ErrNoProject"
  "ProjectID ctx = Some p \<Longrightarrow> ctx_project_id ctx = Inr p"
  by (simp_all add: ctx_project_id_def)

lemma ctx_project_id_cong: "ProjectID ctx = ProjectID ctx' \<Longrightarrow> ctx_project_id ctx = ctx_project_id ctx'"
  by (simp add: ctx_project_id_def)

lemma tenant_scopedI:
  assumes "\<And>conn ctx. op conn ctx = res_bind (ctx_project_id ctx) (body conn)"
    and "\<And>conn conn' p. conn p = conn' p \<Longrightarrow> body conn p = body conn' p"
  shows "tenant_scoped op (Inl ErrNoProject)"
proof
  fix ctx p and be be' :: "string \<Rightarrow> 'a"
  assume "ProjectID ctx = Some p" "be p = be' p"
  then show "op be ctx = op be' ctx" using assms(2) [of be p be'] by (simp add: assms(1) ctx_project_id_simps)
qed (simp_all add: assms(1) ctx_project_id_def)

interpretation ch_QueryLogs: tenant_scoped "\<lambda>conn. Store_QueryLogs conn q" "Inl ErrNoProject"
  by (rule tenant_scopedI, rule Store_QueryLogs_def) (simp)

interpretation ch_LabelNames: tenant_scoped "\<lambda>conn. Store_LabelNames conn tr" "Inl ErrNoProject"
  by (rule tenant_scopedI, rule Store_LabelNames_def) (simp add: scanStrings_def)

interpretation ch_LabelValues: tenant_scoped "\<lambda>conn. Store_LabelValues conn label tr" "Inl ErrNoProject"
  by (rule tenant_scopedI, rule Store_LabelValues_def) (simp add: scanStrings_def)

interpretation ch_Series: tenant_scoped "\<lambda>conn. Store_Series conn ms tr" "Inl ErrNoProject"
  by (rule tenant_scopedI, rule Store_Series_def) (simp)

section \<open>Rows and matchers agree\<close>

text \<open>The value a matcher on label \<open>k\<close> sees for a row: its column, or the first entry of \<^verbatim>\<open>Labels\<close>.\<close>

definition sql_label :: "string \<Rightarrow> string \<Rightarrow> string \<Rightarrow> string list \<Rightarrow> string list \<Rightarrow> string \<Rightarrow> string" where
  "sql_label service severity trace keys values k =
     (if k = ''service_name'' then service
      else if k = ''severity'' then severity
      else if k = ''trace_id'' then trace
      else case map_of (zip keys values) k of Some v \<Rightarrow> v | None \<Rightarrow> [])"

definition label_of :: "LabelSet \<Rightarrow> string \<Rightarrow> string" where
  "label_of ls k = (case map_of ls k of Some v \<Rightarrow> v | None \<Rightarrow> [])"

lemma LabelSet_inv_update: "LabelSet_inv ls \<Longrightarrow> LabelSet_inv (AList.update k v ls)"
  by (simp add: LabelSet_inv_def AList.distinct_update)

lemma assemble_loop_inv: "LabelSet_inv ls \<Longrightarrow> LabelSet_inv (assemble_loop ls keys vs)"
  by (induction ls keys vs rule: assemble_loop.induct) (simp_all add: LabelSet_inv_update)

lemma put_nonempty_inv: "LabelSet_inv ls \<Longrightarrow> LabelSet_inv (put_nonempty k v ls)"
  by (simp add: put_nonempty_def LabelSet_inv_update)

lemma assembleLabels_inv: "LabelSet_inv (assembleLabels s sv t keys vs)"
  unfolding assembleLabels_def
  by (intro assemble_loop_inv put_nonempty_inv) (simp add: LabelSet_inv_def)

text \<open>The first value under a name that is not blank.\<close>

definition first_nonblank :: "string list \<Rightarrow> string list \<Rightarrow> string \<Rightarrow> string" where
  "first_nonblank keys vs k = (case map_of (filter (\<lambda>e. snd e \<noteq> []) (zip keys vs)) k of Some v \<Rightarrow> v | None \<Rightarrow> [])"

lemma assemble_loop_lookup:
  assumes "k \<notin> set internalLogAttributes"
  shows "map_of (assemble_loop ls keys vs) k =
    (case map_of ls k of Some v \<Rightarrow> Some v | None \<Rightarrow> map_of (filter (\<lambda>e. snd e \<noteq> []) (zip keys vs)) k)"
  using assms by (induction ls keys vs rule: assemble_loop.induct) (auto simp: AList.update_conv split: option.splits)

lemma first_nonblank_first: "map_of (zip keys vs) k = Some v \<Longrightarrow> v \<noteq> [] \<Longrightarrow> first_nonblank keys vs k = v"
  unfolding first_nonblank_def by (induction keys vs rule: list_induct2') (auto split: if_splits)

lemma assemble_loop_internal:
  "k \<in> set internalLogAttributes \<Longrightarrow> map_of (assemble_loop ls keys vs) k = map_of ls k"
  by (induction ls keys vs rule: assemble_loop.induct) (auto simp: AList.update_conv)

lemma put_nonempty_lookup:
  "map_of (put_nonempty k v ls) = (if v \<noteq> [] then (map_of ls)(k \<mapsto> v) else map_of ls)"
  by (simp add: put_nonempty_def AList.update_conv')

section \<open>Catalogue\<close>

lemma scan_strings_spec:
  "scan_strings_loop out rows = Some res \<Longrightarrow> distinct out \<Longrightarrow> [] \<notin> set out \<Longrightarrow>
   distinct res \<and> [] \<notin> set res \<and> set res = set out \<union> {v. v \<noteq> [] \<and> Some v \<in> scanOne ` set rows}"
proof (induction out rows arbitrary: res rule: scan_strings_loop.induct)
  case (2 out row rows)
  from "2.prems"(1) obtain v where v: "scanOne row = Some v"
    and r: "scan_strings_loop (if v \<noteq> [] \<and> v \<notin> set out then out @ [v] else out) rows = Some res"
    by (cases "scanOne row") simp_all
  let ?out = "if v \<noteq> [] \<and> v \<notin> set out then out @ [v] else out"
  have "distinct ?out" "[] \<notin> set ?out" using "2.prems"(2,3) by auto
  then have ih: "distinct res" "[] \<notin> set res" "set res = set ?out \<union> {w. w \<noteq> [] \<and> Some w \<in> scanOne ` set rows}"
    using "2.IH" [OF v r] by blast+
  have e: "set ?out \<union> {w. w \<noteq> [] \<and> Some w \<in> scanOne ` set rows} =
    set out \<union> {w. w \<noteq> [] \<and> Some w \<in> scanOne ` set (row # rows)}" using v by (auto simp: image_iff)
  show ?case using ih(1,2) trans [OF ih(3) e] by blast
qed simp

lemma sort_strings_set [simp]: "set (sort_strings xs) = set xs" "distinct (sort_strings xs) = distinct xs"
  by (simp_all add: sort_strings_def)

lemma dedupe_sorted_set: "set (dedupe_sorted out vs) = set out \<union> set vs"
proof (induction out vs rule: dedupe_sorted.induct)
  case (2 out v vs)
  show ?case
  proof (cases "out = [] \<or> last out \<noteq> v")
    case True
    with "2.IH"(1) [OF True] show ?thesis by (simp del: not_Cons_self2)
  next
    case False
    then have "insert v (set out \<union> set vs) = set out \<union> set vs" using last_in_set [of out] by blast
    with "2.IH"(2) [OF False] False show ?thesis by simp
  qed
qed simp

text \<open>On a sorted slice, removing adjacent repetitions removes all of them.\<close>

abbreviation bytes :: "string \<Rightarrow> nat list" where "bytes \<equiv> map of_char"

lemma sorted_last: "sorted xs \<Longrightarrow> x \<in> set xs \<Longrightarrow> x \<le> last xs"
  by (induction xs) auto

lemma bytes_eq: "bytes u = bytes v \<longleftrightarrow> u = v"
  by (simp add: inj_map_eq_map inj_on_def)

lemma sorted_snoc_new:
  assumes "sorted (map bytes (out @ v # vs))" "out = [] \<or> last out \<noteq> v"
  shows "v \<notin> set out"
proof
  assume v: "v \<in> set out"
  then have ne: "out \<noteq> []" "last out \<noteq> v" using assms(2) by auto
  have s: "sorted (map bytes out)" and le: "\<forall>w \<in> set out. bytes w \<le> bytes v"
    using assms(1) unfolding map_append sorted_append by auto
  have "bytes v \<le> last (map bytes out)" by (rule sorted_last [OF s]) (use v in simp)
  then have "bytes v \<le> bytes (last out)" using ne(1) by (simp add: last_map)
  moreover have "bytes (last out) \<le> bytes v" using le ne(1) by simp
  ultimately have "bytes v = bytes (last out)" by (rule antisym)
  with ne(2) show False unfolding bytes_eq by simp
qed

lemma sorted_drop_middle:
  "sorted (map bytes (out @ v # vs)) \<Longrightarrow> sorted (map bytes (out @ vs))"
  unfolding map_append sorted_append by simp

lemma dedupe_sorted_distinct:
  "sorted (map bytes (out @ vs)) \<Longrightarrow> distinct out \<Longrightarrow>
   distinct (dedupe_sorted out vs) \<and> sorted (map bytes (dedupe_sorted out vs))"
proof (induction out vs rule: dedupe_sorted.induct)
  case (2 out v vs)
  show ?case
  proof (cases "out = [] \<or> last out \<noteq> v")
    case True
    have d: "distinct (out @ [v])" using sorted_snoc_new [OF "2.prems"(1) True] "2.prems"(2) by simp
    have "sorted (map bytes ((out @ [v]) @ vs))" using "2.prems"(1) by simp
    from "2.IH"(1) [OF True this d] show ?thesis unfolding dedupe_sorted.simps if_P [OF True] .
  next
    case False
    from "2.IH"(2) [OF False sorted_drop_middle [OF "2.prems"(1)] "2.prems"(2)]
    show ?thesis unfolding dedupe_sorted.simps if_not_P [OF False] .
  qed
qed simp

lemma sorted_sort_strings: "sorted (map bytes (sort_strings xs))"
  by (simp add: sort_strings_def)

section \<open>Properties\<close>

text \<open>
  C14. The log query is the statement it should be: for well-formed matchers and filters and a
  positive limit, text and arguments are the rendering of one statement in which every value stands
  at its own place as a bound argument (so the n-th question mark is bound to the n-th argument),
  beginning with the tenant's project and the time window as conjuncts of the WHERE clause, followed
  by one AND per matcher and per filter; a limit that is not positive is refused. The text itself
  does not depend on any value: two queries whose matchers and filters have the same operators and
  the same promoted columns have the same text.
\<close>

theorem logs_query_statement:
  assumes "list_all (wf_matcher rxc) (lq_Matchers q)" "list_all (wf_filter rxc) (lq_Filters q)"
    and "list_all (wf_matcher rxc) (lq_Matchers q')" "list_all (wf_filter rxc) (lq_Filters q')"
    and "lq_Direction q = lq_Direction q'"
    and "map matcher_shape (lq_Matchers q) = map matcher_shape (lq_Matchers q')"
    and "map lf_Operator (lq_Filters q) = map lf_Operator (lq_Filters q')"
  shows "buildLogsQuery p q =
     (if lq_Limit q \<le> 0 then Inl ErrInvalidLimit
      else Inr (sql_text (logs_sql p q), sql_args (logs_sql p q))) \<and>
    sql_text (logs_sql p q) = sql_text (logs_sql p' q')"
proof
  show "buildLogsQuery p q =
     (if lq_Limit q \<le> 0 then Inl ErrInvalidLimit
      else Inr (sql_text (logs_sql p q), sql_args (logs_sql p q)))"
    using buildLogsQuery_sql [OF assms(1,2)] by simp
  have "map (sql_text \<circ> matcher_sql) (lq_Matchers q) = map (sql_text \<circ> matcher_sql) (lq_Matchers q')"
    unfolding matcher_text using assms(6) by (simp only: list.map_comp [symmetric])
  moreover have "map (sql_text \<circ> filter_sql) (lq_Filters q) = map (sql_text \<circ> filter_sql) (lq_Filters q')"
    unfolding filter_text using assms(7) by (simp only: list.map_comp [symmetric])
  ultimately show "sql_text (logs_sql p q) = sql_text (logs_sql p' q')"
    using assms(5) by (simp only: logs_sql_def and_sql_text scope_sql_def sql_text.simps sql_append append_Cons append_Nil)
qed

definition example_query :: "string \<Rightarrow> string \<Rightarrow> LogQuery" where
  "example_query v w =
     \<lparr>lq_Matchers = [\<lparr>lm_Label = ''pod'', lm_Operator = ''='', lm_Value = v, lm_Regexp = None\<rparr>],
      lq_Filters = [\<lparr>lf_Operator = ''|='', lf_Value = w, lf_Regexp = None\<rparr>],
      lq_Range = \<lparr>tr_Start = 0, tr_End = 10\<rparr>, lq_Limit = 5, lq_Direction = ''backward''\<rparr>"

theorem logs_query_statement_witness:
  "buildLogsQuery ''p'' (example_query ''x'' ''y'') =
     Inr (sql_text (logs_sql ''p'' (example_query ''x'' ''y'')), sql_args (logs_sql ''p'' (example_query ''x'' ''y''))) \<and>
   sql_text (logs_sql ''p'' (example_query ''x'' ''y'')) =
     sql_text (logs_sql ''q'' (example_query (''1 OR 1=1 -- '' @ [CHR 0x27]) ''?''))"
  using logs_query_statement [of "\<lambda>_. True" "example_query ''x'' ''y''"
      "example_query (''1 OR 1=1 -- '' @ [CHR 0x27]) ''?''" "''p''" "''q''"]
  by (simp add: example_query_def wf_matcher_def wf_filter_def matcher_shape_def ident_def
      ident_char_def ident_rest_def less_eq_char_def)

text \<open>
  The other three statements are rendered from one statement each in the same way: series,
  label values and label names bind the project and the window as conjuncts of their WHERE clause,
  and the arguments of the select list, the WHERE clause and the GROUP BY clause stand in the order
  of their question marks.
\<close>

theorem metadata_statements:
  assumes "list_all (wf_matcher rxc) ms"
  shows "buildSeriesQuery p ms tr = Inr (sql_text (series_sql p ms tr), sql_args (series_sql p ms tr)) \<and>
    buildLabelValuesQuery p label tr = (sql_text (values_sql p label tr), sql_args (values_sql p label tr)) \<and>
    buildLabelNamesQuery p tr = (sql_text (names_sql p tr), sql_args (names_sql p tr))"
  using buildSeriesQuery_sql [OF assms] buildLabelValuesQuery_sql buildLabelNamesQuery_sql by simp

theorem metadata_statements_witness:
  "buildSeriesQuery ''p'' [\<lparr>lm_Label = ''pod'', lm_Operator = ''!='', lm_Value = ''x'', lm_Regexp = None\<rparr>]
     \<lparr>tr_Start = 0, tr_End = 10\<rparr> =
   Inr (''SELECT ServiceName, SeverityText, Labels[?] FROM logs WHERE ProjectId = ? AND ObservedTimestamp >= fromUnixTimestamp64Nano(?) AND ObservedTimestamp < fromUnixTimestamp64Nano(?) AND (Labels[?] != ?) GROUP BY ServiceName, SeverityText, Labels[?]'',
     [SqlString ''resource_name'', SqlString ''p'', SqlInt 0, SqlInt 10, SqlString ''pod'', SqlString ''x'',
      SqlString ''resource_name''])"
proof -
  let ?m = "\<lparr>lm_Label = ''pod'', lm_Operator = ''!='', lm_Value = ''x'', lm_Regexp = None\<rparr>"
  have w: "list_all (wf_matcher (\<lambda>_. True)) [?m]" by code_simp
  have "sql_text (series_sql ''p'' [?m] \<lparr>tr_Start = 0, tr_End = 10\<rparr>) =
      ''SELECT ServiceName, SeverityText, Labels[?] FROM logs WHERE ProjectId = ? AND ObservedTimestamp >= fromUnixTimestamp64Nano(?) AND ObservedTimestamp < fromUnixTimestamp64Nano(?) AND (Labels[?] != ?) GROUP BY ServiceName, SeverityText, Labels[?]''"
    by code_simp
  moreover have "sql_args (series_sql ''p'' [?m] \<lparr>tr_Start = 0, tr_End = 10\<rparr>) =
      [SqlString ''resource_name'', SqlString ''p'', SqlInt 0, SqlInt 10, SqlString ''pod'', SqlString ''x'',
      SqlString ''resource_name'']"
    by code_simp
  ultimately show ?thesis
    using metadata_statements [OF w, of "''p''" "\<lparr>tr_Start = 0, tr_End = 10\<rparr>" "''pod''"] by simp
qed

text \<open>
  C15. The window of a query selects what it names. The two nanosecond counts \<open>projectRange\<close> binds fit a
  signed 64-bit integer for bounds of any year, and they select of the timestamps the column can hold
  (1 January 1900 to 11 April 2262 23:47:16, in nanoseconds) exactly those of the half-open window, with
  one exception: the very last instant of the column is never selected, however late the window ends.
\<close>

theorem time_bounds_exact:
  assumes "-2208988800 * 10 ^ 9 \<le> ts" "ts \<le> 9223372036 * 10 ^ 9"
  shows "\<exists>a b. snd (projectRange p tr) = [SqlString p, SqlInt a, SqlInt b] \<and> int64 a \<and> int64 b \<and>
    (a \<le> ts \<and> ts < b \<longleftrightarrow> tr_Start tr \<le> ts \<and> ts < tr_End tr \<and> ts \<noteq> 9223372036 * 10 ^ 9)"
  using assms unixNano_clamp [of "tr_Start tr"] unixNano_clamp [of "tr_End tr"]
  by (auto simp: projectRange_def minTimestamp_def maxTimestamp_def)

theorem time_bounds_exact_witness:
  "\<exists>a b. snd (projectRange ''p'' \<lparr>tr_Start = zero_time, tr_End = 1700000001 * second\<rparr>) = [SqlString ''p'', SqlInt a, SqlInt b] \<and>
     int64 a \<and> int64 b \<and> a \<le> 1700000000 * second \<and> 1700000000 * second < b"
proof -
  have "-2208988800 * 10 ^ 9 \<le> 1700000000 * second" "1700000000 * second \<le> 9223372036 * 10 ^ 9"
    "zero_time \<le> 1700000000 * second" "1700000000 * second \<noteq> 9223372036 * 10 ^ 9" by code_simp+
  with time_bounds_exact [of "1700000000 * second" "''p''" "\<lparr>tr_Start = zero_time, tr_End = 1700000001 * second\<rparr>"] show ?thesis by fastforce
qed

text \<open>
  C4. Tenant isolation of the ClickHouse store behind the middleware: what a caller is answered by
  each of the four operations depends on the database only through connections that carry the
  caller's own project, so two databases that agree on one project's connections are
  indistinguishable to it; and without a project no connection is used at all.
\<close>

theorem clickhouse_tenant_isolation:
  assumes "\<And>p. Resolve_user (ctx_User ctx) = Some p \<Longrightarrow> conn p = conn' p"
  shows "Middleware (Store_QueryLogs conn q) ctx = Middleware (Store_QueryLogs conn' q) ctx \<and>
    Middleware (Store_LabelNames conn tr) ctx = Middleware (Store_LabelNames conn' tr) ctx \<and>
    Middleware (Store_LabelValues conn label tr) ctx = Middleware (Store_LabelValues conn' label tr) ctx \<and>
    Middleware (Store_Series conn ms tr) ctx = Middleware (Store_Series conn' ms tr) ctx \<and>
    (ProjectID ctx = None \<longrightarrow>
       Store_QueryLogs conn q ctx = Inl ErrNoProject \<and> Store_LabelNames conn tr ctx = Inl ErrNoProject \<and>
       Store_LabelValues conn label tr ctx = Inl ErrNoProject \<and> Store_Series conn ms tr ctx = Inl ErrNoProject)"
  using ch_QueryLogs.middleware_isolated [of ctx conn conn' q]
    ch_LabelNames.middleware_isolated [of ctx conn conn' tr]
    ch_LabelValues.middleware_isolated [of ctx conn conn' label tr]
    ch_Series.middleware_isolated [of ctx conn conn' ms tr]
    ch_QueryLogs.unscoped ch_LabelNames.unscoped ch_LabelValues.unscoped ch_Series.unscoped assms
  by simp

definition example_user :: "string \<Rightarrow> Context" where
  "example_user p =
     \<lparr>ctx_User = Some \<lparr>u_Name = ''u'', u_Extra = (\<lambda>k. if k = parentTypeExtra then [''Project'']
        else if k = parentNameExtra then [p] else [])\<rparr>, ctx_Project = None\<rparr>"

definition example_conn :: "string \<Rightarrow> conn" where
  "example_conn other p query args =
     (if p = other then Inl (BackendError ''secret'')
      else Inr \<lparr>rs_items = [[CStr ''pod'']], rs_err = None, rs_close = None\<rparr>)"

theorem clickhouse_tenant_isolation_witness:
  "Middleware (Store_LabelNames (example_conn ''globex'') \<lparr>tr_Start = 0, tr_End = 9\<rparr>) (example_user ''acme'') =
   Middleware (Store_LabelNames (example_conn ''initech'') \<lparr>tr_Start = 0, tr_End = 9\<rparr>) (example_user ''acme'') \<and>
   Middleware (Store_LabelNames (example_conn ''globex'') \<lparr>tr_Start = 0, tr_End = 9\<rparr>) (example_user ''acme'') =
     Inr (Inr [''pod'', ''service_name'', ''severity''])"
proof
  have "Resolve_user (ctx_User (example_user ''acme'')) = Some ''acme''" by code_simp
  then have "\<And>p. Resolve_user (ctx_User (example_user ''acme'')) = Some p \<Longrightarrow>
      example_conn ''globex'' p = example_conn ''initech'' p"
    by (auto simp: example_conn_def fun_eq_iff)
  from clickhouse_tenant_isolation [of "example_user ''acme''" "example_conn ''globex''" "example_conn ''initech''", OF this]
  show "Middleware (Store_LabelNames (example_conn ''globex'') \<lparr>tr_Start = 0, tr_End = 9\<rparr>) (example_user ''acme'') =
   Middleware (Store_LabelNames (example_conn ''initech'') \<lparr>tr_Start = 0, tr_End = 9\<rparr>) (example_user ''acme'')" by blast
  show "Middleware (Store_LabelNames (example_conn ''globex'') \<lparr>tr_Start = 0, tr_End = 9\<rparr>) (example_user ''acme'') =
     Inr (Inr [''pod'', ''service_name'', ''severity''])" by code_simp
qed

text \<open>
  C16. The labels a row is reported with are those a matcher sees, but for blanks. For every name that is
  not internal, the value in the assembled set is the value SQL reads for it (the promoted column, else
  the first entry of a colliding name) whenever that is not blank; where SQL reads a blank, and a matcher
  therefore sees no such label, the row is still reported with the first attribute value of that name
  that is not blank, if there is one. Internal attributes are never reported, and no name is repeated.
\<close>

theorem row_labels_match_sql:
  "label_of (assembleLabels s sv t keys vs) k =
     (if k \<in> set internalLogAttributes then []
      else if sql_label s sv t keys vs k \<noteq> [] then sql_label s sv t keys vs k
      else first_nonblank keys vs k) \<and>
   LabelSet_inv (assembleLabels s sv t keys vs) \<and>
   set internalLogAttributes \<inter> dom (map_of (assembleLabels s sv t keys vs)) = {}"
proof (intro conjI)
  have none: "map_of (assembleLabels s sv t keys vs) i = None" if i: "i \<in> set internalLogAttributes" for i
  proof -
    have "i = ''telemetry_observed_time_unix_nano''" using i by (simp add: internalLogAttributes_def Sanitize_map)
    then show ?thesis using assemble_loop_internal [OF i] by (simp add: assembleLabels_def put_nonempty_lookup)
  qed
  then show "set internalLogAttributes \<inter> dom (map_of (assembleLabels s sv t keys vs)) = {}" by auto
  show "LabelSet_inv (assembleLabels s sv t keys vs)" by (rule assembleLabels_inv)
  have attr: "(case map_of (filter (\<lambda>e. snd e \<noteq> []) (zip keys vs)) k of Some v \<Rightarrow> v | None \<Rightarrow> []) = first_nonblank keys vs k"
    by (simp add: first_nonblank_def)
  show "label_of (assembleLabels s sv t keys vs) k =
     (if k \<in> set internalLogAttributes then []
      else if sql_label s sv t keys vs k \<noteq> [] then sql_label s sv t keys vs k
      else first_nonblank keys vs k)"
  proof (cases "k \<in> set internalLogAttributes")
    case False
    have "label_of (assembleLabels s sv t keys vs) k =
        (case map_of (put_nonempty ''trace_id'' t (put_nonempty ''severity'' sv (put_nonempty ''service_name'' s []))) k of
           Some v \<Rightarrow> v | None \<Rightarrow> first_nonblank keys vs k)"
      by (simp add: label_of_def assembleLabels_def assemble_loop_lookup [OF False] attr [symmetric] split: option.split)
    then show ?thesis
      using False first_nonblank_first [of keys vs k] by (auto simp: sql_label_def put_nonempty_lookup split: option.splits)
  qed (simp add: none label_of_def)
qed

text \<open>A blank first entry: the matcher sees no \<^verbatim>\<open>pod\<close>, the row is reported with the second entry.\<close>

lemma row_labels_blank_example:
  "sql_label ''api'' [] [] [''pod'', ''pod''] [[], ''b''] ''pod'' = [] \<and>
   label_of (assembleLabels ''api'' [] [] [''pod'', ''pod''] [[], ''b'']) ''pod'' = ''b''"
  by code_simp

text \<open>
  The label catalogue is exact: when the database answers, the names returned are the distinct
  non-blank names it listed less the internal ones, together with the fixed schema columns, sorted
  and without repetition.
\<close>

theorem label_names_catalogue:
  assumes "Store_LabelNames conn tr ctx = Inr names"
  shows "\<exists>p rows. ProjectID ctx = Some p \<and> conn p (fst (buildLabelNamesQuery p tr)) (snd (buildLabelNamesQuery p tr)) = Inr rows \<and>
    set names = ({v. v \<noteq> [] \<and> Some v \<in> scanOne ` set (rs_items rows)} - set internalLogAttributes) \<union> {''service_name'', ''severity''} \<and>
    distinct names \<and> sorted (map bytes names)"
proof -
  from assms obtain p rows out where p: "ProjectID ctx = Some p"
    and rows: "conn p (fst (buildLabelNamesQuery p tr)) (snd (buildLabelNamesQuery p tr)) = Inr rows"
    and out: "scan_strings_loop [] (rs_items rows) = Some out"
    and n: "names = dedupe_sorted [] (sort_strings (withoutInternalAttributes (sort_strings out) @ fixedSchemaLabels))"
    by (auto simp: Store_LabelNames_def ctx_project_id_def scanStrings_def close_rows_def
        split: option.splits prod.splits sum.splits)
  have "set out = {v. v \<noteq> [] \<and> Some v \<in> scanOne ` set (rs_items rows)}"
    using scan_strings_spec [OF out] by simp
  then have "set names = ({v. v \<noteq> [] \<and> Some v \<in> scanOne ` set (rs_items rows)} - set internalLogAttributes) \<union> {''service_name'', ''severity''}"
    unfolding n dedupe_sorted_set by (auto simp: withoutInternalAttributes_def fixedSchemaLabels_def)
  moreover have "distinct names \<and> sorted (map bytes names)"
    unfolding n by (rule dedupe_sorted_distinct) (simp_all only: append_Nil sorted_sort_strings distinct.simps)
  ultimately show ?thesis using p rows by blast
qed

theorem label_names_catalogue_witness:
  "\<exists>p rows. ProjectID \<lparr>ctx_User = None, ctx_Project = Some ''acme''\<rparr> = Some p \<and>
     example_conn ''globex'' p (fst (buildLabelNamesQuery p \<lparr>tr_Start = 0, tr_End = 9\<rparr>))
       (snd (buildLabelNamesQuery p \<lparr>tr_Start = 0, tr_End = 9\<rparr>)) = Inr rows \<and>
     set [''pod'', ''service_name'', ''severity''] =
       ({v. v \<noteq> [] \<and> Some v \<in> scanOne ` set (rs_items rows)} - set internalLogAttributes) \<union> {''service_name'', ''severity''}"
proof -
  have "Store_LabelNames (example_conn ''globex'') \<lparr>tr_Start = 0, tr_End = 9\<rparr>
      \<lparr>ctx_User = None, ctx_Project = Some ''acme''\<rparr> = Inr [''pod'', ''service_name'', ''severity'']" by code_simp
  from label_names_catalogue [OF this] show ?thesis by (elim exE conjE) (intro exI conjI, assumption+)
qed

text \<open>
  Draining a query result always returns, and groups the rows faithfully: unless the driver
  reports an error, the streams are exactly one per distinct label set in order of first appearance,
  each with its rows' values in row order (\<open>group_streams\<close>), so that no row is lost or counted twice.
\<close>

theorem clickhouse_streams:
  "collectStreams rowIterator_Next rowIterator_Row it_err rowIterator_Close it =
     Some (case it_err (snd (rowIterator_drain it)) of Some e \<Rightarrow> Inl e
           | None \<Rightarrow> (case rowIterator_Close (snd (rowIterator_drain it)) of Some e \<Rightarrow> Inl e
                       | None \<Rightarrow> Inr (group_streams (fst (rowIterator_drain it))))) \<and>
   sum_list (map (length \<circ> st_Values) (group_streams (fst (rowIterator_drain it)))) =
     length (fst (rowIterator_drain it)) \<and>
   length (group_streams (fst (rowIterator_drain it))) = card (row_key ` set (fst (rowIterator_drain it)))"
  using ch_iterator.collectStreams_drain group_streams_values group_streams_keys by blast

end
