(* ===== verification/CliClient.thy ===== *)
theory CliClient
  imports PromStore
begin

text \<open>
  The client of the logs API (\<^verbatim>\<open>cli/logs/client.go\<close>): requests with a cached token and one retry, the
  decoding of answers, and range queries whose lines are merged across streams. The HTTP client, the
  token source, the clock and the JSON decoder are parameters. Times are Unix nanoseconds.
\<close>

section \<open>Entries\<close>

record Entry =
  en_Time :: int
  en_Labels :: "(string \<times> string) list"
  en_Line :: string
  en_stream :: string

definition canonical :: "(string \<times> string) list \<Rightarrow> string" where
  "canonical labels =
     concat (map (\<lambda>k. k @ ''='' @ (case map_of labels k of None \<Rightarrow> [] | Some v \<Rightarrow> v) @ [CHR 0x01])
       (sort_strings (remdups (map fst labels))))"

definition Entry_Key :: "Entry \<Rightarrow> string" where
  "Entry_Key e =
     (let stream = (if en_stream e = [] then canonical (en_Labels e) else en_stream e) in
      Itoa (UnixNano (en_Time e)) @ [CHR 0x00] @ stream @ [CHR 0x00] @ en_Line e)"

definition Backward :: string where "Backward = ''backward''"
definition Forward :: string where "Forward = ''forward''"
definition MaxLimit :: int where "MaxLimit = 5000"

text \<open>\<^verbatim>\<open>slices.SortStableFunc\<close> on the time, as \<open>sort_key\<close> sorts stably.\<close>

definition Sort :: "Entry list \<Rightarrow> string \<Rightarrow> Entry list" where
  "Sort entries dir = (if dir = Forward then sort_key en_Time entries else sort_key (\<lambda>e. - en_Time e) entries)"

record ClientQuery =
  cq_Query :: string
  cq_Start :: int
  cq_End :: int
  cq_Limit :: int
  cq_Direction :: string

definition between :: "int \<Rightarrow> int \<Rightarrow> form" where
  "between start till =
     (let v = (if start \<noteq> zero_time then form_Set ''start'' (Itoa (UnixNano start)) empty_form else empty_form) in
      if till \<noteq> zero_time then form_Set ''end'' (Itoa (UnixNano till)) v else v)"

section \<open>URLs\<close>

definition APIPath :: string where
  "APIPath = ''/apis/o11y.miloapis.com/v1alpha1/logs/loki/api/v1''"

definition trim_right_slash :: "string \<Rightarrow> string" where
  "trim_right_slash s = rev (dropWhile (\<lambda>c. c = CHR ''/'') (rev s))"

text \<open>\<^verbatim>\<open>url.PathEscape\<close>.\<close>

definition path_safe :: "char \<Rightarrow> bool" where
  "path_safe c \<longleftrightarrow> char_in CHR ''a'' CHR ''z'' c \<or> char_in CHR ''A'' CHR ''Z'' c \<or> char_in CHR ''0'' CHR ''9'' c \<or> c \<in> set ''-_.~$&+=:@''"

definition upperhex :: "nat \<Rightarrow> char" where
  "upperhex n = ''0123456789ABCDEF'' ! n"

definition PathEscape :: "string \<Rightarrow> string" where
  "PathEscape s = concat (map (\<lambda>c. if path_safe c then [c] else [CHR ''%'', upperhex (of_char c div 16), upperhex (of_char c mod 16)]) s)"

definition ProjectURL :: "string \<Rightarrow> string \<Rightarrow> string" where
  "ProjectURL apiHost project =
     trim_right_slash (if ContainsStr apiHost ''://'' then apiHost else ''https://'' @ apiHost) @
     ''/apis/resourcemanager.miloapis.com/v1alpha1/projects/'' @ PathEscape project @ ''/control-plane''"

section \<open>Errors\<close>

datatype cli_error =
    APIError int string string
  | CliError string
  | CliWrapped string cli_error
  | BadResultType string

definition APIError_text :: "string \<Rightarrow> string \<Rightarrow> string" where
  "APIError_text status detail = ''logs query returned '' @ status @ (if detail \<noteq> [] then '': '' @ detail else [])"

definition Hint :: "int \<Rightarrow> string" where
  "Hint code =
     (if code = 400 then ''queries accept label matchers and line filters only, e.g. {service_name='' @ [CHR 0x22] @ ''checkout'' @ [CHR 0x22] @ ''} |= '' @ [CHR 0x22] @ ''error'' @ [CHR 0x22]
      else if code = 401 then ''run '' @ [CHR 0x27] @ ''datumctl login'' @ [CHR 0x27] @ '' to refresh your credentials''
      else if code = 403 then ''reading logs requires the o11y.miloapis.com logs.query permission on this project''
      else if code = 404 then ''this project may not have the telemetry API enabled''
      else [])"

fun as_APIError :: "cli_error \<Rightarrow> int option" where
  "as_APIError (APIError code st d) = Some code"
| "as_APIError (CliWrapped c e) = as_APIError e"
| "as_APIError e = None"

definition Permanent :: "cli_error \<Rightarrow> bool" where
  "Permanent e \<longleftrightarrow> (case as_APIError e of None \<Rightarrow> False | Some code \<Rightarrow> code \<in> {400, 401, 403, 404})"

section \<open>Requests\<close>

record client =
  cl_base :: string
  cl_hasToken :: bool
  cl_userAgent :: string
  cl_cached :: string
  cl_fetched :: int

definition new_client :: "string \<Rightarrow> bool \<Rightarrow> string \<Rightarrow> client" where
  "new_client controlPlane hasToken userAgent =
     \<lparr>cl_base = trim_right_slash controlPlane @ APIPath, cl_hasToken = hasToken, cl_userAgent = userAgent,
      cl_cached = [], cl_fetched = zero_time\<rparr>"

record CliRequest =
  rq_Path :: string
  rq_Values :: form
  rq_UserAgent :: string
  rq_Authorization :: string

record CliResponse =
  rp_StatusCode :: int
  rp_Status :: string
  rp_Body :: string

text \<open>The world of a client: answers by the number of the request, tokens by the number of the call.\<close>

record Net =
  nt_NewRequest :: "string \<Rightarrow> form \<Rightarrow> string option"
  nt_Do :: "nat \<Rightarrow> CliRequest \<Rightarrow> string + CliResponse"
  nt_Token :: "nat \<Rightarrow> string + string"
  nt_Now :: "nat \<Rightarrow> int"

record cli_state =
  cs_client :: client
  cs_requests :: "CliRequest list"
  cs_tokens :: nat

definition tokenTTL :: int where "tokenTTL = 60000000000"

definition bearer :: "Net \<Rightarrow> bool \<Rightarrow> cli_state \<Rightarrow> (cli_error + string) \<times> cli_state" where
  "bearer net refresh s =
     (let c = cs_client s; now = nt_Now net (cs_tokens s) in
      if refresh \<or> cl_cached c = [] \<or> time_Sub now (cl_fetched c) > tokenTTL
      then (case nt_Token net (cs_tokens s) of
          Inl e \<Rightarrow> (Inl (CliWrapped ''getting credentials'' (CliError e)), s\<lparr>cs_tokens := Suc (cs_tokens s)\<rparr>)
        | Inr t \<Rightarrow> (Inr t, s\<lparr>cs_tokens := Suc (cs_tokens s), cs_client := c\<lparr>cl_cached := t, cl_fetched := now\<rparr>\<rparr>))
      else (Inr (cl_cached c), s))"

record CliEnvelope =
  ev_Status :: string
  ev_Error :: string
  ev_Data :: string

record 'a Json =
  js_Envelope :: "string \<Rightarrow> string + CliEnvelope"
  js_Data :: "string \<Rightarrow> string + 'a"
  js_Detail :: "string \<Rightarrow> (string \<times> string) option"

definition cmp_Or :: "string \<Rightarrow> string \<Rightarrow> string" where
  "cmp_Or a b = (if a \<noteq> [] then a else b)"

definition responseError :: "'a Json \<Rightarrow> CliResponse \<Rightarrow> cli_error" where
  "responseError js resp =
     (let body = take 8192 (rp_Body resp); detail = TrimSpace body in
      APIError (rp_StatusCode resp) (rp_Status resp)
        (case js_Detail js body of None \<Rightarrow> detail | Some (err, message) \<Rightarrow> cmp_Or err (cmp_Or message detail)))"

definition cli_decode :: "'a Json \<Rightarrow> CliResponse \<Rightarrow> cli_error + 'a" where
  "cli_decode js resp =
     (if rp_StatusCode resp \<noteq> 200 then Inl (responseError js resp)
      else case js_Envelope js (rp_Body resp) of
        Inl e \<Rightarrow> Inl (CliWrapped ''decoding logs response'' (CliError e))
      | Inr ev \<Rightarrow>
          if ev_Status ev \<noteq> ''success'' then Inl (CliWrapped ''logs query failed'' (CliError (cmp_Or (ev_Error ev) (''status '' @ ev_Status ev))))
          else (case js_Data js (ev_Data ev) of
              Inl e \<Rightarrow> Inl (CliWrapped ''decoding logs response'' (CliError e))
            | Inr x \<Rightarrow> Inr x))"

text \<open>One request with the authorization of this attempt, and the loop over attempts.\<close>

definition authorize :: "Net \<Rightarrow> nat \<Rightarrow> cli_state \<Rightarrow> (cli_error + string) \<times> cli_state" where
  "authorize net attempt s =
     (if cl_hasToken (cs_client s)
      then (case bearer net (attempt > 0) s of (Inl e, s') \<Rightarrow> (Inl e, s') | (Inr t, s') \<Rightarrow> (Inr (''Bearer '' @ t), s'))
      else (Inr [], s))"

function get_attempt :: "Net \<Rightarrow> 'a Json \<Rightarrow> string \<Rightarrow> form \<Rightarrow> nat \<Rightarrow> cli_state \<Rightarrow> (cli_error + 'a) \<times> cli_state" where
  "get_attempt net js path v attempt s =
     (case nt_NewRequest net (cl_base (cs_client s) @ path) v of
        Some e \<Rightarrow> (Inl (CliError e), s)
      | None \<Rightarrow>
     (case authorize net attempt s of
        (Inl e, s1) \<Rightarrow> (Inl e, s1)
      | (Inr auth, s1) \<Rightarrow>
          let req = \<lparr>rq_Path = path, rq_Values = v, rq_UserAgent = cl_userAgent (cs_client s1), rq_Authorization = auth\<rparr>;
              s2 = s1\<lparr>cs_requests := cs_requests s1 @ [req]\<rparr> in
          (case nt_Do net (length (cs_requests s1)) req of
             Inl e \<Rightarrow> (Inl (CliWrapped ''querying logs'' (CliError e)), s2)
           | Inr resp \<Rightarrow>
               if rp_StatusCode resp = 401 \<and> attempt = 0 \<and> cl_hasToken (cs_client s2)
               then get_attempt net js path v (Suc attempt) s2
               else (cli_decode js resp, s2))))"
  by pat_completeness auto
termination by (relation "measure (\<lambda>(net, js, path, v, attempt, s). 1 - attempt)") auto

definition get :: "Net \<Rightarrow> 'a Json \<Rightarrow> string \<Rightarrow> form \<Rightarrow> cli_state \<Rightarrow> (cli_error + 'a) \<times> cli_state" where
  "get net js path v s = get_attempt net js path v 0 s"

section \<open>Queries\<close>

record stream_result =
  sr_Stream :: "(string \<times> string) list"
  sr_Values :: "(string \<times> string) list"

record range_data =
  rd_ResultType :: string
  rd_Result :: "stream_result list"

definition stream_entries :: "stream_result \<Rightarrow> Entry list" where
  "stream_entries s =
     (let key = canonical (sr_Stream s) in
      concat (map (\<lambda>(ts, line). case ParseInt ts of
          None \<Rightarrow> []
        | Some ns \<Rightarrow> [\<lparr>en_Time = ns, en_Labels = sr_Stream s, en_Line = line, en_stream = key\<rparr>]) (sr_Values s)))"

definition query_values :: "ClientQuery \<Rightarrow> form" where
  "query_values q =
     (let v = form_Set ''query'' (cq_Query q) (between (cq_Start q) (cq_End q));
          v1 = (if cq_Limit q > 0 then form_Set ''limit'' (Itoa (cq_Limit q)) v else v) in
      if cq_Direction q \<noteq> [] then form_Set ''direction'' (cq_Direction q) v1 else v1)"

definition QueryRange :: "Net \<Rightarrow> range_data Json \<Rightarrow> ClientQuery \<Rightarrow> cli_state \<Rightarrow> (cli_error + Entry list) \<times> cli_state" where
  "QueryRange net js q s =
     (case get net js ''/query_range'' (query_values q) s of
        (Inl e, s1) \<Rightarrow> (Inl e, s1)
      | (Inr d, s1) \<Rightarrow>
          if rd_ResultType d \<noteq> ''streams'' then (Inl (BadResultType (rd_ResultType d)), s1)
          else (Inr (Sort (concat (map stream_entries (rd_Result d))) (cq_Direction q)), s1))"

definition client_LabelNames :: "Net \<Rightarrow> string list Json \<Rightarrow> int \<Rightarrow> int \<Rightarrow> cli_state \<Rightarrow> (cli_error + string list) \<times> cli_state" where
  "client_LabelNames net js start till s = get net js ''/labels'' (between start till) s"

definition client_LabelValues ::
  "Net \<Rightarrow> string list Json \<Rightarrow> string \<Rightarrow> int \<Rightarrow> int \<Rightarrow> cli_state \<Rightarrow> (cli_error + string list) \<times> cli_state" where
  "client_LabelValues net js label start till s = get net js (''/label/'' @ PathEscape label @ ''/values'') (between start till) s"

section \<open>Lemmas\<close>

declare get_attempt.simps [simp del]

lemma bearer_state:
  "bearer net refresh s = (r, s') \<Longrightarrow>
     cs_requests s' = cs_requests s \<and> cl_hasToken (cs_client s') = cl_hasToken (cs_client s) \<and> cs_tokens s \<le> cs_tokens s' \<and>
     (refresh \<longrightarrow> (\<forall>t. r = Inr t \<longrightarrow> nt_Token net (cs_tokens s) = Inr t))"
  by (auto simp: bearer_def Let_def split: if_splits sum.splits)

lemma authorize_state:
  "authorize net attempt s = (r, s') \<Longrightarrow>
     cs_requests s' = cs_requests s \<and> cl_hasToken (cs_client s') = cl_hasToken (cs_client s) \<and>
     (\<forall>a. r = Inr a \<and> 0 < attempt \<and> cl_hasToken (cs_client s) \<longrightarrow> (\<exists>t. nt_Token net (cs_tokens s) = Inr t \<and> a = ''Bearer '' @ t))"
  by (auto simp: authorize_def dest: bearer_state split: if_splits prod.splits sum.splits)

text \<open>What one attempt did: it failed before sending, sent one request and returned, or it starts the second attempt.\<close>

lemma get_attempt_cases:
  obtains (unsent) e s1 where "get_attempt net js path v attempt s = (Inl e, s1)" "cs_requests s1 = cs_requests s"
  | (sent) s1 req where "snd (get_attempt net js path v attempt s) = s1" "cs_requests s1 = cs_requests s @ [req]"
      "rq_Path req = path" "rq_Values req = v"
      "\<And>x. fst (get_attempt net js path v attempt s) = Inr x \<Longrightarrow>
        \<exists>resp. nt_Do net (length (cs_requests s)) req = Inr resp \<and> cli_decode js resp = Inr x"
      "0 < attempt \<and> cl_hasToken (cs_client s) \<Longrightarrow> \<exists>t. nt_Token net (cs_tokens s) = Inr t \<and> rq_Authorization req = ''Bearer '' @ t"
  | (retry) s1 req resp where "attempt = 0" "get_attempt net js path v attempt s = get_attempt net js path v 1 s1"
      "cs_requests s1 = cs_requests s @ [req]" "rq_Path req = path" "rq_Values req = v"
      "nt_Do net (length (cs_requests s)) req = Inr resp" "rp_StatusCode resp = 401" "cl_hasToken (cs_client s1)"
proof (cases "nt_NewRequest net (cl_base (cs_client s) @ path) v")
  case (Some e)
  then show ?thesis by (intro unsent [of "CliError e" s]) (simp_all add: get_attempt.simps)
next
  case None
  obtain ra s1 where a: "authorize net attempt s = (ra, s1)" by fastforce
  note st = authorize_state [OF a]
  show ?thesis
  proof (cases ra)
    case (Inl e)
    then show ?thesis using None a st by (intro unsent [of e s1]) (simp_all add: get_attempt.simps)
  next
    case (Inr auth)
    define req where "req = \<lparr>rq_Path = path, rq_Values = v, rq_UserAgent = cl_userAgent (cs_client s1), rq_Authorization = auth\<rparr>"
    define s2 where "s2 = s1\<lparr>cs_requests := cs_requests s1 @ [req]\<rparr>"
    have step1: "get_attempt net js path v attempt s =
       (case nt_Do net (length (cs_requests s1)) req of
             Inl e \<Rightarrow> (Inl (CliWrapped ''querying logs'' (CliError e)), s2)
           | Inr resp \<Rightarrow>
               if rp_StatusCode resp = 401 \<and> attempt = 0 \<and> cl_hasToken (cs_client s2)
               then get_attempt net js path v (Suc attempt) s2
               else (cli_decode js resp, s2))"
      using None a Inr by (simp add: get_attempt.simps [of net js path v attempt s] req_def s2_def Let_def split: sum.split)
    have "cs_requests s1 = cs_requests s" using st by simp
    note step = step1 [unfolded this]
    have r: "cs_requests s2 = cs_requests s @ [req]" "rq_Path req = path" "rq_Values req = v" "rq_Authorization req = auth"
      using st by (simp_all add: s2_def req_def)
    show ?thesis
    proof (cases "\<exists>resp. nt_Do net (length (cs_requests s)) req = Inr resp \<and> rp_StatusCode resp = 401 \<and> attempt = 0 \<and> cl_hasToken (cs_client s2)")
      case True
      then obtain resp where "nt_Do net (length (cs_requests s)) req = Inr resp" "rp_StatusCode resp = 401" "attempt = 0"
        "cl_hasToken (cs_client s2)" by blast
      then show ?thesis using step r by (intro retry [of s2 req resp]) simp_all
    next
      case False
      then have out: "get_attempt net js path v attempt s = (case nt_Do net (length (cs_requests s)) req of
          Inl e \<Rightarrow> Inl (CliWrapped ''querying logs'' (CliError e)) | Inr resp \<Rightarrow> cli_decode js resp, s2)"
        using step by (auto split: sum.splits)
      show ?thesis
        by (rule sent [of s2 req]) (use out r st Inr in \<open>auto split: sum.splits\<close>)
    qed
  qed
qed

text \<open>The requests of one call: at most one retry, after a 401, with a token newly obtained.\<close>

definition tries :: "Net \<Rightarrow> nat \<Rightarrow> CliRequest list \<Rightarrow> bool" where
  "tries net n rs \<longleftrightarrow>
     (case rs of
        [] \<Rightarrow> True
      | [r1] \<Rightarrow> True
      | [r1, r2] \<Rightarrow> (\<exists>resp. nt_Do net n r1 = Inr resp \<and> rp_StatusCode resp = 401) \<and>
          (\<exists>m t. nt_Token net m = Inr t \<and> rq_Authorization r2 = ''Bearer '' @ t)
      | _ \<Rightarrow> False)"

lemma get_requests:
  assumes "get net js path v s = (r, s')"
  shows "\<exists>rs. cs_requests s' = cs_requests s @ rs \<and> list_all (\<lambda>q. rq_Path q = path \<and> rq_Values q = v) rs \<and>
    tries net (length (cs_requests s)) rs \<and> (case rs of [] \<Rightarrow> (\<exists>e. r = Inl e) | _ \<Rightarrow> True) \<and>
    (\<forall>x. r = Inr x \<longrightarrow> (\<exists>resp. nt_Do net (length (cs_requests s') - 1) (last (cs_requests s')) = Inr resp \<and> cli_decode js resp = Inr x))"
  using assms unfolding get_def
proof (cases rule: get_attempt_cases [of net js path v 0 s])
  case (retry s1 req resp)
  have second: "get_attempt net js path v 1 s1 = (r, s')" using retry(2) assms by (simp add: get_def)
  show ?thesis
  proof (cases rule: get_attempt_cases [of net js path v 1 s1])
    case (unsent e s2)
    then show ?thesis using second retry by (intro exI [of _ "[req]"]) (auto simp: tries_def)
  next
    case (sent s2 req2)
    have "\<exists>t. nt_Token net (cs_tokens s1) = Inr t \<and> rq_Authorization req2 = ''Bearer '' @ t" using sent(6) retry(8) by simp
    moreover have "s2 = s'" "fst (get_attempt net js path v 1 s1) = r" using sent(1) second by auto
    ultimately show ?thesis using sent(2-5) retry by (intro exI [of _ "[req, req2]"]) (auto simp: tries_def)
  qed simp
next
  case (unsent e s1)
  then show ?thesis using assms by (intro exI [of _ "[]"]) (auto simp: get_def tries_def)
next
  case (sent s1 req)
  then have "s1 = s'" "fst (get_attempt net js path v 0 s) = r" using assms by (auto simp: get_def)
  then show ?thesis using sent(2-5) by (intro exI [of _ "[req]"]) (auto simp: tries_def)
qed

lemma Sort_mset [simp]: "mset (Sort es dir) = mset es"
  by (simp add: Sort_def)

lemma Sort_sorted:
  "if dir = Forward then sorted (map en_Time (Sort es dir)) else sorted (rev (map en_Time (Sort es dir)))"
proof -
  have "sorted (map (\<lambda>e. - en_Time e) (sort_key (\<lambda>e. - en_Time e) es))" by (rule sorted_sort_key)
  then have "sorted_wrt (\<ge>) (map en_Time (sort_key (\<lambda>e. - en_Time e) es))"
    by (simp add: sorted_map sorted_wrt_map)
  then show ?thesis by (simp add: Sort_def sorted_wrt_rev)
qed

lemma Sort_stable: "filter (\<lambda>e. en_Time e = t) (Sort es dir) = filter (\<lambda>e. en_Time e = t) es"
proof -
  have "filter (\<lambda>e. - en_Time e = - t) (sort_key (\<lambda>e. - en_Time e) es) = filter (\<lambda>e. - en_Time e = - t) es"
    by (rule sort_key_stable)
  then show ?thesis using sort_key_stable [of en_Time t es] by (simp add: Sort_def)
qed

text \<open>
  A range query sends the same request at most twice, the second time only when the first was
  answered 401, and then with a token newly obtained for it; it returns lines only from an answer that
  decodes. The lines are then exactly the parseable ones of the answer's streams, each once, in the
  order of time the query asked for, lines of the same time in the order they came.
\<close>

theorem range_query_merges:
  "case QueryRange net js q s of (r, s') \<Rightarrow>
     (\<exists>rs. cs_requests s' = cs_requests s @ rs \<and>
        list_all (\<lambda>rq. rq_Path rq = ''/query_range'' \<and> rq_Values rq = query_values q) rs \<and>
        tries net (length (cs_requests s)) rs \<and> (case rs of [] \<Rightarrow> (\<exists>e. r = Inl e) | _ \<Rightarrow> True)) \<and>
     (case r of
        Inl e \<Rightarrow> True
      | Inr es \<Rightarrow> (\<exists>resp d.
          nt_Do net (length (cs_requests s') - 1) (last (cs_requests s')) = Inr resp \<and> cli_decode js resp = Inr d \<and>
          rd_ResultType d = ''streams'' \<and>
          mset es = mset (concat (map stream_entries (rd_Result d))) \<and>
          (if cq_Direction q = Forward then sorted (map en_Time es) else sorted (rev (map en_Time es))) \<and>
          (\<forall>t. filter (\<lambda>e. en_Time e = t) es = filter (\<lambda>e. en_Time e = t) (concat (map stream_entries (rd_Result d))))))"
proof -
  obtain rg s' where g: "get net js ''/query_range'' (query_values q) s = (rg, s')" by fastforce
  note gr = get_requests [OF g]
  show ?thesis
  proof (cases "\<exists>d. rg = Inr d \<and> rd_ResultType d = ''streams''")
    case True
    then obtain d where d: "rg = Inr d" "rd_ResultType d = ''streams''" by blast
    have run: "QueryRange net js q s = (Inr (Sort (concat (map stream_entries (rd_Result d))) (cq_Direction q)), s')"
      using g d by (simp add: QueryRange_def)
    obtain rs where rs: "cs_requests s' = cs_requests s @ rs" "list_all (\<lambda>rq. rq_Path rq = ''/query_range'' \<and> rq_Values rq = query_values q) rs"
      "tries net (length (cs_requests s)) rs" "case rs of [] \<Rightarrow> (\<exists>e. rg = Inl e) | _ \<Rightarrow> True" using gr by blast
    then have ne: "case rs of [] \<Rightarrow> (\<exists>e. Inr (Sort (concat (map stream_entries (rd_Result d))) (cq_Direction q)) = Inl e) | _ \<Rightarrow> True"
      using d(1) by (simp split: list.splits)
    obtain resp where resp: "nt_Do net (length (cs_requests s') - 1) (last (cs_requests s')) = Inr resp" "cli_decode js resp = Inr d"
      using gr d(1) by blast
    show ?thesis
      unfolding run prod.case sum.case
      by (intro conjI exI [of _ rs] exI [of _ resp] exI [of _ d] allI Sort_mset Sort_sorted Sort_stable rs(1-3) ne resp d(2))
  next
    case False
    then have "\<exists>e. QueryRange net js q s = (Inl e, s')"
      using g by (cases rg) (auto simp: QueryRange_def)
    then obtain e where run: "QueryRange net js q s = (Inl e, s')" by blast
    obtain rs where rs: "cs_requests s' = cs_requests s @ rs" "list_all (\<lambda>rq. rq_Path rq = ''/query_range'' \<and> rq_Values rq = query_values q) rs"
      "tries net (length (cs_requests s)) rs" using gr by blast
    then show ?thesis unfolding run prod.case sum.case by (intro conjI exI [of _ rs] TrueI) (simp_all split: list.split)
  qed
qed

end
