(* ===== verification/Selector.thy ===== *)
theory Selector
  imports LogQL
begin

text \<open>
  The client side of LogQL (cli/logql/logql.go): the selector builder and its rendering. The printed
  form of a selector is read back by the query API's parser as the same matchers and filters, for
  every byte of every value; that is the contract between the two packages, which share no code.
\<close>

record Matcher =
  m_Label :: string
  m_Op :: string
  m_Value :: string

record Filter =
  f_Op :: string
  f_Value :: string

record Selector =
  s_Matchers :: "Matcher list"
  s_Filters :: "Filter list"

definition empty_Selector :: Selector where
  "empty_Selector = \<lparr>s_Matchers = [], s_Filters = []\<rparr>"

definition Selector_add :: "Selector \<Rightarrow> string \<Rightarrow> string \<Rightarrow> string \<Rightarrow> Selector" where
  "Selector_add s label op value =
     s\<lparr>s_Matchers := s_Matchers s @ [\<lparr>m_Label = label, m_Op = op, m_Value = value\<rparr>]\<rparr>"

definition Selector_Eq :: "Selector \<Rightarrow> string \<Rightarrow> string \<Rightarrow> Selector" where
  "Selector_Eq s label value = Selector_add s label ''='' value"

definition Selector_Neq :: "Selector \<Rightarrow> string \<Rightarrow> string \<Rightarrow> Selector" where
  "Selector_Neq s label value = Selector_add s label ''!='' value"

definition Selector_Re :: "Selector \<Rightarrow> string \<Rightarrow> string \<Rightarrow> Selector" where
  "Selector_Re s label pattern = Selector_add s label ''=~'' pattern"

definition Selector_Nre :: "Selector \<Rightarrow> string \<Rightarrow> string \<Rightarrow> Selector" where
  "Selector_Nre s label pattern = Selector_add s label ''!~'' pattern"

text \<open>\<^verbatim>\<open>regexp.QuoteMeta\<close>: a backslash before every metacharacter.\<close>

definition QuoteMeta :: "string \<Rightarrow> string" where
  "QuoteMeta s =
     concat (map (\<lambda>c. if c \<in> set (CHR 0x5C # ''.+*?()|[]{}^$'') then [CHR 0x5C, c] else [c]) s)"

definition Alternation :: "string list \<Rightarrow> string" where
  "Alternation values = JoinStr (map QuoteMeta values) ''|''"

fun dedupe_loop :: "string list \<Rightarrow> string list \<Rightarrow> string list" where
  "dedupe_loop out [] = out"
| "dedupe_loop out (v # vs) =
     (if TrimSpace v \<noteq> [] \<and> TrimSpace v \<notin> set out then dedupe_loop (out @ [TrimSpace v]) vs
      else dedupe_loop out vs)"

definition dedupe_values :: "string list \<Rightarrow> string list" where
  "dedupe_values values = dedupe_loop [] values"

definition Selector_OneOf :: "Selector \<Rightarrow> string \<Rightarrow> string list \<Rightarrow> Selector" where
  "Selector_OneOf s label values =
     (case dedupe_values values of
        [] \<Rightarrow> s
      | [v] \<Rightarrow> Selector_Eq s label v
      | vs \<Rightarrow> Selector_Re s label (Alternation vs))"

definition Selector_NoneOf :: "Selector \<Rightarrow> string \<Rightarrow> string list \<Rightarrow> Selector" where
  "Selector_NoneOf s label values =
     (case dedupe_values values of
        [] \<Rightarrow> s
      | [v] \<Rightarrow> Selector_Neq s label v
      | vs \<Rightarrow> Selector_Nre s label (Alternation vs))"

definition Selector_Contains :: "Selector \<Rightarrow> string \<Rightarrow> Selector" where
  "Selector_Contains s txt =
     (if txt \<noteq> [] then s\<lparr>s_Filters := s_Filters s @ [\<lparr>f_Op = ''|='', f_Value = txt\<rparr>]\<rparr> else s)"

definition Selector_Excludes :: "Selector \<Rightarrow> string \<Rightarrow> Selector" where
  "Selector_Excludes s txt =
     (if txt \<noteq> [] then s\<lparr>s_Filters := s_Filters s @ [\<lparr>f_Op = ''!='', f_Value = txt\<rparr>]\<rparr> else s)"

definition render_matcher :: "(nat \<Rightarrow> bool) \<Rightarrow> Matcher \<Rightarrow> string" where
  "render_matcher isp m = m_Label m @ m_Op m @ Quote isp (m_Value m)"

definition render_filter :: "(nat \<Rightarrow> bool) \<Rightarrow> Filter \<Rightarrow> string" where
  "render_filter isp f = '' '' @ f_Op f @ '' '' @ Quote isp (f_Value f)"

definition Selector_String :: "(nat \<Rightarrow> bool) \<Rightarrow> Selector \<Rightarrow> string" where
  "Selector_String isp s =
     ''{'' @ JoinStr (map (render_matcher isp) (s_Matchers s)) '', '' @ ''}'' @
     concat (map (render_filter isp) (s_Filters s))"

section \<open>Selectors the query API accepts\<close>

definition valid_Matcher :: "(string \<Rightarrow> bool) \<Rightarrow> Matcher \<Rightarrow> bool" where
  "valid_Matcher rxc m \<longleftrightarrow>
     ident (m_Label m) \<and>
     (m_Op m \<in> {''='', ''!=''} \<or> m_Op m \<in> {''=~'', ''!~''} \<and> rxc (anchored (m_Value m)))"

definition valid_Filter :: "(string \<Rightarrow> bool) \<Rightarrow> Filter \<Rightarrow> bool" where
  "valid_Filter rxc f \<longleftrightarrow>
     f_Op f \<in> {''|='', ''!=''} \<or> f_Op f \<in> {''|~'', ''!~''} \<and> rxc (f_Value f)"

definition valid_Selector :: "(string \<Rightarrow> bool) \<Rightarrow> Selector \<Rightarrow> bool" where
  "valid_Selector rxc s \<longleftrightarrow>
     list_all (valid_Matcher rxc) (s_Matchers s) \<and> list_all (valid_Filter rxc) (s_Filters s)"

text \<open>What the parser is to make of a selector.\<close>

definition matcher_of :: "Matcher \<Rightarrow> LabelMatcher" where
  "matcher_of m =
     \<lparr>lm_Label = m_Label m, lm_Operator = m_Op m, lm_Value = m_Value m,
      lm_Regexp = (if m_Op m \<in> {''=~'', ''!~''} then Some (anchored (m_Value m)) else None)\<rparr>"

definition filter_of :: "Filter \<Rightarrow> LineFilter" where
  "filter_of f =
     \<lparr>lf_Operator = f_Op f, lf_Value = f_Value f,
      lf_Regexp = (if f_Op f \<in> {''|~'', ''!~''} then Some (f_Value f) else None)\<rparr>"

definition query_of :: "Selector \<Rightarrow> Query" where
  "query_of s = \<lparr>q_Matchers = map matcher_of (s_Matchers s), q_Filters = map filter_of (s_Filters s)\<rparr>"

section \<open>Scanning rendered text\<close>

lemma Quote_ends: "hd (Quote isp s) = CHR 0x22" "last (Quote isp s) = CHR 0x22" "Quote isp s \<noteq> []"
  by (simp_all add: Quote_def)

lemma scanString_Quote: "scanString (Quote isp v @ t) = Inr (v, t)"
  by (simp add: scanString_def QuotedPrefix_Quote Unquote_Quote)

text \<open>Text with no quote and no brace does not change the brace scanner's state.\<close>

lemma closing_plain:
  "\<forall>c \<in> set w. c \<noteq> CHR 0x22 \<and> c \<noteq> CHR ''}'' \<Longrightarrow>
   closing_from False i (w @ t) = closing_from False (i + length w) t"
  by (induction w arbitrary: i) auto

text \<open>
  The text between the quotes of a printed value: a backslash always comes with the character it
  escapes, so a scanner that skips such pairs reads past it to the closing quote.
\<close>

inductive quoted_text :: "string \<Rightarrow> bool" where
  none: "quoted_text []"
| plain: "c \<noteq> CHR 0x22 \<Longrightarrow> c \<noteq> CHR 0x5C \<Longrightarrow> quoted_text w \<Longrightarrow> quoted_text (c # w)"
| pair: "quoted_text w \<Longrightarrow> quoted_text (CHR 0x5C # c # w)"

lemma quoted_append: "quoted_text u \<Longrightarrow> quoted_text v \<Longrightarrow> quoted_text (u @ v)"
  by (induction rule: quoted_text.induct) (auto intro: quoted_text.intros)

lemma quoted_plain: "\<forall>c \<in> set w. c \<noteq> CHR 0x22 \<and> c \<noteq> CHR 0x5C \<Longrightarrow> quoted_text w"
  by (induction w) (auto intro: quoted_text.intros)

lemma escape_tail_shape:
  "\<exists>c u. escape_tail r = c # u \<and> (\<forall>d \<in> set u. d \<noteq> CHR 0x22 \<and> d \<noteq> CHR 0x5C)"
  using hex_digits_plain by (simp add: escape_tail_def)

lemma quoted_escaped:
  assumes "ValidRune r"
  shows "quoted_text (appendEscapedRune isp r)"
proof -
  consider (quote) "r = 0x22 \<or> r = 0x5C" | (print) "IsPrint isp r" "r \<noteq> 0x22" "r \<noteq> 0x5C"
    | (escape) "\<not> IsPrint isp r" "r \<noteq> 0x22" "r \<noteq> 0x5C" by linarith
  then show ?thesis
  proof cases
    case quote
    then show ?thesis by (auto simp: appendEscapedRune_def intro: quoted_text.intros)
  next
    case print
    have "\<forall>c \<in> set (encode_rune r). c \<noteq> CHR 0x22 \<and> c \<noteq> CHR 0x5C"
    proof
      fix c assume "c \<in> set (encode_rune r)"
      from encode_rune_bytes [OF this assms] print show "c \<noteq> CHR 0x22 \<and> c \<noteq> CHR 0x5C"
        by (auto dest!: arg_cong [of "char_of r" _ byte])
    qed
    with print show ?thesis by (simp add: appendEscapedRune_def quoted_plain)
  next
    case escape
    obtain c u where "escape_tail r = c # u" "\<forall>d \<in> set u. d \<noteq> CHR 0x22 \<and> d \<noteq> CHR 0x5C"
      using escape_tail_shape by blast
    with escape show ?thesis by (simp add: appendEscapedRune_def quoted_text.pair quoted_plain)
  qed
qed

lemma quoted_quote_body: "quoted_text (quote_body isp s)"
proof (induction isp s rule: quote_body.induct)
  case (1 isp s)
  show ?case
  proof (cases s)
    case Nil
    then show ?thesis by (simp add: quote_body.simps quoted_text.none)
  next
    case (Cons c u)
    obtain r w where d: "decode_rune s = (r, w)" by fastforce
    show ?thesis
    proof (cases "w = 1 \<and> r = RuneError")
      case True
      have q: "quote_body isp s = (CHR 0x5C # CHR ''x'' # hex_digits 2 (byte c)) @ quote_body isp u"
        using True Cons d by (subst quote_body.simps) simp
      have "\<forall>d \<in> set (hex_digits 2 (byte c)). d \<noteq> CHR 0x22 \<and> d \<noteq> CHR 0x5C"
        using hex_digits_plain by blast
      then show ?thesis unfolding q
        by (intro quoted_append quoted_text.pair quoted_plain "1"(1) [OF Cons d [symmetric] True])
    next
      case False
      have "ValidRune r" using encode_decode [OF _ d] False Cons by auto
      moreover have "quote_body isp s = appendEscapedRune isp r @ quote_body isp (drop w s)"
        using d Cons False by (subst quote_body.simps) auto
      ultimately show ?thesis using "1"(2) [OF Cons d [symmetric] False]
        by (simp add: quoted_append quoted_escaped)
    qed
  qed
qed

lemma closing_quoted: "quoted_text w \<Longrightarrow> closing_from True i (w @ t) = closing_from True (i + length w) t"
  by (induction arbitrary: i rule: quoted_text.induct) simp_all

lemma closing_Quote:
  "closing_from False i (Quote isp v @ t) = closing_from False (i + length (Quote isp v)) t"
  using closing_quoted [OF quoted_quote_body, of "i + 1" isp v "CHR 0x22 # t"] by (simp add: Quote_def)

lemma Quote_not_ident: "Quote isp v @ t \<noteq> []" "hd (Quote isp v @ t) = CHR 0x22"
  by (simp_all add: Quote_def)

lemma solid_tilde: "solid (CHR ''~'')"
  by (simp add: solid_def space_runes_def)

lemmas solid_chars = solid_ascii solid_tilde

lemma ident_solid: "ident x \<Longrightarrow> solid (hd x) \<and> x \<noteq> []"
  using solid_alpha [of "hd x"] by (auto simp: ident_def ident_char_def solid_chars)

lemma ident_char_plain: "ident_char i c \<Longrightarrow> c \<noteq> CHR 0x22 \<and> c \<noteq> CHR ''}''"
  by (auto simp: ident_char_def less_eq_char_def)

lemma ident_plain:
  assumes "ident x" shows "\<forall>c \<in> set x. c \<noteq> CHR 0x22 \<and> c \<noteq> CHR ''}''"
proof
  fix c assume "c \<in> set x"
  then have "ident_char 0 c \<or> ident_rest c" using assms
    by (cases x) (auto simp: ident_def list_all_iff)
  then show "c \<noteq> CHR 0x22 \<and> c \<noteq> CHR ''}''"
    unfolding ident_rest_def using ident_char_plain by blast
qed

lemma valid_Op_plain:
  "valid_Matcher rxc m \<Longrightarrow> \<forall>c \<in> set (m_Op m). c \<noteq> CHR 0x22 \<and> c \<noteq> CHR ''}''"
  by (auto simp: valid_Matcher_def)

lemma closing_render_matcher:
  assumes "valid_Matcher rxc m"
  shows "closing_from False i (render_matcher isp m @ t) =
    closing_from False (i + length (render_matcher isp m)) t"
proof -
  have l: "\<forall>c \<in> set (m_Label m). c \<noteq> CHR 0x22 \<and> c \<noteq> CHR ''}''"
    using assms ident_plain [of "m_Label m"] by (simp add: valid_Matcher_def)
  show ?thesis
    by (simp add: render_matcher_def closing_plain [OF l] closing_plain [OF valid_Op_plain [OF assms]]
        closing_Quote add.assoc)
qed

lemma closing_matchers:
  "list_all (valid_Matcher rxc) ms \<Longrightarrow>
   closing_from False i (JoinStr (map (render_matcher isp) ms) '', '' @ CHR ''}'' # t) =
   Inr (i + length (JoinStr (map (render_matcher isp) ms) '', ''))"
proof (induction ms arbitrary: i rule: induct_list012)
  case (2 m)
  then show ?case by (simp add: closing_render_matcher [of rxc])
next
  case (3 m n ms)
  then show ?case by (simp add: closing_render_matcher [of rxc])
qed simp

section \<open>Reading a rendered selector back\<close>

lemma solid_last_Quote: "solid (last (u @ Quote isp v))"
  by (simp add: Quote_ends solid_chars)

lemma render_matcher_ends:
  assumes "valid_Matcher rxc m"
  shows "render_matcher isp m \<noteq> []" "solid (hd (render_matcher isp m))"
    "solid (last (render_matcher isp m))"
  using ident_solid [of "m_Label m"] assms solid_last_Quote [of "m_Label m @ m_Op m" isp "m_Value m"]
  by (auto simp: render_matcher_def valid_Matcher_def)

lemma joined_ends:
  assumes "list_all (valid_Matcher rxc) ms" "ms \<noteq> []"
  shows "JoinStr (map (render_matcher isp) ms) '', '' \<noteq> [] \<and>
    solid (hd (JoinStr (map (render_matcher isp) ms) '', '')) \<and>
    solid (last (JoinStr (map (render_matcher isp) ms) '', ''))"
  using assms
proof (induction ms rule: induct_list012)
  case (2 m)
  then show ?case using render_matcher_ends [of rxc m isp] by simp
next
  case (3 m n ms)
  then show ?case using render_matcher_ends [of rxc m isp] by simp
qed simp

lemma trim_joined:
  "list_all (valid_Matcher rxc) ms \<Longrightarrow>
   TrimSpace (JoinStr (map (render_matcher isp) ms) '', '') = JoinStr (map (render_matcher isp) ms) '', ''"
  using joined_ends [of rxc ms isp] TrimSpace_solid by (cases "ms = []") auto

lemma newMatcher_valid: "valid_Matcher rxc m \<Longrightarrow>
   newMatcher rxc (m_Label m) (m_Op m) (m_Value m) = Inr (matcher_of m)"
  by (auto simp: newMatcher_def valid_Matcher_def matcher_of_def)

lemma newFilter_valid: "valid_Filter rxc f \<Longrightarrow> newFilter rxc (f_Op f) (f_Value f) = Inr (filter_of f)"
  by (auto simp: newFilter_def valid_Filter_def filter_of_def)

lemma scanMatchOp_Quote:
  "op \<in> {''='', ''!='', ''=~'', ''!~''} \<Longrightarrow>
   scanMatchOp (op @ Quote isp v @ t) = Inr (op, Quote isp v @ t)"
  by (auto simp: scanMatchOp_def Quote_def)

lemma scanFilterOp_blank:
  "op \<in> {''|='', ''!='', ''|~'', ''!~''} \<Longrightarrow>
   scanFilterOp (op @ CHR '' '' # t) = Inr (op, CHR '' '' # t)"
  by (auto simp: scanFilterOp_def)

lemma parse_matchers_step:
  assumes m: "valid_Matcher rxc m"
    and t: "t = [] \<or> hd t = CHR '','' \<and> solid (last t)"
  shows "parseMatchers_loop rxc out (render_matcher isp m @ t) =
    (if t = [] then Inr (out @ [matcher_of m])
     else parseMatchers_loop rxc (out @ [matcher_of m]) (TrimSpace (drop 1 t)))"
proof -
  let ?q = "Quote isp (m_Value m) @ t"
  have op: "m_Op m \<in> {''='', ''!='', ''=~'', ''!~''}" using m by (auto simp: valid_Matcher_def)
  have tt: "TrimSpace t = t" using t TrimSpace_solid by (auto simp: solid_chars)
  have l: "solid (last ?q)" using t solid_last_Quote [of "[]"] by (cases "t = []") auto
  then have q: "TrimSpace ?q = ?q" by (intro TrimSpace_solid) (simp_all add: Quote_not_ident solid_chars)
  have ne: "?q \<noteq> []" by (simp add: Quote_def)
  have o: "TrimSpace (m_Op m @ ?q) = m_Op m @ ?q"
    using op l ne by (intro TrimSpace_solid) (auto simp: solid_chars)
  have i: "scanIdent (m_Label m @ m_Op m @ ?q) = Inr (m_Label m, m_Op m @ ?q)"
    using m op by (intro scanIdent_append)
      (auto simp: valid_Matcher_def ident_rest_def ident_char_def less_eq_char_def simp del: ident_char_Suc One_nat_def)
  have p: "HasPrefix t '','' \<longleftrightarrow> t \<noteq> []" using t by (cases t) auto
  have "m_Label m @ m_Op m @ ?q \<noteq> []" using ne by simp
  then have "parseMatchers_loop rxc out (m_Label m @ m_Op m @ ?q) =
    (if HasPrefix t '','' then parseMatchers_loop rxc (out @ [matcher_of m]) (TrimSpace (drop 1 t))
     else if t \<noteq> [] then Inl (UnexpectedInSelector t) else Inr (out @ [matcher_of m]))"
    by (subst parseMatchers_loop.simps)
      (simp only: i o q tt scanMatchOp_Quote [OF op] scanString_Quote newMatcher_valid [OF m]
        res_bind_simps prod.case if_False)
  then show ?thesis by (simp add: render_matcher_def p)
qed

lemma parse_matchers_render:
  "list_all (valid_Matcher rxc) ms \<Longrightarrow>
   parseMatchers_loop rxc out (JoinStr (map (render_matcher isp) ms) '', '') =
   Inr (out @ map matcher_of ms)"
proof (induction ms arbitrary: out rule: induct_list012)
  case 1
  then show ?case by (simp add: parseMatchers_loop.simps)
next
  case (2 m)
  then show ?case using parse_matchers_step [of rxc m "[]"] by simp
next
  case (3 m n ms)
  let ?r = "JoinStr (map (render_matcher isp) (n # ms)) '', ''"
  have v: "valid_Matcher rxc m" "list_all (valid_Matcher rxc) (n # ms)" using "3.prems" by simp_all
  have "solid (last ('', '' @ ?r))" using joined_ends [OF v(2)] by simp
  with parse_matchers_step [OF v(1), of "'', '' @ ?r" out isp]
  have "parseMatchers_loop rxc out (render_matcher isp m @ '', '' @ ?r) =
    parseMatchers_loop rxc (out @ [matcher_of m]) (TrimSpace (CHR '' '' # ?r))" by simp
  also have "TrimSpace (CHR '' '' # ?r) = ?r" using trim_joined [OF v(2)] by (simp only: TrimSpace_blank)
  also have "parseMatchers_loop rxc (out @ [matcher_of m]) ?r =
    Inr ((out @ [matcher_of m]) @ map matcher_of (n # ms))" using "3.IH"(2) v(2) by simp
  finally show ?case by simp
qed

subsection \<open>Filters\<close>

text \<open>
  A filter is rendered with a blank in front, which the parser trims before each round; the text of
  the remaining filters without that blank is what it sees.
\<close>

lemma concat_filters_ends:
  "fs \<noteq> [] \<Longrightarrow> concat (map (render_filter isp) fs) \<noteq> [] \<and>
   solid (last (concat (map (render_filter isp) fs)))"
proof (induction fs)
  case (Cons f fs)
  have "solid (last (render_filter isp f))" "render_filter isp f \<noteq> []"
    using solid_last_Quote [of "'' '' @ f_Op f @ '' ''" isp "f_Value f"] by (simp_all add: render_filter_def)
  with Cons show ?case by (cases "fs = []") auto
qed simp

lemma trim_filters_Cons:
  assumes "valid_Filter rxc f"
  shows "TrimSpace (concat (map (render_filter isp) (f # fs))) =
    f_Op f @ CHR '' '' # Quote isp (f_Value f) @ concat (map (render_filter isp) fs)"
proof -
  let ?w = "f_Op f @ CHR '' '' # Quote isp (f_Value f) @ concat (map (render_filter isp) fs)"
  have c: "concat (map (render_filter isp) (f # fs)) = CHR '' '' # ?w" by (simp add: render_filter_def)
  have "solid (last ?w)" using concat_filters_ends [of "f # fs" isp] unfolding c by (auto simp: Quote_def)
  moreover have "solid (hd ?w)" using assms by (auto simp: valid_Filter_def solid_chars)
  ultimately show ?thesis unfolding c TrimSpace_blank by (intro TrimSpace_solid)
qed

lemma rejectUnsupported_filter:
  assumes "valid_Filter rxc f"
  shows "rejectUnsupported (f_Op f @ t) = Inr ()"
proof -
  have bar: "rejectUnsupported (CHR ''|'' # c # u) = Inr ()" if c: "c = CHR ''='' \<or> c = CHR ''~''" for c u
  proof -
    have "\<forall>w \<in> set space_runes. c \<notin> set w" using c by (auto simp: space_runes_def)
    from TrimSpace_keeps_hd [OF this] obtain v where "TrimSpace (c # u) = c # v" by blast
    with c show ?thesis by (auto simp: rejectUnsupported_def unsupported_def)
  qed
  have bang: "rejectUnsupported (CHR ''!'' # u) = Inr ()" for u by (simp add: rejectUnsupported_def)
  have "f_Op f \<in> {''|='', ''|~'', ''!='', ''!~''}" using assms by (auto simp: valid_Filter_def)
  then show ?thesis using bar bang by fastforce
qed

lemma parse_filters_render:
  "list_all (valid_Filter rxc) fs \<Longrightarrow>
   parseFilters_loop rxc out (TrimSpace (concat (map (render_filter isp) fs))) =
   Inr (out @ map filter_of fs)"
proof (induction fs arbitrary: out)
  case Nil
  then show ?case by (simp add: parseFilters_loop.simps)
next
  case (Cons f fs)
  let ?r = "concat (map (render_filter isp) fs)"
  have f: "valid_Filter rxc f" "list_all (valid_Filter rxc) fs" using Cons.prems by simp_all
  have op: "f_Op f \<in> {''|='', ''!='', ''|~'', ''!~''}" using f(1) by (auto simp: valid_Filter_def)
  have "solid (last (Quote isp (f_Value f) @ ?r))"
    using concat_filters_ends [of fs isp] solid_last_Quote [of "[]"] by (cases "fs = []") auto
  then have "TrimSpace (Quote isp (f_Value f) @ ?r) = Quote isp (f_Value f) @ ?r"
    by (intro TrimSpace_solid) (simp_all add: Quote_not_ident solid_chars)
  moreover have "f_Op f \<noteq> []" using op by auto
  ultimately show ?case using Cons.IH [OF f(2), of "out @ [filter_of f]"]
    unfolding trim_filters_Cons [OF f(1)]
    by (subst parseFilters_loop.simps)
      (simp add: rejectUnsupported_filter [OF f(1)] scanFilterOp_blank [OF op] TrimSpace_blank
        scanString_Quote newFilter_valid [OF f(1)])
qed

subsection \<open>The whole selector\<close>

lemma Selector_String_ends:
  assumes "list_all (valid_Filter rxc) (s_Filters s)"
  shows "TrimSpace (Selector_String isp s) = Selector_String isp s"
proof (rule TrimSpace_solid)
  show "solid (hd (Selector_String isp s))" by (simp add: Selector_String_def solid_chars)
  show "solid (last (Selector_String isp s))"
    using concat_filters_ends [of "s_Filters s" isp]
    by (cases "s_Filters s = []") (auto simp: Selector_String_def solid_chars)
qed

lemma Parse_Selector_String:
  assumes "valid_Selector rxc s"
  shows "Parse rxc (Selector_String isp s) =
    (if s_Matchers s = [] then Inl NoMatchers else Inr (query_of s))"
proof -
  let ?j = "JoinStr (map (render_matcher isp) (s_Matchers s)) '', ''"
  let ?f = "concat (map (render_filter isp) (s_Filters s))"
  have ms: "list_all (valid_Matcher rxc) (s_Matchers s)" and fs: "list_all (valid_Filter rxc) (s_Filters s)"
    using assms by (simp_all add: valid_Selector_def)
  have str: "Selector_String isp s = CHR ''{'' # ?j @ CHR ''}'' # ?f" by (simp add: Selector_String_def)
  have b: "closingBrace (Selector_String isp s) = Inr (1 + length ?j)"
    by (simp add: closingBrace_def str closing_matchers [OF ms])
  have m: "parseMatchers rxc (take (1 + length ?j - 1) (drop 1 (Selector_String isp s))) =
    Inr (map matcher_of (s_Matchers s))"
    using parse_matchers_render [OF ms, of "[]" isp] by (simp add: str parseMatchers_def trim_joined [OF ms])
  have "parseFilters rxc (TrimSpace (drop (1 + length ?j + 1) (Selector_String isp s))) =
    Inr (map filter_of (s_Filters s))"
    using parse_filters_render [OF fs, of "[]" isp] by (simp add: str parseFilters_def)
  with b m show ?thesis
    unfolding Parse_def Selector_String_ends [OF fs]
    by (simp add: Let_def str query_of_def)
qed

section \<open>The builder\<close>

lemma dedupe_loop_spec:
  "distinct out \<Longrightarrow> [] \<notin> set out \<Longrightarrow>
   distinct (dedupe_loop out vs) \<and> set (dedupe_loop out vs) = set out \<union> (TrimSpace ` set vs - {[]})"
  by (induction out vs rule: dedupe_loop.induct) auto

lemma dedupe_values_spec:
  "distinct (dedupe_values vs)" "set (dedupe_values vs) = TrimSpace ` set vs - {[]}"
  using dedupe_loop_spec [of "[]" vs] by (simp_all add: dedupe_values_def)

lemma Selector_add_valid:
  "valid_Selector rxc s \<Longrightarrow> valid_Matcher rxc \<lparr>m_Label = l, m_Op = op, m_Value = v\<rparr> \<Longrightarrow>
   valid_Selector rxc (Selector_add s l op v)"
  by (simp add: valid_Selector_def Selector_add_def)

lemmas builder_defs = Selector_Eq_def Selector_Neq_def Selector_Re_def Selector_Nre_def
  Selector_OneOf_def Selector_NoneOf_def

lemma builder_valid:
  assumes "valid_Selector rxc s" "ident l" "\<And>vs. rxc (anchored (Alternation vs))"
  shows "valid_Selector rxc (Selector_Eq s l v)" "valid_Selector rxc (Selector_Neq s l v)"
    "valid_Selector rxc (Selector_OneOf s l vs)" "valid_Selector rxc (Selector_NoneOf s l vs)"
  using assms by (auto simp: builder_defs valid_Matcher_def intro!: Selector_add_valid split: list.splits)

lemma builder_filter_valid:
  "valid_Selector rxc s \<Longrightarrow> valid_Selector rxc (Selector_Contains s t) \<and> valid_Selector rxc (Selector_Excludes s t)"
  by (auto simp: valid_Selector_def Selector_Contains_def Selector_Excludes_def valid_Filter_def)

section \<open>Properties\<close>

text \<open>
  C3. Round trip across the two packages: a valid selector is printed by the client's
  \<^verbatim>\<open>String\<close> and read by the query API's \<^verbatim>\<open>Parse\<close> as exactly the same matchers and filters, whatever
  bytes its values hold (quotes, backslashes, braces, commas, invalid UTF-8), so no value can add,
  remove or change another constraint; a selector without matchers is refused.
\<close>

theorem selector_round_trip:
  assumes "valid_Selector rxc s"
  shows "Parse rxc (Selector_String isp s) =
    (if s_Matchers s = [] then Inl NoMatchers else Inr (query_of s))"
  using assms by (rule Parse_Selector_String)

theorem selector_round_trip_witness:
  "Parse (\<lambda>_. True) (Selector_String (\<lambda>_. False)
     (Selector_Contains (Selector_Eq empty_Selector ''pod'' (''a} |= '' @ [CHR 0x22, CHR 0x5C, CHR 0xFF])) ''err'')) =
   Inr (query_of
     (Selector_Contains (Selector_Eq empty_Selector ''pod'' (''a} |= '' @ [CHR 0x22, CHR 0x5C, CHR 0xFF])) ''err''))"
  (is "Parse _ (Selector_String _ ?s) = _")
proof -
  have "valid_Selector (\<lambda>_. True) ?s" by code_simp
  moreover have "s_Matchers ?s \<noteq> []" by code_simp
  ultimately show ?thesis using selector_round_trip [of "\<lambda>_. True" ?s "\<lambda>_. False"] by simp
qed

end
