(* ===== verification/ClientServer.thy ===== *)
theory ClientServer
  imports ClickHouse Handlers CliClient Selector
begin

text \<open>
  The client and the query API together: the handlers over the ClickHouse store, the HTTP exchange with the
  client library, and what a range query returns in terms of the rows of the store. The HTTP transport hands
  the form values over as they are; the JSON codec is a parameter, with its documented behaviour on valid
  UTF-8 as the hypothesis \<open>json_agrees\<close>.
\<close>

section \<open>The handlers over ClickHouse\<close>

definition clickhouse_ops :: "conn \<Rightarrow> rowIterator LogStoreOps" where
  "clickhouse_ops conn =
     \<lparr>lso_QueryLogs = (\<lambda>ctx q. Store_QueryLogs conn q ctx), lso_Next = rowIterator_Next, lso_Row = rowIterator_Row,
      lso_Err = it_err, lso_Close = rowIterator_Close, lso_LabelNames = (\<lambda>ctx tr. Store_LabelNames conn tr ctx),
      lso_LabelValues = (\<lambda>ctx label tr. Store_LabelValues conn label tr ctx),
      lso_Series = (\<lambda>ctx ms tr. Store_Series conn ms tr ctx)\<rparr>"

text \<open>What a query result is answered with.\<close>

definition streams_response :: "storage_error + Rows \<Rightarrow> Response" where
  "streams_response r =
     (case r of
        Inl e \<Rightarrow> writeStorageError e
      | Inr rows \<Rightarrow>
          let d = rowIterator_drain \<lparr>it_rows = rows, it_row = None, it_err = None\<rparr> in
          (case it_err (snd d) of Some e \<Rightarrow> writeStorageError e
           | None \<Rightarrow> (case rowIterator_Close (snd d) of Some e \<Rightarrow> writeStorageError e
                       | None \<Rightarrow> writeJSON (StreamsBody (group_streams (fst d))))))"

lemma serveLogs_clickhouse:
  assumes "ProjectID ctx = Some p"
    and "list_all (wf_matcher rxc) (q_Matchers q)" "list_all (wf_filter rxc) (q_Filters q)"
    and "Config_Validate cfg = []"
  shows "serveLogs (clickhouse_ops conn) cfg ctx rq q tr =
    Some (streams_response (conn p (sql_text (logs_sql p (logQuery cfg rq q tr)))
      (sql_args (logs_sql p (logQuery cfg rq q tr)))))"
proof -
  let ?q = "logQuery cfg rq q tr"
  have "\<not> lq_Limit ?q \<le> 0" using parseLimit_bounds [OF assms(4)] by (simp add: logQuery_def not_le)
  moreover have "buildLogsQuery p ?q =
      (if lq_Limit ?q \<le> 0 then Inl ErrInvalidLimit else Inr (sql_bind (logs_sql p ?q)))"
    using assms(2,3) by (intro buildLogsQuery_sql) (simp_all add: logQuery_def)
  ultimately have "Store_QueryLogs conn ?q ctx = res_bind (conn p (sql_text (logs_sql p ?q)) (sql_args (logs_sql p ?q)))
      (\<lambda>rows. Inr \<lparr>it_rows = rows, it_row = None, it_err = None\<rparr>)"
    by (simp add: Store_QueryLogs_def ctx_project_id_def assms(1))
  then show ?thesis
    by (cases "conn p (sql_text (logs_sql p ?q)) (sql_args (logs_sql p ?q))")
      (simp_all add: serveLogs_def clickhouse_ops_def streams_response_def ch_iterator.collectStreams_drain
        Let_def split: option.split)
qed

lemma range_request_statement:
  assumes "Resolve_user (ctx_User ctx) = Some p" "Config_Validate cfg = []"
    and "parseLogQL lib (Get rq ''query'') = Inr q" "timeRange lib now rq = Inr tr"
  shows "Middleware (\<lambda>c. handle_lokiQueryRange lib (clickhouse_ops conn) cfg now c rq) ctx =
    Inr (Some (streams_response (conn p (sql_text (logs_sql p (logQuery cfg rq q tr)))
      (sql_args (logs_sql p (logQuery cfg rq q tr))))))"
proof -
  have "validID p" using assms(1) by (auto simp: Resolve_user_Some)
  then have p: "ProjectID (WithProject ctx p) = Some p" by (rule ProjectID_WithProject)
  have "wf_query (lib_rxc lib) q" by (rule parseLogQL_wf [OF assms(3)])
  then have "serveLogs (clickhouse_ops conn) cfg (WithProject ctx p) rq q tr =
    Some (streams_response (conn p (sql_text (logs_sql p (logQuery cfg rq q tr)))
      (sql_args (logs_sql p (logQuery cfg rq q tr)))))"
    using serveLogs_clickhouse [OF p, of "lib_rxc lib" q cfg conn rq tr] assms(2) by (simp add: wf_query_def)
  then show ?thesis using assms(1,3,4) by (simp add: Middleware_cases handle_lokiQueryRange_def)
qed

section \<open>Numbers on the wire\<close>

lemma length_dec: "10 ^ k \<le> n \<Longrightarrow> n < 10 ^ Suc k \<Longrightarrow> length (dec n) = Suc k"
proof (induction k arbitrary: n)
  case 0
  then show ?case by (simp add: dec.simps [of n])
next
  case (Suc k)
  then have "10 ^ k \<le> n div 10" "n div 10 < 10 ^ Suc k" by (simp_all add: less_eq_div_iff_mult_less_eq div_less_iff_less_mult mult.commute)
  moreover have "\<not> n < 10"
  proof -
    have "(10::nat) \<le> 10 ^ Suc k" by simp
    then show ?thesis using Suc.prems(1) by linarith
  qed
  ultimately show ?case using Suc.IH by (simp add: dec.simps [of n])
qed

lemma solid_digit: "is_digit c \<Longrightarrow> solid c"
proof -
  assume c: "is_digit c"
  have "list_all (\<lambda>w. \<not> is_digit (hd w) \<and> \<not> is_digit (last w)) space_runes" by code_simp
  then show ?thesis using c by (auto simp: solid_def list_all_iff)
qed

lemma solid_minus: "solid (CHR ''-'')"
  by code_simp

lemma TrimSpace_Itoa: "TrimSpace (Itoa i) = Itoa i"
  using dec_digits [of "nat i"] dec_digits [of "nat (- i)"]
  by (intro TrimSpace_solid) (auto simp: Itoa_def list_all_iff intro: solid_digit solid_minus)

lemma Itoa_nonempty: "Itoa i \<noteq> []"
  using dec_digits by (simp add: Itoa_def)

text \<open>
  What the API reads of a bound the client wrote as a count of nanoseconds: the unit is chosen by the
  number of characters, and other lengths are refused. A bound of 19 digits is read back exactly.
\<close>

definition bound_read :: "int \<Rightarrow> int option" where
  "bound_read t =
     (let k = length (Itoa t) in
      if k = 10 \<or> k = 11 then Some (t * second)
      else if k = 13 then Some (t * millisecond)
      else if k = 16 then Some (t * microsecond)
      else if k = 19 then Some t
      else None)"

definition window_read :: "int \<Rightarrow> int \<Rightarrow> TimeRange option" where
  "window_read start till =
     (case (bound_read start, bound_read till) of
        (Some a, Some b) \<Rightarrow> if a < b then Some \<lparr>tr_Start = a, tr_End = b\<rparr> else None
      | _ \<Rightarrow> None)"

lemma parseTime_bound:
  assumes "\<forall>i. rfc3339 lib (Itoa i) = None" "int64 t"
  shows "parseTime lib (Itoa t) now fallback = (case bound_read t of Some x \<Rightarrow> Inr x | None \<Rightarrow> Inl (AmbiguousEpoch (Itoa t)))"
  using assms Itoa_nonempty by (simp add: parseTime_def bound_read_def TrimSpace_Itoa ParseInt_Itoa Let_def)

lemma bound_read_nanos:
  assumes "10 ^ 18 \<le> t" "t < 2 ^ 63"
  shows "bound_read t = Some t"
proof -
  have "length (dec (nat t)) = Suc 18" using assms by (intro length_dec) simp_all
  then have "length (Itoa t) = 19" using assms(1) by (simp add: Itoa_def)
  then show ?thesis by (simp add: bound_read_def)
qed

section \<open>The exchange\<close>

function valid_utf8 :: "string \<Rightarrow> bool" where
  "valid_utf8 [] = True"
| "valid_utf8 (c # cs) =
     (decode_rune (c # cs) \<noteq> (RuneError, 1) \<and> valid_utf8 (drop (max 1 (snd (decode_rune (c # cs)))) (c # cs)))"
  by pat_completeness auto
termination by (relation "measure length") auto

lemma valid_utf8_ascii: "list_all (\<lambda>c. byte c < 0x80) s \<Longrightarrow> valid_utf8 s"
proof (induction s)
  case (Cons c cs)
  then have "decode_rune (c # cs) = (byte c, 1)" by (simp add: decode_rune_def)
  with Cons show ?case by (simp add: RuneError_def)
qed simp

definition utf8_labels :: "LabelSet \<Rightarrow> bool" where
  "utf8_labels ls \<longleftrightarrow> list_all (\<lambda>(k, v). valid_utf8 k \<and> valid_utf8 v) ls"

definition utf8_stream :: "lokiStream \<Rightarrow> bool" where
  "utf8_stream s \<longleftrightarrow> utf8_labels (st_Stream s) \<and> list_all (\<lambda>(ts, line). valid_utf8 line) (st_Values s)"

text \<open>A decoded stream: the same labels, in the order the decoder's map gives them, and the same values.\<close>

definition stream_agrees :: "stream_result \<Rightarrow> lokiStream \<Rightarrow> bool" where
  "stream_agrees a b \<longleftrightarrow> map_of (sr_Stream a) = map_of (st_Stream b) \<and> sr_Values a = st_Values b"

definition http_answer :: "(int \<Rightarrow> string) \<Rightarrow> (body \<Rightarrow> string) \<Rightarrow> Response \<Rightarrow> CliResponse" where
  "http_answer status encode resp =
     \<lparr>rp_StatusCode = w_Status resp, rp_Status = status (w_Status resp), rp_Body = encode (w_Body resp)\<rparr>"

definition json_agrees :: "(body \<Rightarrow> string) \<Rightarrow> range_data Json \<Rightarrow> lokiStream list \<Rightarrow> bool" where
  "json_agrees encode js ss \<longleftrightarrow>
     (list_all utf8_stream ss \<longrightarrow>
      (\<exists>d ss'. js_Envelope js (encode (StreamsBody ss)) = Inr \<lparr>ev_Status = ''success'', ev_Error = [], ev_Data = d\<rparr> \<and>
         js_Data js d = Inr \<lparr>rd_ResultType = ''streams'', rd_Result = ss'\<rparr> \<and> list_all2 stream_agrees ss' ss))"

text \<open>The transport: a range request is answered with what the API writes for its values.\<close>

definition transports :: "Net \<Rightarrow> (int \<Rightarrow> string) \<Rightarrow> (body \<Rightarrow> string) \<Rightarrow> (form \<Rightarrow> (int \<times> string) + Response option) \<Rightarrow> bool" where
  "transports net status encode api \<longleftrightarrow>
     (\<forall>n req resp. rq_Path req = ''/query_range'' \<longrightarrow> api (rq_Values req) = Inr (Some resp) \<longrightarrow>
        nt_Do net n req = Inr (http_answer status encode resp))"

text \<open>A line as the user sees it, on either side.\<close>

definition entry_view :: "Entry \<Rightarrow> int \<times> (string \<rightharpoonup> string) \<times> string" where
  "entry_view e = (en_Time e, map_of (en_Labels e), en_Line e)"

definition row_view :: "Row \<Rightarrow> int \<times> (string \<rightharpoonup> string) \<times> string" where
  "row_view r = (row_Timestamp r, map_of (row_Labels r), row_Line r)"

definition drained :: "Rows \<Rightarrow> Row list \<times> rowIterator" where
  "drained rows = rowIterator_drain \<lparr>it_rows = rows, it_row = None, it_err = None\<rparr>"

section \<open>From rows to lines\<close>

lemma drain_labels: "r \<in> set (fst (rowIterator_drain it)) \<Longrightarrow> LabelSet_inv (row_Labels r)"
proof (induction it rule: rowIterator_drain.induct)
  case (1 it)
  show ?case
  proof (cases "rs_items (it_rows it)")
    case Nil
    then show ?thesis using "1.prems" by (subst (asm) rowIterator_drain.simps) simp
  next
    case (Cons cells rest)
    show ?thesis
    proof (cases "scanLog cells")
      case None
      then show ?thesis using "1.prems" Cons by (subst (asm) rowIterator_drain.simps) (simp add: Let_def)
    next
      case (Some c)
      let ?it = "it\<lparr>it_rows := (it_rows it)\<lparr>rs_items := rest\<rparr>, it_row := Some (log_row c)\<rparr>"
      have "fst (rowIterator_drain it) = log_row c # fst (rowIterator_drain ?it)"
        using Cons Some by (subst rowIterator_drain.simps) (simp add: Let_def split: prod.split)
      moreover have "LabelSet_inv (row_Labels (log_row c))" by (cases c) (simp add: log_row_def assembleLabels_inv)
      ultimately show ?thesis using "1.prems" "1.IH" [OF Cons refl Some] by auto
    qed
  qed
qed

lemma partition_mset:
  "distinct ks \<Longrightarrow> f ` set xs \<subseteq> set ks \<Longrightarrow> mset (concat (map (\<lambda>k. filter (\<lambda>x. f x = k) xs) ks)) = mset xs"
proof (induction ks arbitrary: xs)
  case (Cons k ks)
  have "filter (\<lambda>x. f x = k') xs = filter (\<lambda>x. f x = k') (filter (\<lambda>x. f x \<noteq> k) xs)" if "k' \<in> set ks" for k'
    using Cons.prems(1) that by (auto simp: intro!: filter_cong)
  then have "map (\<lambda>k'. filter (\<lambda>x. f x = k') xs) ks = map (\<lambda>k'. filter (\<lambda>x. f x = k') (filter (\<lambda>x. f x \<noteq> k) xs)) ks"
    by (intro map_cong) simp_all
  moreover have "mset (concat (map (\<lambda>k'. filter (\<lambda>x. f x = k') (filter (\<lambda>x. f x \<noteq> k) xs)) ks)) = mset (filter (\<lambda>x. f x \<noteq> k) xs)"
    by (rule Cons.IH) (use Cons.prems in auto)
  ultimately have "mset (concat (map (\<lambda>k'. filter (\<lambda>x. f x = k') xs) ks)) = filter_mset (\<lambda>x. f x \<noteq> k) (mset xs)"
    by (simp only: mset_filter)
  then have "mset (concat (map (\<lambda>k'. filter (\<lambda>x. f x = k') xs) (k # ks))) =
    filter_mset (\<lambda>x. f x = k) (mset xs) + filter_mset (\<lambda>x. f x \<noteq> k) (mset xs)" by simp
  then show ?case using multiset_partition [of "mset xs" "\<lambda>x. f x = k"] by simp
qed simp

lemma concat_case_Some:
  "\<forall>x \<in> set xs. g x = Some (t x) \<Longrightarrow> concat (map (\<lambda>x. case g x of None \<Rightarrow> [] | Some n \<Rightarrow> [h x n]) xs) = map (\<lambda>x. h x (t x)) xs"
  by (induction xs) simp_all

lemma group_streams_partition:
  "mset (concat (map (\<lambda>k. filter (\<lambda>r. row_key r = k) rows) (first_keys [] rows))) = mset rows"
  using first_keys_set [of "[]" rows] first_keys_distinct [of "[]" rows] by (intro partition_mset) simp_all

lemma stream_entries_rows:
  assumes "\<forall>r \<in> set rows. LabelSet_inv (row_Labels r) \<and> int64 (row_Timestamp r)" "stream_agrees a (stream_of rows k)"
  shows "map entry_view (stream_entries a) = map row_view (filter (\<lambda>r. row_key r = k) rows)"
proof -
  let ?mine = "filter (\<lambda>r. row_key r = k) rows"
  let ?e = "\<lambda>r. \<lparr>en_Time = row_Timestamp r, en_Labels = sr_Stream a, en_Line = row_Line r, en_stream = canonical (sr_Stream a)\<rparr>"
  have v: "sr_Values a = map row_value ?mine" "map_of (sr_Stream a) = map_of (row_Labels (hd ?mine))"
    using assms(2) by (simp_all add: stream_agrees_def stream_of_def Let_def)
  have "ParseInt (Itoa (UnixNano (row_Timestamp r))) = Some (row_Timestamp r)" if "r \<in> set ?mine" for r
    using assms(1) that by (simp add: UnixNano_def wrap64_id ParseInt_Itoa)
  then have "stream_entries a = map ?e ?mine"
    using concat_case_Some [of ?mine "\<lambda>r. ParseInt (Itoa (UnixNano (row_Timestamp r)))" row_Timestamp
      "\<lambda>r ns. \<lparr>en_Time = ns, en_Labels = sr_Stream a, en_Line = row_Line r, en_stream = canonical (sr_Stream a)\<rparr>"]
    by (simp add: stream_entries_def Let_def v(1) row_value_def comp_def)
  then have "map entry_view (stream_entries a) = map (\<lambda>r. entry_view (?e r)) ?mine" by simp
  moreover have "entry_view (?e r) = row_view r" if "r \<in> set ?mine" for r
  proof -
    have h: "hd ?mine \<in> set ?mine" using that by (intro hd_in_set) (auto simp: filter_empty_conv)
    then have "row_key (hd ?mine) = row_key r" using that by simp
    then have "map_of (row_Labels (hd ?mine)) = map_of (row_Labels r)"
      using LabelSet_Key_iff [of "row_Labels (hd ?mine)" "row_Labels r"] assms(1) h that by auto
    then show ?thesis by (simp add: entry_view_def row_view_def v(2))
  qed
  ultimately show ?thesis by (metis (no_types, lifting) map_cong)
qed

lemma streams_entries_rows:
  assumes "\<forall>r \<in> set rows. LabelSet_inv (row_Labels r) \<and> int64 (row_Timestamp r)" "list_all2 stream_agrees ss (group_streams rows)"
  shows "mset (map entry_view (concat (map stream_entries ss))) = mset (map row_view rows)"
proof -
  have "map (map entry_view \<circ> stream_entries) ss = map (\<lambda>k. map row_view (filter (\<lambda>r. row_key r = k) rows)) (first_keys [] rows)"
    using assms(2) stream_entries_rows [OF assms(1)]
    by (auto simp: group_streams_def list_all2_conv_all_nth intro!: nth_equalityI)
  then have "map entry_view (concat (map stream_entries ss)) = map row_view (concat (map (\<lambda>k. filter (\<lambda>r. row_key r = k) rows) (first_keys [] rows)))"
    by (simp add: map_concat comp_def)
  then show ?thesis using group_streams_partition [of rows] by (metis mset_map)
qed

lemma group_streams_utf8:
  assumes "\<forall>r \<in> set rows. utf8_labels (row_Labels r) \<and> valid_utf8 (row_Line r)"
  shows "list_all utf8_stream (group_streams rows)"
proof -
  have "utf8_stream (stream_of rows k)" if k: "k \<in> row_key ` set rows" for k
  proof -
    let ?mine = "filter (\<lambda>r. row_key r = k) rows"
    have "hd ?mine \<in> set ?mine" using k by (intro hd_in_set) (auto simp: filter_empty_conv)
    then show ?thesis using assms by (auto simp: utf8_stream_def stream_of_def Let_def list_all_iff row_value_def)
  qed
  then show ?thesis using first_keys_set [of "[]" rows] by (simp add: group_streams_def list_all_iff)
qed

section \<open>A range query, end to end\<close>

definition client_query :: "(nat \<Rightarrow> bool) \<Rightarrow> Selector \<Rightarrow> int \<Rightarrow> int \<Rightarrow> int \<Rightarrow> string \<Rightarrow> ClientQuery" where
  "client_query isp s start till n dir =
     \<lparr>cq_Query = Selector_String isp s, cq_Start = start, cq_End = till, cq_Limit = n, cq_Direction = dir\<rparr>"

definition store_query :: "Selector \<Rightarrow> TimeRange \<Rightarrow> int \<Rightarrow> string \<Rightarrow> LogQuery" where
  "store_query s tr n dir =
     \<lparr>lq_Matchers = q_Matchers (query_of s), lq_Filters = q_Filters (query_of s), lq_Range = tr, lq_Limit = n, lq_Direction = dir\<rparr>"

lemma client_query_values:
  assumes "int64 start" "int64 till" "0 < n" "dir \<in> {Forward, Backward}"
  shows "Get (query_values (client_query isp s start till n dir)) ''query'' = Selector_String isp s"
    "Get (query_values (client_query isp s start till n dir)) ''start'' = Itoa start"
    "Get (query_values (client_query isp s start till n dir)) ''end'' = Itoa till"
    "Get (query_values (client_query isp s start till n dir)) ''limit'' = Itoa n"
    "Get (query_values (client_query isp s start till n dir)) ''direction'' = dir"
proof -
  have "start \<noteq> zero_time" "till \<noteq> zero_time" using assms by (auto simp: zero_time_def int64_def)
  moreover have "UnixNano start = start" "UnixNano till = till" using assms by (simp_all add: UnixNano_def wrap64_id)
  moreover have "dir \<noteq> []" using assms(4) by (auto simp: Forward_def Backward_def)
  ultimately show "Get (query_values (client_query isp s start till n dir)) ''query'' = Selector_String isp s"
    "Get (query_values (client_query isp s start till n dir)) ''start'' = Itoa start"
    "Get (query_values (client_query isp s start till n dir)) ''end'' = Itoa till"
    "Get (query_values (client_query isp s start till n dir)) ''limit'' = Itoa n"
    "Get (query_values (client_query isp s start till n dir)) ''direction'' = dir"
    using assms(3) by (simp_all add: query_values_def client_query_def between_def form_Set_def Get_def Let_def)
qed

text \<open>What the handler makes of the client's values: the query the client meant, the window as it is read, the limit capped.\<close>

lemma client_values_parsed:
  assumes "valid_Selector (lib_rxc lib) s" "s_Matchers s \<noteq> []" "\<forall>i. rfc3339 lib (Itoa i) = None"
    and "int64 start" "int64 till" "0 < n" "int64 n" "dir \<in> {Forward, Backward}"
  shows "parseLogQL lib (Get (query_values (client_query isp s start till n dir)) ''query'') = Inr (query_of s)"
    "case window_read start till of
       Some tr \<Rightarrow> timeRange lib now (query_values (client_query isp s start till n dir)) = Inr tr
     | None \<Rightarrow> \<exists>e. timeRange lib now (query_values (client_query isp s start till n dir)) = Inl (writeError 400 e)"
    "logQuery cfg (query_values (client_query isp s start till n dir)) (query_of s) tr = store_query s tr (min n (c_MaxLimit cfg)) dir"
proof -
  note v = client_query_values [OF assms(4-6,8), of isp s]
  show "parseLogQL lib (Get (query_values (client_query isp s start till n dir)) ''query'') = Inr (query_of s)"
    using Parse_Selector_String [OF assms(1), of isp] assms(2) by (simp add: v parseLogQL_def)
  show "case window_read start till of
       Some tr \<Rightarrow> timeRange lib now (query_values (client_query isp s start till n dir)) = Inr tr
     | None \<Rightarrow> \<exists>e. timeRange lib now (query_values (client_query isp s start till n dir)) = Inl (writeError 400 e)"
    using parseTime_bound [OF assms(3)] assms(4,5) by (auto simp: timeRange_def v window_read_def split: option.splits)
  have "ParseInt (TrimSpace (Itoa n)) = Some n" using assms(7) by (simp add: TrimSpace_Itoa ParseInt_Itoa)
  then have l: "parseLimit (Itoa n) cfg = min n (c_MaxLimit cfg)" using assms(6) by (simp add: parseLimit_def)
  have "TrimSpace Forward = ''forward''" "TrimSpace Backward = ''backward''" by code_simp+
  then have "parseDirection dir = dir" using assms(8) by (auto simp: parseDirection_def Forward_def Backward_def)
  then show "logQuery cfg (query_values (client_query isp s start till n dir)) (query_of s) tr = store_query s tr (min n (c_MaxLimit cfg)) dir"
    using l by (simp add: logQuery_def store_query_def v)
qed

lemma get_answered:
  assumes "nt_NewRequest net (cl_base (cs_client st) @ path) v = None" "authorize net 0 st = (Inr auth, st1)"
    and "\<And>n req. rq_Path req = path \<Longrightarrow> rq_Values req = v \<Longrightarrow> nt_Do net n req = Inr resp" "rp_StatusCode resp \<noteq> 401"
  shows "\<exists>st'. get net js path v st = (cli_decode js resp, st')"
  using assms by (simp add: get_def get_attempt.simps [of net js path v 0 st] Let_def)

text \<open>A request whose bounds the API cannot read ends in the error of the answer.\<close>

lemma client_sees_refusal:
  assumes "Resolve_user (ctx_User ctx) = Some p" "parseLogQL lib (Get (query_values q) ''query'') = Inr sel"
    and "timeRange lib now (query_values q) = Inl (writeError 400 e)"
    and "nt_NewRequest net (cl_base (cs_client st) @ ''/query_range'') (query_values q) = None" "authorize net 0 st = (Inr auth, st1)"
    and "transports net status encode (\<lambda>v. Middleware (\<lambda>c. handle_lokiQueryRange lib ops cfg now c v) ctx)"
  shows "\<exists>err st'. QueryRange net js q st = (Inl err, st')"
proof -
  define resp where "resp = http_answer status encode (writeError 400 e)"
  have "Middleware (\<lambda>c. handle_lokiQueryRange lib ops cfg now c (query_values q)) ctx = Inr (Some (writeError 400 e))"
    using assms(1-3) by (simp add: Middleware_cases handle_lokiQueryRange_def)
  then have "nt_Do net k req = Inr resp" if "rq_Path req = ''/query_range''" "rq_Values req = query_values q" for k req
    using assms(6) that by (simp add: transports_def resp_def)
  moreover have c: "rp_StatusCode resp = 400" by (simp add: resp_def http_answer_def writeError_def)
  ultimately obtain st' where "get net js ''/query_range'' (query_values q) st = (cli_decode js resp, st')"
    using get_answered [OF assms(4,5), of resp] by fastforce
  then show ?thesis using c by (simp add: QueryRange_def cli_decode_def)
qed


text \<open>Two rows of different streams, answered to a client that sends no token.\<close>

definition example_rows :: Rows where
  "example_rows = \<lparr>rs_items =
     [[CTime 1700000000000000002, CStr ''second'', CStr ''api'', CStr ''warn'', CStr [], CStrs [''pod''], CStrs [''b'']],
      [CTime 1700000000000000001, CStr ''first'', CStr ''api'', CStr [], CStr [], CStrs [''pod''], CStrs [''a'']]],
     rs_err = None, rs_close = None\<rparr>"

definition example_exchange :: "form \<Rightarrow> (int \<times> string) + Response option" where
  "example_exchange v = Middleware (\<lambda>c. handle_lokiQueryRange (example_lib\<lparr>rfc3339 := \<lambda>_. None\<rparr>)
     (clickhouse_ops (\<lambda>p t a. if p = ''acme'' then Inr example_rows else Inl NilPanic)) DefaultConfig 0 c v) (example_user ''acme'')"

definition example_net :: Net where
  "example_net = \<lparr>nt_NewRequest = (\<lambda>u v. None),
     nt_Do = (\<lambda>n req. case example_exchange (rq_Values req) of
        Inr (Some resp) \<Rightarrow> Inr (http_answer (\<lambda>_. ''200 OK'') (\<lambda>_. ''body'') resp) | _ \<Rightarrow> Inl ''refused''),
     nt_Token = (\<lambda>n. Inl ''no token''), nt_Now = (\<lambda>n. 0)\<rparr>"

definition example_js :: "range_data Json" where
  "example_js = \<lparr>js_Envelope = (\<lambda>b. Inr \<lparr>ev_Status = ''success'', ev_Error = [], ev_Data = ''data''\<rparr>),
     js_Data = (\<lambda>d. Inr \<lparr>rd_ResultType = ''streams'',
        rd_Result = map (\<lambda>s. \<lparr>sr_Stream = st_Stream s, sr_Values = st_Values s\<rparr>) (group_streams (fst (drained example_rows)))\<rparr>),
     js_Detail = (\<lambda>b. None)\<rparr>"

definition example_state :: cli_state where
  "example_state = \<lparr>cs_client = new_client ''https://api'' False [], cs_requests = [], cs_tokens = 0\<rparr>"

definition example_selector :: Selector where
  "example_selector = Selector_Contains (Selector_Eq empty_Selector ''service_name'' ''api'') ''s''"

lemma example_drained:
  "fst (drained example_rows) =
     [\<lparr>row_Timestamp = 1700000000000000002, row_Labels = [(''service_name'', ''api''), (''severity'', ''warn''), (''pod'', ''b'')], row_Line = ''second''\<rparr>,
      \<lparr>row_Timestamp = 1700000000000000001, row_Labels = [(''service_name'', ''api''), (''pod'', ''a'')], row_Line = ''first''\<rparr>] \<and>
   it_err (snd (drained example_rows)) = None \<and> rowIterator_Close (snd (drained example_rows)) = None"
  by code_simp


end
