(* ===== verification/QueryApi.thy ===== *)
theory QueryApi
  imports Server ClientServer
begin

text \<open>
  A request the server routes, answered: the handlers bound to the stores the process was started with
  (\<^verbatim>\<open>handler\<close> of queryapi/handler.go, \<^verbatim>\<open>newRouter\<close>), behind the instrumentation of queryapi/metrics.go.
  What the stores read is a parameter by project: ClickHouse as the connection that carries a project,
  the metric backend as the client of the project in a request's extra label.
\<close>

section \<open>Instrumentation\<close>

record statusRecorder =
  rec_status :: int

definition WriteHeader :: "int \<Rightarrow> statusRecorder \<Rightarrow> statusRecorder" where
  "WriteHeader status rcd = rcd\<lparr>rec_status := status\<rparr>"

text \<open>A route's pattern, as registered.\<close>

definition pattern :: "route \<Rightarrow> string" where
  "pattern rt =
     rt_method rt @ '' '' @ concat (map (\<lambda>s. ''/'' @ (case s of Lit l \<Rightarrow> l | Wild \<Rightarrow> ''{name}'')) (rt_path rt))"

text \<open>
  The latency histogram and the counter, once the handler has returned (\<open>None\<close>: it does not). Every
  response of the handlers writes its header once; \<open>elapsed\<close> is the time the handler took, in seconds.
\<close>

record route_metrics =
  requestDuration :: "(string \<times> float64) list"
  requestsTotal :: "(string \<times> string) list"

definition instrumentRoute :: "string \<Rightarrow> float64 \<Rightarrow> Response option \<Rightarrow> (Response \<times> route_metrics) option" where
  "instrumentRoute rt elapsed handler =
     map_option (\<lambda>w.
       let rcd = WriteHeader (w_Status w) \<lparr>rec_status = 200\<rparr> in
       (w, \<lparr>requestDuration = [(rt, elapsed)], requestsTotal = [(rt, Itoa (rec_status rcd))]\<rparr>)) handler"

text \<open>What a route that answered with a status leaves in the instruments.\<close>

definition observed :: "route \<Rightarrow> float64 \<Rightarrow> int \<Rightarrow> route_metrics" where
  "observed rt elapsed status = \<lparr>requestDuration = [(pattern rt, elapsed)], requestsTotal = [(pattern rt, Itoa status)]\<rparr>"

section \<open>Stores\<close>

text \<open>What the handlers and the stores use of the libraries they call, and the clock.\<close>

record environment =
  ev_lib :: Lib
  ev_now :: int
  ev_elapsed :: float64
  ev_ParseForm :: "Request \<Rightarrow> string + form"
  ev_json :: "string \<Rightarrow> envelope option"
  ev_fmtTime :: "int \<Rightarrow> string"
  ev_fmtSeconds :: "int \<Rightarrow> string"
  ev_marshal :: "fake_data \<Rightarrow> string"
  ev_intn :: "int \<Rightarrow> nat \<Rightarrow> nat \<Rightarrow> nat"
  ev_rxm :: "string \<Rightarrow> string \<Rightarrow> bool"
  ev_CtxErr :: "storage_error option"
  ev_CtxErrAt :: "int \<Rightarrow> storage_error option"

record backends =
  bk_conn :: conn
  bk_prom :: "string \<Rightarrow> PromStore.client"

definition fake_ops :: "environment \<Rightarrow> int \<Rightarrow> iterator LogStoreOps" where
  "fake_ops ev interval =
     \<lparr>lso_QueryLogs = fake_QueryLogs interval, lso_Next = fake_Next (ev_intn ev) (ev_rxm ev) (ev_CtxErrAt ev), lso_Row = fake_Row,
      lso_Err = fi_err, lso_Close = fake_Close, lso_LabelNames = fake_LabelNames, lso_LabelValues = fake_LabelValues,
      lso_Series = fake_Series (ev_rxm ev)\<rparr>"

definition metric_ops :: "environment \<Rightarrow> backends \<Rightarrow> metric_backend \<Rightarrow> metric_store" where
  "metric_ops ev bk mb c ctx =
     (case mb of
        FakeMetrics \<Rightarrow> map_option (res_map (ev_marshal ev)) (fake_metric_call c ctx)
      | PrometheusMetrics pc \<Rightarrow>
          Some (fst (prom_call (ev_json ev) (tenant_client pc (bk_prom bk)) (ev_CtxErr ev) (ev_fmtTime ev) (ev_fmtSeconds ev)
            (lib_isp (ev_lib ev)) pc c ctx)))"

section \<open>Handlers\<close>

text \<open>The value of \<^verbatim>\<open>{name}\<close> in the path a route matched.\<close>

fun PathValue :: "seg list \<Rightarrow> string list \<Rightarrow> string" where
  "PathValue (Wild # ps) (w # ws) = w"
| "PathValue (Lit l # ps) (w # ws) = PathValue ps ws"
| "PathValue _ _ = []"

definition run_handler :: "environment \<Rightarrow> 's LogStoreOps \<Rightarrow> metric_store \<Rightarrow> Config \<Rightarrow> route \<Rightarrow> Context \<Rightarrow> Request \<Rightarrow> Response option" where
  "run_handler ev logs metrics cfg rt ctx r =
     (let lib = ev_lib ev; now = ev_now ev; rq = rq_Query r; name = PathValue (rt_path rt) (match_segs (EscapedPath r)) in
      case rt_handler rt of
        lokiQuery \<Rightarrow> handle_lokiQuery lib logs cfg now ctx rq
      | lokiQueryRange \<Rightarrow> handle_lokiQueryRange lib logs cfg now ctx rq
      | lokiLabelNames \<Rightarrow> Some (handle_lokiLabelNames lib logs now ctx rq)
      | lokiLabelValues \<Rightarrow> Some (handle_lokiLabelValues lib logs now ctx name rq)
      | lokiSeries \<Rightarrow> Some (handle_lokiSeries lib logs now ctx rq)
      | e \<Rightarrow> handle_prom lib cfg metrics now e ctx name (ev_ParseForm ev r))"

definition answer :: "environment \<Rightarrow> backends \<Rightarrow> Server \<Rightarrow> route \<Rightarrow> Context \<Rightarrow> Request \<Rightarrow> (Response \<times> route_metrics) option" where
  "answer ev bk s rt ctx r =
     (let c = sv_config s; metrics = metric_ops ev bk (cc_MetricStore c) in
      instrumentRoute (pattern rt) (ev_elapsed ev)
        (case cc_LogStore c of
           FakeLogs interval \<Rightarrow> run_handler ev (fake_ops ev interval) metrics (cc_Query c) rt ctx r
         | ClickHouseLogs _ _ \<Rightarrow> run_handler ev (clickhouse_ops (bk_conn bk)) metrics (cc_Query c) rt ctx r))"

section \<open>Lemmas\<close>

lemma instrumented: "instrumentRoute (pattern rt) t (Some w) = Some (w, observed rt t (w_Status w))"
  by (simp add: instrumentRoute_def WriteHeader_def observed_def)

text \<open>A handler asks its stores in its own context only.\<close>

lemma run_handler_cong:
  assumes "lso_QueryLogs st ctx = lso_QueryLogs st' ctx" "lso_Next st = lso_Next st'" "lso_Row st = lso_Row st'"
    "lso_Err st = lso_Err st'" "lso_Close st = lso_Close st'" "lso_LabelNames st ctx = lso_LabelNames st' ctx"
    "lso_LabelValues st ctx = lso_LabelValues st' ctx" "lso_Series st ctx = lso_Series st' ctx" "\<And>c. m c ctx = m' c ctx"
  shows "run_handler ev st m cfg rt ctx r = run_handler ev st' m' cfg rt ctx r"
proof -
  have l: "serveLogs st cfg ctx rq q tr = serveLogs st' cfg ctx rq q tr" for rq q tr
    unfolding serveLogs_def assms(1-5) ..
  have p: "handle_prom lib cfg m now e ctx name f = handle_prom lib cfg m' now e ctx name f" for lib now e name f
    using assms(9) by (simp add: handle_prom_def respond_def split: sum.split)
  show ?thesis
    unfolding run_handler_def Let_def handle_lokiQuery_def handle_lokiQueryRange_def handle_lokiLabelNames_def
      handle_lokiLabelValues_def handle_lokiSeries_def l p assms(6-8) ..
qed

lemma clickhouse_ops_scoped:
  assumes "ProjectID ctx = Some p" "conn p = conn' p"
  shows "lso_QueryLogs (clickhouse_ops conn) ctx = lso_QueryLogs (clickhouse_ops conn') ctx"
    "lso_LabelNames (clickhouse_ops conn) ctx = lso_LabelNames (clickhouse_ops conn') ctx"
    "lso_LabelValues (clickhouse_ops conn) ctx = lso_LabelValues (clickhouse_ops conn') ctx"
    "lso_Series (clickhouse_ops conn) ctx = lso_Series (clickhouse_ops conn') ctx"
  using ch_QueryLogs.scoped [where be = conn and be' = conn', OF assms] ch_LabelNames.scoped [where be = conn and be' = conn', OF assms]
    ch_LabelValues.scoped [where be = conn and be' = conn', OF assms] ch_Series.scoped [where be = conn and be' = conn', OF assms]
  by (simp_all add: clickhouse_ops_def fun_eq_iff)

lemma metric_ops_scoped:
  assumes "ProjectID ctx = Some p" "bk_prom bk p = bk_prom bk' p"
  shows "metric_ops ev bk mb c ctx = metric_ops ev bk' mb c ctx"
proof (cases "bad_label c")
  case True
  then show ?thesis by (cases c) (simp_all add: metric_ops_def prom_call_def bad_label_def split: metric_backend.split)
next
  case False
  show ?thesis unfolding metric_ops_def prom_call_good [OF False] using prom_do.scoped [where be = "bk_prom bk" and be' = "bk_prom bk'", OF assms]
    by (simp split: metric_backend.split)
qed

lemma answer_scoped:
  assumes "ProjectID ctx = Some p" "bk_conn bk p = bk_conn bk' p" "bk_prom bk p = bk_prom bk' p"
  shows "answer ev bk s rt ctx r = answer ev bk' s rt ctx r"
proof -
  note m = metric_ops_scoped [OF assms(1,3)]
  have f: "run_handler ev (fake_ops ev i) (metric_ops ev bk mb) cfg rt ctx r =
      run_handler ev (fake_ops ev i) (metric_ops ev bk' mb) cfg rt ctx r" for i mb cfg
    by (rule run_handler_cong) (simp_all add: m)
  have c: "run_handler ev (clickhouse_ops (bk_conn bk)) (metric_ops ev bk mb) cfg rt ctx r =
      run_handler ev (clickhouse_ops (bk_conn bk')) (metric_ops ev bk' mb) cfg rt ctx r" for mb cfg
    by (rule run_handler_cong) (simp_all add: m clickhouse_ops_scoped [where conn = "bk_conn bk" and conn' = "bk_conn bk'", OF assms(1,2)], simp_all add: clickhouse_ops_def)
  show ?thesis unfolding answer_def Let_def f c ..
qed

text \<open>Handlers return when the iterator they read ends and the metric store answers what they plan.\<close>

lemma run_handler_returns:
  assumes "\<And>it. collectStreams (lso_Next st) (lso_Row st) (lso_Err st) (lso_Close st) it \<noteq> None"
    "\<And>c. (\<And>q. c = MQueryRange q \<Longrightarrow> 0 < rgq_Step q) \<Longrightarrow> m c ctx \<noteq> None"
  shows "run_handler ev st m cfg rt ctx r \<noteq> None"
proof -
  have l: "serveLogs st cfg ctx rq q tr \<noteq> None" for rq q tr
    using assms(1) by (simp add: serveLogs_def split: sum.split)
  have step: "0 < rgq_Step q" if "plan_prom lib cfg now e name f = Inr (MQueryRange q)" for lib now e name f q
  proof -
    from that obtain form where "plan_promQueryRange lib cfg form = Inr (MQueryRange q)"
      by (auto simp: plan_prom_def with_form_def plan_promQuery_def plan_promSeries_def plan_promLabelNames_def
          plan_promLabelValues_def res_bind_def split: endpoint.splits sum.splits if_splits)
    then show ?thesis by (rule plan_promQueryRangeE) (auto dest: parsePromDuration_pos)
  qed
  have "m c ctx \<noteq> None" if "plan_prom lib cfg now e name f = Inr c" for lib now e name f c
    by (rule assms(2)) (use that in \<open>auto intro: step\<close>)
  then have p: "handle_prom lib cfg m now e ctx name f \<noteq> None" for lib now e name f
    by (simp add: handle_prom_def respond_def split: sum.split)
  show ?thesis
    using l p by (simp add: run_handler_def Let_def handle_lokiQuery_def handle_lokiQueryRange_def
      split: endpoint.split sum.split del: not_None_eq)
qed

lemma metric_ops_returns: "(\<And>q. c = MQueryRange q \<Longrightarrow> 0 < rgq_Step q) \<Longrightarrow> metric_ops ev bk mb c ctx \<noteq> None"
  using fake_metric_answers [of c ctx] by (cases mb) (auto simp: metric_ops_def split: option.splits)

lemma answer_returns: "\<exists>w. answer ev bk s rt ctx r = Some (w, observed rt (ev_elapsed ev) (w_Status w))"
proof -
  let ?c = "sv_config s"
  have f: "run_handler ev (fake_ops ev i) (metric_ops ev bk mb) cfg rt ctx r \<noteq> None" for i mb cfg
    by (rule run_handler_returns) (simp_all add: fake_ops_def fake_iterator.collectStreams_drain metric_ops_returns)
  have c: "run_handler ev (clickhouse_ops (bk_conn bk)) (metric_ops ev bk mb) cfg rt ctx r \<noteq> None" for mb cfg
    by (rule run_handler_returns) (simp_all add: clickhouse_ops_def ch_iterator.collectStreams_drain metric_ops_returns)
  obtain h where "answer ev bk s rt ctx r = instrumentRoute (pattern rt) (ev_elapsed ev) (Some h)"
  proof (cases "cc_LogStore ?c")
    case (FakeLogs i)
    then show ?thesis using that f [of i "cc_MetricStore ?c" "cc_Query ?c"] by (auto simp: answer_def)
  next
    case (ClickHouseLogs x y)
    then show ?thesis using that c [of "cc_MetricStore ?c" "cc_Query ?c"] by (auto simp: answer_def)
  qed
  then show ?thesis by (simp add: instrumented)
qed

lemma served_project:
  assumes "queryapi_run fk rnd cvt env fs url defaultAllow args = Inr s" "default_chain chain imp attrs"
    "serve chain s r = Some (TenantRequest (Inr (RouteRun rt ctx)))"
  obtains authn u0 u p where "cc_Authenticator (sv_config s) = Some authn" "authn (canonical_request r) = Some u0"
    "acts_as (g_delegate (cc_Guard (sv_config s))) (imp (canonical_request r)) u0 u" "Resolve_user (Some u) = Some p" "ProjectID ctx = Some p"
proof -
  from run_assembles [OF assms(1)] obtain authn where a: "cc_Authenticator (sv_config s) = Some authn"
    by (metis option.exhaust)
  let ?r = "canonical_request r"
  have "chain (Some authn) (cc_Resolver (sv_config s)) (guarded (cc_Guard (sv_config s))) (installed (cc_router (sv_config s))) ?r =
      Some (TenantRequest (Inr (RouteRun rt ctx)))"
    using assms(3) a by (simp add: serve_def Let_def withCanonicalPaths_app)
  then obtain u0 u where u: "authn ?r = Some u0" "acts_as (guarded (cc_Guard (sv_config s))) (imp ?r) u0 u"
    "TenantRequest (Inr (RouteRun rt ctx)) = installed (cc_router (sv_config s)) (caller u) ?r"
    using assms(2) unfolding default_chain_def by blast
  have g: "acts_as (g_delegate (cc_Guard (sv_config s))) (imp ?r) u0 u"
    using u(2) acts_as_guarded by (cases "cc_Guard (sv_config s)") fastforce
  from u(3) have "Middleware (tenant_mux (cc_router (sv_config s)) ?r) (caller u) = Inr (RouteRun rt ctx)"
    by (auto simp: installed_def split: if_splits)
  then obtain p where p: "Resolve_user (Some u) = Some p"
    "tenant_mux (cc_router (sv_config s)) ?r (WithProject (caller u) p) = RouteRun rt ctx"
    by (auto simp: Middleware_cases split: option.splits)
  have "validID p" using p(1) by (auto simp: Resolve_user_Some)
  moreover have "ctx = WithProject (caller u) p" using p(2) by (auto simp: tenant_mux_def split: mux_result.splits)
  ultimately show ?thesis using that [OF a u(1) g p(1)] by (simp add: ProjectID_WithProject)
qed

section \<open>Properties\<close>


definition example_stores :: framework where
  "example_stores = example_framework\<lparr>fk_Parse := (\<lambda>_ opts. Inr (opts\<lparr>o_Query := (o_Query opts)\<lparr>c_LogsStorage := ''clickhouse'',
     c_MetricsStorage := ''prometheus'', c_PrometheusURL := ''http://x'', c_PrometheusTenancy := ''extra-label''\<rparr>\<rparr>))\<rparr>"

abbreviation example_server :: "start_error + Server" where
  "example_server \<equiv> queryapi_run example_stores Finite (\<lambda>_. 0) (\<lambda>k. if k = ''CLICKHOUSE_HOST'' then ''db'' else []) example_files
     (\<lambda>_. Some (''http'', ''x'')) [] []"

definition example_environment :: environment where
  "example_environment = \<lparr>ev_lib = example_lib, ev_now = 7200 * second, ev_elapsed = Finite 1, ev_ParseForm = (\<lambda>_. Inr (\<lambda>_. [])), ev_json = (\<lambda>_. None),
     ev_fmtTime = (\<lambda>_. []), ev_fmtSeconds = (\<lambda>_. []), ev_marshal = (\<lambda>_. []), ev_intn = (\<lambda>_ _ _. 0), ev_rxm = (\<lambda>_ _. True),
     ev_CtxErr = None, ev_CtxErrAt = (\<lambda>_. None)\<rparr>"

abbreviation example_labels :: Request where "example_labels \<equiv> example_request ''/loki/api/v1/labels''"

lemma example_started:
  "\<exists>s c t pc. example_server = Inr s \<and> cc_LogStore (sv_config s) = ClickHouseLogs c t \<and> cc_MetricStore (sv_config s) = PrometheusMetrics pc \<and>
     cc_Authenticator (sv_config s) = Some (\<lambda>_. Some server_caller) \<and> cc_router (sv_config s) = routes \<and>
     cc_Resolver (sv_config s) = NewRequestInfo routes (\<lambda>_. Inl []) \<and>
     cc_Guard (sv_config s) = \<lparr>g_delegate = (\<lambda>_ _. (DecisionAllow, [], None))\<rparr>"
proof -
  have l: "ValidLabelName ''resourcemanager_datumapis_com_project_name''" by code_simp
  have a: "ValidateAlwaysAllowPaths [''/metrics''] = None" by code_simp
  have "find (\<lambda>rt. \<not> Known (rt_permission rt)) routes = None" using routes_Known by (simp add: find_None_iff)
  then have r: "newRouter routes = Inr routes" by (simp add: newRouter_def)
  show ?thesis
    by (simp add: queryapi_run_def example_stores_def example_framework_def NewOptions_def DefaultConfig_def Options_Complete_def
      Options_Validate_def Config_Validate_def a ParseTenancy_def newLogStore_def ConfigFromEnv_def ch_envOr_def clickhouse_New_def
      tlsConfig_def example_files_def newMetricStore_def NewStore_def l Options_Config_def NewGenericConfig_def Complete_def r Guard_def
      Server_New_def res_bind_def)
qed

lemma example_chain_serves:
  "case example_chain (\<lambda>_. None) (Some (\<lambda>_. Some server_caller)) (NewRequestInfo routes (\<lambda>_. Inl []))
       (guarded \<lparr>g_delegate = (\<lambda>_ _. (DecisionAllow, [], None))\<rparr>) (installed routes) (canonical_request example_labels) of
     Some (TenantRequest (Inr (RouteRun rt ctx))) \<Rightarrow> rt_handler rt = lokiLabelNames | _ \<Rightarrow> False"
  by code_simp


end
