(* ===== verification/Unbatch.thy ===== *)
theory Unbatch
  imports Prelude
begin

text \<open>
  The unbatch processor (\<^verbatim>\<open>processor/unbatchprocessor/processor.go\<close>): it turns a batch of telemetry into
  one batch per record and forwards them in order. The \<^verbatim>\<open>pdata\<close> containers are the OTLP trees: a list of
  resource entries, each with its scope entries, each with its items. Resources, scopes, log records,
  spans and data points are type variables, so \<^verbatim>\<open>CopyTo\<close> is the copy of a value. The counting methods
  of \<^verbatim>\<open>pdata\<close> (\<^verbatim>\<open>LogRecordCount\<close>, \<^verbatim>\<open>SpanCount\<close>, \<^verbatim>\<open>DataPointCount\<close>) are parameters.
\<close>

section \<open>Batches\<close>

record ('sc, 'e) ScopeEntry =
  se_Scope :: 'sc
  se_SchemaUrl :: string
  se_Items :: "'e list"

record ('re, 'sc, 'e) ResourceEntry =
  re_Resource :: 're
  re_SchemaUrl :: string
  re_Scopes :: "('sc, 'e) ScopeEntry list"

type_synonym ('re, 'sc, 'e) batch = "('re, 'sc, 'e) ResourceEntry list"

text \<open>The aggregation temporality of a metric.\<close>

datatype temporality = TemporalityUnspecified | Delta | Cumulative

text \<open>The five kinds of metric with their points, and a metric of no kind.\<close>

datatype 'dp metric_data =
    MetricTypeEmpty
  | MetricTypeGauge "'dp list"
  | MetricTypeSum temporality bool "'dp list"
  | MetricTypeHistogram temporality "'dp list"
  | MetricTypeExponentialHistogram temporality "'dp list"
  | MetricTypeSummary "'dp list"

record 'dp Metric =
  m_Name :: string
  m_Description :: string
  m_Unit :: string
  m_Metadata :: "(string \<times> string) list"
  m_Data :: "'dp metric_data"

fun data_points :: "'dp metric_data \<Rightarrow> 'dp list" where
  "data_points MetricTypeEmpty = []"
| "data_points (MetricTypeGauge ds) = ds"
| "data_points (MetricTypeSum t monotonic ds) = ds"
| "data_points (MetricTypeHistogram t ds) = ds"
| "data_points (MetricTypeExponentialHistogram t ds) = ds"
| "data_points (MetricTypeSummary ds) = ds"

section \<open>Splitting\<close>

text \<open>A new batch that holds one item below copies of its resource and scope.\<close>

definition single_item :: "('re, 'sc, 'e) ResourceEntry \<Rightarrow> ('sc, 'e) ScopeEntry \<Rightarrow> 'f \<Rightarrow> ('re, 'sc, 'f) batch" where
  "single_item r s e =
     [\<lparr>re_Resource = re_Resource r, re_SchemaUrl = re_SchemaUrl r,
       re_Scopes = [\<lparr>se_Scope = se_Scope s, se_SchemaUrl = se_SchemaUrl s, se_Items = [e]\<rparr>]\<rparr>]"

definition splitLogs :: "(('re, 'sc, 'lr) batch \<Rightarrow> nat) \<Rightarrow> ('re, 'sc, 'lr) batch \<Rightarrow> ('re, 'sc, 'lr) batch list" where
  "splitLogs LogRecordCount ld =
     (if LogRecordCount ld = 0 then []
      else if LogRecordCount ld = 1 then [ld]
      else concat (map (\<lambda>rl. concat (map (\<lambda>sl. map (single_item rl sl) (se_Items sl)) (re_Scopes rl))) ld))"

definition splitTraces :: "(('re, 'sc, 'span) batch \<Rightarrow> nat) \<Rightarrow> ('re, 'sc, 'span) batch \<Rightarrow> ('re, 'sc, 'span) batch list" where
  "splitTraces SpanCount td =
     (if SpanCount td = 0 then []
      else if SpanCount td = 1 then [td]
      else concat (map (\<lambda>rs. concat (map (\<lambda>ss. map (single_item rs ss) (se_Items ss)) (re_Scopes rs))) td))"

text \<open>The shell of one metric: the name, description and unit of the source metric, and its one point.\<close>

definition newMetricContainer ::
  "('re, 'sc, 'dp Metric) ResourceEntry \<Rightarrow> ('sc, 'dp Metric) ScopeEntry \<Rightarrow> 'dp Metric \<Rightarrow> 'dp metric_data \<Rightarrow>
   ('re, 'sc, 'dp Metric) batch" where
  "newMetricContainer rm sm m d =
     single_item rm sm
       \<lparr>m_Name = m_Name m, m_Description = m_Description m, m_Unit = m_Unit m, m_Metadata = [], m_Data = d\<rparr>"

definition explodeMetric ::
  "('re, 'sc, 'dp Metric) ResourceEntry \<Rightarrow> ('sc, 'dp Metric) ScopeEntry \<Rightarrow> 'dp Metric \<Rightarrow> ('re, 'sc, 'dp Metric) batch list" where
  "explodeMetric rm sm m =
     (case m_Data m of
        MetricTypeEmpty \<Rightarrow> []
      | MetricTypeGauge dps \<Rightarrow> map (\<lambda>dp. newMetricContainer rm sm m (MetricTypeGauge [dp])) dps
      | MetricTypeSum t monotonic dps \<Rightarrow> map (\<lambda>dp. newMetricContainer rm sm m (MetricTypeSum t monotonic [dp])) dps
      | MetricTypeHistogram t dps \<Rightarrow> map (\<lambda>dp. newMetricContainer rm sm m (MetricTypeHistogram t [dp])) dps
      | MetricTypeExponentialHistogram t dps \<Rightarrow>
          map (\<lambda>dp. newMetricContainer rm sm m (MetricTypeExponentialHistogram t [dp])) dps
      | MetricTypeSummary dps \<Rightarrow> map (\<lambda>dp. newMetricContainer rm sm m (MetricTypeSummary [dp])) dps)"

definition splitMetrics ::
  "(('re, 'sc, 'dp Metric) batch \<Rightarrow> nat) \<Rightarrow> ('re, 'sc, 'dp Metric) batch \<Rightarrow> ('re, 'sc, 'dp Metric) batch list" where
  "splitMetrics DataPointCount md =
     (if DataPointCount md = 0 then []
      else if DataPointCount md = 1 then [md]
      else concat (map (\<lambda>rm. concat (map (\<lambda>sm. concat (map (explodeMetric rm sm) (se_Items sm))) (re_Scopes rm))) md))"

section \<open>Forwarding\<close>

text \<open>
  A consumer takes a batch in a state of the world and returns an error or none, with the new state.
  The three loops forward one batch after the other and return the first error.
\<close>

type_synonym ('b, 'w, 'err) consumer = "'b \<Rightarrow> 'w \<Rightarrow> 'err option \<times> 'w"

fun forward_each :: "('b, 'w, 'err) consumer \<Rightarrow> 'b list \<Rightarrow> 'w \<Rightarrow> 'err option \<times> 'w" where
  "forward_each nxt [] w = (None, w)"
| "forward_each nxt (b # bs) w =
     (case nxt b w of (Some e, w') \<Rightarrow> (Some e, w') | (None, w') \<Rightarrow> forward_each nxt bs w')"

definition ConsumeLogs ::
  "(('re, 'sc, 'lr) batch \<Rightarrow> nat) \<Rightarrow> (('re, 'sc, 'lr) batch, 'w, 'err) consumer \<Rightarrow> (('re, 'sc, 'lr) batch, 'w, 'err) consumer" where
  "ConsumeLogs LogRecordCount nxt ld = forward_each nxt (splitLogs LogRecordCount ld)"

definition ConsumeTraces ::
  "(('re, 'sc, 'span) batch \<Rightarrow> nat) \<Rightarrow> (('re, 'sc, 'span) batch, 'w, 'err) consumer \<Rightarrow> (('re, 'sc, 'span) batch, 'w, 'err) consumer" where
  "ConsumeTraces SpanCount nxt td = forward_each nxt (splitTraces SpanCount td)"

definition ConsumeMetrics ::
  "(('re, 'sc, 'dp Metric) batch \<Rightarrow> nat) \<Rightarrow> (('re, 'sc, 'dp Metric) batch, 'w, 'err) consumer \<Rightarrow>
   (('re, 'sc, 'dp Metric) batch, 'w, 'err) consumer" where
  "ConsumeMetrics DataPointCount nxt md = forward_each nxt (splitMetrics DataPointCount md)"

text \<open>What the next consumer is given: the batches up to and including the first it refuses.\<close>

fun accepted_prefix :: "('b, 'w, 'err) consumer \<Rightarrow> 'b list \<Rightarrow> 'w \<Rightarrow> nat" where
  "accepted_prefix nxt [] w = 0"
| "accepted_prefix nxt (b # bs) w =
     (case nxt b w of (Some e, w') \<Rightarrow> 0 | (None, w') \<Rightarrow> Suc (accepted_prefix nxt bs w'))"

lemma accepted_prefix_le: "accepted_prefix nxt bs w \<le> length bs"
  by (induction bs arbitrary: w) (auto split: prod.split option.split)

lemma forward_each_accepts:
  "fst (forward_each nxt bs w) = None \<longleftrightarrow> accepted_prefix nxt bs w = length bs"
  by (induction bs arbitrary: w) (auto split: prod.split option.split)

lemma forward_each_append:
  "forward_each nxt (as @ bs) w =
     (case forward_each nxt as w of (Some e, w') \<Rightarrow> (Some e, w') | (None, w') \<Rightarrow> forward_each nxt bs w')"
  by (induction as arbitrary: w) (auto split: prod.split option.split)

lemma forward_each_nested:
  "forward_each (\<lambda>b. forward_each nxt (f b)) bs w = forward_each nxt (concat (map f bs)) w"
  by (induction bs arbitrary: w) (auto simp: forward_each_append split: prod.split option.split)

text \<open>A consumer that takes everything and keeps what it was given.\<close>

definition sink :: "('b, 'b list, 'err) consumer" where
  "sink b w = (None, w @ [b])"

lemma forward_each_sink [simp]: "forward_each sink bs w = (None, w @ bs)"
  by (induction bs arbitrary: w) (auto simp: sink_def)

section \<open>The contract of a splitter\<close>

text \<open>
  What a run of forwarding did, for a next consumer that answers \<open>refuse\<close> of what it was given so
  far and now: the records it was given are the first ones of the batch, in order; it took all of
  them, or refused the last one it was given with the error that is returned.
\<close>

definition recording :: "('b list \<Rightarrow> 'b \<Rightarrow> 'err option) \<Rightarrow> ('b, 'b list, 'err) consumer" where
  "recording refuse b w = (refuse w b, w @ [b])"

definition delivered_in_order ::
  "('b \<Rightarrow> 'x list) \<Rightarrow> ('b list \<Rightarrow> 'b \<Rightarrow> 'err option) \<Rightarrow> 'b \<Rightarrow> 'err option \<times> 'b list \<Rightarrow> bool" where
  "delivered_in_order records refuse b r \<longleftrightarrow>
     concat (map records (snd r)) = take (length (snd r)) (records b) \<and>
     (\<forall>b' \<in> set (snd r). length (records b') = 1) \<and>
     (case fst r of
        None \<Rightarrow> length (snd r) = length (records b) \<and> (\<forall>i < length (snd r). refuse (take i (snd r)) (snd r ! i) = None)
      | Some e \<Rightarrow> (\<exists>w b'. snd r = w @ [b'] \<and> refuse w b' = Some e \<and> (\<forall>i < length w. refuse (take i w) (w ! i) = None)))"

lemma forward_each_recording:
  "forward_each (recording refuse) bs w = (e, w') \<Longrightarrow>
     (\<exists>n \<le> length bs. w' = w @ take n bs \<and>
       (case e of
          None \<Rightarrow> n = length bs \<and> (\<forall>i < n. refuse (w @ take i bs) (bs ! i) = None)
        | Some err \<Rightarrow> 0 < n \<and> refuse (w @ take (n - 1) bs) (bs ! (n - 1)) = Some err \<and>
            (\<forall>i < n - 1. refuse (w @ take i bs) (bs ! i) = None)))"
proof (induction bs arbitrary: w)
  case (Cons b bs)
  show ?case
  proof (cases "refuse w b")
    case None
    then have "forward_each (recording refuse) bs (w @ [b]) = (e, w')"
      using Cons.prems by (simp add: recording_def [of _ b])
    from Cons.IH [OF this, unfolded append_assoc append_Cons append_Nil] obtain n where n: "n \<le> length bs" "w' = w @ b # take n bs" and
      c: "case e of
          None \<Rightarrow> n = length bs \<and> (\<forall>i < n. refuse (w @ b # take i bs) (bs ! i) = None)
        | Some err \<Rightarrow> 0 < n \<and> refuse (w @ b # take (n - 1) bs) (bs ! (n - 1)) = Some err \<and>
            (\<forall>i < n - 1. refuse (w @ b # take i bs) (bs ! i) = None)" by blast
    show ?thesis
      by (rule exI [of _ "Suc n"])
        (use n c None in \<open>auto simp: less_Suc_eq_0_disj take_Cons' nth_Cons' split: option.splits\<close>)
  next
    case (Some err)
    then have "e = Some err" "w' = w @ [b]" using Cons.prems by (simp_all add: recording_def [of _ b])
    then show ?thesis using Some by (intro exI [of _ 1]) simp
  qed
qed auto

lemma concat_singletons:
  "\<forall>ys \<in> set yss. length ys = 1 \<Longrightarrow>
     length (concat yss) = length yss \<and> (\<forall>i < length yss. yss ! i = [concat yss ! i])"
proof (induction yss)
  case (Cons ys yss)
  then obtain y where "ys = [y]" by (auto simp: length_Suc_conv)
  then show ?case using Cons by (auto simp: nth_Cons split: nat.split)
qed simp

lemma concat_singletons_take:
  "\<forall>ys \<in> set yss. length ys = 1 \<Longrightarrow> concat (take n yss) = take n (concat yss)"
proof (induction yss arbitrary: n)
  case (Cons ys yss)
  then obtain y where "ys = [y]" by (auto simp: length_Suc_conv)
  then show ?case using Cons by (cases n) auto
qed simp

lemma concat_map_self: "(\<And>x. x \<in> set xs \<Longrightarrow> f x = [x]) \<Longrightarrow> concat (map f xs) = xs"
  by (induction xs) auto

lemma concat_concat: "concat (concat xss) = concat (map concat xss)"
  by (induction xss) auto

text \<open>
  \<open>records\<close> lists the records of a batch with everything above them. A splitter keeps them all, in
  order, one per batch, and leaves a batch of one record alone.
\<close>

locale unbatcher =
  fixes split :: "'b \<Rightarrow> 'b list"
    and records :: "'b \<Rightarrow> 'x list"
  assumes conserves: "concat (map records (split b)) = records b"
    and one_each: "b' \<in> set (split b) \<Longrightarrow> length (records b') = 1"
    and single: "length (records b) = 1 \<Longrightarrow> split b = [b]"
begin

lemma one_per_record: "length (split b) = length (records b)"
  using concat_singletons [of "map records (split b)"] by (auto simp: conserves one_each)

lemma records_nth: "i < length (records b) \<Longrightarrow> records (split b ! i) = [records b ! i]"
  using concat_singletons [of "map records (split b)"] by (auto simp: conserves one_each one_per_record)

lemma resplit: "concat (map split (split b)) = split b"
  by (rule concat_map_self) (rule single [OF one_each])

lemma forward_delivers: "delivered_in_order records refuse b (forward_each (recording refuse) (split b) [])"
proof -
  obtain e w where r: "forward_each (recording refuse) (split b) [] = (e, w)"
    by (cases "forward_each (recording refuse) (split b) []")
  from forward_each_recording [OF this, unfolded append_Nil] obtain n where n: "n \<le> length (split b)" "w = take n (split b)" and
    c: "case e of
          None \<Rightarrow> n = length (split b) \<and> (\<forall>i < n. refuse (take i (split b)) (split b ! i) = None)
        | Some err \<Rightarrow> 0 < n \<and> refuse (take (n - 1) (split b)) (split b ! (n - 1)) = Some err \<and>
            (\<forall>i < n - 1. refuse (take i (split b)) (split b ! i) = None)" by blast
  have prefix: "concat (map records (take m (split b))) = take m (records b)" if "m \<le> length (split b)" for m
    using that concat_singletons_take [of "map records (split b)" m]
    by (auto simp: conserves one_each take_map)
  have last: "0 < n \<Longrightarrow> take n (split b) = take (n - 1) (split b) @ [split b ! (n - 1)]"
    using n(1) take_Suc_conv_app_nth [of "n - 1" "split b"] by simp
  have "\<forall>b' \<in> set w. length (records b') = 1"
    using n(2) one_each by (auto dest: in_set_takeD)
  moreover have "concat (map records w) = take (length w) (records b)"
    using n prefix [OF n(1)] by (simp add: min_absorb2)
  moreover have "case e of
        None \<Rightarrow> length w = length (records b) \<and> (\<forall>i < length w. refuse (take i w) (w ! i) = None)
      | Some err \<Rightarrow> (\<exists>v b'. w = v @ [b'] \<and> refuse v b' = Some err \<and> (\<forall>i < length v. refuse (take i v) (v ! i) = None))"
  proof (cases e)
    case None
    then show ?thesis using n c by (simp add: one_per_record)
  next
    case (Some err)
    then have "w = take (n - 1) (split b) @ [split b ! (n - 1)]" using c n(2) last by simp
    moreover have "refuse (take i (take (n - 1) (split b))) (take (n - 1) (split b) ! i) = None"
      if "i < n - 1" for i using that c n(1) Some by (simp add: min_def)
    moreover have "refuse (take (n - 1) (split b)) (split b ! (n - 1)) = Some err" using c Some by simp
    moreover have "length (take (n - 1) (split b)) = n - 1" using n(1) by simp
    ultimately show ?thesis unfolding Some option.case by (metis (no_types, lifting))
  qed
  ultimately show ?thesis
    unfolding delivered_in_order_def r fst_conv snd_conv by blast
qed

lemma all_single: "list_all (\<lambda>b'. length (records b') = 1) (split b)"
  using one_each by (simp add: list_all_iff)

lemma forward_twice:
  "forward_each (\<lambda>b'. forward_each nxt (split b')) (split b) w = forward_each nxt (split b) w"
  by (simp add: forward_each_nested resplit)

end

text \<open>The records of a batch of logs or spans, and the points of a batch of metrics.\<close>

type_synonym ('re, 'sc) origin = "('re \<times> string) \<times> 'sc \<times> string"

definition entry_items :: "('re, 'sc, 'e) ResourceEntry \<Rightarrow> (('re, 'sc) origin \<times> 'e) list" where
  "entry_items r =
     concat (map (\<lambda>s. map (\<lambda>e. (((re_Resource r, re_SchemaUrl r), se_Scope s, se_SchemaUrl s), e)) (se_Items s)) (re_Scopes r))"

definition items :: "('re, 'sc, 'e) batch \<Rightarrow> (('re, 'sc) origin \<times> 'e) list" where
  "items b = concat (map entry_items b)"

fun point_data :: "'dp metric_data \<Rightarrow> 'dp metric_data list" where
  "point_data MetricTypeEmpty = []"
| "point_data (MetricTypeGauge ds) = map (\<lambda>d. MetricTypeGauge [d]) ds"
| "point_data (MetricTypeSum t monotonic ds) = map (\<lambda>d. MetricTypeSum t monotonic [d]) ds"
| "point_data (MetricTypeHistogram t ds) = map (\<lambda>d. MetricTypeHistogram t [d]) ds"
| "point_data (MetricTypeExponentialHistogram t ds) = map (\<lambda>d. MetricTypeExponentialHistogram t [d]) ds"
| "point_data (MetricTypeSummary ds) = map (\<lambda>d. MetricTypeSummary [d]) ds"

type_synonym ('re, 'sc, 'dp) point = "('re, 'sc) origin \<times> string \<times> string \<times> string \<times> 'dp metric_data"

definition points_of :: "('re, 'sc) origin \<times> 'dp Metric \<Rightarrow> ('re, 'sc, 'dp) point list" where
  "points_of x = map (\<lambda>d. (fst x, m_Name (snd x), m_Description (snd x), m_Unit (snd x), d)) (point_data (m_Data (snd x)))"

definition points :: "('re, 'sc, 'dp Metric) batch \<Rightarrow> ('re, 'sc, 'dp) point list" where
  "points b = concat (map points_of (items b))"

text \<open>The points of a batch, each with the metadata its metric carries.\<close>

definition metadata_points_of ::
  "('re, 'sc) origin \<times> 'dp Metric \<Rightarrow> (('re, 'sc, 'dp) point \<times> (string \<times> string) list) list" where
  "metadata_points_of x = map (\<lambda>y. (y, m_Metadata (snd x))) (points_of x)"

definition metadata_points ::
  "('re, 'sc, 'dp Metric) batch \<Rightarrow> (('re, 'sc, 'dp) point \<times> (string \<times> string) list) list" where
  "metadata_points b = concat (map metadata_points_of (items b))"

lemma metadata_points_fst: "map fst (metadata_points b) = points b"
  by (simp add: metadata_points_def metadata_points_of_def points_def map_concat comp_def)

lemma items_simps [simp]:
  "items [] = []" "items (r # b) = entry_items r @ items b"
  by (simp_all add: items_def)

lemma items_append [simp]: "items (a @ b) = items a @ items b"
  by (simp add: items_def)

lemma points_simps [simp]:
  "points [] = []" "points (a @ b) = points a @ points b"
  by (simp_all add: points_def)

lemma items_single_item [simp]:
  "items (single_item r s e) = [(((re_Resource r, re_SchemaUrl r), se_Scope s, se_SchemaUrl s), e)]"
  by (simp add: single_item_def entry_items_def)

lemma map_concat_eq: "(\<And>x. x \<in> set xs \<Longrightarrow> concat (map f (g x)) = h x) \<Longrightarrow>
    concat (map f (concat (map g xs))) = concat (map h xs)"
  by (induction xs) auto

definition item_batches :: "('re, 'sc, 'e) batch \<Rightarrow> ('re, 'sc, 'e) batch list" where
  "item_batches b = concat (map (\<lambda>r. concat (map (\<lambda>s. map (single_item r s) (se_Items s)) (re_Scopes r))) b)"

lemma item_batches_items: "concat (map items (item_batches b)) = items b"
  unfolding item_batches_def items_def entry_items_def
  by (intro map_concat_eq) (simp add: comp_def entry_items_def single_item_def)

lemma item_batches_single: "b' \<in> set (item_batches b) \<Longrightarrow> length (items b') = 1"
  by (auto simp: item_batches_def)

lemma unbatcher_items:
  "unbatcher (\<lambda>b. if length (items b) = 0 then [] else if length (items b) = 1 then [b] else item_batches b) items"
  by unfold_locales (auto simp: item_batches_items dest: item_batches_single split: if_splits)

lemma splitLogs_items:
  "splitLogs n ld = (if n ld = 0 then [] else if n ld = 1 then [ld] else item_batches ld)"
  by (simp add: splitLogs_def item_batches_def)

lemma splitTraces_items:
  "splitTraces n td = (if n td = 0 then [] else if n td = 1 then [td] else item_batches td)"
  by (simp add: splitTraces_def item_batches_def)

interpretation logs: unbatcher "splitLogs (\<lambda>ld. length (items ld))" items
  unfolding splitLogs_items by (rule unbatcher_items)

interpretation traces: unbatcher "splitTraces (\<lambda>td. length (items td))" items
  unfolding splitTraces_items by (rule unbatcher_items)

lemma explodeMetric_points:
  "explodeMetric rm sm m = map (newMetricContainer rm sm m) (point_data (m_Data m))"
  by (simp add: explodeMetric_def split: metric_data.split)

lemma point_data_single: "d \<in> set (point_data md) \<Longrightarrow> point_data d = [d]"
  by (cases md) auto

lemma points_newMetricContainer:
  "d \<in> set (point_data (m_Data m)) \<Longrightarrow> points (newMetricContainer rm sm m d) =
     [(((re_Resource rm, re_SchemaUrl rm), se_Scope sm, se_SchemaUrl sm), m_Name m, m_Description m, m_Unit m, d)]"
  by (simp add: newMetricContainer_def points_def points_of_def point_data_single)

definition point_batches :: "('re, 'sc, 'dp Metric) batch \<Rightarrow> ('re, 'sc, 'dp Metric) batch list" where
  "point_batches b = concat (map (\<lambda>rm. concat (map (\<lambda>sm. concat (map (explodeMetric rm sm) (se_Items sm))) (re_Scopes rm))) b)"

lemma explodeMetric_conserves:
  "concat (map points (explodeMetric rm sm m)) =
     points_of (((re_Resource rm, re_SchemaUrl rm), se_Scope sm, se_SchemaUrl sm), m)"
  using points_newMetricContainer [of _ m rm sm]
  by (simp add: explodeMetric_points points_of_def comp_def cong: map_cong)

lemma point_batches_points: "concat (map points (point_batches b)) = points b"
proof -
  have entry: "points [rm] = concat (map (\<lambda>sm. concat (map (\<lambda>m. points_of (((re_Resource rm, re_SchemaUrl rm), se_Scope sm, se_SchemaUrl sm), m)) (se_Items sm))) (re_Scopes rm))" for rm
    by (simp add: points_def entry_items_def map_concat comp_def concat_concat)
  have "points b = concat (map (\<lambda>rm. points [rm]) b)"
    by (induction b) (simp_all add: points_def)
  then show ?thesis
    unfolding point_batches_def entry by (simp only:) (intro map_concat_eq, simp add: explodeMetric_conserves)
qed

lemma point_batches_single: "b' \<in> set (point_batches b) \<Longrightarrow> length (points b') = 1"
  by (auto simp: point_batches_def explodeMetric_points points_newMetricContainer)

text \<open>A point that is taken out of its metric leaves the metric's metadata behind.\<close>

lemma metadata_newMetricContainer: "metadata_points (newMetricContainer rm sm m d) = map (\<lambda>x. (x, [])) (points (newMetricContainer rm sm m d))"
  by (simp add: newMetricContainer_def metadata_points_def metadata_points_of_def points_def)

lemma point_batches_metadata: "concat (map metadata_points (point_batches b)) = map (\<lambda>x. (x, [])) (points b)"
proof -
  have "metadata_points b' = map (\<lambda>x. (x, [])) (points b')" if "b' \<in> set (point_batches b)" for b'
    using that by (auto simp: point_batches_def explodeMetric_points metadata_newMetricContainer)
  then have "concat (map metadata_points (point_batches b)) = map (\<lambda>x. (x, [])) (concat (map points (point_batches b)))"
    by (simp add: map_concat comp_def cong: map_cong)
  then show ?thesis by (simp only: point_batches_points)
qed

lemma splitMetrics_metadata:
  "concat (map metadata_points (splitMetrics (\<lambda>md. length (points md)) md)) =
     (if length (points md) = 1 then metadata_points md else map (\<lambda>x. (x, [])) (points md))"
  unfolding splitMetrics_def point_batches_def [symmetric] by (simp add: point_batches_metadata)

interpretation metrics: unbatcher "splitMetrics (\<lambda>md. length (points md))" points
  unfolding splitMetrics_def point_batches_def [symmetric]
  by unfold_locales (auto simp: point_batches_points dest: point_batches_single split: if_splits)

section \<open>Properties\<close>

text \<open>
  C22. Unbatching keeps every record: the batches \<open>splitLogs\<close>, \<open>splitTraces\<close> and
  \<open>splitMetrics\<close> return hold, one each and in order, exactly the log records, spans or data points of
  the input, under copies of their resource, scope and schema URLs (and, for a point, of its metric's
  name, description, unit, kind, temporality and monotonicity); splitting them again changes nothing.
  What is lost is the metadata of a metric: a batch of a single point is passed on as it is, and out of
  every other batch each point leaves under a metric without metadata.
  The counts of \<^verbatim>\<open>pdata\<close> are assumed to count records and points.
\<close>

theorem unbatch_conserves:
  assumes "\<And>ld. lc ld = length (items ld)" "\<And>td. sc td = length (items td)" "\<And>md. pc md = length (points md)"
  shows "concat (map items (splitLogs lc ld)) = items ld \<and>
     concat (map items (splitTraces sc td)) = items td \<and>
     concat (map points (splitMetrics pc md)) = points md \<and>
     map fst (metadata_points md) = points md \<and>
     concat (map metadata_points (splitMetrics pc md)) =
       (if length (points md) = 1 then metadata_points md else map (\<lambda>x. (x, [])) (points md)) \<and>
     list_all (\<lambda>b. length (items b) = 1) (splitLogs lc ld) \<and>
     list_all (\<lambda>b. length (items b) = 1) (splitTraces sc td) \<and>
     list_all (\<lambda>b. length (points b) = 1) (splitMetrics pc md) \<and>
     concat (map (splitLogs lc) (splitLogs lc ld)) = splitLogs lc ld \<and>
     concat (map (splitTraces sc) (splitTraces sc td)) = splitTraces sc td \<and>
     concat (map (splitMetrics pc) (splitMetrics pc md)) = splitMetrics pc md"
proof -
  have "lc = (\<lambda>ld. length (items ld))" "sc = (\<lambda>td. length (items td))" "pc = (\<lambda>md. length (points md))"
    using assms by blast+
  then show ?thesis
    by (simp only: logs.conserves traces.conserves metrics.conserves metadata_points_fst splitMetrics_metadata logs.resplit traces.resplit metrics.resplit
        logs.all_single traces.all_single metrics.all_single simp_thms)
qed

definition example_metric :: "nat Metric" where
  "example_metric = \<lparr>m_Name = ''cpu'', m_Description = ''d'', m_Unit = ''s'', m_Metadata = [(''k'', ''v'')],
     m_Data = MetricTypeSum Delta True [7, 8]\<rparr>"

definition example_batch :: "'e list \<Rightarrow> (string, string, 'e) batch" where
  "example_batch es = [\<lparr>re_Resource = ''r'', re_SchemaUrl = ''u'',
     re_Scopes = [\<lparr>se_Scope = ''s'', se_SchemaUrl = ''v'', se_Items = es\<rparr>]\<rparr>]"

theorem unbatch_conserves_witness:
  "splitLogs (\<lambda>ld. length (items ld)) (example_batch [1::nat, 2]) = [example_batch [1], example_batch [2]] \<and>
   concat (map points (splitMetrics (\<lambda>md. length (points md)) (example_batch [example_metric]))) =
     [(((''r'', ''u''), ''s'', ''v''), ''cpu'', ''d'', ''s'', MetricTypeSum Delta True [7]),
      (((''r'', ''u''), ''s'', ''v''), ''cpu'', ''d'', ''s'', MetricTypeSum Delta True [8])] \<and>
   map snd (metadata_points (example_batch [example_metric])) = [[(''k'', ''v'')], [(''k'', ''v'')]] \<and>
   map snd (concat (map metadata_points (splitMetrics (\<lambda>md. length (points md)) (example_batch [example_metric])))) = [[], []]"
proof (intro conjI)
  show "splitLogs (\<lambda>ld. length (items ld)) (example_batch [1::nat, 2]) = [example_batch [1], example_batch [2]]"
    by code_simp
  show "map snd (metadata_points (example_batch [example_metric])) = [[(''k'', ''v'')], [(''k'', ''v'')]]" by code_simp
  have p: "points (example_batch [example_metric]) =
     [(((''r'', ''u''), ''s'', ''v''), ''cpu'', ''d'', ''s'', MetricTypeSum Delta True [7]),
      (((''r'', ''u''), ''s'', ''v''), ''cpu'', ''d'', ''s'', MetricTypeSum Delta True [8])]" by code_simp
  with unbatch_conserves [where lc = "\<lambda>ld. length (items ld)" and sc = "\<lambda>td. length (items td)" and
      pc = "\<lambda>md. length (points md)" and md = "example_batch [example_metric]",
      THEN conjunct2, THEN conjunct2, THEN conjunct1]
  show "concat (map points (splitMetrics (\<lambda>md. length (points md)) (example_batch [example_metric]))) =
     [(((''r'', ''u''), ''s'', ''v''), ''cpu'', ''d'', ''s'', MetricTypeSum Delta True [7]),
      (((''r'', ''u''), ''s'', ''v''), ''cpu'', ''d'', ''s'', MetricTypeSum Delta True [8])]" by simp
  from unbatch_conserves [where lc = "\<lambda>ld. length (items ld)" and sc = "\<lambda>td. length (items td)" and
      pc = "\<lambda>md. length (points md)" and md = "example_batch [example_metric]",
      THEN conjunct2, THEN conjunct2, THEN conjunct2, THEN conjunct2, THEN conjunct1] p
  show "map snd (concat (map metadata_points (splitMetrics (\<lambda>md. length (points md)) (example_batch [example_metric])))) = [[], []]"
    by simp
qed

text \<open>
  Whatever the next consumer answers, the three \<open>Consume\<close> methods give it one record at a time, in the
  order of the batch: all of them when none is refused, and otherwise up to the first one refused,
  whose error is what the caller gets; nothing after it is sent. The counts of \<^verbatim>\<open>pdata\<close> are assumed
  to count records and points.
\<close>

theorem unbatch_forwards_in_order:
  assumes "\<And>ld. lc ld = length (items ld)" "\<And>td. sc td = length (items td)" "\<And>md. pc md = length (points md)"
  shows "delivered_in_order items refuse ld (ConsumeLogs lc (recording refuse) ld []) \<and>
    delivered_in_order items refuse' td (ConsumeTraces sc (recording refuse') td []) \<and>
    delivered_in_order points refuse'' md (ConsumeMetrics pc (recording refuse'') md [])"
proof -
  have "lc = (\<lambda>ld. length (items ld))" "sc = (\<lambda>td. length (items td))" "pc = (\<lambda>md. length (points md))"
    using assms by blast+
  then show ?thesis
    by (simp only: ConsumeLogs_def ConsumeTraces_def ConsumeMetrics_def
        logs.forward_delivers traces.forward_delivers metrics.forward_delivers simp_thms)
qed

theorem unbatch_forwards_in_order_witness:
  "ConsumeLogs (\<lambda>ld. length (items ld)) (recording (\<lambda>w b. if length w = 1 then Some ''full'' else None))
     (example_batch [1::nat, 2, 3]) [] = (Some ''full'', [example_batch [1], example_batch [2]]) \<and>
   delivered_in_order items (\<lambda>w b. if length w = 1 then Some ''full'' else None) (example_batch [1::nat, 2, 3])
     (Some ''full'', [example_batch [1], example_batch [2]])"
proof -
  have "ConsumeLogs (\<lambda>ld. length (items ld)) (recording (\<lambda>w b. if length w = 1 then Some ''full'' else None))
     (example_batch [1::nat, 2, 3]) [] = (Some ''full'', [example_batch [1], example_batch [2]])" by code_simp
  then show ?thesis
    using unbatch_forwards_in_order [where lc = "\<lambda>ld. length (items ld)" and sc = "\<lambda>td. length (items td)" and
      pc = "\<lambda>md. length (points md)" and refuse = "\<lambda>w b. if length w = 1 then Some ''full'' else None" and ld = "example_batch [1::nat, 2, 3]", THEN conjunct1]
    by simp
qed

end
