(* ===== verification/NatsExporter.thy ===== *)
theory NatsExporter
  imports Unbatch
begin

text \<open>
  The NATS exporter (\<^verbatim>\<open>exporter/natsexporter\<close>): its configuration, connection and publishing. The NATS
  client, the TLS loader and the OTLP marshalers are parameters; so is the lookup of a resource
  attribute with the conversion of its value to a string. A world \<open>'w\<close> stands for what publishing
  changes.
\<close>

section \<open>Configuration\<close>

text \<open>
  The errors of the two NATS components: those of the configuration, one of a library with its text,
  and \<^verbatim>\<open>fmt.Errorf("context: %w", err)\<close>, which wraps another error. \<open>ErrUnmarshal\<close> is the receiver's
  own wrapper.
\<close>

datatype nats_error =
    UrlNotSet
  | ConsumerNameNotSet
  | StreamNotSet
  | UnsupportedEncoding string string
  | SubjectNotSet string
  | LibError string
  | Wrapped string nats_error
  | ErrUnmarshal nats_error

record SignalConfig =
  sg_Subject :: string
  sg_Encoding :: string

definition encodingOTLPProto :: string where "encodingOTLPProto = ''otlp_proto''"
definition encodingOTLPJSON :: string where "encodingOTLPJSON = ''otlp_json''"

text \<open>The timeout, retry and queue settings are only handed to the collector's helper.\<close>

record ExporterConfig =
  ec_URL :: string
  ec_Stream :: string
  ec_CredentialsFile :: string
  ec_SubjectFromAttribute :: string
  ec_Logs :: SignalConfig
  ec_Metrics :: SignalConfig
  ec_Traces :: SignalConfig

definition exporter_signal_validate :: "SignalConfig \<Rightarrow> string \<Rightarrow> nats_error option" where
  "exporter_signal_validate c name =
     (if sg_Encoding c \<noteq> encodingOTLPProto \<and> sg_Encoding c \<noteq> encodingOTLPJSON
      then Some (UnsupportedEncoding name (sg_Encoding c))
      else if sg_Subject c = [] then Some (SubjectNotSet name)
      else None)"

definition exporter_Validate :: "ExporterConfig \<Rightarrow> nats_error option" where
  "exporter_Validate c =
     (if ec_URL c = [] then Some UrlNotSet
      else case exporter_signal_validate (ec_Logs c) ''logs'' of Some e \<Rightarrow> Some e
      | None \<Rightarrow> (case exporter_signal_validate (ec_Metrics c) ''metrics'' of Some e \<Rightarrow> Some e
      | None \<Rightarrow> (case exporter_signal_validate (ec_Traces c) ''traces'' of Some e \<Rightarrow> Some e
      | None \<Rightarrow> None)))"

definition exporter_createDefaultConfig :: ExporterConfig where
  "exporter_createDefaultConfig =
     \<lparr>ec_URL = [], ec_Stream = [], ec_CredentialsFile = [], ec_SubjectFromAttribute = [],
      ec_Logs = \<lparr>sg_Subject = ''otlp.logs'', sg_Encoding = encodingOTLPProto\<rparr>,
      ec_Metrics = \<lparr>sg_Subject = ''otlp.metrics'', sg_Encoding = encodingOTLPProto\<rparr>,
      ec_Traces = \<lparr>sg_Subject = ''otlp.traces'', sg_Encoding = encodingOTLPProto\<rparr>\<rparr>"

section \<open>Construction\<close>

datatype codec = ProtoCodec | JSONCodec

definition newLogsMarshaler :: "string \<Rightarrow> nats_error + codec" where
  "newLogsMarshaler encoding =
     (if encoding = encodingOTLPProto then Inr ProtoCodec
      else if encoding = encodingOTLPJSON then Inr JSONCodec
      else Inl (UnsupportedEncoding ''logs'' encoding))"

definition newMetricsMarshaler :: "string \<Rightarrow> nats_error + codec" where
  "newMetricsMarshaler encoding =
     (if encoding = encodingOTLPProto then Inr ProtoCodec
      else if encoding = encodingOTLPJSON then Inr JSONCodec
      else Inl (UnsupportedEncoding ''metrics'' encoding))"

definition newTracesMarshaler :: "string \<Rightarrow> nats_error + codec" where
  "newTracesMarshaler encoding =
     (if encoding = encodingOTLPProto then Inr ProtoCodec
      else if encoding = encodingOTLPJSON then Inr JSONCodec
      else Inl (UnsupportedEncoding ''traces'' encoding))"

record ('c, 'j) natsExporter =
  ne_logsMarshaler :: codec
  ne_metricsMarshaler :: codec
  ne_tracesMarshaler :: codec
  ne_conn :: "'c option"
  ne_js :: "'j option"

definition newExporter :: "ExporterConfig \<Rightarrow> nats_error + ('c, 'j) natsExporter" where
  "newExporter cfg =
     res_bind (newLogsMarshaler (sg_Encoding (ec_Logs cfg))) (\<lambda>lm.
     res_bind (newMetricsMarshaler (sg_Encoding (ec_Metrics cfg))) (\<lambda>mm.
     res_bind (newTracesMarshaler (sg_Encoding (ec_Traces cfg))) (\<lambda>tm.
       Inr \<lparr>ne_logsMarshaler = lm, ne_metricsMarshaler = mm, ne_tracesMarshaler = tm, ne_conn = None, ne_js = None\<rparr>)))"

section \<open>Connection\<close>

datatype 'tls nats_option = Name string | UserCredentials string | Secure 'tls

text \<open>What the exporter calls of the client to connect, and the calls that end a connection.\<close>

record ('c, 'j, 'tls) NatsClient =
  nc_LoadTLSConfig :: "nats_error + 'tls option"
  nc_Connect :: "string \<Rightarrow> 'tls nats_option list \<Rightarrow> nats_error + 'c"
  nc_JetStream_New :: "'c \<Rightarrow> nats_error + 'j"
  nc_Drain :: "'c \<Rightarrow> nats_error option"

datatype 'c conn_call = ConnClose 'c | ConnDrain 'c

definition connect_options :: "string \<Rightarrow> string \<Rightarrow> 'tls option \<Rightarrow> 'tls nats_option list" where
  "connect_options ident creds tls =
     [Name ident] @ (if creds \<noteq> [] then [UserCredentials creds] else []) @ (case tls of None \<Rightarrow> [] | Some t \<Rightarrow> [Secure t])"

definition exporter_startJetStream ::
  "('c, 'j, 'tls) NatsClient \<Rightarrow> 'c \<Rightarrow> ('c, 'j) natsExporter \<Rightarrow> nats_error option \<times> ('c, 'j) natsExporter \<times> 'c conn_call list" where
  "exporter_startJetStream cli conn e =
     (case nc_JetStream_New cli conn of
        Inl err \<Rightarrow> (Some (Wrapped ''creating jetstream context'' err), e, [ConnClose conn])
      | Inr js \<Rightarrow> (None, e\<lparr>ne_js := Some js\<rparr>, []))"

definition exporter_start ::
  "('c, 'j, 'tls) NatsClient \<Rightarrow> string \<Rightarrow> ExporterConfig \<Rightarrow> ('c, 'j) natsExporter \<Rightarrow>
   nats_error option \<times> ('c, 'j) natsExporter \<times> 'c conn_call list" where
  "exporter_start cli ident cfg e =
     (case nc_LoadTLSConfig cli of
        Inl err \<Rightarrow> (Some (Wrapped ''loading tls config'' err), e, [])
      | Inr tls \<Rightarrow>
          (case nc_Connect cli (ec_URL cfg) (connect_options ident (ec_CredentialsFile cfg) tls) of
             Inl err \<Rightarrow> (Some (Wrapped ''connecting to nats'' err), e, [])
           | Inr conn \<Rightarrow>
               let e' = e\<lparr>ne_conn := Some conn\<rparr> in
               if ec_Stream cfg = [] then (None, e', []) else exporter_startJetStream cli conn e'))"

definition exporter_shutdown :: "('c, 'j, 'tls) NatsClient \<Rightarrow> ('c, 'j) natsExporter \<Rightarrow> nats_error option \<times> 'c conn_call list" where
  "exporter_shutdown cli e =
     (case ne_conn e of None \<Rightarrow> (None, []) | Some c \<Rightarrow> (nc_Drain cli c, [ConnDrain c]))"

section \<open>Publishing\<close>

definition subjectFor :: "('re \<Rightarrow> string \<Rightarrow> string option) \<Rightarrow> ExporterConfig \<Rightarrow> SignalConfig \<Rightarrow> 're \<Rightarrow> string" where
  "subjectFor attr cfg signal res =
     (if ec_SubjectFromAttribute cfg \<noteq> []
      then (case attr res (ec_SubjectFromAttribute cfg) of Some v \<Rightarrow> v | None \<Rightarrow> sg_Subject signal)
      else sg_Subject signal)"

record ('c, 'j, 'w) Publishers =
  pb_js :: "'j \<Rightarrow> string \<Rightarrow> string \<Rightarrow> 'w \<Rightarrow> nats_error option \<times> 'w"
  pb_conn :: "'c option \<Rightarrow> string \<Rightarrow> string \<Rightarrow> 'w \<Rightarrow> nats_error option \<times> 'w"

definition publish ::
  "('c, 'j, 'w) Publishers \<Rightarrow> ('c, 'j) natsExporter \<Rightarrow> string \<Rightarrow> string \<Rightarrow> 'w \<Rightarrow> nats_error option \<times> 'w" where
  "publish pb e subject payload w =
     (case ne_js e of Some js \<Rightarrow> pb_js pb js subject payload w | None \<Rightarrow> pb_conn pb (ne_conn e) subject payload w)"

text \<open>The subject of a batch: that of its first resource.\<close>

definition batch_subject ::
  "('re \<Rightarrow> string \<Rightarrow> string option) \<Rightarrow> ExporterConfig \<Rightarrow> SignalConfig \<Rightarrow> ('re, 'sc, 'e) batch \<Rightarrow> string" where
  "batch_subject attr cfg signal b =
     (case b of [] \<Rightarrow> sg_Subject signal | r # _ \<Rightarrow> subjectFor attr cfg signal (re_Resource r))"

definition pushLogs ::
  "('re \<Rightarrow> string \<Rightarrow> string option) \<Rightarrow> (codec \<Rightarrow> ('re, 'sc, 'lr) batch \<Rightarrow> nats_error + string) \<Rightarrow> ('c, 'j, 'w) Publishers \<Rightarrow>
   ExporterConfig \<Rightarrow> ('c, 'j) natsExporter \<Rightarrow> (('re, 'sc, 'lr) batch, 'w, nats_error) consumer" where
  "pushLogs attr marshal pb cfg e ld w =
     (case marshal (ne_logsMarshaler e) ld of
        Inl err \<Rightarrow> (Some (Wrapped ''marshaling logs'' err), w)
      | Inr payload \<Rightarrow> publish pb e (batch_subject attr cfg (ec_Logs cfg) ld) payload w)"

definition pushMetrics ::
  "('re \<Rightarrow> string \<Rightarrow> string option) \<Rightarrow> (codec \<Rightarrow> ('re, 'sc, 'dp Metric) batch \<Rightarrow> nats_error + string) \<Rightarrow> ('c, 'j, 'w) Publishers \<Rightarrow>
   ExporterConfig \<Rightarrow> ('c, 'j) natsExporter \<Rightarrow> (('re, 'sc, 'dp Metric) batch, 'w, nats_error) consumer" where
  "pushMetrics attr marshal pb cfg e md w =
     (case marshal (ne_metricsMarshaler e) md of
        Inl err \<Rightarrow> (Some (Wrapped ''marshaling metrics'' err), w)
      | Inr payload \<Rightarrow> publish pb e (batch_subject attr cfg (ec_Metrics cfg) md) payload w)"

definition pushTraces ::
  "('re \<Rightarrow> string \<Rightarrow> string option) \<Rightarrow> (codec \<Rightarrow> ('re, 'sc, 'span) batch \<Rightarrow> nats_error + string) \<Rightarrow> ('c, 'j, 'w) Publishers \<Rightarrow>
   ExporterConfig \<Rightarrow> ('c, 'j) natsExporter \<Rightarrow> (('re, 'sc, 'span) batch, 'w, nats_error) consumer" where
  "pushTraces attr marshal pb cfg e td w =
     (case marshal (ne_tracesMarshaler e) td of
        Inl err \<Rightarrow> (Some (Wrapped ''marshaling traces'' err), w)
      | Inr payload \<Rightarrow> publish pb e (batch_subject attr cfg (ec_Traces cfg) td) payload w)"

section \<open>Lemmas\<close>

definition valid_signal :: "SignalConfig \<Rightarrow> bool" where
  "valid_signal c \<longleftrightarrow> sg_Encoding c \<in> {encodingOTLPProto, encodingOTLPJSON} \<and> sg_Subject c \<noteq> []"

definition codec_of :: "string \<Rightarrow> codec" where
  "codec_of enc = (if enc = encodingOTLPProto then ProtoCodec else JSONCodec)"

lemma exporter_signal_validate_None: "exporter_signal_validate c name = None \<longleftrightarrow> valid_signal c"
  by (auto simp: exporter_signal_validate_def valid_signal_def)

lemma exporter_Validate_None:
  "exporter_Validate c = None \<longleftrightarrow> ec_URL c \<noteq> [] \<and> valid_signal (ec_Logs c) \<and> valid_signal (ec_Metrics c) \<and> valid_signal (ec_Traces c)"
  using exporter_signal_validate_None [of "ec_Logs c" "''logs''"] exporter_signal_validate_None [of "ec_Metrics c" "''metrics''"]
    exporter_signal_validate_None [of "ec_Traces c" "''traces''"]
  by (auto simp: exporter_Validate_def split: option.split)

lemma encodings_differ [simp]: "encodingOTLPJSON \<noteq> encodingOTLPProto"
  by (simp add: encodingOTLPJSON_def encodingOTLPProto_def)

lemma newMarshaler_valid:
  "valid_signal c \<Longrightarrow> newLogsMarshaler (sg_Encoding c) = Inr (codec_of (sg_Encoding c))"
  "valid_signal c \<Longrightarrow> newMetricsMarshaler (sg_Encoding c) = Inr (codec_of (sg_Encoding c))"
  "valid_signal c \<Longrightarrow> newTracesMarshaler (sg_Encoding c) = Inr (codec_of (sg_Encoding c))"
  by (auto simp: valid_signal_def codec_of_def newLogsMarshaler_def newMetricsMarshaler_def newTracesMarshaler_def)

lemma newExporter_valid:
  "exporter_Validate cfg = None \<Longrightarrow>
     newExporter cfg = Inr \<lparr>ne_logsMarshaler = codec_of (sg_Encoding (ec_Logs cfg)),
       ne_metricsMarshaler = codec_of (sg_Encoding (ec_Metrics cfg)),
       ne_tracesMarshaler = codec_of (sg_Encoding (ec_Traces cfg)), ne_conn = None, ne_js = None\<rparr>"
  by (simp add: exporter_Validate_None newExporter_def newMarshaler_valid)

text \<open>
  A batch whose first resource entry is not empty. The subject of such a batch is that of the resource
  of its first record, or point.
\<close>

definition leading_item :: "('re, 'sc, 'e) batch \<Rightarrow> bool" where
  "leading_item b \<longleftrightarrow> (case b of [] \<Rightarrow> False | r # _ \<Rightarrow> entry_items r \<noteq> [])"

definition leading_point :: "('re, 'sc, 'dp Metric) batch \<Rightarrow> bool" where
  "leading_point b \<longleftrightarrow> (case b of [] \<Rightarrow> False | r # _ \<Rightarrow> points [r] \<noteq> [])"

abbreviation item_resource :: "('re, 'sc) origin \<times> 'x \<Rightarrow> 're" where
  "item_resource x \<equiv> fst (fst (fst x))"

text \<open>
  The resource a record is routed by once its batch has been unbatched: its own, but that of the first
  entry when the batch holds no other record and is therefore passed on as it is.
\<close>

definition routing_resource :: "nat \<Rightarrow> ('re, 'sc, 'e) batch \<Rightarrow> ('re, 'sc) origin \<times> 'x \<Rightarrow> 're" where
  "routing_resource n b x = (if n = 1 then re_Resource (hd b) else item_resource x)"

lemma batch_subject_item:
  assumes "leading_item b"
  shows "batch_subject attr cfg signal b = subjectFor attr cfg signal (item_resource (hd (items b)))"
proof -
  obtain r rs where r: "b = r # rs" "entry_items r \<noteq> []"
    using assms by (auto simp: leading_item_def split: list.splits)
  then have "hd (items b) \<in> set (entry_items r)" by simp
  then have "item_resource (hd (items b)) = re_Resource r" by (auto simp: entry_items_def)
  then show ?thesis by (simp add: batch_subject_def r(1))
qed

lemma points_origin: "x \<in> set (points [r]) \<Longrightarrow> item_resource x = re_Resource r"
  by (auto simp: points_def points_of_def entry_items_def)

lemma batch_subject_point:
  assumes "leading_point b"
  shows "batch_subject attr cfg signal b = subjectFor attr cfg signal (item_resource (hd (points b)))"
proof -
  obtain r rs where r: "b = r # rs" "points [r] \<noteq> []"
    using assms by (auto simp: leading_point_def split: list.splits)
  moreover have "points (r # rs) = points [r] @ points rs" using points_simps(2) [of "[r]" rs] by simp
  ultimately have "hd (points b) \<in> set (points [r])" by (metis hd_append hd_in_set)
  then show ?thesis by (simp add: batch_subject_def r(1) points_origin)
qed

lemma item_batches_leading: "b \<in> set (item_batches ld) \<Longrightarrow> leading_item b"
  by (auto simp: item_batches_def leading_item_def single_item_def entry_items_def)

lemma point_batches_leading: "b \<in> set (point_batches md) \<Longrightarrow> leading_point b"
proof -
  assume b: "b \<in> set (point_batches md)"
  then obtain r where "b = [r]"
    by (auto simp: point_batches_def explodeMetric_points newMetricContainer_def single_item_def)
  moreover have "points b \<noteq> []" using point_batches_single [OF b] by auto
  ultimately show ?thesis by (simp add: leading_point_def)
qed

lemma routing_resource_own:
  "x \<in> set (items b) \<Longrightarrow> routing_resource (length (items b)) b x \<noteq> item_resource x \<Longrightarrow> length (items b) = 1 \<and> \<not> leading_item b"
  "y \<in> set (points c) \<Longrightarrow> routing_resource (length (points c)) c y \<noteq> item_resource y \<Longrightarrow> length (points c) = 1 \<and> \<not> leading_point c"
proof -
  have "re_Resource (hd b) = item_resource x" if i: "items b = [x]" and l: "leading_item b" for x
  proof -
    obtain r rs where r: "b = r # rs" "entry_items r \<noteq> []" using l by (auto simp: leading_item_def split: list.splits)
    then have "x \<in> set (entry_items r)" using i by (cases "entry_items r") auto
    then show ?thesis by (auto simp: entry_items_def r(1))
  qed
  then show "x \<in> set (items b) \<Longrightarrow> routing_resource (length (items b)) b x \<noteq> item_resource x \<Longrightarrow> length (items b) = 1 \<and> \<not> leading_item b"
    by (auto simp: routing_resource_def length_Suc_conv split: if_splits)
  have "re_Resource (hd c) = item_resource y" if i: "points c = [y]" and l: "leading_point c" for y
  proof -
    obtain r rs where r: "c = r # rs" "points [r] \<noteq> []" using l by (auto simp: leading_point_def split: list.splits)
    then have "y \<in> set (points [r])" using i points_simps(2) [of "[r]" rs] by (cases "points [r]") auto
    then show ?thesis using points_origin [of y r] by (simp add: r(1))
  qed
  then show "y \<in> set (points c) \<Longrightarrow> routing_resource (length (points c)) c y \<noteq> item_resource y \<Longrightarrow> length (points c) = 1 \<and> \<not> leading_point c"
    by (auto simp: routing_resource_def length_Suc_conv split: if_splits)
qed

lemma batch_subject_hd: "b \<noteq> [] \<Longrightarrow> batch_subject attr cfg signal b = subjectFor attr cfg signal (re_Resource (hd b))"
  by (cases b) (simp_all add: batch_subject_def)

lemma split_subject:
  "b \<in> set (splitLogs (\<lambda>ld. length (items ld)) ld) \<Longrightarrow>
     batch_subject attr cfg signal b = subjectFor attr cfg signal (routing_resource (length (items ld)) ld (hd (items b)))"
  "b \<in> set (splitTraces (\<lambda>td. length (items td)) td) \<Longrightarrow>
     batch_subject attr cfg signal b = subjectFor attr cfg signal (routing_resource (length (items td)) td (hd (items b)))"
  "b' \<in> set (splitMetrics (\<lambda>md. length (points md)) md) \<Longrightarrow>
     batch_subject attr cfg signal b' = subjectFor attr cfg signal (routing_resource (length (points md)) md (hd (points b')))"
  by (auto simp: splitLogs_items splitTraces_items splitMetrics_def point_batches_def [symmetric] routing_resource_def
      intro!: batch_subject_item batch_subject_point item_batches_leading point_batches_leading batch_subject_hd split: if_splits)

text \<open>Forwarding to a consumer that notes \<open>f b\<close> for every batch.\<close>

lemma forward_each_note:
  "(\<And>b w. b \<in> set bs \<Longrightarrow> nxt b w = (None, w @ [f b])) \<Longrightarrow> forward_each nxt bs w = (None, w @ map f bs)"
  by (induction bs arbitrary: w) auto

text \<open>A server that takes every message and keeps its subject and payload.\<close>

definition inbox :: "('c, 'j, (string \<times> string) list) Publishers" where
  "inbox = \<lparr>pb_js = (\<lambda>j s p w. (None, w @ [(s, p)])), pb_conn = (\<lambda>c s p w. (None, w @ [(s, p)]))\<rparr>"

lemma publish_inbox [simp]: "publish inbox e s p w = (None, w @ [(s, p)])"
  by (simp add: publish_def inbox_def split: option.split)

text \<open>
  Behind the unbatch processor the exporter routes every record on its own: each log record, span or data
  point of a batch, whatever resources the batch mixes, is published in one message of its own, in order,
  on the subject of the resource it is routed by (the value of the configured attribute where the resource
  has it, the signal's subject otherwise).
\<close>

lemma unbatched_published:
  assumes "\<And>c b. ml c b = Inr (el c b)" "\<And>c b. mt c b = Inr (et c b)" "\<And>c b. mm c b = Inr (em c b)"
  shows "ConsumeLogs (\<lambda>ld. length (items ld)) (pushLogs attr ml inbox cfg e) ld [] =
      (None, map (\<lambda>b. (subjectFor attr cfg (ec_Logs cfg) (routing_resource (length (items ld)) ld (hd (items b))), el (ne_logsMarshaler e) b))
        (splitLogs (\<lambda>ld. length (items ld)) ld)) \<and>
    ConsumeTraces (\<lambda>td. length (items td)) (pushTraces attr mt inbox cfg e) td [] =
      (None, map (\<lambda>b. (subjectFor attr cfg (ec_Traces cfg) (routing_resource (length (items td)) td (hd (items b))), et (ne_tracesMarshaler e) b))
        (splitTraces (\<lambda>td. length (items td)) td)) \<and>
    ConsumeMetrics (\<lambda>md. length (points md)) (pushMetrics attr mm inbox cfg e) md [] =
      (None, map (\<lambda>b. (subjectFor attr cfg (ec_Metrics cfg) (routing_resource (length (points md)) md (hd (points b))), em (ne_metricsMarshaler e) b))
        (splitMetrics (\<lambda>md. length (points md)) md))"
proof -
  have l: "pushLogs attr ml inbox cfg e b w =
      (None, w @ [(subjectFor attr cfg (ec_Logs cfg) (routing_resource (length (items ld)) ld (hd (items b))), el (ne_logsMarshaler e) b)])"
    if "b \<in> set (splitLogs (\<lambda>ld. length (items ld)) ld)" for b w
    by (simp add: pushLogs_def assms(1) split_subject(1) [OF that])
  have t: "pushTraces attr mt inbox cfg e b w =
      (None, w @ [(subjectFor attr cfg (ec_Traces cfg) (routing_resource (length (items td)) td (hd (items b))), et (ne_tracesMarshaler e) b)])"
    if "b \<in> set (splitTraces (\<lambda>td. length (items td)) td)" for b w
    by (simp add: pushTraces_def assms(2) split_subject(2) [OF that])
  have m: "pushMetrics attr mm inbox cfg e b w =
      (None, w @ [(subjectFor attr cfg (ec_Metrics cfg) (routing_resource (length (points md)) md (hd (points b))), em (ne_metricsMarshaler e) b)])"
    if "b \<in> set (splitMetrics (\<lambda>md. length (points md)) md)" for b w
    by (simp add: pushMetrics_def assms(3) split_subject(3) [OF that])
  show ?thesis
    by (simp add: ConsumeLogs_def ConsumeTraces_def ConsumeMetrics_def forward_each_note [OF l]
        forward_each_note [OF t] forward_each_note [OF m])
qed

end
