(* ===== verification/NatsReceiver.thy ===== *)
theory NatsReceiver
  imports Numbers NatsExporter "HOL-Library.Multiset"
begin

text \<open>
  The NATS receiver (\<^verbatim>\<open>receiver/natsreceiver\<close>): its configuration, the connection and subscription it
  opens and closes, and the handling of a message with its acknowledgement. The NATS client, the
  unmarshalers, the metric instruments and the next consumer are parameters. A message queue that
  hands out what has not been acknowledged, as JetStream documents it, is the step relation at the end.
\<close>

section \<open>Configuration\<close>

record ReceiverConfig =
  rc_URL :: string
  rc_Stream :: string
  rc_ConsumerName :: string
  rc_CredentialsFile :: string
  rc_Logs :: SignalConfig
  rc_Metrics :: SignalConfig
  rc_Traces :: SignalConfig

definition receiver_signal_validate :: "SignalConfig \<Rightarrow> string \<Rightarrow> nats_error option" where
  "receiver_signal_validate c name =
     (if sg_Encoding c \<noteq> encodingOTLPProto \<and> sg_Encoding c \<noteq> encodingOTLPJSON
      then Some (UnsupportedEncoding name (sg_Encoding c))
      else if sg_Subject c = [] then Some (SubjectNotSet name)
      else None)"

definition receiver_Validate :: "ReceiverConfig \<Rightarrow> nats_error option" where
  "receiver_Validate c =
     (if rc_URL c = [] then Some UrlNotSet
      else if rc_Stream c \<noteq> [] \<and> rc_ConsumerName c = [] then Some ConsumerNameNotSet
      else if rc_Stream c = [] \<and> rc_ConsumerName c \<noteq> [] then Some StreamNotSet
      else case receiver_signal_validate (rc_Logs c) ''logs'' of Some e \<Rightarrow> Some e
      | None \<Rightarrow> (case receiver_signal_validate (rc_Metrics c) ''metrics'' of Some e \<Rightarrow> Some e
      | None \<Rightarrow> receiver_signal_validate (rc_Traces c) ''traces''))"

definition receiver_createDefaultConfig :: ReceiverConfig where
  "receiver_createDefaultConfig =
     \<lparr>rc_URL = [], rc_Stream = [], rc_ConsumerName = [], rc_CredentialsFile = [],
      rc_Logs = \<lparr>sg_Subject = [], sg_Encoding = encodingOTLPProto\<rparr>,
      rc_Metrics = \<lparr>sg_Subject = [], sg_Encoding = encodingOTLPProto\<rparr>,
      rc_Traces = \<lparr>sg_Subject = [], sg_Encoding = encodingOTLPProto\<rparr>\<rparr>"

section \<open>Construction\<close>

definition newLogsUnmarshaler :: "string \<Rightarrow> nats_error + codec" where
  "newLogsUnmarshaler encoding =
     (if encoding = encodingOTLPProto then Inr ProtoCodec
      else if encoding = encodingOTLPJSON then Inr JSONCodec
      else Inl (UnsupportedEncoding ''logs'' encoding))"

definition newMetricsUnmarshaler :: "string \<Rightarrow> nats_error + codec" where
  "newMetricsUnmarshaler encoding =
     (if encoding = encodingOTLPProto then Inr ProtoCodec
      else if encoding = encodingOTLPJSON then Inr JSONCodec
      else Inl (UnsupportedEncoding ''metrics'' encoding))"

definition newTracesUnmarshaler :: "string \<Rightarrow> nats_error + codec" where
  "newTracesUnmarshaler encoding =
     (if encoding = encodingOTLPProto then Inr ProtoCodec
      else if encoding = encodingOTLPJSON then Inr JSONCodec
      else Inl (UnsupportedEncoding ''traces'' encoding))"

text \<open>
  The calls to the collector's reporter: an operation starts, and ends with the encoding, the number of
  records and the error. The world of a delivery is these calls and the world of the next consumer.
\<close>

datatype obs_call = StartOp | EndOp string nat "nats_error option"

type_synonym 'w rworld = "obs_call list \<times> 'w"

type_synonym 'w deliverer = "string \<Rightarrow> 'w rworld \<Rightarrow> nats_error option \<times> 'w rworld"

definition deliverLogs ::
  "(string \<Rightarrow> nats_error + ('re, 'sc, 'lr) batch) \<Rightarrow> string \<Rightarrow> (('re, 'sc, 'lr) batch \<Rightarrow> nat) \<Rightarrow>
   (('re, 'sc, 'lr) batch, 'w, nats_error) consumer \<Rightarrow> 'w deliverer" where
  "deliverLogs unmarshal encoding LogRecordCount nxt payload rw =
     (case unmarshal payload of
        Inl err \<Rightarrow> (Some (ErrUnmarshal err), (fst rw @ [StartOp, EndOp encoding 0 (Some err)], snd rw))
      | Inr logs \<Rightarrow>
          let n = LogRecordCount logs; r = nxt logs (snd rw) in
          (fst r, (fst rw @ [StartOp, EndOp encoding n (fst r)], snd r)))"

definition deliverMetrics ::
  "(string \<Rightarrow> nats_error + ('re, 'sc, 'dp Metric) batch) \<Rightarrow> string \<Rightarrow> (('re, 'sc, 'dp Metric) batch \<Rightarrow> nat) \<Rightarrow>
   (('re, 'sc, 'dp Metric) batch, 'w, nats_error) consumer \<Rightarrow> 'w deliverer" where
  "deliverMetrics unmarshal encoding DataPointCount nxt payload rw =
     (case unmarshal payload of
        Inl err \<Rightarrow> (Some (ErrUnmarshal err), (fst rw @ [StartOp, EndOp encoding 0 (Some err)], snd rw))
      | Inr metrics \<Rightarrow>
          let n = DataPointCount metrics; r = nxt metrics (snd rw) in
          (fst r, (fst rw @ [StartOp, EndOp encoding n (fst r)], snd r)))"

definition deliverTraces ::
  "(string \<Rightarrow> nats_error + ('re, 'sc, 'span) batch) \<Rightarrow> string \<Rightarrow> (('re, 'sc, 'span) batch \<Rightarrow> nat) \<Rightarrow>
   (('re, 'sc, 'span) batch, 'w, nats_error) consumer \<Rightarrow> 'w deliverer" where
  "deliverTraces unmarshal encoding SpanCount nxt payload rw =
     (case unmarshal payload of
        Inl err \<Rightarrow> (Some (ErrUnmarshal err), (fst rw @ [StartOp, EndOp encoding 0 (Some err)], snd rw))
      | Inr traces \<Rightarrow>
          let n = SpanCount traces; r = nxt traces (snd rw) in
          (fst r, (fst rw @ [StartOp, EndOp encoding n (fst r)], snd r)))"

text \<open>
  The receiver: its signal and delivery function, and what \<^verbatim>\<open>Start\<close> opens. \<open>'c\<close> is a connection, \<open>'x\<close> a
  running consume, \<open>'s\<close> a subscription. Times are Unix nanoseconds.
\<close>

record ('c, 'x, 's, 'w) natsReceiver =
  nr_signal :: SignalConfig
  nr_deliverPayload :: "'w deliverer"
  nr_conn :: "'c option"
  nr_consumeCtx :: "'x option"
  nr_coreNATSSub :: "'s option"
  nr_lastDelivery :: int
  nr_resubscribeCount :: nat

definition new_receiver :: "SignalConfig \<Rightarrow> 'w deliverer \<Rightarrow> ('c, 'x, 's, 'w) natsReceiver" where
  "new_receiver signal d =
     \<lparr>nr_signal = signal, nr_deliverPayload = d, nr_conn = None, nr_consumeCtx = None, nr_coreNATSSub = None,
      nr_lastDelivery = 0, nr_resubscribeCount = 0\<rparr>"

definition newLogsReceiver ::
  "nats_error option \<Rightarrow> (codec \<Rightarrow> string \<Rightarrow> nats_error + ('re, 'sc, 'lr) batch) \<Rightarrow> (('re, 'sc, 'lr) batch \<Rightarrow> nat) \<Rightarrow>
   ReceiverConfig \<Rightarrow> (('re, 'sc, 'lr) batch, 'w, nats_error) consumer \<Rightarrow> nats_error + ('c, 'x, 's, 'w) natsReceiver" where
  "newLogsReceiver obs_err unmarshal LogRecordCount cfg nxt =
     res_bind (newLogsUnmarshaler (sg_Encoding (rc_Logs cfg))) (\<lambda>codec.
       case obs_err of Some e \<Rightarrow> Inl e
       | None \<Rightarrow> Inr (new_receiver (rc_Logs cfg) (deliverLogs (unmarshal codec) (sg_Encoding (rc_Logs cfg)) LogRecordCount nxt)))"

definition newMetricsReceiver ::
  "nats_error option \<Rightarrow> (codec \<Rightarrow> string \<Rightarrow> nats_error + ('re, 'sc, 'dp Metric) batch) \<Rightarrow> (('re, 'sc, 'dp Metric) batch \<Rightarrow> nat) \<Rightarrow>
   ReceiverConfig \<Rightarrow> (('re, 'sc, 'dp Metric) batch, 'w, nats_error) consumer \<Rightarrow> nats_error + ('c, 'x, 's, 'w) natsReceiver" where
  "newMetricsReceiver obs_err unmarshal DataPointCount cfg nxt =
     res_bind (newMetricsUnmarshaler (sg_Encoding (rc_Metrics cfg))) (\<lambda>codec.
       case obs_err of Some e \<Rightarrow> Inl e
       | None \<Rightarrow> Inr (new_receiver (rc_Metrics cfg)
           (deliverMetrics (unmarshal codec) (sg_Encoding (rc_Metrics cfg)) DataPointCount nxt)))"

definition newTracesReceiver ::
  "nats_error option \<Rightarrow> (codec \<Rightarrow> string \<Rightarrow> nats_error + ('re, 'sc, 'span) batch) \<Rightarrow> (('re, 'sc, 'span) batch \<Rightarrow> nat) \<Rightarrow>
   ReceiverConfig \<Rightarrow> (('re, 'sc, 'span) batch, 'w, nats_error) consumer \<Rightarrow> nats_error + ('c, 'x, 's, 'w) natsReceiver" where
  "newTracesReceiver obs_err unmarshal SpanCount cfg nxt =
     res_bind (newTracesUnmarshaler (sg_Encoding (rc_Traces cfg))) (\<lambda>codec.
       case obs_err of Some e \<Rightarrow> Inl e
       | None \<Rightarrow> Inr (new_receiver (rc_Traces cfg) (deliverTraces (unmarshal codec) (sg_Encoding (rc_Traces cfg)) SpanCount nxt)))"

section \<open>Starting and stopping\<close>

record ('c, 'j, 'k, 'x, 's, 'tls) ReceiverClient =
  rn_Gauge :: "nats_error option"
  rn_Counter :: "nats_error option"
  rn_LoadTLSConfig :: "nats_error + 'tls option"
  rn_Connect :: "string \<Rightarrow> 'tls nats_option list \<Rightarrow> nats_error + 'c"
  rn_Subscribe :: "'c \<Rightarrow> string \<Rightarrow> nats_error + 's"
  rn_JetStream_New :: "'c \<Rightarrow> nats_error + 'j"
  rn_Consumer :: "'j \<Rightarrow> string \<Rightarrow> string \<Rightarrow> nats_error + 'k"
  rn_Consume :: "'k \<Rightarrow> nats_error + 'x"
  rn_Drain :: "'c \<Rightarrow> nats_error option"

datatype ('c, 'x, 's) client_call = CallClose 'c | CallStop 'x | CallUnsubscribe 's | CallDrain 'c

definition receiver_startCoreNATS ::
  "('c, 'j, 'k, 'x, 's, 'tls) ReceiverClient \<Rightarrow> 'c \<Rightarrow> ('c, 'x, 's, 'w) natsReceiver \<Rightarrow>
   nats_error option \<times> ('c, 'x, 's, 'w) natsReceiver \<times> ('c, 'x, 's) client_call list" where
  "receiver_startCoreNATS cli conn r =
     (case rn_Subscribe cli conn (sg_Subject (nr_signal r)) of
        Inl err \<Rightarrow> (Some (Wrapped ''subscribing'' err), r, [CallClose conn])
      | Inr sub \<Rightarrow> (None, r\<lparr>nr_coreNATSSub := Some sub\<rparr>, []))"

definition receiver_startJetStream ::
  "('c, 'j, 'k, 'x, 's, 'tls) ReceiverClient \<Rightarrow> ReceiverConfig \<Rightarrow> 'c \<Rightarrow> ('c, 'x, 's, 'w) natsReceiver \<Rightarrow>
   nats_error option \<times> ('c, 'x, 's, 'w) natsReceiver \<times> ('c, 'x, 's) client_call list" where
  "receiver_startJetStream cli cfg conn r =
     (case rn_JetStream_New cli conn of
        Inl err \<Rightarrow> (Some (Wrapped ''creating jetstream context'' err), r, [CallClose conn])
      | Inr js \<Rightarrow>
          (case rn_Consumer cli js (rc_Stream cfg) (rc_ConsumerName cfg) of
             Inl err \<Rightarrow> (Some (Wrapped ''binding to consumer'' err), r, [CallClose conn])
           | Inr cons \<Rightarrow>
               (case rn_Consume cli cons of
                  Inl err \<Rightarrow> (Some (Wrapped ''starting consume'' err), r, [CallClose conn])
                | Inr consumeCtx \<Rightarrow> (None, r\<lparr>nr_consumeCtx := Some consumeCtx\<rparr>, []))))"

definition receiver_Start ::
  "('c, 'j, 'k, 'x, 's, 'tls) ReceiverClient \<Rightarrow> string \<Rightarrow> ReceiverConfig \<Rightarrow> ('c, 'x, 's, 'w) natsReceiver \<Rightarrow>
   nats_error option \<times> ('c, 'x, 's, 'w) natsReceiver \<times> ('c, 'x, 's) client_call list" where
  "receiver_Start cli ident cfg r =
     (case rn_Gauge cli of Some err \<Rightarrow> (Some (Wrapped ''creating seconds_since_last_delivery gauge'' err), r, [])
      | None \<Rightarrow>
     (case rn_Counter cli of Some err \<Rightarrow> (Some (Wrapped ''creating resubscribe_total counter'' err), r, [])
      | None \<Rightarrow>
     (case rn_LoadTLSConfig cli of Inl err \<Rightarrow> (Some (Wrapped ''loading tls config'' err), r, [])
      | Inr tls \<Rightarrow>
     (case rn_Connect cli (rc_URL cfg) (connect_options ident (rc_CredentialsFile cfg) tls) of
        Inl err \<Rightarrow> (Some (Wrapped ''connecting to nats'' err), r, [])
      | Inr conn \<Rightarrow>
          let r' = r\<lparr>nr_conn := Some conn\<rparr> in
          if rc_Stream cfg = [] then receiver_startCoreNATS cli conn r'
          else receiver_startJetStream cli cfg conn r'))))"

definition receiver_Shutdown ::
  "('c, 'j, 'k, 'x, 's, 'tls) ReceiverClient \<Rightarrow> ('c, 'x, 's, 'w) natsReceiver \<Rightarrow>
   nats_error option \<times> ('c, 'x, 's) client_call list" where
  "receiver_Shutdown cli r =
     (let stop = (case nr_consumeCtx r of None \<Rightarrow> [] | Some x \<Rightarrow> [CallStop x]);
          unsub = (case nr_coreNATSSub r of None \<Rightarrow> [] | Some s \<Rightarrow> [CallUnsubscribe s]) in
      case nr_conn r of
        None \<Rightarrow> (None, stop @ unsub)
      | Some c \<Rightarrow> (rn_Drain cli c, stop @ unsub @ [CallDrain c]))"

text \<open>The handler of consume errors counts them, and the gauge reports the time since the last delivery.\<close>

definition on_consume_error :: "('c, 'x, 's, 'w) natsReceiver \<Rightarrow> ('c, 'x, 's, 'w) natsReceiver" where
  "on_consume_error r = r\<lparr>nr_resubscribeCount := nr_resubscribeCount r + 1\<rparr>"

definition since_last_delivery :: "int \<Rightarrow> ('c, 'x, 's, 'w) natsReceiver \<Rightarrow> int option" where
  "since_last_delivery now r = (if nr_lastDelivery r = 0 then None else Some (time_Sub now (nr_lastDelivery r)))"

section \<open>Handling a message\<close>

text \<open>\<^verbatim>\<open>errors.As\<close> for the receiver's own error: somewhere on the chain of wrapped errors.\<close>

fun as_errUnmarshal :: "nats_error \<Rightarrow> bool" where
  "as_errUnmarshal (ErrUnmarshal e) \<longleftrightarrow> True"
| "as_errUnmarshal (Wrapped c e) \<longleftrightarrow> as_errUnmarshal e"
| "as_errUnmarshal e \<longleftrightarrow> False"

definition deliver ::
  "int \<Rightarrow> ('c, 'x, 's, 'w) natsReceiver \<Rightarrow> string \<Rightarrow> 'w rworld \<Rightarrow> nats_error option \<times> ('c, 'x, 's, 'w) natsReceiver \<times> 'w rworld" where
  "deliver now r payload w =
     (case nr_deliverPayload r payload w of
        (Some err, w') \<Rightarrow> (Some err, r, w')
      | (None, w') \<Rightarrow> (None, r\<lparr>nr_lastDelivery := now\<rparr>, w'))"

definition handleCoreNATS ::
  "int \<Rightarrow> ('c, 'x, 's, 'w) natsReceiver \<Rightarrow> string \<Rightarrow> 'w rworld \<Rightarrow> ('c, 'x, 's, 'w) natsReceiver \<times> 'w rworld" where
  "handleCoreNATS now r data w = snd (deliver now r data w)"

text \<open>The one answer a JetStream message gets.\<close>

datatype settlement = Ack | NakWithDelay int

definition nakRedeliveryDelay :: int where "nakRedeliveryDelay = 2000000000"

definition handleJetStream ::
  "int \<Rightarrow> ('c, 'x, 's, 'w) natsReceiver \<Rightarrow> string \<Rightarrow> 'w rworld \<Rightarrow> settlement \<times> ('c, 'x, 's, 'w) natsReceiver \<times> 'w rworld" where
  "handleJetStream now r data w =
     (case deliver now r data w of
        (None, r', w') \<Rightarrow> (Ack, r', w')
      | (Some err, r', w') \<Rightarrow>
          if as_errUnmarshal err then (Ack, r', w') else (NakWithDelay nakRedeliveryDelay, r', w'))"

section \<open>The queue a receiver works off\<close>

text \<open>
  A stream as JetStream documents it: a message is handed out, in any order and any number of times,
  until its acknowledgement arrives. The flag of a step says whether an acknowledgement sent in it
  arrives.
\<close>

record ('c, 'x, 's, 'w) js_queue =
  jq_pending :: "string list"
  jq_done :: "string list"
  jq_receiver :: "('c, 'x, 's, 'w) natsReceiver"
  jq_world :: "'w rworld"

definition remove_at :: "nat \<Rightarrow> 'a list \<Rightarrow> 'a list" where
  "remove_at i xs = take i xs @ drop (Suc i) xs"

lemma mset_remove_at: "i < length xs \<Longrightarrow> add_mset (xs ! i) (mset (remove_at i xs)) = mset xs"
  by (subst (3) id_take_nth_drop [of i xs]) (auto simp: remove_at_def)

lemma length_remove_at [simp]: "i < length xs \<Longrightarrow> length (remove_at i xs) = length xs - 1"
  by (auto simp: remove_at_def min_def)

inductive delivery_step :: "bool \<Rightarrow> ('c, 'x, 's, 'w) js_queue \<Rightarrow> ('c, 'x, 's, 'w) js_queue \<Rightarrow> bool" where
  acked: "i < length (jq_pending q) \<Longrightarrow>
    handleJetStream now (jq_receiver q) (jq_pending q ! i) (jq_world q) = (Ack, r, w) \<Longrightarrow>
    delivery_step True q (q\<lparr>jq_pending := remove_at i (jq_pending q), jq_done := jq_done q @ [jq_pending q ! i],
      jq_receiver := r, jq_world := w\<rparr>)"
| ack_lost: "i < length (jq_pending q) \<Longrightarrow>
    handleJetStream now (jq_receiver q) (jq_pending q ! i) (jq_world q) = (Ack, r, w) \<Longrightarrow>
    delivery_step False q (q\<lparr>jq_receiver := r, jq_world := w\<rparr>)"
| nacked: "i < length (jq_pending q) \<Longrightarrow>
    handleJetStream now (jq_receiver q) (jq_pending q ! i) (jq_world q) = (NakWithDelay d, r, w) \<Longrightarrow>
    delivery_step ok q (q\<lparr>jq_receiver := r, jq_world := w\<rparr>)"

inductive_cases delivery_stepE: "delivery_step ok q q'"

inductive queue_run :: "('c, 'x, 's, 'w) js_queue \<Rightarrow> ('c, 'x, 's, 'w) js_queue \<Rightarrow> bool" where
  stay: "queue_run q q"
| continue: "queue_run q q' \<Longrightarrow> delivery_step ok q' q'' \<Longrightarrow> queue_run q q''"

lemma delivery_step_mset:
  "delivery_step ok q q' \<Longrightarrow> mset (jq_pending q') + mset (jq_done q') = mset (jq_pending q) + mset (jq_done q)"
  by (auto elim!: delivery_stepE simp flip: mset_remove_at)

lemma queue_run_mset:
  "queue_run q q' \<Longrightarrow> mset (jq_pending q') + mset (jq_done q') = mset (jq_pending q) + mset (jq_done q)"
  by (induction rule: queue_run.induct) (simp_all add: delivery_step_mset)

lemma deliver_receiver: "deliver now r p w = (e, r', w') \<Longrightarrow> nr_deliverPayload r' = nr_deliverPayload r"
  by (auto simp: deliver_def split: prod.splits option.splits)

lemma handleJetStream_receiver: "handleJetStream now r p w = (a, r', w') \<Longrightarrow> nr_deliverPayload r' = nr_deliverPayload r"
  by (auto simp: handleJetStream_def dest: deliver_receiver split: prod.splits option.splits if_splits)

lemma delivery_step_receiver:
  "delivery_step ok q q' \<Longrightarrow> nr_deliverPayload (jq_receiver q') = nr_deliverPayload (jq_receiver q)"
  by (auto elim!: delivery_stepE dest: handleJetStream_receiver)

subsection \<open>What a delivery function promises the handler\<close>

text \<open>Acknowledged messages were taken by the next consumer, where \<open>taken\<close> lists what a world has taken.\<close>

definition acked_taken ::
  "(string \<Rightarrow> nats_error + 'b) \<Rightarrow> ('w \<Rightarrow> 'b list) \<Rightarrow> ('c, 'x, 's, 'w) js_queue \<Rightarrow> bool" where
  "acked_taken decode taken q \<longleftrightarrow>
     list_all (\<lambda>p. case decode p of Inl _ \<Rightarrow> True | Inr b \<Rightarrow> b \<in> set (taken (snd (jq_world q)))) (jq_done q)"

lemma acked_taken_iff:
  "acked_taken decode taken q \<longleftrightarrow>
     (\<forall>p \<in> set (jq_done q). \<forall>b. decode p = Inr b \<longrightarrow> b \<in> set (taken (snd (jq_world q))))"
  by (auto simp: acked_taken_def list_all_iff split: sum.splits)

text \<open>
  A next consumer that records what it takes: an accepted batch is among those taken from then on. It
  never returns the receiver's own error, whose type is private to the package.
\<close>

definition keeps_taken :: "('b, 'w, nats_error) consumer \<Rightarrow> ('w \<Rightarrow> 'b list) \<Rightarrow> bool" where
  "keeps_taken nxt taken \<longleftrightarrow>
     (\<forall>b w. (case fst (nxt b w) of None \<Rightarrow> b \<in> set (taken (snd (nxt b w))) | Some e \<Rightarrow> \<not> as_errUnmarshal e) \<and>
            set (taken w) \<subseteq> set (taken (snd (nxt b w))))"

text \<open>A next consumer that accepts everything from the worlds \<open>H\<close> on.\<close>

definition healthy_in :: "('b, 'w, nats_error) consumer \<Rightarrow> ('w \<Rightarrow> bool) \<Rightarrow> bool" where
  "healthy_in nxt H \<longleftrightarrow> (\<forall>b w. H w \<longrightarrow> fst (nxt b w) = None \<and> H (snd (nxt b w)))"

text \<open>The queue of a stream with the messages \<open>ps\<close>, nothing acknowledged yet.\<close>

definition queue_of :: "('c, 'x, 's, 'w) natsReceiver \<Rightarrow> string list \<Rightarrow> 'w \<Rightarrow> ('c, 'x, 's, 'w) js_queue" where
  "queue_of r ps w = \<lparr>jq_pending = ps, jq_done = [], jq_receiver = r, jq_world = ([], w)\<rparr>"

definition at_least_once :: "(string \<Rightarrow> nats_error + 'b) \<Rightarrow> ('w \<Rightarrow> 'b list) \<Rightarrow> ('c, 'x, 's, 'w) js_queue \<Rightarrow> bool" where
  "at_least_once decode taken q \<longleftrightarrow>
     (\<forall>q'. queue_run q q' \<longrightarrow>
        mset (jq_pending q') + mset (jq_done q') = mset (jq_pending q) + mset (jq_done q) \<and> acked_taken decode taken q')"

definition drains :: "('c, 'x, 's, 'w) js_queue \<Rightarrow> bool" where
  "drains q \<longleftrightarrow> (\<exists>q'. (delivery_step True ^^ length (jq_pending q)) q q') \<and>
     (\<forall>q'. (delivery_step True ^^ length (jq_pending q)) q q' \<longrightarrow> jq_pending q' = [])"

text \<open>Whenever the world has become healthy, the queue drains.\<close>

definition drains_when :: "('w \<Rightarrow> bool) \<Rightarrow> ('c, 'x, 's, 'w) js_queue \<Rightarrow> bool" where
  "drains_when H q0 \<longleftrightarrow> (\<forall>q. queue_run q0 q \<and> H (snd (jq_world q)) \<longrightarrow> drains q)"

lemma queue_run_receiver:
  "queue_run q q' \<Longrightarrow> nr_deliverPayload (jq_receiver q') = nr_deliverPayload (jq_receiver q)"
  by (induction rule: queue_run.induct) (simp_all add: delivery_step_receiver)

lemma at_least_onceI:
  "(\<And>q'. queue_run (queue_of r ps w) q' \<Longrightarrow> acked_taken decode taken q') \<Longrightarrow> at_least_once decode taken (queue_of r ps w)"
  by (auto simp: at_least_once_def queue_run_mset)

locale delivery =
  fixes decode :: "string \<Rightarrow> nats_error + 'b"
    and enc :: string
    and count :: "'b \<Rightarrow> nat"
    and nxt :: "('b, 'w, nats_error) consumer"
    and dlv :: "'w deliverer"
  assumes undecodable: "decode p = Inl e \<Longrightarrow>
      dlv p rw = (Some (ErrUnmarshal e), (fst rw @ [StartOp, EndOp enc 0 (Some e)], snd rw))"
    and decoded: "decode p = Inr b \<Longrightarrow>
      dlv p rw = (fst (nxt b (snd rw)), (fst rw @ [StartOp, EndOp enc (count b) (fst (nxt b (snd rw)))], snd (nxt b (snd rw))))"
begin

lemma handle_undecodable:
  "nr_deliverPayload r = dlv \<Longrightarrow> decode p = Inl e \<Longrightarrow>
     handleJetStream now r p rw = (Ack, r, (fst rw @ [StartOp, EndOp enc 0 (Some e)], snd rw))"
  by (simp add: handleJetStream_def deliver_def undecodable)

lemma handle_decoded:
  assumes "nr_deliverPayload r = dlv" "decode p = Inr b"
    and "\<And>e. fst (nxt b (snd rw)) = Some e \<Longrightarrow> \<not> as_errUnmarshal e"
  shows "handleJetStream now r p rw =
    (case nxt b (snd rw) of
       (None, w') \<Rightarrow> (Ack, r\<lparr>nr_lastDelivery := now\<rparr>, (fst rw @ [StartOp, EndOp enc (count b) None], w'))
     | (Some e, w') \<Rightarrow> (NakWithDelay nakRedeliveryDelay, r, (fst rw @ [StartOp, EndOp enc (count b) (Some e)], w')))"
  using assms by (auto simp: handleJetStream_def deliver_def decoded split: prod.split option.split)

lemma handle_taken:
  assumes "handleJetStream now r p rw = (a, r', rw')" "nr_deliverPayload r = dlv" "keeps_taken nxt taken"
  shows "set (taken (snd rw)) \<subseteq> set (taken (snd rw')) \<and> (a = Ack \<longrightarrow> decode p = Inr b \<longrightarrow> b \<in> set (taken (snd rw')))"
proof (cases "decode p")
  case (Inl e)
  then show ?thesis using assms(1) handle_undecodable [OF assms(2) Inl] by auto
next
  case (Inr b')
  have k: "fst (nxt b' (snd rw)) = Some e \<Longrightarrow> \<not> as_errUnmarshal e"
    "fst (nxt b' (snd rw)) = None \<Longrightarrow> b' \<in> set (taken (snd (nxt b' (snd rw))))"
    "set (taken (snd rw)) \<subseteq> set (taken (snd (nxt b' (snd rw))))" for e
    using assms(3) unfolding keeps_taken_def by (fastforce split: option.splits)+
  show ?thesis
    using assms(1) handle_decoded [OF assms(2) Inr k(1), of rw now] k(2,3)
    by (cases "nxt b' (snd rw)") (auto simp: Inr split: option.splits)
qed

lemma step_acked_taken:
  assumes "delivery_step ok q q'" "nr_deliverPayload (jq_receiver q) = dlv" "keeps_taken nxt taken"
    and "acked_taken decode taken q"
  shows "acked_taken decode taken q'"
  using assms(1)
proof (cases rule: delivery_step.cases)
  case (acked i now r w)
  note h = handle_taken [OF acked(4) assms(2,3)]
  then show ?thesis using acked(2) assms(4) by (auto simp: acked_taken_iff dest: subsetD)
next
  case (ack_lost i now r w)
  then show ?thesis using handle_taken [OF ack_lost(4) assms(2,3)] assms(4) by (auto simp: acked_taken_iff dest: subsetD)
next
  case (nacked i now d r w)
  then show ?thesis using handle_taken [OF nacked(3) assms(2,3)] assms(4) by (auto simp: acked_taken_iff dest: subsetD)
qed

lemma run_acked_taken:
  assumes "queue_run q q'" "nr_deliverPayload (jq_receiver q) = dlv" "keeps_taken nxt taken" "jq_done q = []"
  shows "acked_taken decode taken q' \<and> nr_deliverPayload (jq_receiver q') = dlv"
  using assms
proof (induction rule: queue_run.induct)
  case (continue q q' ok q'')
  then show ?case by (auto intro: step_acked_taken dest: delivery_step_receiver)
qed (simp add: acked_taken_def)

lemma healthy_acks:
  assumes "nr_deliverPayload r = dlv" "healthy_in nxt H" "H (snd rw)"
  shows "\<exists>r' rw'. handleJetStream now r p rw = (Ack, r', rw') \<and> nr_deliverPayload r' = dlv \<and> H (snd rw')"
proof (cases "decode p")
  case (Inl e)
  then show ?thesis using assms handle_undecodable [OF assms(1) Inl] by simp
next
  case (Inr b)
  have h: "fst (nxt b (snd rw)) = None" "H (snd (nxt b (snd rw)))"
    using assms(2,3) by (auto simp: healthy_in_def)
  then show ?thesis
    using handle_decoded [OF assms(1) Inr, of rw now] assms(1) by (cases "nxt b (snd rw)") simp
qed

lemma healthy_step:
  assumes "nr_deliverPayload (jq_receiver q) = dlv" "healthy_in nxt H" "H (snd (jq_world q))"
  shows "delivery_step True q q' \<Longrightarrow>
      Suc (length (jq_pending q')) = length (jq_pending q) \<and> nr_deliverPayload (jq_receiver q') = dlv \<and> H (snd (jq_world q'))"
    and "jq_pending q \<noteq> [] \<Longrightarrow> \<exists>q'. delivery_step True q q'"
proof -
  assume step: "delivery_step True q q'"
  then show "Suc (length (jq_pending q')) = length (jq_pending q) \<and> nr_deliverPayload (jq_receiver q') = dlv \<and> H (snd (jq_world q'))"
  proof (cases rule: delivery_step.cases)
    case (acked i now r w)
    then show ?thesis using healthy_acks [OF assms, of now "jq_pending q ! i"] by auto
  next
    case (nacked i now d r w)
    then show ?thesis using healthy_acks [OF assms, of now "jq_pending q ! i"] by auto
  qed simp
next
  assume "jq_pending q \<noteq> []"
  then have "0 < length (jq_pending q)" by simp
  moreover obtain r w where "handleJetStream 0 (jq_receiver q) (jq_pending q ! 0) (jq_world q) = (Ack, r, w)"
    using healthy_acks [OF assms] by blast
  ultimately show "\<exists>q'. delivery_step True q q'" by (blast intro: acked)
qed

lemma healthy_drains:
  assumes "nr_deliverPayload (jq_receiver q) = dlv" "healthy_in nxt H" "H (snd (jq_world q))"
  shows "(\<exists>q'. (delivery_step True ^^ length (jq_pending q)) q q') \<and>
     (\<forall>q'. (delivery_step True ^^ length (jq_pending q)) q q' \<longrightarrow> jq_pending q' = [])"
  using assms
proof (induction "length (jq_pending q)" arbitrary: q)
  case (Suc n)
  note step = healthy_step [OF Suc.prems]
  have next_state: "length (jq_pending q1) = n \<and> nr_deliverPayload (jq_receiver q1) = dlv \<and> H (snd (jq_world q1))"
    if "delivery_step True q q1" for q1 using step(1) [OF that] Suc.hyps(2) by simp
  have "jq_pending q \<noteq> []" using Suc.hyps(2) by auto
  then obtain q1 where q1: "delivery_step True q q1" using step(2) by blast
  then obtain q2 where "(delivery_step True ^^ n) q1 q2"
    using Suc.hyps(1) [of q1] next_state [OF q1] Suc.prems(2) by auto
  then have "\<exists>q'. (delivery_step True ^^ Suc n) q q'" using q1 by (blast intro: relpowp_Suc_I2)
  moreover have "jq_pending q' = []" if "(delivery_step True ^^ Suc n) q q'" for q'
  proof -
    obtain q1 where "delivery_step True q q1" "(delivery_step True ^^ n) q1 q'"
      using relpowp_Suc_D2 [OF \<open>(delivery_step True ^^ Suc n) q q'\<close>] by blast
    then show ?thesis using Suc.hyps(1) [of q1] next_state [of q1] Suc.prems(2) by auto
  qed
  ultimately show ?case unfolding Suc.hyps(2) [symmetric] by blast
qed auto

lemma run_at_least_once:
  assumes "nr_deliverPayload r = dlv" "keeps_taken nxt taken"
  shows "at_least_once decode taken (queue_of r ps w)"
proof (rule at_least_onceI)
  fix q' assume "queue_run (queue_of r ps w) q'"
  then show "acked_taken decode taken q'"
    using run_acked_taken [of "queue_of r ps w" q' taken] assms by (simp add: queue_of_def)
qed

lemma run_drains:
  assumes "nr_deliverPayload r = dlv" "healthy_in nxt H"
  shows "drains_when H (queue_of r ps w)"
  unfolding drains_when_def
proof (intro allI impI)
  fix q assume q: "queue_run (queue_of r ps w) q \<and> H (snd (jq_world q))"
  then have "nr_deliverPayload (jq_receiver q) = dlv"
    using queue_run_receiver [of "queue_of r ps w" q] assms(1) by (simp add: queue_of_def)
  then show "drains q" unfolding drains_def using healthy_drains assms(2) q by blast
qed

end

interpretation logs_delivery: delivery unmarshal encoding n nxt "deliverLogs unmarshal encoding n nxt" for unmarshal encoding n nxt
  by unfold_locales (simp_all add: deliverLogs_def Let_def)

interpretation metrics_delivery: delivery unmarshal encoding n nxt "deliverMetrics unmarshal encoding n nxt" for unmarshal encoding n nxt
  by unfold_locales (simp_all add: deliverMetrics_def Let_def)

interpretation traces_delivery: delivery unmarshal encoding n nxt "deliverTraces unmarshal encoding n nxt" for unmarshal encoding n nxt
  by unfold_locales (simp_all add: deliverTraces_def Let_def)

section \<open>Properties\<close>

lemma receiver_signal_validate_None: "receiver_signal_validate c name = None \<longleftrightarrow> valid_signal c"
  by (auto simp: receiver_signal_validate_def valid_signal_def)

lemma receiver_Validate_None:
  "receiver_Validate c = None \<longleftrightarrow> rc_URL c \<noteq> [] \<and> (rc_Stream c = [] \<longleftrightarrow> rc_ConsumerName c = []) \<and>
     valid_signal (rc_Logs c) \<and> valid_signal (rc_Metrics c) \<and> valid_signal (rc_Traces c)"
  using receiver_signal_validate_None [of "rc_Logs c" "''logs''"] receiver_signal_validate_None [of "rc_Metrics c" "''metrics''"]
    receiver_signal_validate_None [of "rc_Traces c" "''traces''"]
  by (auto simp: receiver_Validate_def split: option.split)

lemma newUnmarshaler_valid:
  "valid_signal c \<Longrightarrow> newLogsUnmarshaler (sg_Encoding c) = Inr (codec_of (sg_Encoding c))"
  "valid_signal c \<Longrightarrow> newMetricsUnmarshaler (sg_Encoding c) = Inr (codec_of (sg_Encoding c))"
  "valid_signal c \<Longrightarrow> newTracesUnmarshaler (sg_Encoding c) = Inr (codec_of (sg_Encoding c))"
  by (auto simp: valid_signal_def codec_of_def newLogsUnmarshaler_def newMetricsUnmarshaler_def newTracesUnmarshaler_def)

definition signal_codec :: "SignalConfig \<Rightarrow> codec" where
  "signal_codec c = codec_of (sg_Encoding c)"

lemma newReceiver_valid:
  assumes "receiver_Validate cfg = None"
  shows "newLogsReceiver None ul cl cfg nl =
      Inr (new_receiver (rc_Logs cfg) (deliverLogs (ul (signal_codec (rc_Logs cfg))) (sg_Encoding (rc_Logs cfg)) cl nl))"
    and "newMetricsReceiver None um cm cfg nm =
      Inr (new_receiver (rc_Metrics cfg) (deliverMetrics (um (signal_codec (rc_Metrics cfg))) (sg_Encoding (rc_Metrics cfg)) cm nm))"
    and "newTracesReceiver None ut ct cfg nt =
      Inr (new_receiver (rc_Traces cfg) (deliverTraces (ut (signal_codec (rc_Traces cfg))) (sg_Encoding (rc_Traces cfg)) ct nt))"
  using assms by (simp_all add: receiver_Validate_None newLogsReceiver_def newMetricsReceiver_def newTracesReceiver_def
      newUnmarshaler_valid signal_codec_def)

lemma new_receiver_deliver [simp]: "nr_deliverPayload (new_receiver sig d) = d"
  by (simp add: new_receiver_def)

text \<open>
  C23. No telemetry is lost between the stream and the next consumer: a valid configuration always gives
  a receiver of each signal, and however its messages are handed out, redelivered and acknowledged (or
  the acknowledgements lost), a message is either still pending or acknowledged, and every
  acknowledged message that can be decoded has been accepted by the next consumer. (The next consumer
  records what it accepts, and does not return the receiver's private unmarshal error.)
\<close>

theorem receiver_at_least_once:
  assumes "receiver_Validate cfg = None" "keeps_taken nl kl" "keeps_taken nm km" "keeps_taken nt kt"
  shows "(\<exists>r. newLogsReceiver None ul cl cfg nl = Inr r \<and>
      at_least_once (ul (signal_codec (rc_Logs cfg))) kl (queue_of r ps w)) \<and>
    (\<exists>r. newMetricsReceiver None um cm cfg nm = Inr r \<and>
      at_least_once (um (signal_codec (rc_Metrics cfg))) km (queue_of r ps' w')) \<and>
    (\<exists>r. newTracesReceiver None ut ct cfg nt = Inr r \<and>
      at_least_once (ut (signal_codec (rc_Traces cfg))) kt (queue_of r ps'' w''))"
  unfolding newReceiver_valid [OF assms(1)]
  by (simp add: logs_delivery.run_at_least_once [OF new_receiver_deliver assms(2)]
      metrics_delivery.run_at_least_once [OF new_receiver_deliver assms(3)] traces_delivery.run_at_least_once [OF new_receiver_deliver assms(4)])

text \<open>
  C24. The stream drains once the next consumer has recovered: from any state the queue can have reached,
  with any mix of failures before, if the next consumer accepts everything from now on and
  acknowledgements arrive, then delivering is always possible and any sequence of as many deliveries as
  there are messages leaves nothing pending. A message that cannot be decoded does not block it, since
  it is acknowledged (dropped) too.
\<close>

theorem receiver_drains:
  assumes "receiver_Validate cfg = None" "healthy_in nl Hl" "healthy_in nm Hm" "healthy_in nt Ht"
  shows "(\<exists>r. newLogsReceiver None ul cl cfg nl = Inr r \<and>
      drains_when Hl (queue_of r ps w)) \<and>
    (\<exists>r. newMetricsReceiver None um cm cfg nm = Inr r \<and>
      drains_when Hm (queue_of r ps' w')) \<and>
    (\<exists>r. newTracesReceiver None ut ct cfg nt = Inr r \<and>
      drains_when Ht (queue_of r ps'' w''))"
  unfolding newReceiver_valid [OF assms(1)]
  by (simp add: logs_delivery.run_drains [OF new_receiver_deliver assms(2)]
      metrics_delivery.run_drains [OF new_receiver_deliver assms(3)] traces_delivery.run_drains [OF new_receiver_deliver assms(4)])

text \<open>
  Connections are released: when \<open>Start\<close> succeeds, the receiver holds the one connection it opened and
  the subscription or the running consume that fits its configuration, and \<open>Shutdown\<close> ends exactly
  these, in that order; when it fails, whatever connection it opened has been closed. The same holds
  of the exporter, which holds a JetStream context exactly when a stream is configured.
\<close>

theorem nats_connections_released:
  "(case receiver_Start cli ident cfg (new_receiver sig d) of (err, r, calls) \<Rightarrow>
      (case err of
         None \<Rightarrow> calls = [] \<and> (\<exists>c. nr_conn r = Some c \<and>
           (if rc_Stream cfg = [] then nr_consumeCtx r = None \<and>
              (\<exists>s. rn_Subscribe cli c (sg_Subject sig) = Inr s \<and> nr_coreNATSSub r = Some s \<and>
                receiver_Shutdown cli r = (rn_Drain cli c, [CallUnsubscribe s, CallDrain c]))
            else nr_coreNATSSub r = None \<and>
              (\<exists>x. nr_consumeCtx r = Some x \<and> receiver_Shutdown cli r = (rn_Drain cli c, [CallStop x, CallDrain c]))))
       | Some e \<Rightarrow> (case nr_conn r of None \<Rightarrow> calls = [] | Some c \<Rightarrow> calls = [CallClose c]))) \<and>
   (case exporter_start ecli ident ecfg \<lparr>ne_logsMarshaler = lm, ne_metricsMarshaler = mm, ne_tracesMarshaler = tm,
        ne_conn = None, ne_js = None\<rparr> of (err, e, calls) \<Rightarrow>
      (case err of
         None \<Rightarrow> calls = [] \<and> (\<exists>c. ne_conn e = Some c \<and> exporter_shutdown ecli e = (nc_Drain ecli c, [ConnDrain c])) \<and>
           (ne_js e = None \<longleftrightarrow> ec_Stream ecfg = [])
       | Some _ \<Rightarrow> (case ne_conn e of None \<Rightarrow> calls = [] | Some c \<Rightarrow> calls = [ConnClose c])))"
proof
  show "case receiver_Start cli ident cfg (new_receiver sig d) of (err, r, calls) \<Rightarrow>
      (case err of
         None \<Rightarrow> calls = [] \<and> (\<exists>c. nr_conn r = Some c \<and>
           (if rc_Stream cfg = [] then nr_consumeCtx r = None \<and>
              (\<exists>s. rn_Subscribe cli c (sg_Subject sig) = Inr s \<and> nr_coreNATSSub r = Some s \<and>
                receiver_Shutdown cli r = (rn_Drain cli c, [CallUnsubscribe s, CallDrain c]))
            else nr_coreNATSSub r = None \<and>
              (\<exists>x. nr_consumeCtx r = Some x \<and> receiver_Shutdown cli r = (rn_Drain cli c, [CallStop x, CallDrain c]))))
       | Some e \<Rightarrow> (case nr_conn r of None \<Rightarrow> calls = [] | Some c \<Rightarrow> calls = [CallClose c]))"
    by (auto simp: receiver_Start_def receiver_startCoreNATS_def receiver_startJetStream_def receiver_Shutdown_def
        new_receiver_def Let_def split: option.splits sum.splits)
  show "case exporter_start ecli ident ecfg \<lparr>ne_logsMarshaler = lm, ne_metricsMarshaler = mm, ne_tracesMarshaler = tm,
        ne_conn = None, ne_js = None\<rparr> of (err, e, calls) \<Rightarrow>
      (case err of
         None \<Rightarrow> calls = [] \<and> (\<exists>c. ne_conn e = Some c \<and> exporter_shutdown ecli e = (nc_Drain ecli c, [ConnDrain c])) \<and>
           (ne_js e = None \<longleftrightarrow> ec_Stream ecfg = [])
       | Some _ \<Rightarrow> (case ne_conn e of None \<Rightarrow> calls = [] | Some c \<Rightarrow> calls = [ConnClose c]))"
    by (auto simp: exporter_start_def exporter_startJetStream_def exporter_shutdown_def Let_def split: option.splits sum.splits)
qed

definition example_receiver_config :: ReceiverConfig where
  "example_receiver_config =
     (let sg = \<lparr>sg_Subject = ''otlp.x'', sg_Encoding = ''otlp_json''\<rparr> in
      \<lparr>rc_URL = ''nats'', rc_Stream = ''S'', rc_ConsumerName = ''c'', rc_CredentialsFile = [],
       rc_Logs = sg, rc_Metrics = sg, rc_Traces = sg\<rparr>)"

definition example_decode :: "codec \<Rightarrow> string \<Rightarrow> nats_error + (string, string, 'e) batch" where
  "example_decode c p = (if p = ''bad'' then Inl (LibError ''bad'') else Inr [])"

text \<open>A next consumer that refuses until it has been called twice and records what it accepts.\<close>

definition flaky :: "('b, nat \<times> 'b list, nats_error) consumer" where
  "flaky b w = (if fst w < 2 then (Some (LibError ''down''), (fst w + 1, snd w)) else (None, (fst w, snd w @ [b])))"

lemma flaky_keeps: "keeps_taken flaky snd"
  by (auto simp: keeps_taken_def flaky_def)

lemma flaky_healthy: "healthy_in flaky (\<lambda>w. 2 \<le> fst w)"
  by (simp add: healthy_in_def flaky_def)

theorem receiver_at_least_once_witness:
  "\<exists>r :: (nat, nat, nat, nat \<times> (string, string, nat) batch list) natsReceiver.
     newLogsReceiver None example_decode length example_receiver_config flaky = Inr r \<and>
     at_least_once (example_decode JSONCodec) snd (queue_of r [''bad'', ''ok''] (0, []))"
proof -
  have "receiver_Validate example_receiver_config = None" by code_simp
  then have "\<exists>r :: (nat, nat, nat, nat \<times> (string, string, nat) batch list) natsReceiver.
     newLogsReceiver None example_decode length example_receiver_config flaky = Inr r \<and>
     at_least_once (example_decode (signal_codec (rc_Logs example_receiver_config))) snd (queue_of r [''bad'', ''ok''] (0, []))"
    by (rule receiver_at_least_once [OF _ flaky_keeps flaky_keeps flaky_keeps, THEN conjunct1])
  then show ?thesis by (simp add: signal_codec_def example_receiver_config_def Let_def codec_of_def encodingOTLPProto_def)
qed

theorem receiver_drains_witness:
  "\<exists>r :: (nat, nat, nat, nat \<times> (string, string, nat) batch list) natsReceiver.
     newLogsReceiver None example_decode length example_receiver_config flaky = Inr r \<and>
     drains (queue_of r [''bad'', ''ok''] (2, []))"
proof -
  have v: "receiver_Validate example_receiver_config = None" by code_simp
  have "\<exists>r :: (nat, nat, nat, nat \<times> (string, string, nat) batch list) natsReceiver.
     newLogsReceiver None example_decode length example_receiver_config flaky = Inr r \<and>
     drains_when (\<lambda>w. 2 \<le> fst w) (queue_of r [''bad'', ''ok''] (2, []))"
    by (rule receiver_drains [OF v flaky_healthy flaky_healthy flaky_healthy, THEN conjunct1])
  then show ?thesis unfolding drains_when_def using queue_run.stay by (fastforce simp: queue_of_def)
qed

end
