(* ===== verification/Pipeline.thy ===== *)
theory Pipeline
  imports NatsReceiver
begin

text \<open>
  The collector components together: the unbatch processor in front of the NATS exporter, the stream that takes
  the subjects it is configured for, and the receiver in front of the next consumer. The locale \<open>pipeline\<close>
  joins the contract of the processor (\<open>unbatcher\<close>) with that of the receiver (\<open>delivery\<close>) through the codec
  they share; it is interpreted for logs, traces and metrics. The messages of a stream are those whose subject
  it takes, as JetStream documents it.
\<close>

section \<open>What the stream holds and what arrives\<close>

definition stream_messages :: "(string \<Rightarrow> bool) \<Rightarrow> (string \<times> string) list \<Rightarrow> string list" where
  "stream_messages takes msgs = map snd (filter (\<lambda>m. takes (fst m)) msgs)"

text \<open>A message for each batch of one record, on the record's subject.\<close>

definition published :: "('b \<Rightarrow> 'x list) \<Rightarrow> ('x \<Rightarrow> string) \<Rightarrow> ('b \<Rightarrow> string) \<Rightarrow> 'b list \<Rightarrow> (string \<times> string) list" where
  "published records subject encode bs = map (\<lambda>b. (subject (hd (records b)), encode b)) bs"

lemma stream_messages_published:
  "p \<in> set (stream_messages takes (published records subject encode bs)) \<longleftrightarrow>
     (\<exists>b \<in> set bs. takes (subject (hd (records b))) \<and> p = encode b)"
  by (force simp: stream_messages_def published_def)

text \<open>
  A queue carries the records of a batch on the subjects taken: whatever the next consumer has taken beyond
  what it had is one such record, and once nothing is pending it has taken each of them.
\<close>

definition carries ::
  "('b \<Rightarrow> 'x list) \<Rightarrow> ('x \<Rightarrow> bool) \<Rightarrow> ('w \<Rightarrow> 'b list) \<Rightarrow> 'b \<Rightarrow> ('c, 'y, 's, 'w) js_queue \<Rightarrow> bool" where
  "carries records mine taken b q \<longleftrightarrow>
     (\<forall>q'. queue_run q q' \<longrightarrow>
        (\<forall>b' \<in> set (taken (snd (jq_world q'))) - set (taken (snd (jq_world q))). \<exists>x \<in> set (records b). mine x \<and> records b' = [x]) \<and>
        (jq_pending q' = [] \<longrightarrow> (\<forall>x \<in> set (records b). mine x \<longrightarrow> (\<exists>b' \<in> set (taken (snd (jq_world q'))). records b' = [x]))))"

text \<open>A next consumer that takes nothing but what it is given.\<close>

definition takes_given :: "('b, 'w, nats_error) consumer \<Rightarrow> ('w \<Rightarrow> 'b list) \<Rightarrow> bool" where
  "takes_given nxt taken \<longleftrightarrow> (\<forall>b w. set (taken (snd (nxt b w))) \<subseteq> insert b (set (taken w)))"

section \<open>The receiver takes only what the stream holds\<close>

context delivery
begin

lemma handle_given:
  assumes "handleJetStream now r p rw = (a, r', rw')" "nr_deliverPayload r = dlv" "takes_given nxt taken"
  shows "set (taken (snd rw')) \<subseteq> set (taken (snd rw)) \<union> {b. decode p = Inr b}"
proof (cases "decode p")
  case (Inl e)
  then show ?thesis using assms(1) handle_undecodable [OF assms(2) Inl] by auto
next
  case (Inr b)
  have "snd rw' = snd (nxt b (snd rw))"
    using assms(1,2) decoded [OF Inr, of rw] by (auto simp: handleJetStream_def deliver_def split: prod.splits option.splits if_splits)
  then show ?thesis using assms(3) Inr by (auto simp: takes_given_def)
qed

lemma step_given:
  assumes "delivery_step ok q q'" "nr_deliverPayload (jq_receiver q) = dlv" "takes_given nxt taken"
  shows "set (taken (snd (jq_world q'))) \<subseteq> set (taken (snd (jq_world q))) \<union> {b. \<exists>p \<in> set (jq_pending q). decode p = Inr b}"
  using assms(1)
proof (cases rule: delivery_step.cases)
  case (acked i now r w)
  then show ?thesis using handle_given [OF acked(4) assms(2,3)] nth_mem [OF acked(3)] by auto
next
  case (ack_lost i now r w)
  then show ?thesis using handle_given [OF ack_lost(4) assms(2,3)] nth_mem [OF ack_lost(3)] by auto
next
  case (nacked i now d r w)
  then show ?thesis using handle_given [OF nacked(3) assms(2,3)] nth_mem [OF nacked(2)] by auto
qed

lemma run_given:
  assumes "queue_run q q'" "nr_deliverPayload (jq_receiver q) = dlv" "takes_given nxt taken" "jq_done q = []"
  shows "set (taken (snd (jq_world q'))) \<subseteq> set (taken (snd (jq_world q))) \<union> {b. \<exists>p \<in> set (jq_pending q). decode p = Inr b}"
  using assms
proof (induction rule: queue_run.induct)
  case (continue q q' ok q'')
  have "set (jq_pending q') \<subseteq> set (jq_pending q)"
  proof -
    have "mset (jq_pending q') + mset (jq_done q') = mset (jq_pending q)"
      using queue_run_mset [OF continue.hyps(1)] continue.prems(3) by simp
    then have "set_mset (mset (jq_pending q')) \<subseteq> set_mset (mset (jq_pending q))" by (metis UnI1 set_mset_union subsetI)
    then show ?thesis by simp
  qed
  moreover have "nr_deliverPayload (jq_receiver q') = dlv" using queue_run_receiver [OF continue.hyps(1)] continue.prems(1) by simp
  note step_given [OF continue.hyps(2) this continue.prems(2)]
  ultimately show ?case using continue.IH [OF continue.prems] by blast
qed simp

end

section \<open>Unbatching, publishing and receiving\<close>

locale pipeline = unbatcher split records + delivery decode enc count nxt dlv
  for split :: "'b \<Rightarrow> 'b list" and records :: "'b \<Rightarrow> 'x list"
    and decode :: "string \<Rightarrow> nats_error + 'b" and enc :: string and count :: "'b \<Rightarrow> nat"
    and nxt :: "('b, 'w, nats_error) consumer" and dlv :: "'w deliverer"
begin

lemma split_single: "b' \<in> set (split b) \<Longrightarrow> \<exists>x \<in> set (records b). records b' = [x]"
proof -
  assume b': "b' \<in> set (split b)"
  then obtain x where x: "records b' = [x]" using one_each by (metis length_0_conv length_Suc_conv One_nat_def)
  have "set (records b') \<subseteq> set (concat (map records (split b)))" using b' by auto
  then show ?thesis using conserves [of b] x by auto
qed

lemma record_split: "x \<in> set (records b) \<Longrightarrow> \<exists>b' \<in> set (split b). records b' = [x]"
  using records_nth one_per_record by (metis in_set_conv_nth)

lemma pipeline_carries:
  assumes "nr_deliverPayload r = dlv" "keeps_taken nxt taken" "takes_given nxt taken" and decode_encode: "\<And>b'. b' \<in> set (split b) \<Longrightarrow> decode (encode b') = Inr b'"
  shows "carries records (\<lambda>x. takes (subject x)) taken b (queue_of r (stream_messages takes (published records subject encode (split b))) w)"
  unfolding carries_def
proof (intro allI impI conjI ballI)
  let ?q = "queue_of r (stream_messages takes (published records subject encode (split b))) w"
  fix q' assume run: "queue_run ?q q'"
  have init: "nr_deliverPayload (jq_receiver ?q) = dlv" "jq_done ?q = []" "jq_pending ?q = stream_messages takes (published records subject encode (split b))"
    using assms(1) by (simp_all add: queue_of_def)
  {
    fix b' assume "b' \<in> set (taken (snd (jq_world q'))) - set (taken (snd (jq_world ?q)))"
    then obtain p where p: "p \<in> set (stream_messages takes (published records subject encode (split b)))" "decode p = Inr b'"
      using run_given [OF run init(1) assms(3) init(2)] init(3) by auto
    then obtain b1 where b1: "b1 \<in> set (split b)" "takes (subject (hd (records b1)))" "p = encode b1"
      using stream_messages_published by metis
    then have "b1 = b'" using p(2) decode_encode [OF b1(1)] by simp
    then show "\<exists>x \<in> set (records b). takes (subject x) \<and> records b' = [x]" using split_single [OF b1(1)] b1(2) by auto
  }
  {
    fix x assume e: "jq_pending q' = []" and x: "x \<in> set (records b)" "takes (subject x)"
    obtain b' where b': "b' \<in> set (split b)" "records b' = [x]" using record_split [OF x(1)] by blast
    then have "encode b' \<in> set (stream_messages takes (published records subject encode (split b)))" unfolding stream_messages_published using x(2) by (intro bexI [of _ b']) simp_all
    moreover have "mset (jq_done q') = mset (stream_messages takes (published records subject encode (split b)))"
      using queue_run_mset [OF run] e init by simp
    ultimately have "encode b' \<in> set (jq_done q')" by (metis set_mset_mset)
    then have "b' \<in> set (taken (snd (jq_world q')))"
      using run_acked_taken [OF run init(1) assms(2) init(2)] decode_encode [OF b'(1)] by (auto simp: acked_taken_iff)
    then show "\<exists>b' \<in> set (taken (snd (jq_world q'))). records b' = [x]" using b'(2) by blast
  }
qed

end

interpretation logs_pipeline: pipeline "splitLogs (\<lambda>ld. length (items ld))" items unmarshal enc n nxt "deliverLogs unmarshal enc n nxt"
  for unmarshal enc n nxt ..

interpretation traces_pipeline: pipeline "splitTraces (\<lambda>td. length (items td))" items unmarshal enc n nxt "deliverTraces unmarshal enc n nxt"
  for unmarshal enc n nxt ..

interpretation metrics_pipeline: pipeline "splitMetrics (\<lambda>md. length (points md))" points unmarshal enc n nxt "deliverMetrics unmarshal enc n nxt"
  for unmarshal enc n nxt ..

text \<open>The marshalers stay as built when the exporter connects.\<close>

lemma exporter_start_marshalers:
  assumes "exporter_start cli ident cfg e = (err, e', calls)"
  shows "ne_logsMarshaler e' = ne_logsMarshaler e" "ne_tracesMarshaler e' = ne_tracesMarshaler e" "ne_metricsMarshaler e' = ne_metricsMarshaler e"
  using assms by (auto simp: exporter_start_def exporter_startJetStream_def Let_def split: sum.splits if_splits)

abbreviation route_subject ::
  "('re \<Rightarrow> string \<Rightarrow> string option) \<Rightarrow> ExporterConfig \<Rightarrow> SignalConfig \<Rightarrow> nat \<Rightarrow> ('re, 'sc, 'e) batch \<Rightarrow> ('re, 'sc) origin \<times> 'y \<Rightarrow> string" where
  "route_subject attr cfg sig n b x \<equiv> subjectFor attr cfg sig (routing_resource n b x)"

text \<open>
  C8. Telemetry travels from collector to collector without loss or mixing, for logs, traces and metrics alike. The
  exporter and the receiver are configured validly, with the same encoding, and the exporter has started;
  a batch of any resources is unbatched and published without error. Of the messages, a stream that takes
  some of the subjects holds those on its subjects. However it hands them out, redelivers them and loses
  acknowledgements, the next consumer behind the receiver only ever takes records of the batch that are
  routed to that stream, each alone with its origin; and as soon as nothing is pending it has taken every
  one of them. A record is routed by its own resource, with one exception: the only record of a batch
  whose first resource entry is empty is routed by that empty entry's resource. (Unmarshaling undoes
  marshaling on the batches published; the next consumer keeps what it accepts, takes nothing else and does
  not return the receiver's private error.)
\<close>

theorem telemetry_arrives:
  assumes "exporter_Validate ecfg = None" "receiver_Validate rcfg = None"
    and "sg_Encoding (ec_Logs ecfg) = sg_Encoding (rc_Logs rcfg)" "sg_Encoding (ec_Traces ecfg) = sg_Encoding (rc_Traces rcfg)"
      "sg_Encoding (ec_Metrics ecfg) = sg_Encoding (rc_Metrics rcfg)"
    and "newExporter ecfg = Inr e0" "exporter_start cli ident ecfg e0 = (None, e, calls)"
    and "\<And>c b. ml c b = Inr (el c b)" "\<And>c b. mt c b = Inr (et c b)" "\<And>c b. mm c b = Inr (em c b)"
    and "\<And>c b. b \<in> set (splitLogs (\<lambda>ld. length (items ld)) ld) \<Longrightarrow> ul c (el c b) = Inr b"
      "\<And>c b. b \<in> set (splitTraces (\<lambda>td. length (items td)) td) \<Longrightarrow> ut c (et c b) = Inr b"
      "\<And>c b. b \<in> set (splitMetrics (\<lambda>md. length (points md)) md) \<Longrightarrow> um c (em c b) = Inr b"
    and "keeps_taken nl kl" "takes_given nl kl" "keeps_taken nt kt" "takes_given nt kt" "keeps_taken nm km" "takes_given nm km"
  shows "(\<exists>msgs r. ConsumeLogs (\<lambda>ld. length (items ld)) (pushLogs attr ml inbox ecfg e) ld [] = (None, msgs) \<and>
      newLogsReceiver None ul (\<lambda>ld. length (items ld)) rcfg nl = Inr r \<and>
      carries items (\<lambda>x. takes (route_subject attr ecfg (ec_Logs ecfg) (length (items ld)) ld x)) kl ld (queue_of r (stream_messages takes msgs) w)) \<and>
    (\<exists>msgs r. ConsumeTraces (\<lambda>td. length (items td)) (pushTraces attr mt inbox ecfg e) td [] = (None, msgs) \<and>
      newTracesReceiver None ut (\<lambda>td. length (items td)) rcfg nt = Inr r \<and>
      carries items (\<lambda>x. takes (route_subject attr ecfg (ec_Traces ecfg) (length (items td)) td x)) kt td (queue_of r (stream_messages takes msgs) w')) \<and>
    (\<exists>msgs r. ConsumeMetrics (\<lambda>md. length (points md)) (pushMetrics attr mm inbox ecfg e) md [] = (None, msgs) \<and>
      newMetricsReceiver None um (\<lambda>md. length (points md)) rcfg nm = Inr r \<and>
      carries points (\<lambda>x. takes (route_subject attr ecfg (ec_Metrics ecfg) (length (points md)) md x)) km md (queue_of r (stream_messages takes msgs) w'')) \<and>
    (\<forall>x \<in> set (items ld). routing_resource (length (items ld)) ld x \<noteq> item_resource x \<longrightarrow> length (items ld) = 1 \<and> \<not> leading_item ld) \<and>
    (\<forall>x \<in> set (items td). routing_resource (length (items td)) td x \<noteq> item_resource x \<longrightarrow> length (items td) = 1 \<and> \<not> leading_item td) \<and>
    (\<forall>x \<in> set (points md). routing_resource (length (points md)) md x \<noteq> item_resource x \<longrightarrow> length (points md) = 1 \<and> \<not> leading_point md)"
proof -
  have m: "ne_logsMarshaler e = signal_codec (rc_Logs rcfg)" "ne_tracesMarshaler e = signal_codec (rc_Traces rcfg)"
    "ne_metricsMarshaler e = signal_codec (rc_Metrics rcfg)"
    using exporter_start_marshalers [OF assms(7)] assms(6) [unfolded newExporter_valid [OF assms(1)]] assms(3-5)
    by (auto simp: signal_codec_def)
  note pub = unbatched_published [where ml = ml and mt = mt and mm = mm and el = el and et = et and em = em and attr = attr and cfg = ecfg and e = e,
      OF assms(8-10), unfolded m]
  note recv = newReceiver_valid [OF assms(2)]
  show ?thesis
  proof (intro conjI)
    show "\<exists>msgs r. ConsumeLogs (\<lambda>ld. length (items ld)) (pushLogs attr ml inbox ecfg e) ld [] = (None, msgs) \<and>
        newLogsReceiver None ul (\<lambda>ld. length (items ld)) rcfg nl = Inr r \<and>
        carries items (\<lambda>x. takes (route_subject attr ecfg (ec_Logs ecfg) (length (items ld)) ld x)) kl ld (queue_of r (stream_messages takes msgs) w)"
      unfolding pub [THEN conjunct1] recv(1)
      using logs_pipeline.pipeline_carries [where encode = "el (signal_codec (rc_Logs rcfg))" and unmarshal = "ul (signal_codec (rc_Logs rcfg))"
        and subject = "route_subject attr ecfg (ec_Logs ecfg) (length (items ld)) ld", OF new_receiver_deliver assms(14,15) assms(11)]
      by (auto simp: published_def)
    show "\<exists>msgs r. ConsumeTraces (\<lambda>td. length (items td)) (pushTraces attr mt inbox ecfg e) td [] = (None, msgs) \<and>
        newTracesReceiver None ut (\<lambda>td. length (items td)) rcfg nt = Inr r \<and>
        carries items (\<lambda>x. takes (route_subject attr ecfg (ec_Traces ecfg) (length (items td)) td x)) kt td (queue_of r (stream_messages takes msgs) w')"
      unfolding pub [THEN conjunct2, THEN conjunct1] recv(3)
      using traces_pipeline.pipeline_carries [where encode = "et (signal_codec (rc_Traces rcfg))" and unmarshal = "ut (signal_codec (rc_Traces rcfg))"
        and subject = "route_subject attr ecfg (ec_Traces ecfg) (length (items td)) td", OF new_receiver_deliver assms(16,17) assms(12)]
      by (auto simp: published_def)
    show "\<exists>msgs r. ConsumeMetrics (\<lambda>md. length (points md)) (pushMetrics attr mm inbox ecfg e) md [] = (None, msgs) \<and>
        newMetricsReceiver None um (\<lambda>md. length (points md)) rcfg nm = Inr r \<and>
        carries points (\<lambda>x. takes (route_subject attr ecfg (ec_Metrics ecfg) (length (points md)) md x)) km md (queue_of r (stream_messages takes msgs) w'')"
      unfolding pub [THEN conjunct2, THEN conjunct2] recv(2)
      using metrics_pipeline.pipeline_carries [where encode = "em (signal_codec (rc_Metrics rcfg))" and unmarshal = "um (signal_codec (rc_Metrics rcfg))"
        and subject = "route_subject attr ecfg (ec_Metrics ecfg) (length (points md)) md", OF new_receiver_deliver assms(18,19) assms(13)]
      by (auto simp: published_def)
  qed (use routing_resource_own in blast)+
qed

text \<open>Two records of different resources, of which the stream of one project takes its own.\<close>

definition project_record :: "string \<Rightarrow> nat \<Rightarrow> (string, string, nat) batch" where
  "project_record res n = [\<lparr>re_Resource = res, re_SchemaUrl = [], re_Scopes = [\<lparr>se_Scope = ''s'', se_SchemaUrl = [], se_Items = [n]\<rparr>]\<rparr>]"

definition keeping :: "('b, 'b list, nats_error) consumer" where
  "keeping b w = (None, w @ [b])"

lemma keeping_laws: "keeps_taken keeping (\<lambda>w. w)" "takes_given keeping (\<lambda>w. w)"
  by (auto simp: keeps_taken_def takes_given_def keeping_def)

definition example_encode :: "codec \<Rightarrow> (string, string, nat) batch \<Rightarrow> string" where
  "example_encode c b = (if b = project_record ''a'' 1 then ''one'' else ''two'')"

definition example_unmarshal :: "codec \<Rightarrow> string \<Rightarrow> nats_error + (string, string, nat) batch" where
  "example_unmarshal c p = Inr (if p = ''one'' then project_record ''a'' 1 else project_record ''b'' 2)"

definition example_pipeline_config :: ExporterConfig where
  "example_pipeline_config =
     (let sg = \<lparr>sg_Subject = ''otlp.x'', sg_Encoding = ''otlp_json''\<rparr> in
      \<lparr>ec_URL = ''nats'', ec_Stream = [], ec_CredentialsFile = [], ec_SubjectFromAttribute = ''project'',
       ec_Logs = sg, ec_Metrics = sg, ec_Traces = sg\<rparr>)"

definition example_client :: "(nat, nat, nat) NatsClient" where
  "example_client = \<lparr>nc_LoadTLSConfig = Inr None, nc_Connect = (\<lambda>u os. Inr 7), nc_JetStream_New = (\<lambda>c. Inr 0), nc_Drain = (\<lambda>c. None)\<rparr>"

theorem telemetry_arrives_witness:
  "\<exists>(r :: (nat, nat, nat, (string, string, nat) batch list) natsReceiver) e.
     exporter_start example_client ''id'' example_pipeline_config
       \<lparr>ne_logsMarshaler = JSONCodec, ne_metricsMarshaler = JSONCodec, ne_tracesMarshaler = JSONCodec, ne_conn = None, ne_js = None\<rparr> = (None, e, []) \<and>
     ConsumeLogs (\<lambda>ld. length (items ld)) (pushLogs (\<lambda>res a. Some res) (\<lambda>c b. Inr (example_encode c b)) inbox example_pipeline_config e)
       (project_record ''a'' 1 @ project_record ''b'' 2) [] = (None, [(''a'', ''one''), (''b'', ''two'')]) \<and>
     carries items (\<lambda>x. item_resource x = ''a'') (\<lambda>w. w) (project_record ''a'' 1 @ project_record ''b'' 2) (queue_of r [''one''] [])"
proof -
  let ?ecfg = example_pipeline_config and ?rcfg = example_receiver_config and ?attr = "\<lambda>res a. Some res"
  let ?ld = "project_record ''a'' 1 @ project_record ''b'' 2" and ?takes = "\<lambda>s. s = ''a''"
  let ?built = "\<lparr>ne_logsMarshaler = JSONCodec, ne_metricsMarshaler = JSONCodec, ne_tracesMarshaler = JSONCodec, ne_conn = None, ne_js = None\<rparr> :: (nat, nat) natsExporter"
  let ?started = "?built\<lparr>ne_conn := Some 7\<rparr>"
  have v: "exporter_Validate ?ecfg = None" "receiver_Validate ?rcfg = None" by code_simp+
  have enc: "sg_Encoding (ec_Logs ?ecfg) = sg_Encoding (rc_Logs ?rcfg)" "sg_Encoding (ec_Traces ?ecfg) = sg_Encoding (rc_Traces ?rcfg)"
    "sg_Encoding (ec_Metrics ?ecfg) = sg_Encoding (rc_Metrics ?rcfg)" by code_simp+
  have new: "newExporter ?ecfg = Inr ?built"
    by code_simp
  have start: "exporter_start example_client ''id'' ?ecfg ?built = (None, ?started, [])"
    by (simp add: exporter_start_def example_client_def example_pipeline_config_def Let_def)
  have split: "splitLogs (\<lambda>ld. length (items ld)) ?ld = [project_record ''a'' 1, project_record ''b'' 2]" by code_simp
  have undo: "example_unmarshal c (example_encode c b) = Inr b" if "b \<in> set (splitLogs (\<lambda>ld. length (items ld)) ?ld)" for c b
    using that unfolding split by (auto simp: example_unmarshal_def example_encode_def)
  have none: "\<And>(c :: codec) (b :: (string, string, nat) batch). b \<in> set (splitTraces (\<lambda>td. length (items td)) []) \<Longrightarrow> Inr [] = (Inr b :: nats_error + _)"
    "\<And>(c :: codec) (b :: (string, string, nat Metric) batch). b \<in> set (splitMetrics (\<lambda>md. length (points md)) []) \<Longrightarrow> Inr [] = (Inr b :: nats_error + _)"
    by (simp_all add: splitTraces_def splitMetrics_def)
  have "\<exists>msgs (r :: (nat, nat, nat, (string, string, nat) batch list) natsReceiver).
     ConsumeLogs (\<lambda>ld. length (items ld)) (pushLogs ?attr (\<lambda>c b. Inr (example_encode c b)) inbox ?ecfg ?started) ?ld [] = (None, msgs) \<and>
     newLogsReceiver None example_unmarshal (\<lambda>ld. length (items ld)) ?rcfg keeping = Inr r \<and>
     carries items (\<lambda>x. ?takes (route_subject ?attr ?ecfg (ec_Logs ?ecfg) (length (items ?ld)) ?ld x)) (\<lambda>w. w) ?ld (queue_of r (stream_messages ?takes msgs) [])"
    by (rule telemetry_arrives [where et = "\<lambda>c b. []" and em = "\<lambda>c b. []" and ut = "\<lambda>c p. Inr []" and um = "\<lambda>c p. Inr []"
        and mt = "\<lambda>c b. Inr []" and mm = "\<lambda>c b. Inr []", OF v enc new start refl refl refl undo none
        keeping_laws keeping_laws keeping_laws, THEN conjunct1])
  moreover have "ConsumeLogs (\<lambda>ld. length (items ld)) (pushLogs ?attr (\<lambda>c b. Inr (example_encode c b)) inbox ?ecfg ?started) ?ld [] =
    (None, [(''a'', ''one''), (''b'', ''two'')])" by code_simp
  moreover have "stream_messages ?takes [(''a'', ''one''), (''b'', ''two'')] = [''one'']" by (simp add: stream_messages_def)
  moreover have "length (items ?ld) = 2" by code_simp
  then have "route_subject ?attr ?ecfg (ec_Logs ?ecfg) (length (items ?ld)) ?ld x = item_resource x" for x :: "(string, string) origin \<times> nat"
    by (simp add: subjectFor_def example_pipeline_config_def Let_def routing_resource_def)
  ultimately show ?thesis using start by auto
qed

end
