(* ===== verification/Factories.thy ===== *)
theory Factories
  imports NatsReceiver
begin

text \<open>
  How the collector makes its components (factory.go and internal/metadata of \<^verbatim>\<open>exporter/natsexporter\<close>,
  \<^verbatim>\<open>receiver/natsreceiver\<close> and \<^verbatim>\<open>processor/unbatchprocessor\<close>): the registered types and defaults, and the
  constructors, which read the configuration out of an interface value. The exporter helper of the collector
  and its timeout, retry and queue settings are parameters.
\<close>

section \<open>Types and stability\<close>

datatype StabilityLevel = Undefined | Unmaintained | Deprecated | Development | Alpha | Beta | Stable

text \<open>
  \<^verbatim>\<open>component.MustNewType\<close> panics (\<open>None\<close>) unless the name is a letter followed by at most 62 letters,
  digits and underscores.
\<close>

definition letter :: "char \<Rightarrow> bool" where
  "letter c \<longleftrightarrow> char_in CHR ''a'' CHR ''z'' c \<or> char_in CHR ''A'' CHR ''Z'' c"

definition MustNewType :: "string \<Rightarrow> string option" where
  "MustNewType name =
     (case name of
        c # cs \<Rightarrow> if letter c \<and> length cs < 63 \<and> list_all (\<lambda>d. letter d \<or> is_digit d \<or> d = CHR ''_'') cs then Some name else None
      | [] \<Rightarrow> None)"

text \<open>What a package registers: its type, its default configuration and a constructor for each signal.\<close>

record ('cfg, 'l, 'm, 't) Factory =
  fa_Type :: "string option"
  fa_DefaultConfig :: 'cfg
  fa_Logs :: "'l \<times> StabilityLevel"
  fa_Metrics :: "'m \<times> StabilityLevel"
  fa_Traces :: "'t \<times> StabilityLevel"

definition exporter_Type :: "string option" where "exporter_Type = MustNewType ''nats''"
definition exporter_Stability :: StabilityLevel where "exporter_Stability = Development"
definition receiver_Type :: "string option" where "receiver_Type = MustNewType ''nats''"
definition receiver_Stability :: StabilityLevel where "receiver_Stability = Development"
definition unbatch_Type :: "string option" where "unbatch_Type = MustNewType ''unbatch''"
definition unbatch_Stability :: StabilityLevel where "unbatch_Stability = Development"

section \<open>Configurations behind the interface\<close>

text \<open>The settings of the exporter with those it only hands to the helper.\<close>

record ('to, 'ry, 'qu) HelpedConfig =
  xc_Config :: ExporterConfig
  xc_TimeoutConfig :: 'to
  xc_RetryConfig :: 'ry
  xc_QueueConfig :: "'qu option"

text \<open>A \<^verbatim>\<open>component.Config\<close> is a pointer, nil or not, to the settings of one of the packages or of another one.\<close>

datatype ('to, 'ry, 'qu) component_config =
    ExporterConfigPtr "('to, 'ry, 'qu) HelpedConfig option"
  | ReceiverConfigPtr "ReceiverConfig option"
  | UnbatchConfigPtr
  | OtherConfigPtr

datatype create_error =
    CreateFailed nats_error
  | AssertionPanic
  | NilConfigPanic

fun exporter_config :: "('to, 'ry, 'qu) component_config \<Rightarrow> create_error + ('to, 'ry, 'qu) HelpedConfig" where
  "exporter_config (ExporterConfigPtr (Some c)) = Inr c"
| "exporter_config (ExporterConfigPtr None) = Inl NilConfigPanic"
| "exporter_config _ = Inl AssertionPanic"

fun receiver_config :: "('to, 'ry, 'qu) component_config \<Rightarrow> create_error + ReceiverConfig" where
  "receiver_config (ReceiverConfigPtr (Some c)) = Inr c"
| "receiver_config (ReceiverConfigPtr None) = Inl NilConfigPanic"
| "receiver_config _ = Inl AssertionPanic"

definition created :: "nats_error + 'a \<Rightarrow> create_error + 'a" where
  "created = map_sum CreateFailed (\<lambda>x. x)"

section \<open>The exporter\<close>

text \<open>The defaults of the helper are \<open>to\<close>, \<open>ry\<close> and \<open>qu\<close>.\<close>

definition exporter_default :: "'to \<Rightarrow> 'ry \<Rightarrow> 'qu \<Rightarrow> ('to, 'ry, 'qu) component_config" where
  "exporter_default to ry qu = ExporterConfigPtr (Some
     \<lparr>xc_Config = exporter_createDefaultConfig, xc_TimeoutConfig = to, xc_RetryConfig = ry, xc_QueueConfig = Some qu\<rparr>)"

text \<open>What the helper is given: the exporter, the methods bound to it, and the options.\<close>

record ('c, 'j, 'b, 'w, 'to, 'ry, 'qu) helper_options =
  ho_exporter :: "('c, 'j) natsExporter"
  ho_push :: "('c, 'j) natsExporter \<Rightarrow> ('b, 'w, nats_error) consumer"
  ho_MutatesData :: bool
  ho_Timeout :: 'to
  ho_Retry :: 'ry
  ho_Queue :: "'qu option"
  ho_start :: "('c, 'j) natsExporter \<Rightarrow> nats_error option \<times> ('c, 'j) natsExporter \<times> 'c conn_call list"
  ho_shutdown :: "('c, 'j) natsExporter \<Rightarrow> nats_error option \<times> 'c conn_call list"

definition helped ::
  "('c, 'j, 'tls) NatsClient \<Rightarrow> string \<Rightarrow> ('to, 'ry, 'qu) HelpedConfig \<Rightarrow> (('c, 'j) natsExporter \<Rightarrow> ('b, 'w, nats_error) consumer) \<Rightarrow>
   ('c, 'j) natsExporter \<Rightarrow> ('c, 'j, 'b, 'w, 'to, 'ry, 'qu) helper_options" where
  "helped cli ident oCfg push ex =
     \<lparr>ho_exporter = ex, ho_push = push, ho_MutatesData = False, ho_Timeout = xc_TimeoutConfig oCfg,
      ho_Retry = xc_RetryConfig oCfg, ho_Queue = xc_QueueConfig oCfg,
      ho_start = exporter_start cli ident (xc_Config oCfg), ho_shutdown = exporter_shutdown cli\<rparr>"

definition createLogsExporter ::
  "(('c, 'j, ('re, 'sc, 'lr) batch, 'w, 'to, 'ry, 'qu) helper_options \<Rightarrow> nats_error + 'x) \<Rightarrow> ('re \<Rightarrow> string \<Rightarrow> string option) \<Rightarrow>
   (codec \<Rightarrow> ('re, 'sc, 'lr) batch \<Rightarrow> nats_error + string) \<Rightarrow> ('c, 'j, 'w) Publishers \<Rightarrow> ('c, 'j, 'tls) NatsClient \<Rightarrow> string \<Rightarrow>
   ('to, 'ry, 'qu) component_config \<Rightarrow> create_error + 'x" where
  "createLogsExporter NewLogs attr marshal pb cli ident cfg =
     res_bind (exporter_config cfg) (\<lambda>oCfg.
     res_bind (created (newExporter (xc_Config oCfg))) (\<lambda>ex.
       created (NewLogs (helped cli ident oCfg (pushLogs attr marshal pb (xc_Config oCfg)) ex))))"

definition createMetricsExporter ::
  "(('c, 'j, ('re, 'sc, 'dp Metric) batch, 'w, 'to, 'ry, 'qu) helper_options \<Rightarrow> nats_error + 'x) \<Rightarrow> ('re \<Rightarrow> string \<Rightarrow> string option) \<Rightarrow>
   (codec \<Rightarrow> ('re, 'sc, 'dp Metric) batch \<Rightarrow> nats_error + string) \<Rightarrow> ('c, 'j, 'w) Publishers \<Rightarrow> ('c, 'j, 'tls) NatsClient \<Rightarrow> string \<Rightarrow>
   ('to, 'ry, 'qu) component_config \<Rightarrow> create_error + 'x" where
  "createMetricsExporter NewMetrics attr marshal pb cli ident cfg =
     res_bind (exporter_config cfg) (\<lambda>oCfg.
     res_bind (created (newExporter (xc_Config oCfg))) (\<lambda>ex.
       created (NewMetrics (helped cli ident oCfg (pushMetrics attr marshal pb (xc_Config oCfg)) ex))))"

definition createTracesExporter ::
  "(('c, 'j, ('re, 'sc, 'span) batch, 'w, 'to, 'ry, 'qu) helper_options \<Rightarrow> nats_error + 'x) \<Rightarrow> ('re \<Rightarrow> string \<Rightarrow> string option) \<Rightarrow>
   (codec \<Rightarrow> ('re, 'sc, 'span) batch \<Rightarrow> nats_error + string) \<Rightarrow> ('c, 'j, 'w) Publishers \<Rightarrow> ('c, 'j, 'tls) NatsClient \<Rightarrow> string \<Rightarrow>
   ('to, 'ry, 'qu) component_config \<Rightarrow> create_error + 'x" where
  "createTracesExporter NewTraces attr marshal pb cli ident cfg =
     res_bind (exporter_config cfg) (\<lambda>oCfg.
     res_bind (created (newExporter (xc_Config oCfg))) (\<lambda>ex.
       created (NewTraces (helped cli ident oCfg (pushTraces attr marshal pb (xc_Config oCfg)) ex))))"

definition exporter_NewFactory ::
  "('to, 'ry, 'qu) component_config \<Rightarrow> 'l \<Rightarrow> 'm \<Rightarrow> 't \<Rightarrow> (('to, 'ry, 'qu) component_config, 'l, 'm, 't) Factory" where
  "exporter_NewFactory defaults createLogs createMetrics createTraces =
     \<lparr>fa_Type = exporter_Type, fa_DefaultConfig = defaults, fa_Logs = (createLogs, exporter_Stability),
      fa_Metrics = (createMetrics, exporter_Stability), fa_Traces = (createTraces, exporter_Stability)\<rparr>"

section \<open>The receiver\<close>

definition createLogsReceiver ::
  "nats_error option \<Rightarrow> (codec \<Rightarrow> string \<Rightarrow> nats_error + ('re, 'sc, 'lr) batch) \<Rightarrow> (('re, 'sc, 'lr) batch \<Rightarrow> nat) \<Rightarrow>
   ('to, 'ry, 'qu) component_config \<Rightarrow> (('re, 'sc, 'lr) batch, 'w, nats_error) consumer \<Rightarrow> create_error + ('c, 'x, 's, 'w) natsReceiver" where
  "createLogsReceiver obs_err unmarshal counter cfg nxt =
     res_bind (receiver_config cfg) (\<lambda>rCfg. created (newLogsReceiver obs_err unmarshal counter rCfg nxt))"

definition createMetricsReceiver ::
  "nats_error option \<Rightarrow> (codec \<Rightarrow> string \<Rightarrow> nats_error + ('re, 'sc, 'dp Metric) batch) \<Rightarrow> (('re, 'sc, 'dp Metric) batch \<Rightarrow> nat) \<Rightarrow>
   ('to, 'ry, 'qu) component_config \<Rightarrow> (('re, 'sc, 'dp Metric) batch, 'w, nats_error) consumer \<Rightarrow> create_error + ('c, 'x, 's, 'w) natsReceiver" where
  "createMetricsReceiver obs_err unmarshal counter cfg nxt =
     res_bind (receiver_config cfg) (\<lambda>rCfg. created (newMetricsReceiver obs_err unmarshal counter rCfg nxt))"

definition createTracesReceiver ::
  "nats_error option \<Rightarrow> (codec \<Rightarrow> string \<Rightarrow> nats_error + ('re, 'sc, 'span) batch) \<Rightarrow> (('re, 'sc, 'span) batch \<Rightarrow> nat) \<Rightarrow>
   ('to, 'ry, 'qu) component_config \<Rightarrow> (('re, 'sc, 'span) batch, 'w, nats_error) consumer \<Rightarrow> create_error + ('c, 'x, 's, 'w) natsReceiver" where
  "createTracesReceiver obs_err unmarshal counter cfg nxt =
     res_bind (receiver_config cfg) (\<lambda>rCfg. created (newTracesReceiver obs_err unmarshal counter rCfg nxt))"

definition receiver_NewFactory ::
  "'l \<Rightarrow> 'm \<Rightarrow> 't \<Rightarrow> (('to, 'ry, 'qu) component_config, 'l, 'm, 't) Factory" where
  "receiver_NewFactory createLogs createMetrics createTraces =
     \<lparr>fa_Type = receiver_Type, fa_DefaultConfig = ReceiverConfigPtr (Some receiver_createDefaultConfig),
      fa_Logs = (createLogs, receiver_Stability), fa_Metrics = (createMetrics, receiver_Stability),
      fa_Traces = (createTraces, receiver_Stability)\<rparr>"

section \<open>The unbatch processor\<close>

text \<open>Its configuration is empty and always valid; a component is its next consumer.\<close>

definition unbatch_Validate :: "('to, 'ry, 'qu) component_config \<Rightarrow> nats_error option" where
  "unbatch_Validate cfg = None"

record ('b, 'w, 'err) unbatch =
  ub_next :: "('b, 'w, 'err) consumer"

definition unbatch_MutatesData :: "('b, 'w, 'err) unbatch \<Rightarrow> bool" where "unbatch_MutatesData p = False"
definition unbatch_Start :: "('b, 'w, 'err) unbatch \<Rightarrow> 'err option" where "unbatch_Start p = None"
definition unbatch_Shutdown :: "('b, 'w, 'err) unbatch \<Rightarrow> 'err option" where "unbatch_Shutdown p = None"

definition newUnbatchLogs :: "(('re, 'sc, 'lr) batch, 'w, 'err) consumer \<Rightarrow> (('re, 'sc, 'lr) batch, 'w, 'err) unbatch" where
  "newUnbatchLogs nxt = \<lparr>ub_next = nxt\<rparr>"

definition newUnbatchTraces :: "(('re, 'sc, 'span) batch, 'w, 'err) consumer \<Rightarrow> (('re, 'sc, 'span) batch, 'w, 'err) unbatch" where
  "newUnbatchTraces nxt = \<lparr>ub_next = nxt\<rparr>"

definition newUnbatchMetrics :: "(('re, 'sc, 'dp Metric) batch, 'w, 'err) consumer \<Rightarrow> (('re, 'sc, 'dp Metric) batch, 'w, 'err) unbatch" where
  "newUnbatchMetrics nxt = \<lparr>ub_next = nxt\<rparr>"

definition createLogsProcessor ::
  "('to, 'ry, 'qu) component_config \<Rightarrow> (('re, 'sc, 'lr) batch, 'w, 'err) consumer \<Rightarrow> create_error + (('re, 'sc, 'lr) batch, 'w, 'err) unbatch" where
  "createLogsProcessor cfg nextConsumer = Inr (newUnbatchLogs nextConsumer)"

definition createTracesProcessor ::
  "('to, 'ry, 'qu) component_config \<Rightarrow> (('re, 'sc, 'span) batch, 'w, 'err) consumer \<Rightarrow> create_error + (('re, 'sc, 'span) batch, 'w, 'err) unbatch" where
  "createTracesProcessor cfg nextConsumer = Inr (newUnbatchTraces nextConsumer)"

definition createMetricsProcessor ::
  "('to, 'ry, 'qu) component_config \<Rightarrow> (('re, 'sc, 'dp Metric) batch, 'w, 'err) consumer \<Rightarrow> create_error + (('re, 'sc, 'dp Metric) batch, 'w, 'err) unbatch" where
  "createMetricsProcessor cfg nextConsumer = Inr (newUnbatchMetrics nextConsumer)"

definition unbatch_NewFactory :: "'l \<Rightarrow> 'm \<Rightarrow> 't \<Rightarrow> (('to, 'ry, 'qu) component_config, 'l, 'm, 't) Factory" where
  "unbatch_NewFactory createLogs createMetrics createTraces =
     \<lparr>fa_Type = unbatch_Type, fa_DefaultConfig = UnbatchConfigPtr, fa_Logs = (createLogs, unbatch_Stability),
      fa_Metrics = (createMetrics, unbatch_Stability), fa_Traces = (createTraces, unbatch_Stability)\<rparr>"

section \<open>Lemmas\<close>

lemma types_registered: "exporter_Type = Some ''nats''" "receiver_Type = Some ''nats''" "unbatch_Type = Some ''unbatch''"
  by code_simp+

definition fresh_exporter :: "ExporterConfig \<Rightarrow> ('c, 'j) natsExporter" where
  "fresh_exporter c = \<lparr>ne_logsMarshaler = signal_codec (ec_Logs c), ne_metricsMarshaler = signal_codec (ec_Metrics c),
     ne_tracesMarshaler = signal_codec (ec_Traces c), ne_conn = None, ne_js = None\<rparr>"

text \<open>
  A configuration the collector has validated makes a component for every signal: the exporter is given
  to the helper unconnected, with its own signal's push and the codec of its encoding, the receiver
  decodes with the codec of its encoding into the next consumer.
\<close>

theorem validated_exporter_created:
  assumes "exporter_Validate (xc_Config c) = None"
  shows "createLogsExporter NewLogs attr ml pb cli ident (ExporterConfigPtr (Some c)) =
      created (NewLogs (helped cli ident c (pushLogs attr ml pb (xc_Config c)) (fresh_exporter (xc_Config c))))"
    "createMetricsExporter NewMetrics attr mm pb cli ident (ExporterConfigPtr (Some c)) =
      created (NewMetrics (helped cli ident c (pushMetrics attr mm pb (xc_Config c)) (fresh_exporter (xc_Config c))))"
    "createTracesExporter NewTraces attr mt pb cli ident (ExporterConfigPtr (Some c)) =
      created (NewTraces (helped cli ident c (pushTraces attr mt pb (xc_Config c)) (fresh_exporter (xc_Config c))))"
  by (simp_all add: newExporter_valid [OF assms] fresh_exporter_def signal_codec_def createLogsExporter_def createMetricsExporter_def createTracesExporter_def created_def res_bind_def)

theorem validated_receiver_created:
  assumes "receiver_Validate c = None"
  shows "createLogsReceiver None ul nl (ReceiverConfigPtr (Some c)) next_l =
      Inr (new_receiver (rc_Logs c) (deliverLogs (ul (signal_codec (rc_Logs c))) (sg_Encoding (rc_Logs c)) nl next_l))"
    "createMetricsReceiver None um nm (ReceiverConfigPtr (Some c)) next_m =
      Inr (new_receiver (rc_Metrics c) (deliverMetrics (um (signal_codec (rc_Metrics c))) (sg_Encoding (rc_Metrics c)) nm next_m))"
    "createTracesReceiver None ut nt (ReceiverConfigPtr (Some c)) next_t =
      Inr (new_receiver (rc_Traces c) (deliverTraces (ut (signal_codec (rc_Traces c))) (sg_Encoding (rc_Traces c)) nt next_t))"
  by (simp_all add: createLogsReceiver_def createMetricsReceiver_def createTracesReceiver_def newReceiver_valid [OF assms]
    created_def)

text \<open>
  The defaults lack only what has none: the exporter's a server, the receiver's a server and a subject for
  each of the three signals, whichever of them it is used for.
\<close>

theorem defaults_completed:
  "exporter_Validate exporter_createDefaultConfig = Some UrlNotSet"
  "url \<noteq> [] \<Longrightarrow> exporter_Validate (exporter_createDefaultConfig\<lparr>ec_URL := url\<rparr>) = None"
  "receiver_Validate (receiver_createDefaultConfig\<lparr>rc_URL := url, rc_Logs := \<lparr>sg_Subject = sl, sg_Encoding = encodingOTLPProto\<rparr>,
     rc_Metrics := \<lparr>sg_Subject = sm, sg_Encoding = encodingOTLPProto\<rparr>, rc_Traces := \<lparr>sg_Subject = st, sg_Encoding = encodingOTLPProto\<rparr>\<rparr>) = None \<longleftrightarrow>
   url \<noteq> [] \<and> sl \<noteq> [] \<and> sm \<noteq> [] \<and> st \<noteq> []"
  by (auto simp: exporter_Validate_def exporter_createDefaultConfig_def exporter_signal_validate_def receiver_Validate_None
    valid_signal_def receiver_createDefaultConfig_def)

text \<open>The interface value of another component panics in the constructor rather than being misread.\<close>

theorem foreign_config_panics:
  "(\<nexists>c. cfg = ExporterConfigPtr c) \<Longrightarrow> createLogsExporter NewLogs attr ml pb cli ident cfg = Inl AssertionPanic"
  "(\<nexists>c. cfg = ReceiverConfigPtr c) \<Longrightarrow> createLogsReceiver obs ul nl cfg nxt = Inl AssertionPanic"
  by (cases cfg; simp add: createLogsExporter_def createLogsReceiver_def res_bind_def)+

end
