(* ===== verification/GoHeap.thy ===== *)
theory GoHeap
  imports Prelude "HOL-Library.Monad_Syntax"
begin

text \<open>
  Memory, as far as sharing matters: objects at addresses, allocation, pointers and slices, and what it
  means to copy a value deeply. A value that holds references is related to the value it stands for by
  \<open>val\<close>, which is \<open>None\<close> when a reference leads to no object of its type, and to the addresses it reaches
  by \<open>foot\<close>. The locale \<open>represents\<close> is the contract of such a pair and \<open>deep_copier\<close> the contract of a
  copy; pointers, slices and structs inherit it from what they are made of.
\<close>

section \<open>Objects\<close>

type_synonym addr = nat

datatype 'o heap = Heap (hp_store: "addr \<rightharpoonup> 'o") (hp_next: addr)

definition alloc :: "'o \<Rightarrow> 'o heap \<Rightarrow> addr \<times> 'o heap" where
  "alloc x h = (hp_next h, Heap ((hp_store h)(hp_next h \<mapsto> x)) (Suc (hp_next h)))"

definition put :: "addr \<Rightarrow> 'o \<Rightarrow> 'o heap \<Rightarrow> 'o heap" where
  "put a x h = Heap ((hp_store h)(a \<mapsto> x)) (hp_next h)"

text \<open>Nothing is stored where nothing was allocated.\<close>

definition wf_heap :: "'o heap \<Rightarrow> bool" where
  "wf_heap h \<longleftrightarrow> (\<forall>a \<ge> hp_next h. hp_store h a = None)"

definition extends :: "'o heap \<Rightarrow> 'o heap \<Rightarrow> bool" where
  "extends h h' \<longleftrightarrow> hp_next h \<le> hp_next h' \<and> (\<forall>a < hp_next h. hp_store h' a = hp_store h a)"

text \<open>\<open>h'\<close> may differ from \<open>h\<close> at the addresses of \<open>S\<close>, and has new objects.\<close>

definition changes_only :: "addr set \<Rightarrow> 'o heap \<Rightarrow> 'o heap \<Rightarrow> bool" where
  "changes_only S h h' \<longleftrightarrow> hp_next h \<le> hp_next h' \<and> (\<forall>a < hp_next h. a \<notin> S \<longrightarrow> hp_store h' a = hp_store h a)"

lemma wf_heap_dom: "wf_heap h \<Longrightarrow> dom (hp_store h) \<subseteq> {..<hp_next h}"
  unfolding wf_heap_def by (metis domD lessThan_iff not_le_imp_less option.distinct(1) subsetI)

lemma extends_refl [simp, intro]: "extends h h"
  by (simp add: extends_def)

lemma extends_trans: "extends h h1 \<Longrightarrow> extends h1 h2 \<Longrightarrow> extends h h2"
  by (auto simp: extends_def)

lemma extends_changes: "extends h h' \<longleftrightarrow> changes_only {} h h'"
  by (simp add: extends_def changes_only_def)

lemma changes_only_mono: "changes_only S h h' \<Longrightarrow> S \<subseteq> T \<Longrightarrow> changes_only T h h'"
  by (auto simp: changes_only_def)

lemma changes_only_trans: "changes_only S h h1 \<Longrightarrow> changes_only S h1 h2 \<Longrightarrow> changes_only S h h2"
  by (simp add: changes_only_def)

lemma changes_put: "a \<in> S \<Longrightarrow> changes_only S h (put a x h)"
  by (auto simp: changes_only_def put_def)

text \<open>Changes to what is newer than \<open>h\<close> are no changes of \<open>h\<close>.\<close>

lemma changes_newer: "changes_only S h h1 \<Longrightarrow> changes_only T h1 h2 \<Longrightarrow> T \<inter> {..<hp_next h} \<subseteq> S \<Longrightarrow> changes_only S h h2"
  unfolding changes_only_def by (metis IntI lessThan_iff order_less_le_trans order_trans subsetD)

lemma alloc_props:
  assumes "wf_heap h" "alloc x h = (b, h')"
  shows "wf_heap h'" "extends h h'" "hp_store h' b = Some x" "b = hp_next h" "hp_next h' = Suc (hp_next h)"
  using assms by (auto simp: alloc_def wf_heap_def extends_def)

lemma put_store [simp]: "hp_store (put a x h) = (hp_store h)(a \<mapsto> x)" "hp_next (put a x h) = hp_next h"
  by (simp_all add: put_def)

lemma put_props:
  assumes "wf_heap h" "a < hp_next h"
  shows "wf_heap (put a x h)" "hp_next h0 \<le> a \<Longrightarrow> extends h0 h \<Longrightarrow> extends h0 (put a x h)"
  using assms by (auto simp: wf_heap_def extends_def)

section \<open>Values with references\<close>

locale represents =
  fixes val :: "'o heap \<Rightarrow> 'v \<Rightarrow> 'a option" and foot :: "'o heap \<Rightarrow> 'v \<Rightarrow> addr set"
  assumes val_dom: "val h v = Some a \<Longrightarrow> foot h v \<subseteq> dom (hp_store h)"
    and val_local: "val h v = Some a \<Longrightarrow> \<forall>x \<in> foot h v. hp_store h' x = hp_store h x \<Longrightarrow> val h' v = Some a \<and> foot h' v = foot h v"
begin

text \<open>A value survives every change of memory it does not reach.\<close>

lemma val_frame:
  assumes "wf_heap h" "val h v = Some a" "changes_only S h h'" "foot h v \<inter> S = {}"
  shows "val h' v = Some a \<and> foot h' v = foot h v"
  using assms val_dom [OF assms(2)] wf_heap_dom [OF assms(1)] by (intro val_local) (auto simp: changes_only_def)

lemma val_extends:
  assumes "wf_heap h" "val h v = Some a" "extends h h'"
  shows "val h' v = Some a \<and> foot h' v = foot h v"
  using val_frame [OF assms(1,2)] assms(3) by (auto simp: extends_changes)

lemma foot_below: "wf_heap h \<Longrightarrow> val h v = Some a \<Longrightarrow> foot h v \<subseteq> {..<hp_next h}"
  using val_dom [of h v a] wf_heap_dom [of h] by blast

end

text \<open>
  Two values that stand for the same and share nothing: whatever is then written through one of them, the
  other keeps its value.
\<close>

definition copied_apart :: "('o heap \<Rightarrow> 'v \<Rightarrow> 'a option) \<Rightarrow> ('o heap \<Rightarrow> 'v \<Rightarrow> addr set) \<Rightarrow> 'o heap \<Rightarrow> 'v \<Rightarrow> 'v \<Rightarrow> 'a \<Rightarrow> bool" where
  "copied_apart val foot h v v' a \<longleftrightarrow> val h v = Some a \<and> val h v' = Some a \<and> foot h v \<inter> foot h v' = {} \<and>
     (\<forall>h'. changes_only (foot h v') h h' \<longrightarrow> val h' v = Some a) \<and> (\<forall>h'. changes_only (foot h v) h h' \<longrightarrow> val h' v' = Some a)"

locale deep_copier = represents val foot
  for val :: "'o heap \<Rightarrow> 'v \<Rightarrow> 'a option" and foot :: "'o heap \<Rightarrow> 'v \<Rightarrow> addr set" +
  fixes copy :: "'v \<Rightarrow> 'o heap \<Rightarrow> ('v \<times> 'o heap) option"
  assumes copies: "wf_heap h \<Longrightarrow> val h v = Some a \<Longrightarrow>
    \<exists>v' h'. copy v h = Some (v', h') \<and> wf_heap h' \<and> extends h h' \<and> val h' v' = Some a \<and> foot h' v' \<inter> {..<hp_next h} = {}"
begin

lemma copy_independent:
  assumes "wf_heap h" "val h v = Some a"
  shows "\<exists>v' h'. copy v h = Some (v', h') \<and> wf_heap h' \<and> extends h h' \<and> copied_apart val foot h' v v' a"
proof -
  from copies [OF assms] obtain v' h' where c: "copy v h = Some (v', h')" "wf_heap h'" "extends h h'" "val h' v' = Some a"
    "foot h' v' \<inter> {..<hp_next h} = {}" by blast
  have v: "val h' v = Some a" "foot h' v = foot h v" using val_extends [OF assms c(3)] by simp_all
  have d: "foot h' v' \<inter> foot h' v = {}" using c(5) foot_below [OF assms] v(2) by auto
  then have d': "foot h' v \<inter> foot h' v' = {}" by auto
  show ?thesis using c(1-4) v(1) d' val_frame [OF c(2) v(1) _ d'] val_frame [OF c(2) c(4) _ d] by (auto simp: copied_apart_def)
qed

end

section \<open>Values without references\<close>

definition plain_val :: "'o heap \<Rightarrow> 'v \<Rightarrow> 'v option" where "plain_val h v = Some v"
definition plain_foot :: "'o heap \<Rightarrow> 'v \<Rightarrow> addr set" where "plain_foot h v = {}"

text \<open>\<^verbatim>\<open>*out = *in\<close>\<close>

definition copy_plain :: "'v \<Rightarrow> 'o heap \<Rightarrow> ('v \<times> 'o heap) option" where "copy_plain v h = Some (v, h)"

interpretation plain: deep_copier plain_val plain_foot copy_plain
  by unfold_locales (simp_all add: plain_val_def plain_foot_def copy_plain_def)

section \<open>Pairs and structs\<close>

definition pair_val :: "('o heap \<Rightarrow> 'v \<Rightarrow> 'a option) \<Rightarrow> ('o heap \<Rightarrow> 'w \<Rightarrow> 'b option) \<Rightarrow> 'o heap \<Rightarrow> 'v \<times> 'w \<Rightarrow> ('a \<times> 'b) option" where
  "pair_val v1 v2 h p = do {a \<leftarrow> v1 h (fst p); b \<leftarrow> v2 h (snd p); Some (a, b)}"

definition pair_foot :: "('o heap \<Rightarrow> 'v \<Rightarrow> addr set) \<Rightarrow> ('o heap \<Rightarrow> 'w \<Rightarrow> addr set) \<Rightarrow> 'o heap \<Rightarrow> 'v \<times> 'w \<Rightarrow> addr set" where
  "pair_foot f1 f2 h p = f1 h (fst p) \<union> f2 h (snd p)"

definition copy_pair ::
  "('v \<Rightarrow> 'o heap \<Rightarrow> ('v \<times> 'o heap) option) \<Rightarrow> ('w \<Rightarrow> 'o heap \<Rightarrow> ('w \<times> 'o heap) option) \<Rightarrow> 'v \<times> 'w \<Rightarrow> 'o heap \<Rightarrow> (('v \<times> 'w) \<times> 'o heap) option" where
  "copy_pair c1 c2 p h = do {(x, h1) \<leftarrow> c1 (fst p) h; (y, h2) \<leftarrow> c2 (snd p) h1; Some ((x, y), h2)}"

lemma represents_pair:
  assumes "represents v1 f1" "represents v2 f2"
  shows "represents (pair_val v1 v2) (pair_foot f1 f2)"
proof
  fix h p a assume "pair_val v1 v2 h p = Some a"
  then show "pair_foot f1 f2 h p \<subseteq> dom (hp_store h)"
    using represents.val_dom [OF assms(1)] represents.val_dom [OF assms(2)]
    by (auto simp: pair_val_def pair_foot_def bind_eq_Some_conv) blast+
next
  fix h h' p a assume a: "pair_val v1 v2 h p = Some a" "\<forall>x \<in> pair_foot f1 f2 h p. hp_store h' x = hp_store h x"
  then obtain x y where "v1 h (fst p) = Some x" "v2 h (snd p) = Some y" "a = (x, y)" by (auto simp: pair_val_def bind_eq_Some_conv)
  then show "pair_val v1 v2 h' p = Some a \<and> pair_foot f1 f2 h' p = pair_foot f1 f2 h p"
    using represents.val_local [OF assms(1), of h "fst p" x h'] represents.val_local [OF assms(2), of h "snd p" y h'] a(2)
    by (simp add: pair_val_def pair_foot_def)
qed

lemma deep_copier_pair:
  assumes "deep_copier v1 f1 c1" "deep_copier v2 f2 c2"
  shows "deep_copier (pair_val v1 v2) (pair_foot f1 f2) (copy_pair c1 c2)"
proof (intro deep_copier.intro deep_copier_axioms.intro)
  have r1: "represents v1 f1" and r2: "represents v2 f2" using assms by (simp_all add: deep_copier_def)
  show "represents (pair_val v1 v2) (pair_foot f1 f2)" by (rule represents_pair [OF r1 r2])
  fix h p a assume h: "wf_heap h" and a: "pair_val v1 v2 h p = Some a"
  then obtain x y where xy: "v1 h (fst p) = Some x" "v2 h (snd p) = Some y" "a = (x, y)" by (auto simp: pair_val_def bind_eq_Some_conv)
  from deep_copier.copies [OF assms(1) h xy(1)] obtain x' h1 where 1: "c1 (fst p) h = Some (x', h1)" "wf_heap h1" "extends h h1"
    "v1 h1 x' = Some x" "f1 h1 x' \<inter> {..<hp_next h} = {}" by blast
  have "v2 h1 (snd p) = Some y" using represents.val_extends [OF r2 h xy(2) 1(3)] by simp
  from deep_copier.copies [OF assms(2) 1(2) this] obtain y' h2 where 2: "c2 (snd p) h1 = Some (y', h2)" "wf_heap h2" "extends h1 h2"
    "v2 h2 y' = Some y" "f2 h2 y' \<inter> {..<hp_next h1} = {}" by blast
  have 3: "v1 h2 x' = Some x" "f1 h2 x' = f1 h1 x'" using represents.val_extends [OF r1 1(2,4) 2(3)] by simp_all
  have "hp_next h \<le> hp_next h1" using 1(3) by (simp add: extends_def)
  then have "pair_foot f1 f2 h2 (x', y') \<inter> {..<hp_next h} = {}" using 1(5) 2(5) 3(2) by (fastforce simp: pair_foot_def)
  then show "\<exists>v' h'. copy_pair c1 c2 p h = Some (v', h') \<and> wf_heap h' \<and> extends h h' \<and> pair_val v1 v2 h' v' = Some a \<and>
      pair_foot f1 f2 h' v' \<inter> {..<hp_next h} = {}"
    using 1 2 3 xy(3) extends_trans [OF 1(3) 2(3)] by (auto simp: copy_pair_def pair_val_def)
qed

text \<open>A struct: the fields with references \<open>get\<close>, all others carried over by \<open>set\<close>.\<close>

definition struct_val :: "('s \<Rightarrow> 'v) \<Rightarrow> ('s \<Rightarrow> 'a \<Rightarrow> 'b) \<Rightarrow> ('o heap \<Rightarrow> 'v \<Rightarrow> 'a option) \<Rightarrow> 'o heap \<Rightarrow> 's \<Rightarrow> 'b option" where
  "struct_val get mk v h s = map_option (mk s) (v h (get s))"

definition struct_foot :: "('s \<Rightarrow> 'v) \<Rightarrow> ('o heap \<Rightarrow> 'v \<Rightarrow> addr set) \<Rightarrow> 'o heap \<Rightarrow> 's \<Rightarrow> addr set" where
  "struct_foot get f h s = f h (get s)"

lemma deep_copier_struct:
  assumes "deep_copier v f c" "\<And>s x. get (upd s x) = x" "\<And>s x. mk (upd s x) = mk s"
    "\<And>s h. copy s h = map_option (\<lambda>(x, h'). (upd s x, h')) (c (get s) h)"
  shows "deep_copier (struct_val get mk v) (struct_foot get f) copy"
proof (intro deep_copier.intro deep_copier_axioms.intro)
  have r: "represents v f" using assms(1) by (simp add: deep_copier_def)
  show "represents (struct_val get mk v) (struct_foot get f)"
  proof
    fix h s a assume "struct_val get mk v h s = Some a"
    then show "struct_foot get f h s \<subseteq> dom (hp_store h)"
      using represents.val_dom [OF r, of h "get s"] by (auto simp only: struct_val_def struct_foot_def map_option_eq_Some)
  next
    fix h h' s a assume a: "struct_val get mk v h s = Some a" "\<forall>x \<in> struct_foot get f h s. hp_store h' x = hp_store h x"
    then obtain b where "v h (get s) = Some b" "a = mk s b" by (auto simp: struct_val_def)
    then show "struct_val get mk v h' s = Some a \<and> struct_foot get f h' s = struct_foot get f h s"
      using represents.val_local [OF r, of h "get s" b h'] a(2) by (simp add: struct_val_def struct_foot_def)
  qed
  fix h s a assume h: "wf_heap h" and "struct_val get mk v h s = Some a"
  then obtain b where b: "v h (get s) = Some b" "a = mk s b" by (auto simp: struct_val_def)
  from deep_copier.copies [OF assms(1) h b(1)] obtain x h' where "c (get s) h = Some (x, h')" "wf_heap h'" "extends h h'"
    "v h' x = Some b" "f h' x \<inter> {..<hp_next h} = {}" by blast
  then show "\<exists>v' h'. copy s h = Some (v', h') \<and> wf_heap h' \<and> extends h h' \<and> struct_val get mk v h' v' = Some a \<and>
      struct_foot get f h' v' \<inter> {..<hp_next h} = {}"
    using assms(2-4) b(2) by (simp add: struct_val_def struct_foot_def)
qed

section \<open>Lists of values\<close>

fun list_val :: "('o heap \<Rightarrow> 'v \<Rightarrow> 'a option) \<Rightarrow> 'o heap \<Rightarrow> 'v list \<Rightarrow> 'a list option" where
  "list_val v h [] = Some []"
| "list_val v h (x # xs) = do {a \<leftarrow> v h x; as \<leftarrow> list_val v h xs; Some (a # as)}"

definition list_foot :: "('o heap \<Rightarrow> 'v \<Rightarrow> addr set) \<Rightarrow> 'o heap \<Rightarrow> 'v list \<Rightarrow> addr set" where
  "list_foot f h xs = (\<Union>x \<in> set xs. f h x)"

text \<open>\<^verbatim>\<open>for i := range *in { (*in)[i].DeepCopyInto(&(*out)[i]) }\<close>\<close>

fun copy_list :: "('v \<Rightarrow> 'o heap \<Rightarrow> ('v \<times> 'o heap) option) \<Rightarrow> 'v list \<Rightarrow> 'o heap \<Rightarrow> ('v list \<times> 'o heap) option" where
  "copy_list c [] h = Some ([], h)"
| "copy_list c (x # xs) h = do {(y, h1) \<leftarrow> c x h; (ys, h2) \<leftarrow> copy_list c xs h1; Some (y # ys, h2)}"

lemma list_foot_simps [simp]: "list_foot f h [] = {}" "list_foot f h (x # xs) = f h x \<union> list_foot f h xs"
  by (simp_all add: list_foot_def)

lemma list_val_conv: "list_val v h xs = Some as \<longleftrightarrow> list_all2 (\<lambda>x a. v h x = Some a) xs as"
  by (induction xs arbitrary: as) (auto simp: bind_eq_Some_conv list_all2_Cons1)

lemma represents_list:
  assumes "represents v f"
  shows "represents (list_val v) (list_foot f)"
proof
  fix h xs and as assume "list_val v h xs = Some as"
  then show "list_foot f h xs \<subseteq> dom (hp_store h)"
    using represents.val_dom [OF assms]
    by (induction xs arbitrary: as) (auto simp: bind_eq_Some_conv; blast)+
next
  fix h h' xs and as assume "list_val v h xs = Some as" "\<forall>x \<in> list_foot f h xs. hp_store h' x = hp_store h x"
  then show "list_val v h' xs = Some as \<and> list_foot f h' xs = list_foot f h xs"
  proof (induction xs arbitrary: as)
    case (Cons x xs)
    then obtain a bs where a: "v h x = Some a" "list_val v h xs = Some bs" "as = a # bs" by (auto simp: bind_eq_Some_conv)
    then show ?case using represents.val_local [OF assms, of h x a h'] Cons by simp
  qed simp
qed

lemma deep_copier_list:
  assumes "deep_copier v f c"
  shows "deep_copier (list_val v) (list_foot f) (copy_list c)"
proof (intro deep_copier.intro deep_copier_axioms.intro)
  have r: "represents v f" using assms by (simp add: deep_copier_def)
  show r': "represents (list_val v) (list_foot f)" by (rule represents_list [OF r])
  fix h xs and as assume "wf_heap h" "list_val v h xs = Some as"
  then show "\<exists>v' h'. copy_list c xs h = Some (v', h') \<and> wf_heap h' \<and> extends h h' \<and> list_val v h' v' = Some as \<and>
      list_foot f h' v' \<inter> {..<hp_next h} = {}"
  proof (induction xs arbitrary: as h)
    case (Cons x xs)
    then obtain a bs where a: "v h x = Some a" "list_val v h xs = Some bs" "as = a # bs" by (auto simp: bind_eq_Some_conv)
    from deep_copier.copies [OF assms Cons.prems(1) a(1)] obtain y h1 where 1: "c x h = Some (y, h1)" "wf_heap h1" "extends h h1"
      "v h1 y = Some a" "f h1 y \<inter> {..<hp_next h} = {}" by blast
    have "list_val v h1 xs = Some bs" using represents.val_extends [OF r' Cons.prems(1) a(2) 1(3)] by simp
    from Cons.IH [OF 1(2) this] obtain ys h2 where 2: "copy_list c xs h1 = Some (ys, h2)" "wf_heap h2" "extends h1 h2"
      "list_val v h2 ys = Some bs" "list_foot f h2 ys \<inter> {..<hp_next h1} = {}" by blast
    have 3: "v h2 y = Some a" "f h2 y = f h1 y" using represents.val_extends [OF r 1(2,4) 2(3)] by simp_all
    have "hp_next h \<le> hp_next h1" using 1(3) by (simp add: extends_def)
    then have "list_foot f h2 (y # ys) \<inter> {..<hp_next h} = {}" using 1(5) 2(5) 3(2) by fastforce
    then show ?case using 1 2 3 a(3) extends_trans [OF 1(3) 2(3)] by auto
  qed simp
qed

section \<open>Pointers\<close>

text \<open>
  An object of a type is recognised by \<open>prj\<close> and made by \<open>emb\<close>. A pointer is copied as the generated
  code does it: a new object, which first receives the struct pointed to as it is (\<^verbatim>\<open>*out = *in\<close>), and
  whose fields with references are then replaced by copies. A nil pointer stays nil.
\<close>

definition load :: "('o \<Rightarrow> 'v option) \<Rightarrow> 'o heap \<Rightarrow> addr \<Rightarrow> 'v option" where
  "load prj h a = Option.bind (hp_store h a) prj"

definition ptr_val :: "('o \<Rightarrow> 'v option) \<Rightarrow> ('o heap \<Rightarrow> 'v \<Rightarrow> 'a option) \<Rightarrow> 'o heap \<Rightarrow> addr option \<Rightarrow> 'a option option" where
  "ptr_val prj v h p = (case p of None \<Rightarrow> Some None | Some a \<Rightarrow> do {x \<leftarrow> load prj h a; y \<leftarrow> v h x; Some (Some y)})"

definition ptr_foot :: "('o \<Rightarrow> 'v option) \<Rightarrow> ('o heap \<Rightarrow> 'v \<Rightarrow> addr set) \<Rightarrow> 'o heap \<Rightarrow> addr option \<Rightarrow> addr set" where
  "ptr_foot prj f h p = (case p of None \<Rightarrow> {} | Some a \<Rightarrow> insert a (case load prj h a of None \<Rightarrow> {} | Some x \<Rightarrow> f h x))"

definition copy_ptr ::
  "('o \<Rightarrow> 'v option) \<Rightarrow> ('v \<Rightarrow> 'o) \<Rightarrow> ('v \<Rightarrow> 'o heap \<Rightarrow> ('v \<times> 'o heap) option) \<Rightarrow> addr option \<Rightarrow> 'o heap \<Rightarrow> (addr option \<times> 'o heap) option" where
  "copy_ptr prj emb c p h =
     (case p of
        None \<Rightarrow> Some (None, h)
      | Some a \<Rightarrow> do {
          x \<leftarrow> load prj h a;
          let (out, h1) = alloc (emb x) h;
          (y, h2) \<leftarrow> c x h1;
          Some (Some out, put out (emb y) h2)})"

lemma represents_ptr:
  assumes "represents v f"
  shows "represents (ptr_val prj v) (ptr_foot prj f)"
proof
  fix h p a assume "ptr_val prj v h p = Some a"
  then show "ptr_foot prj f h p \<subseteq> dom (hp_store h)"
    using represents.val_dom [OF assms, of h]
    by (auto simp: ptr_val_def ptr_foot_def load_def bind_eq_Some_conv split: option.splits) blast
next
  fix h h' p a assume a: "ptr_val prj v h p = Some a" "\<forall>x \<in> ptr_foot prj f h p. hp_store h' x = hp_store h x"
  show "ptr_val prj v h' p = Some a \<and> ptr_foot prj f h' p = ptr_foot prj f h p"
  proof (cases p)
    case (Some q)
    then obtain x b where x: "load prj h q = Some x" "v h x = Some b" "a = Some b"
      using a(1) by (auto simp: ptr_val_def bind_eq_Some_conv)
    then have "load prj h' q = Some x" using a(2) Some by (simp add: ptr_foot_def load_def)
    then show ?thesis
      using represents.val_local [OF assms x(2), of h'] a(2) x Some by (simp add: ptr_val_def ptr_foot_def)
  qed (use a in \<open>simp add: ptr_val_def ptr_foot_def\<close>)
qed

text \<open>The step pointers and slices share: a new object that is filled with a copy of its content.\<close>

lemma copy_filled:
  assumes "deep_copier v f c" "wf_heap h" "v h x = Some a" "alloc y h = (out, h1)"
  shows "\<exists>x' h2. c x h1 = Some (x', h2) \<and> wf_heap (put out z h2) \<and> extends h (put out z h2) \<and>
    v (put out z h2) x' = Some a \<and> (insert out (f (put out z h2) x')) \<inter> {..<hp_next h} = {} \<and> out = hp_next h"
proof -
  have r: "represents v f" using assms(1) by (simp add: deep_copier_def)
  note al = alloc_props [OF assms(2,4)]
  have "v h1 x = Some a" using represents.val_extends [OF r assms(2,3) al(2)] by simp
  from deep_copier.copies [OF assms(1) al(1) this] obtain x' h2 where c: "c x h1 = Some (x', h2)" "wf_heap h2" "extends h1 h2"
    "v h2 x' = Some a" "f h2 x' \<inter> {..<hp_next h1} = {}" by blast
  have o: "out < hp_next h1" "out < hp_next h2" using al(4,5) c(3) by (simp_all add: extends_def)
  then have "f h2 x' \<inter> {out} = {}" using c(5) by auto
  moreover have "changes_only {out} h2 (put out z h2)" by (simp add: changes_only_def)
  ultimately have k: "v (put out z h2) x' = Some a" "f (put out z h2) x' = f h2 x'"
    using represents.val_frame [OF r c(2,4), of "{out}" "put out z h2"] by blast+
  have "extends h h2" using extends_trans [OF al(2) c(3)] .
  moreover have "f h2 x' \<inter> {..<hp_next h} = {}" using c(5) al(5) by fastforce
  ultimately show ?thesis
    using c(1) put_props [OF c(2) o(2), where x = z] k al(4) by (intro exI [of _ x'] exI [of _ h2]) simp
qed

lemma deep_copier_ptr:
  assumes "deep_copier v f c" "\<And>x. prj (emb x) = Some x"
  shows "deep_copier (ptr_val prj v) (ptr_foot prj f) (copy_ptr prj emb c)"
proof (intro deep_copier.intro deep_copier_axioms.intro)
  show "represents (ptr_val prj v) (ptr_foot prj f)" using assms(1) by (intro represents_ptr) (simp add: deep_copier_def)
  fix h p a assume h: "wf_heap h" and a: "ptr_val prj v h p = Some a"
  show "\<exists>v' h'. copy_ptr prj emb c p h = Some (v', h') \<and> wf_heap h' \<and> extends h h' \<and> ptr_val prj v h' v' = Some a \<and>
      ptr_foot prj f h' v' \<inter> {..<hp_next h} = {}"
  proof (cases p)
    case (Some q)
    then obtain x b where x: "load prj h q = Some x" "v h x = Some b" "a = Some b"
      using a by (auto simp: ptr_val_def bind_eq_Some_conv)
    obtain out h1 where al: "alloc (emb x) h = (out, h1)" by fastforce
    from copy_filled [OF assms(1) h x(2) al] obtain x' h2 where c: "c x h1 = Some (x', h2)" by blast
    from copy_filled [OF assms(1) h x(2) al, of "emb x'"] c have
      d: "wf_heap (put out (emb x') h2)" "extends h (put out (emb x') h2)" "v (put out (emb x') h2) x' = Some b"
        "insert out (f (put out (emb x') h2) x') \<inter> {..<hp_next h} = {}" by auto
    have "load prj (put out (emb x') h2) out = Some x'" using assms(2) by (simp add: load_def)
    then show ?thesis using Some x c d al by (simp add: copy_ptr_def ptr_val_def ptr_foot_def)
  qed (use a h in \<open>simp add: copy_ptr_def ptr_val_def ptr_foot_def\<close>)
qed

section \<open>Slices\<close>

text \<open>A slice is a window of an array; a nil slice has no array. The copy has an array of its own length.\<close>

record slice =
  sl_array :: addr
  sl_off :: nat
  sl_len :: nat

definition elems :: "('o \<Rightarrow> 'v list option) \<Rightarrow> 'o heap \<Rightarrow> slice option \<Rightarrow> 'v list option" where
  "elems prj h s =
     (case s of
        None \<Rightarrow> Some []
      | Some sl \<Rightarrow> do {
          xs \<leftarrow> load prj h (sl_array sl);
          if sl_off sl + sl_len sl \<le> length xs then Some (take (sl_len sl) (drop (sl_off sl) xs)) else None})"

definition slice_val :: "('o \<Rightarrow> 'v list option) \<Rightarrow> ('o heap \<Rightarrow> 'v \<Rightarrow> 'a option) \<Rightarrow> 'o heap \<Rightarrow> slice option \<Rightarrow> 'a list option" where
  "slice_val prj v h s = do {xs \<leftarrow> elems prj h s; list_val v h xs}"

definition slice_foot :: "('o \<Rightarrow> 'v list option) \<Rightarrow> ('o heap \<Rightarrow> 'v \<Rightarrow> addr set) \<Rightarrow> 'o heap \<Rightarrow> slice option \<Rightarrow> addr set" where
  "slice_foot prj f h s =
     (case s of None \<Rightarrow> {} | Some sl \<Rightarrow> insert (sl_array sl) (case elems prj h s of None \<Rightarrow> {} | Some xs \<Rightarrow> list_foot f h xs))"

definition whole :: "addr \<Rightarrow> nat \<Rightarrow> slice" where
  "whole a n = \<lparr>sl_array = a, sl_off = 0, sl_len = n\<rparr>"

definition copy_slice ::
  "('o \<Rightarrow> 'v list option) \<Rightarrow> ('v list \<Rightarrow> 'o) \<Rightarrow> ('v \<Rightarrow> 'o heap \<Rightarrow> ('v \<times> 'o heap) option) \<Rightarrow> slice option \<Rightarrow> 'o heap \<Rightarrow> (slice option \<times> 'o heap) option" where
  "copy_slice prj emb c s h =
     (case s of
        None \<Rightarrow> Some (None, h)
      | Some _ \<Rightarrow> do {
          xs \<leftarrow> elems prj h s;
          let (out, h1) = alloc (emb xs) h;
          (ys, h2) \<leftarrow> copy_list c xs h1;
          Some (Some (whole out (length xs)), put out (emb ys) h2)})"

lemma represents_slice:
  assumes "represents v f"
  shows "represents (slice_val prj v) (slice_foot prj f)"
proof
  fix h s a assume "slice_val prj v h s = Some a"
  then show "slice_foot prj f h s \<subseteq> dom (hp_store h)"
    using represents.val_dom [OF represents_list [OF assms], of h]
    by (cases s) (auto simp: slice_val_def slice_foot_def elems_def load_def bind_eq_Some_conv split: if_splits)
next
  fix h h' s a assume a: "slice_val prj v h s = Some a" "\<forall>x \<in> slice_foot prj f h s. hp_store h' x = hp_store h x"
  then obtain xs where x: "elems prj h s = Some xs" "list_val v h xs = Some a" by (auto simp: slice_val_def bind_eq_Some_conv)
  show "slice_val prj v h' s = Some a \<and> slice_foot prj f h' s = slice_foot prj f h s"
  proof (cases s)
    case (Some sl)
    then have "elems prj h' s = Some xs" using x(1) a(2) by (simp add: elems_def load_def slice_foot_def)
    then show ?thesis
      using represents.val_local [OF represents_list [OF assms] x(2), of h'] a(2) x Some by (simp add: slice_val_def slice_foot_def)
  qed (use a in \<open>simp add: slice_val_def slice_foot_def elems_def\<close>)
qed

lemma list_val_length: "list_val v h xs = Some as \<Longrightarrow> length as = length xs"
  by (auto simp: list_val_conv dest: list_all2_lengthD)

lemma elems_whole: "load prj h out = Some ys \<Longrightarrow> length ys = n \<Longrightarrow> elems prj h (Some (whole out n)) = Some ys"
  by (simp add: elems_def whole_def)

lemma deep_copier_slice:
  assumes "deep_copier v f c" "\<And>xs. prj (emb xs) = Some xs"
  shows "deep_copier (slice_val prj v) (slice_foot prj f) (copy_slice prj emb c)"
proof (intro deep_copier.intro deep_copier_axioms.intro)
  show "represents (slice_val prj v) (slice_foot prj f)" using assms(1) by (intro represents_slice) (simp add: deep_copier_def)
  note l = deep_copier_list [OF assms(1)]
  fix h s a assume h: "wf_heap h" and a: "slice_val prj v h s = Some a"
  show "\<exists>v' h'. copy_slice prj emb c s h = Some (v', h') \<and> wf_heap h' \<and> extends h h' \<and> slice_val prj v h' v' = Some a \<and>
      slice_foot prj f h' v' \<inter> {..<hp_next h} = {}"
  proof (cases s)
    case (Some sl)
    obtain xs where x: "elems prj h s = Some xs" "list_val v h xs = Some a" using a by (auto simp: slice_val_def bind_eq_Some_conv)
    obtain out h1 where al: "alloc (emb xs) h = (out, h1)" by fastforce
    from copy_filled [OF l h x(2) al] obtain ys h2 where c: "copy_list c xs h1 = Some (ys, h2)" by blast
    from copy_filled [OF l h x(2) al, of "emb ys"] c have
      d: "wf_heap (put out (emb ys) h2)" "extends h (put out (emb ys) h2)" "list_val v (put out (emb ys) h2) ys = Some a"
        "insert out (list_foot f (put out (emb ys) h2) ys) \<inter> {..<hp_next h} = {}" by auto
    have "length ys = length xs" using list_val_length [OF x(2)] list_val_length [OF d(3)] by simp
    then have "elems prj (put out (emb ys) h2) (Some (whole out (length xs))) = Some ys"
      using assms(2) by (intro elems_whole) (simp_all add: load_def)
    then show ?thesis using Some x c d al by (simp add: copy_slice_def slice_val_def slice_foot_def) (simp add: whole_def)
  qed (use a h in \<open>simp add: copy_slice_def slice_val_def slice_foot_def elems_def\<close>)
qed

text \<open>Neither a nil pointer nor a nil slice becomes an empty one, or the reverse.\<close>

lemma copy_nil:
  "copy_ptr prj emb c p h = Some (p', h') \<Longrightarrow> p' = None \<longleftrightarrow> p = None"
  "copy_slice prjs embs cs s h = Some (s', h') \<Longrightarrow> s' = None \<longleftrightarrow> s = None"
  by (auto simp: copy_ptr_def copy_slice_def alloc_def bind_eq_Some_conv split: option.splits prod.splits)

lemma pointer_copied_apart:
  assumes "deep_copier v f c" "\<And>x. prj (emb x) = Some x" "wf_heap h" "ptr_val prj v h (Some a) = Some x"
  shows "\<exists>b h'. copy_ptr prj emb c (Some a) h = Some (Some b, h') \<and> extends h h' \<and>
    copied_apart (ptr_val prj v) (ptr_foot prj f) h' (Some a) (Some b) x"
  using deep_copier.copy_independent [OF deep_copier_ptr [OF assms(1,2)] assms(3,4)] copy_nil(1) by fastforce

end
