(* ===== verification/ExportPolicy.thy ===== *)
theory ExportPolicy
  imports Numbers
begin

text \<open>
  The export policy of the operator: its API types (\<^verbatim>\<open>operator/api/v1alpha1/export_policy_types.go\<close>),
  the admission checks (\<^verbatim>\<open>operator/internal/validation\<close>, \<^verbatim>\<open>operator/internal/webhook\<close>) and the settings
  of the operator (\<^verbatim>\<open>operator/internal/config\<close>). A Go pointer that may be nil is an option, and
  dereferencing nil is the error \<open>NilDeref\<close>. The MetricsQL parser and \<^verbatim>\<open>url.Parse\<close> are parameters.
\<close>

section \<open>API types\<close>

record MetricSource =
  ms_MetricsQL :: string

record TelemetrySource =
  ts_Name :: string
  ts_Metrics :: "MetricSource option"

record LocalSecretReference =
  lsr_Name :: string

record BasicAuthAuthentication =
  ba_SecretRef :: LocalSecretReference

record Authentication =
  au_BasicAuth :: "BasicAuthAuthentication option"

text \<open>Durations are nanoseconds.\<close>

record Batch =
  bt_Timeout :: int
  bt_MaxSize :: int

record Retry =
  rt_MaxAttempts :: int
  rt_BackoffDuration :: int

record PrometheusRemoteWriteSink =
  prw_Authentication :: "Authentication option"
  prw_Endpoint :: string
  prw_Batch :: Batch
  prw_Retry :: Retry

record SinkTarget =
  st_PrometheusRemoteWrite :: "PrometheusRemoteWriteSink option"

record TelemetrySink =
  sk_Name :: string
  sk_Sources :: "string list"
  sk_Target :: "SinkTarget option"

record ExportPolicySpec =
  sp_Sources :: "TelemetrySource list"
  sp_Sinks :: "TelemetrySink list"

record Condition =
  cd_Type :: string
  cd_Status :: string
  cd_Reason :: string
  cd_Message :: string
  cd_ObservedGeneration :: int

record SinkStatus =
  ss_Name :: string
  ss_Conditions :: "Condition list"

record ExportPolicyStatus =
  es_Conditions :: "Condition list"
  es_Sinks :: "SinkStatus list"

text \<open>The metadata of an object that the operator reads, its specification and its status.\<close>

record ExportPolicy =
  ep_Name :: string
  ep_Namespace :: string
  ep_UID :: string
  ep_Generation :: int
  ep_Deleted :: bool
  ep_Finalizers :: "string list"
  ep_Spec :: ExportPolicySpec
  ep_Status :: ExportPolicyStatus

section \<open>Errors and queries\<close>

datatype op_error =
    NilDeref
  | OpError string
  | OpWrapped string op_error
  | SecretNotFound string
  | SecretInternal
  | SecretWrongType string
  | SecretNoUsername string
  | SecretNoPassword string
  | NotAValidSink string

text \<open>
  A parsed MetricsQL query: a metric selector, which is a disjunction of conjunctions of label
  filters, or some other expression.
\<close>

record LabelFilter =
  lbl_Label :: string
  lbl_Value :: string
  lbl_IsNegative :: bool
  lbl_IsRegexp :: bool

datatype expr = MetricExpr "LabelFilter list list" | OtherExpr

type_synonym metricsql = "string \<Rightarrow> string + expr"

section \<open>Validation\<close>

datatype path_elem = Child string | Index nat | Key string

type_synonym path = "path_elem list"

datatype field_error =
    Required path string
  | Duplicate path string
  | Invalid path string

definition forbiddenLabels :: "string list" where
  "forbiddenLabels = [''project_name'']"

definition validateMetricSource :: "metricsql \<Rightarrow> path \<Rightarrow> MetricSource \<Rightarrow> field_error list" where
  "validateMetricSource parse p metrics =
     (if ms_MetricsQL metrics = [] then [Required (p @ [Child ''metricsql'']) ''A metricsql query is required. Additional metric options will be supported in the future.'']
      else case parse (ms_MetricsQL metrics) of
        Inl err \<Rightarrow> [Invalid (p @ [Child ''metricsql'']) (ms_MetricsQL metrics)]
      | Inr OtherExpr \<Rightarrow> [Invalid (p @ [Child ''metricsql'']) (ms_MetricsQL metrics)]
      | Inr (MetricExpr fss) \<Rightarrow>
          concat (map (\<lambda>fs. concat (map (\<lambda>f.
            if lbl_Label f \<in> set forbiddenLabels then [Invalid (p @ [Child ''metricsql'']) (ms_MetricsQL metrics)] else []) fs)) fss))"

text \<open>The loop over the sources: the names seen so far, the index, and the errors of the rest.\<close>

definition source_name_errors :: "string list \<Rightarrow> path \<Rightarrow> string \<Rightarrow> field_error list" where
  "source_name_errors seen p name =
     (if name = [] then [Required (p @ [Key ''name'']) ''A unique name for the resource is required'']
      else if name \<in> set seen then [Duplicate (p @ [Child ''name'']) name]
      else [])"

fun validate_sources :: "metricsql \<Rightarrow> path \<Rightarrow> string list \<Rightarrow> nat \<Rightarrow> TelemetrySource list \<Rightarrow> field_error list" where
  "validate_sources parse p seen i [] = []"
| "validate_sources parse p seen i (s # ss) =
     (let sp = p @ [Child ''sources'', Index i];
          nerrs = source_name_errors seen sp (ts_Name s);
          merrs = (case ts_Metrics s of
              None \<Rightarrow> [Required (sp @ [Child ''metrics'']) ''A source must provide a metrics source. Additional source types will be supported in the future.'']
            | Some m \<Rightarrow> validateMetricSource parse (sp @ [Child ''metrics'']) m) in
      nerrs @ merrs @
      validate_sources parse p (if nerrs = [] then ts_Name s # seen else seen) (Suc i) ss)"

definition validatePrometheusRemoteWrite ::
  "(string \<Rightarrow> string option) \<Rightarrow> path \<Rightarrow> PrometheusRemoteWriteSink \<Rightarrow> field_error list" where
  "validatePrometheusRemoteWrite url_error p otel =
     (if prw_Endpoint otel = [] then [Required (p @ [Child ''http'']) ''A valid endpoint URL is required'']
      else case url_error (prw_Endpoint otel) of
        Some err \<Rightarrow> [Invalid (p @ [Child ''http'']) (prw_Endpoint otel)]
      | None \<Rightarrow> [])"

definition validateTelemetrySinkTarget :: "(string \<Rightarrow> string option) \<Rightarrow> path \<Rightarrow> SinkTarget \<Rightarrow> field_error list" where
  "validateTelemetrySinkTarget url_error p t =
     (case st_PrometheusRemoteWrite t of
        None \<Rightarrow> [Required (p @ [Child ''prometheusRemoteWrite'']) []]
      | Some w \<Rightarrow> validatePrometheusRemoteWrite url_error (p @ [Child ''prometheusRemoteWrite'']) w)"

definition validateTelemetrySink :: "(string \<Rightarrow> string option) \<Rightarrow> path \<Rightarrow> TelemetrySink \<Rightarrow> op_error + field_error list" where
  "validateTelemetrySink url_error p sink =
     (case sk_Target sink of
        None \<Rightarrow> Inl NilDeref
      | Some t \<Rightarrow> Inr (validateTelemetrySinkTarget url_error (p @ [Child ''target'']) t))"

fun validate_sinks ::
  "(string \<Rightarrow> string option) \<Rightarrow> path \<Rightarrow> string list \<Rightarrow> nat \<Rightarrow> TelemetrySink list \<Rightarrow> op_error + field_error list" where
  "validate_sinks url_error p seen i [] = Inr []"
| "validate_sinks url_error p seen i (s # ss) =
     (let kp = p @ [Child ''sinks'', Index i];
          nerrs = (if sk_Name s \<in> set seen then [Duplicate (kp @ [Child ''name'']) (sk_Name s)] else []) in
      res_bind (validateTelemetrySink url_error kp s) (\<lambda>terrs.
      res_bind (validate_sinks url_error p (if nerrs = [] then sk_Name s # seen else seen) (Suc i) ss) (\<lambda>rest.
        Inr (nerrs @ terrs @ rest))))"

definition validateExportPolicySpec ::
  "metricsql \<Rightarrow> (string \<Rightarrow> string option) \<Rightarrow> path \<Rightarrow> ExportPolicySpec \<Rightarrow> op_error + field_error list" where
  "validateExportPolicySpec parse url_error p spec =
     (let serrs = (if sp_Sources spec = [] then [Required (p @ [Child ''sources'']) ''At least one telemetry source is required'']
                   else validate_sources parse p [] 0 (sp_Sources spec)) in
      res_map (\<lambda>kerrs. serrs @ kerrs) (validate_sinks url_error p [] 0 (sp_Sinks spec)))"

definition ValidateExportPolicy ::
  "metricsql \<Rightarrow> (string \<Rightarrow> string option) \<Rightarrow> ExportPolicy \<Rightarrow> op_error + field_error list" where
  "ValidateExportPolicy parse url_error policy = validateExportPolicySpec parse url_error [Child ''spec''] (ep_Spec policy)"

text \<open>The webhook: a refused object is an invalid-object error with the list.\<close>

definition ValidateCreate ::
  "metricsql \<Rightarrow> (string \<Rightarrow> string option) \<Rightarrow> ExportPolicy \<Rightarrow> op_error + field_error list option" where
  "ValidateCreate parse url_error policy =
     res_map (\<lambda>errs. if errs \<noteq> [] then Some errs else None) (ValidateExportPolicy parse url_error policy)"

definition ValidateUpdate ::
  "metricsql \<Rightarrow> (string \<Rightarrow> string option) \<Rightarrow> ExportPolicy \<Rightarrow> ExportPolicy \<Rightarrow> op_error + field_error list option" where
  "ValidateUpdate parse url_error old policy =
     res_map (\<lambda>errs. if errs \<noteq> [] then Some errs else None) (ValidateExportPolicy parse url_error policy)"

definition ValidateDelete :: "ExportPolicy \<Rightarrow> op_error + field_error list option" where
  "ValidateDelete policy = Inr None"

section \<open>Operator settings\<close>

record DiscoveryConfig =
  dc_Mode :: string
  dc_InternalServiceDiscovery :: bool
  dc_DiscoveryKubeconfigPath :: string
  dc_ProjectKubeconfigPath :: string

record DownstreamResourceManagementConfig =
  dr_KubeconfigPath :: string

definition SetDefaults_DiscoveryConfig :: "string \<Rightarrow> DiscoveryConfig \<Rightarrow> DiscoveryConfig" where
  "SetDefaults_DiscoveryConfig ProviderSingle obj = (if dc_Mode obj = [] then obj\<lparr>dc_Mode := ProviderSingle\<rparr> else obj)"

definition RestConfig :: "(string + 'rest) \<Rightarrow> (string \<Rightarrow> string + 'rest) \<Rightarrow> DownstreamResourceManagementConfig \<Rightarrow> string + 'rest" where
  "RestConfig in_cluster from_file c =
     (if dr_KubeconfigPath c = [] then in_cluster else from_file (dr_KubeconfigPath c))"

definition DiscoveryRestConfig :: "(string + 'rest) \<Rightarrow> (string \<Rightarrow> string + 'rest) \<Rightarrow> DiscoveryConfig \<Rightarrow> string + 'rest" where
  "DiscoveryRestConfig in_cluster from_file c =
     (if dc_DiscoveryKubeconfigPath c = [] then in_cluster else from_file (dc_DiscoveryKubeconfigPath c))"

definition ProjectRestConfig :: "(string + 'rest) \<Rightarrow> (string \<Rightarrow> string + 'rest) \<Rightarrow> DiscoveryConfig \<Rightarrow> string + 'rest" where
  "ProjectRestConfig in_cluster from_file c =
     (if dc_ProjectKubeconfigPath c = [] then in_cluster else from_file (dc_ProjectKubeconfigPath c))"

section \<open>Well-formed policies\<close>

text \<open>What an admitted policy satisfies, written without the error lists.\<close>

definition wf_source :: "metricsql \<Rightarrow> TelemetrySource \<Rightarrow> bool" where
  "wf_source parse s \<longleftrightarrow> ts_Name s \<noteq> [] \<and>
     (case ts_Metrics s of
        None \<Rightarrow> False
      | Some m \<Rightarrow> ms_MetricsQL m \<noteq> [] \<and>
          (case parse (ms_MetricsQL m) of
             Inr (MetricExpr fss) \<Rightarrow> list_all (list_all (\<lambda>f. lbl_Label f \<noteq> ''project_name'')) fss
           | _ \<Rightarrow> False))"

definition wf_sink :: "(string \<Rightarrow> string option) \<Rightarrow> TelemetrySink \<Rightarrow> bool" where
  "wf_sink url_error s \<longleftrightarrow>
     (case sk_Target s of
        None \<Rightarrow> False
      | Some t \<Rightarrow> (case st_PrometheusRemoteWrite t of
          None \<Rightarrow> False
        | Some w \<Rightarrow> prw_Endpoint w \<noteq> [] \<and> url_error (prw_Endpoint w) = None))"

definition wf_policy :: "metricsql \<Rightarrow> (string \<Rightarrow> string option) \<Rightarrow> ExportPolicy \<Rightarrow> bool" where
  "wf_policy parse url_error p \<longleftrightarrow>
     sp_Sources (ep_Spec p) \<noteq> [] \<and> list_all (wf_source parse) (sp_Sources (ep_Spec p)) \<and>
     distinct (map ts_Name (sp_Sources (ep_Spec p))) \<and>
     list_all (wf_sink url_error) (sp_Sinks (ep_Spec p)) \<and> distinct (map sk_Name (sp_Sinks (ep_Spec p)))"

lemma validateMetricSource_Nil:
  "validateMetricSource parse p m = [] \<longleftrightarrow>
     ms_MetricsQL m \<noteq> [] \<and>
       (case parse (ms_MetricsQL m) of
          Inr (MetricExpr fss) \<Rightarrow> list_all (list_all (\<lambda>f. lbl_Label f \<noteq> ''project_name'')) fss
        | _ \<Rightarrow> False)"
  by (auto simp: validateMetricSource_def forbiddenLabels_def list_all_iff split: sum.splits expr.splits if_splits)

lemma validate_sources_Nil:
  "validate_sources parse p seen i ss = [] \<longleftrightarrow>
     list_all (wf_source parse) ss \<and> distinct (map ts_Name ss) \<and> set (map ts_Name ss) \<inter> set seen = {}"
proof (induction ss arbitrary: seen i)
  case (Cons s ss)
  show ?case
  proof (cases "source_name_errors seen (p @ [Child ''sources'', Index i]) (ts_Name s) = []")
    case True
    then have "ts_Name s \<noteq> []" "ts_Name s \<notin> set seen"
      by (auto simp: source_name_errors_def split: if_splits)
    then show ?thesis using True Cons.IH
      by (auto simp: Let_def wf_source_def validateMetricSource_Nil split: option.splits)
  next
    case False
    then have "ts_Name s = [] \<or> ts_Name s \<in> set seen"
      by (auto simp: source_name_errors_def split: if_splits)
    then show ?thesis using False by (auto simp: Let_def wf_source_def)
  qed
qed simp

lemma validateTelemetrySink_Nil: "validateTelemetrySink url_error p s = Inr [] \<longleftrightarrow> wf_sink url_error s"
  by (auto simp: validateTelemetrySink_def validateTelemetrySinkTarget_def validatePrometheusRemoteWrite_def wf_sink_def
      split: option.splits if_splits)

lemma validate_sinks_Nil:
  "validate_sinks url_error p seen i ss = Inr [] \<longleftrightarrow>
     list_all (wf_sink url_error) ss \<and> distinct (map sk_Name ss) \<and> set (map sk_Name ss) \<inter> set seen = {}"
proof (induction ss arbitrary: seen i)
  case (Cons s ss)
  then show ?case by (auto simp: Let_def validateTelemetrySink_Nil split: if_splits)
qed simp

lemma validateTelemetrySink_error: "validateTelemetrySink url_error p s = Inl e \<longleftrightarrow> e = NilDeref \<and> sk_Target s = None"
  by (auto simp: validateTelemetrySink_def split: option.splits)

lemma validate_sinks_error:
  "(\<exists>e. validate_sinks url_error p seen i ss = Inl e) \<longleftrightarrow> (\<exists>s \<in> set ss. sk_Target s = None)"
proof (induction ss arbitrary: seen i)
  case (Cons s ss)
  show ?case
  proof (cases "validateTelemetrySink url_error (p @ [Child ''sinks'', Index i]) s")
    case (Inl e)
    then show ?thesis using validateTelemetrySink_error [of url_error _ s e] by (auto simp: Let_def)
  next
    case (Inr terrs)
    have "res_bind r (\<lambda>rest. Inr (f rest)) = Inl e \<longleftrightarrow> r = Inl e" for r :: "op_error + field_error list" and f :: "_ \<Rightarrow> field_error list" and e
      by (cases r) auto
    then show ?thesis using Inr Cons.IH validateTelemetrySink_error [of url_error "p @ [Child ''sinks'', Index i]" s NilDeref]
      by (auto simp: Let_def)
  qed
qed simp

text \<open>
  C25. The webhook admits exactly the well-formed policies: at least one source, every source named,
  with names used once, and selecting metrics with a parseable metric selector that does not filter on
  a forbidden label; every sink named once, with a remote-write target whose endpoint is set and is a
  URL. An update is judged like a creation. It fails otherwise than with a list of errors exactly when
  a sink has no target, which it dereferences.
\<close>

theorem webhook_admits_wellformed:
  "(ValidateCreate parse url_error p = Inr None \<longleftrightarrow> wf_policy parse url_error p) \<and>
   ValidateUpdate parse url_error old p = ValidateCreate parse url_error p \<and>
   ((\<exists>e. ValidateCreate parse url_error p = Inl e) \<longleftrightarrow> (\<exists>s \<in> set (sp_Sinks (ep_Spec p)). sk_Target s = None))"
proof (intro conjI)
  let ?v = "validate_sinks url_error [Child ''spec''] [] 0 (sp_Sinks (ep_Spec p))"
  have v: "ValidateCreate parse url_error p = Inr None \<longleftrightarrow> ValidateExportPolicy parse url_error p = Inr []"
    by (cases "ValidateExportPolicy parse url_error p") (auto simp: ValidateCreate_def)
  also have "\<dots> \<longleftrightarrow> sp_Sources (ep_Spec p) \<noteq> [] \<and> validate_sources parse [Child ''spec''] [] 0 (sp_Sources (ep_Spec p)) = [] \<and> ?v = Inr []"
    by (cases ?v) (auto simp: ValidateExportPolicy_def validateExportPolicySpec_def Let_def)
  finally show "ValidateCreate parse url_error p = Inr None \<longleftrightarrow> wf_policy parse url_error p"
    by (auto simp: wf_policy_def validate_sources_Nil validate_sinks_Nil)
  show "ValidateUpdate parse url_error old p = ValidateCreate parse url_error p"
    by (simp add: ValidateUpdate_def ValidateCreate_def)
  have "(\<exists>e. ValidateCreate parse url_error p = Inl e) \<longleftrightarrow> (\<exists>e. ?v = Inl e)"
    by (cases ?v) (auto simp: ValidateCreate_def ValidateExportPolicy_def validateExportPolicySpec_def Let_def)
  then show "(\<exists>e. ValidateCreate parse url_error p = Inl e) \<longleftrightarrow> (\<exists>s \<in> set (sp_Sinks (ep_Spec p)). sk_Target s = None)"
    by (simp add: validate_sinks_error)
qed

end
