(* ===== verification/Controller.thy ===== *)
theory Controller
  imports ExportPolicy "HOL-Library.AList"
begin

text \<open>
  The controller of export policies (\<^verbatim>\<open>operator/internal/controller\<close>): the Vector configuration of a
  policy, the conditions of its status, and the reconciler that writes the configuration to a Secret
  of the downstream cluster and removes it with the policy. The Kubernetes API, the finalizer manager,
  the setter of status conditions, the MetricsQL parser and printer and the JSON encoder are
  parameters; the calls that change something are recorded in the order they are made.
\<close>

section \<open>The Vector configuration\<close>

datatype get_error = NotFound | GetError string

record Secret =
  sec_Type :: string
  sec_Data :: "(string \<times> string) list"

type_synonym secret_getter = "string \<Rightarrow> string \<Rightarrow> get_error + Secret"

definition retrieveBasicAuthSecret ::
  "secret_getter \<Rightarrow> LocalSecretReference \<Rightarrow> ExportPolicy \<Rightarrow> op_error + Secret" where
  "retrieveBasicAuthSecret get ref policy =
     (case get (ep_Namespace policy) (lsr_Name ref) of
        Inl NotFound \<Rightarrow> Inl (SecretNotFound (lsr_Name ref))
      | Inl (GetError e) \<Rightarrow> Inl SecretInternal
      | Inr secret \<Rightarrow>
          if sec_Type secret \<noteq> ''kubernetes.io/basic-auth'' then Inl (SecretWrongType (lsr_Name ref))
          else if map_of (sec_Data secret) ''username'' = None then Inl (SecretNoUsername (lsr_Name ref))
          else if map_of (sec_Data secret) ''password'' = None then Inl (SecretNoPassword (lsr_Name ref))
          else Inr secret)"

record VectorAuth =
  va_Strategy :: string
  va_User :: string
  va_Password :: string

record VectorSource =
  vs_Type :: string
  vs_Endpoints :: "string list"
  vs_Auth :: VectorAuth
  vs_Match :: "string list"

record VectorSink =
  vk_Inputs :: "string list"
  vk_Type :: string
  vk_Endpoint :: string
  vk_Auth :: "VectorAuth option"

record VectorConfig =
  vc_Sources :: "(string \<times> VectorSource) list"
  vc_Sinks :: "(string \<times> VectorSink) list"

record MetricsService =
  mv_Endpoint :: string
  mv_Username :: string
  mv_Password :: string

definition getVectorComponentID :: "ExportPolicy \<Rightarrow> string \<Rightarrow> string \<Rightarrow> string \<Rightarrow> string" where
  "getVectorComponentID p projectName componentName componentType =
     ''export-policy:'' @ projectName @ '':'' @ ep_Namespace p @ '':'' @ ep_Name p @ '':'' @ ep_UID p @ '':'' @
     componentName @ ''-'' @ componentType"

definition vectorSource :: string where "vectorSource = ''source''"
definition vectorSink :: string where "vectorSink = ''sink''"

text \<open>A missing key of a map reads as the empty value.\<close>

definition data_key :: "Secret \<Rightarrow> string \<Rightarrow> string" where
  "data_key s k = (case map_of (sec_Data s) k of None \<Rightarrow> [] | Some v \<Rightarrow> v)"

definition getPrometheusRemoteWriteSinkVectorConfig ::
  "secret_getter \<Rightarrow> string list \<Rightarrow> PrometheusRemoteWriteSink \<Rightarrow> ExportPolicy \<Rightarrow> op_error + VectorSink" where
  "getPrometheusRemoteWriteSinkVectorConfig get inputs sink policy =
     (let cfg = \<lparr>vk_Inputs = inputs, vk_Type = ''prometheus_remote_write'', vk_Endpoint = prw_Endpoint sink, vk_Auth = None\<rparr> in
      case prw_Authentication sink of
        None \<Rightarrow> Inr cfg
      | Some auth \<Rightarrow>
          (case au_BasicAuth auth of
             None \<Rightarrow> Inl NilDeref
           | Some basic \<Rightarrow>
               res_bind (retrieveBasicAuthSecret get (ba_SecretRef basic) policy) (\<lambda>secret.
                 Inr (cfg\<lparr>vk_Auth := Some \<lparr>va_Strategy = ''basic'', va_User = data_key secret ''username'',
                   va_Password = data_key secret ''password''\<rparr>\<rparr>))))"

definition getSinkVectorConfig ::
  "secret_getter \<Rightarrow> string \<Rightarrow> TelemetrySink \<Rightarrow> ExportPolicy \<Rightarrow> op_error + VectorSink" where
  "getSinkVectorConfig get projectName sink policy =
     (let inputs = map (\<lambda>s. getVectorComponentID policy projectName s vectorSource) (sk_Sources sink) in
      case sk_Target sink of
        None \<Rightarrow> Inl NilDeref
      | Some t \<Rightarrow>
          (case st_PrometheusRemoteWrite t of
             None \<Rightarrow> Inl (NotAValidSink (sk_Name sink))
           | Some w \<Rightarrow> getPrometheusRemoteWriteSinkVectorConfig get inputs w policy))"

definition projectLabel :: string where
  "projectLabel = ''resourcemanager_datumapis_com_project_name''"

definition project_filter :: "string \<Rightarrow> LabelFilter" where
  "project_filter projectName =
     \<lparr>lbl_Label = projectLabel, lbl_Value = projectName, lbl_IsNegative = False, lbl_IsRegexp = False\<rparr>"

definition confine :: "string \<Rightarrow> LabelFilter list list \<Rightarrow> LabelFilter list list" where
  "confine projectName fss =
     (if fss = [] then [[project_filter projectName]] else map (\<lambda>fs. fs @ [project_filter projectName]) fss)"

text \<open>The loop over the sources. A query that is no selector leaves a nil pointer that is dereferenced.\<close>

definition source_config :: "MetricsService \<Rightarrow> string \<Rightarrow> VectorSource" where
  "source_config ms query =
     \<lparr>vs_Type = ''prometheus_scrape'', vs_Endpoints = [mv_Endpoint ms],
      vs_Auth = \<lparr>va_Strategy = ''basic'', va_User = mv_Username ms, va_Password = mv_Password ms\<rparr>, vs_Match = [query]\<rparr>"

fun configure_sources ::
  "metricsql \<Rightarrow> (LabelFilter list list \<Rightarrow> string) \<Rightarrow> MetricsService \<Rightarrow> string \<Rightarrow> ExportPolicy \<Rightarrow>
   TelemetrySource list \<Rightarrow> (string \<times> VectorSource) list \<Rightarrow> op_error + (string \<times> VectorSource) list" where
  "configure_sources parse render ms projectName policy [] acc = Inr acc"
| "configure_sources parse render ms projectName policy (s # ss) acc =
     (case ts_Metrics s of
        None \<Rightarrow> configure_sources parse render ms projectName policy ss acc
      | Some m \<Rightarrow>
          (case parse (ms_MetricsQL m) of
             Inl err \<Rightarrow> configure_sources parse render ms projectName policy ss acc
           | Inr OtherExpr \<Rightarrow> Inl NilDeref
           | Inr (MetricExpr fss) \<Rightarrow>
               configure_sources parse render ms projectName policy ss
                 (AList.update (getVectorComponentID policy projectName (ts_Name s) vectorSource)
                   (source_config ms (render (confine projectName fss))) acc)))"

fun configure_sinks ::
  "secret_getter \<Rightarrow> string \<Rightarrow> ExportPolicy \<Rightarrow> TelemetrySink list \<Rightarrow> (string \<times> VectorSink) list \<Rightarrow>
   op_error + (string \<times> VectorSink) list" where
  "configure_sinks get projectName policy [] acc = Inr acc"
| "configure_sinks get projectName policy (s # ss) acc =
     (case getSinkVectorConfig get projectName s policy of
        Inl NilDeref \<Rightarrow> Inl NilDeref
      | Inl e \<Rightarrow> configure_sinks get projectName policy ss acc
      | Inr cfg \<Rightarrow> configure_sinks get projectName policy ss
          (AList.update (getVectorComponentID policy projectName (sk_Name s) vectorSink) cfg acc))"

definition createVectorConfiguration ::
  "metricsql \<Rightarrow> (LabelFilter list list \<Rightarrow> string) \<Rightarrow> MetricsService \<Rightarrow> secret_getter \<Rightarrow> string \<Rightarrow> ExportPolicy \<Rightarrow>
   op_error + VectorConfig" where
  "createVectorConfiguration parse render ms get projectName policy =
     res_bind (configure_sources parse render ms projectName policy (sp_Sources (ep_Spec policy)) []) (\<lambda>sources.
     res_bind (configure_sinks get projectName policy (sp_Sinks (ep_Spec policy)) []) (\<lambda>sinks.
       Inr \<lparr>vc_Sources = sources, vc_Sinks = sinks\<rparr>))"

section \<open>Status\<close>

type_synonym condition_setter = "Condition list \<Rightarrow> Condition \<Rightarrow> Condition list \<times> bool"

fun getSinkStatus_in :: "SinkStatus list \<Rightarrow> string \<Rightarrow> SinkStatus" where
  "getSinkStatus_in [] sinkName = \<lparr>ss_Name = sinkName, ss_Conditions = []\<rparr>"
| "getSinkStatus_in (s # ss) sinkName = (if ss_Name s = sinkName then s else getSinkStatus_in ss sinkName)"

definition getSinkStatus :: "ExportPolicy \<Rightarrow> string \<Rightarrow> SinkStatus" where
  "getSinkStatus policy sinkName = getSinkStatus_in (es_Sinks (ep_Status policy)) sinkName"

definition conditionTypeAccepted :: string where "conditionTypeAccepted = ''Accepted''"

definition secret_error_text :: "op_error \<Rightarrow> string" where
  "secret_error_text e =
     (case e of
        SecretNotFound n \<Rightarrow> ''secret '' @ [CHR 0x27] @ n @ [CHR 0x27] @ '' not found''
      | SecretInternal \<Rightarrow> ''internal error when retrieving secret''
      | SecretWrongType n \<Rightarrow> ''secret '' @ [CHR 0x27] @ n @ [CHR 0x27] @ '' is not of type kubernetes.io/basic-auth''
      | SecretNoUsername n \<Rightarrow> ''secret '' @ [CHR 0x27] @ n @ [CHR 0x27] @ '' does not contain a username''
      | SecretNoPassword n \<Rightarrow> ''secret '' @ [CHR 0x27] @ n @ [CHR 0x27] @ '' does not contain a password''
      | _ \<Rightarrow> [])"

text \<open>The condition a sink's configuration calls for, when it has a target the operator knows.\<close>

definition sink_condition ::
  "secret_getter \<Rightarrow> ExportPolicy \<Rightarrow> PrometheusRemoteWriteSink \<Rightarrow> Condition" where
  "sink_condition get policy w =
     (let accept = \<lparr>cd_Type = conditionTypeAccepted, cd_Status = ''True'', cd_Reason = ''SinkConfigured'', cd_Message = [],
            cd_ObservedGeneration = 0\<rparr> in
      case prw_Authentication w of
        None \<Rightarrow> accept
      | Some auth \<Rightarrow>
          (case au_BasicAuth auth of
             None \<Rightarrow> accept
           | Some basic \<Rightarrow>
               (case retrieveBasicAuthSecret get (ba_SecretRef basic) policy of
                  Inl e \<Rightarrow> \<lparr>cd_Type = conditionTypeAccepted, cd_Status = ''False'', cd_Reason = ''InvalidAuthentication'',
                    cd_Message = secret_error_text e, cd_ObservedGeneration = 0\<rparr>
                | Inr _ \<Rightarrow> accept)))"

definition sink_status ::
  "condition_setter \<Rightarrow> secret_getter \<Rightarrow> ExportPolicy \<Rightarrow> TelemetrySink \<Rightarrow> op_error + SinkStatus \<times> bool" where
  "sink_status set_cond get policy sink =
     (let status = getSinkStatus policy (sk_Name sink) in
      case sk_Target sink of
        None \<Rightarrow> Inl NilDeref
      | Some t \<Rightarrow>
          (case st_PrometheusRemoteWrite t of
             None \<Rightarrow> Inr (status, False)
           | Some w \<Rightarrow>
               let r = set_cond (ss_Conditions status) (sink_condition get policy w) in
               Inr (status\<lparr>ss_Conditions := fst r\<rparr>, snd r)))"

fun sink_statuses ::
  "condition_setter \<Rightarrow> secret_getter \<Rightarrow> ExportPolicy \<Rightarrow> TelemetrySink list \<Rightarrow> op_error + SinkStatus list \<times> bool" where
  "sink_statuses set_cond get policy [] = Inr ([], False)"
| "sink_statuses set_cond get policy (s # ss) =
     res_bind (sink_status set_cond get policy s) (\<lambda>(st, ch).
     res_bind (sink_statuses set_cond get policy ss) (\<lambda>(sts, chs). Inr (st # sts, ch \<or> chs)))"

definition acceptedCount :: "SinkStatus list \<Rightarrow> nat" where
  "acceptedCount sts =
     length (filter (\<lambda>c. cd_Type c = conditionTypeAccepted \<and> cd_Status c = ''True'') (concat (map ss_Conditions sts)))"

definition ready_condition :: "int \<Rightarrow> SinkStatus list \<Rightarrow> Condition" where
  "ready_condition generation sts =
     (if acceptedCount sts = length sts
      then \<lparr>cd_Type = ''Ready'', cd_Status = ''True'', cd_Reason = ''SinksAccepted'', cd_Message = ''All sinks are configured.'',
        cd_ObservedGeneration = generation\<rparr>
      else \<lparr>cd_Type = ''Ready'', cd_Status = ''False'', cd_Reason = ''SinksNotAccepted'',
        cd_Message = Itoa (int (acceptedCount sts)) @ ''/'' @ Itoa (int (length sts)) @
          '' sinks are accepted. Check the status of the sinks for more details.'',
        cd_ObservedGeneration = generation\<rparr>)"

definition updateExportPolicyConditions ::
  "condition_setter \<Rightarrow> ExportPolicy \<Rightarrow> SinkStatus list \<Rightarrow> ExportPolicy \<times> bool" where
  "updateExportPolicyConditions set_cond policy sts =
     (let r = set_cond (es_Conditions (ep_Status policy)) (ready_condition (ep_Generation policy) sts) in
      (policy\<lparr>ep_Status := (ep_Status policy)\<lparr>es_Conditions := fst r\<rparr>\<rparr>, snd r))"

definition reconcileExportPolicyStatus ::
  "condition_setter \<Rightarrow> secret_getter \<Rightarrow> ExportPolicy \<Rightarrow> op_error + ExportPolicy \<times> bool" where
  "reconcileExportPolicyStatus set_cond get policy =
     res_bind (sink_statuses set_cond get policy (sp_Sinks (ep_Spec policy))) (\<lambda>(sts, statusChanged).
       let policy' = policy\<lparr>ep_Status := (ep_Status policy)\<lparr>es_Sinks := sts\<rparr>\<rparr>;
           r = updateExportPolicyConditions set_cond policy' sts in
       Inr (fst r, snd r \<or> statusChanged))"

section \<open>Reconciling\<close>

definition exportPolicyNameLabel :: string where
  "exportPolicyNameLabel = ''exportpolicy.telemetry.miloapis.com/name''"
definition exportPolicyNamespaceLabel :: string where
  "exportPolicyNamespaceLabel = ''exportpolicy.telemetry.miloapis.com/namespace''"
definition exportPolicyControllerFinalizer :: string where
  "exportPolicyControllerFinalizer = ''exportpolicy.telemetry.miloapis.com/controller''"

record ConfigSecret =
  cs_Name :: string
  cs_Namespace :: string
  cs_Labels :: "(string \<times> string) list"
  cs_Data :: "(string \<times> string) list"

record ExportPolicyReconciler =
  er_DownstreamVectorConfigNamespace :: string
  er_MetricsService :: MetricsService
  er_VectorConfigLabelKey :: string
  er_VectorConfigLabelValue :: string

datatype api_call =
    DeleteSecret string string
  | UpdatePolicy ExportPolicy
  | UpdateStatus ExportPolicy
  | PutSecret ConfigSecret

definition config_secret_name :: "ExportPolicy \<Rightarrow> string" where
  "config_secret_name p = ''export-policy-vector-config-'' @ ep_UID p"

definition Finalize ::
  "(string \<Rightarrow> string \<Rightarrow> get_error option) \<Rightarrow> string \<Rightarrow> ExportPolicy \<Rightarrow> op_error option \<times> api_call list" where
  "Finalize delete ns policy =
     (let name = config_secret_name policy in
      (case delete ns name of
         Some (GetError e) \<Rightarrow> Some (OpWrapped ''failed to delete downstream secret'' (OpError e))
       | _ \<Rightarrow> None,
       [DeleteSecret ns name]))"

text \<open>
  One run of the reconciler sees the API in one state: what each call returns. The finalizer manager is
  given the finalizer and returns an error, or whether it changed the object and the object.
\<close>

type_synonym finalizers =
  "(ExportPolicy \<Rightarrow> op_error option \<times> api_call list) \<Rightarrow> ExportPolicy \<Rightarrow> (op_error + bool \<times> ExportPolicy) \<times> api_call list"

record Api =
  ap_GetCluster :: "op_error option"
  ap_GetPolicy :: "get_error + ExportPolicy"
  ap_GetSecret :: secret_getter
  ap_DeleteSecret :: "string \<Rightarrow> string \<Rightarrow> get_error option"
  ap_UpdatePolicy :: "ExportPolicy \<Rightarrow> op_error option"
  ap_UpdateStatus :: "ExportPolicy \<Rightarrow> op_error option"
  ap_CreateOrUpdate :: "ConfigSecret \<Rightarrow> op_error option"

record Libs =
  lb_finalizers :: finalizers
  lb_set_cond :: condition_setter
  lb_parse :: metricsql
  lb_render :: "LabelFilter list list \<Rightarrow> string"
  lb_marshal :: "VectorConfig \<Rightarrow> op_error + string"

datatype outcome = Done | Requeue | Failed op_error | Panicked

definition config_secret :: "ExportPolicyReconciler \<Rightarrow> ExportPolicy \<Rightarrow> string \<Rightarrow> ConfigSecret" where
  "config_secret r p json =
     \<lparr>cs_Name = config_secret_name p, cs_Namespace = er_DownstreamVectorConfigNamespace r,
      cs_Labels = AList.update exportPolicyNamespaceLabel (ep_Namespace p)
        (AList.update exportPolicyNameLabel (ep_Name p) [(er_VectorConfigLabelKey r, er_VectorConfigLabelValue r)]),
      cs_Data = [(ep_UID p @ ''.json'', json)]\<rparr>"

text \<open>From the status on: \<open>calls\<close> are the calls made so far.\<close>

definition reconcile_active ::
  "Libs \<Rightarrow> Api \<Rightarrow> ExportPolicyReconciler \<Rightarrow> string \<Rightarrow> ExportPolicy \<Rightarrow> api_call list \<Rightarrow> outcome \<times> api_call list" where
  "reconcile_active L api r clusterName policy calls =
     (case reconcileExportPolicyStatus (lb_set_cond L) (ap_GetSecret api) policy of
        Inl e \<Rightarrow> (Panicked, calls)
      | Inr (policy', True) \<Rightarrow>
          (case ap_UpdateStatus api policy' of
             Some e \<Rightarrow> (Failed (OpWrapped ''failed to update export policy status'' e), calls @ [UpdateStatus policy'])
           | None \<Rightarrow> (Requeue, calls @ [UpdateStatus policy']))
      | Inr (policy', False) \<Rightarrow>
          (case createVectorConfiguration (lb_parse L) (lb_render L) (er_MetricsService r) (ap_GetSecret api)
              (ReplaceAll clusterName ''/'' []) policy' of
             Inl e \<Rightarrow> (Panicked, calls)
           | Inr cfg \<Rightarrow>
               (case lb_marshal L cfg of
                  Inl e \<Rightarrow> (Failed (OpWrapped ''failed to marshal vector config'' e), calls)
                | Inr json \<Rightarrow>
                    (let s = config_secret r policy' json in
                     case ap_CreateOrUpdate api s of
                       Some e \<Rightarrow> (Failed (OpWrapped ''failed to create or update downstream secret'' e), calls @ [PutSecret s])
                     | None \<Rightarrow> (Done, calls @ [PutSecret s])))))"

definition Reconcile :: "Libs \<Rightarrow> Api \<Rightarrow> ExportPolicyReconciler \<Rightarrow> string \<Rightarrow> outcome \<times> api_call list" where
  "Reconcile L api r clusterName =
     (case ap_GetCluster api of
        Some e \<Rightarrow> (Failed (OpWrapped ''failed to get cluster'' e), [])
      | None \<Rightarrow>
     (case ap_GetPolicy api of
        Inl NotFound \<Rightarrow> (Done, [])
      | Inl (GetError e) \<Rightarrow> (Failed (OpWrapped ''failed to get export policy'' (OpError e)), [])
      | Inr policy \<Rightarrow>
     (case lb_finalizers L (Finalize (ap_DeleteSecret api) (er_DownstreamVectorConfigNamespace r)) policy of
        (Inl e, calls) \<Rightarrow> (Failed e, calls)
      | (Inr (updated, policy'), calls) \<Rightarrow>
          let calls' = (if updated then calls @ [UpdatePolicy policy'] else calls) in
          (case (if updated then ap_UpdatePolicy api policy' else None) of
             Some e \<Rightarrow> (Failed e, calls')
           | None \<Rightarrow>
               if ep_Deleted policy' then (Done, calls')
               else reconcile_active L api r clusterName policy' calls'))))"

text \<open>The watch on Secrets: the policies of the namespace that reference the secret, as names to reconcile.\<close>

definition referencesSecret :: "ExportPolicy \<Rightarrow> string \<Rightarrow> bool" where
  "referencesSecret policy secretName \<longleftrightarrow>
     list_ex (\<lambda>sink.
       case sk_Target sink of None \<Rightarrow> False
       | Some t \<Rightarrow> (case st_PrometheusRemoteWrite t of None \<Rightarrow> False
       | Some w \<Rightarrow> (case prw_Authentication w of None \<Rightarrow> False
       | Some auth \<Rightarrow> (case au_BasicAuth auth of None \<Rightarrow> False
       | Some basic \<Rightarrow> lsr_Name (ba_SecretRef basic) = secretName)))) (sp_Sinks (ep_Spec policy))"

definition secret_requests :: "(string \<Rightarrow> get_error + ExportPolicy list) \<Rightarrow> string \<Rightarrow> string \<Rightarrow> (string \<times> string) list" where
  "secret_requests list_policies ns secretName =
     (case list_policies ns of
        Inl e \<Rightarrow> []
      | Inr ps \<Rightarrow> map (\<lambda>p. (ep_Namespace p, ep_Name p)) (filter (\<lambda>p. referencesSecret p secretName) ps))"

section \<open>Lemmas on the Vector configuration\<close>

text \<open>
  A sink whose authentication, if it has any, is basic authentication. The webhook does not ask for that,
  and a sink that is not so is dereferenced at nil.
\<close>

definition sink_auth_complete :: "TelemetrySink \<Rightarrow> bool" where
  "sink_auth_complete sink \<longleftrightarrow>
     (case sk_Target sink of None \<Rightarrow> True
      | Some t \<Rightarrow> (case st_PrometheusRemoteWrite t of None \<Rightarrow> True
      | Some w \<Rightarrow> (case prw_Authentication w of None \<Rightarrow> True | Some auth \<Rightarrow> au_BasicAuth auth \<noteq> None)))"

definition auth_complete :: "ExportPolicy \<Rightarrow> bool" where
  "auth_complete p \<longleftrightarrow> list_all sink_auth_complete (sp_Sinks (ep_Spec p))"

definition selector_of :: "metricsql \<Rightarrow> TelemetrySource \<Rightarrow> LabelFilter list list" where
  "selector_of parse s =
     (case ts_Metrics s of None \<Rightarrow> []
      | Some m \<Rightarrow> (case parse (ms_MetricsQL m) of Inr (MetricExpr fss) \<Rightarrow> fss | _ \<Rightarrow> []))"

abbreviation source_id :: "ExportPolicy \<Rightarrow> string \<Rightarrow> TelemetrySource \<Rightarrow> string" where
  "source_id p proj s \<equiv> getVectorComponentID p proj (ts_Name s) vectorSource"

abbreviation sink_id :: "ExportPolicy \<Rightarrow> string \<Rightarrow> TelemetrySink \<Rightarrow> string" where
  "sink_id p proj s \<equiv> getVectorComponentID p proj (sk_Name s) vectorSink"

lemma update_fresh: "k \<notin> fst ` set al \<Longrightarrow> AList.update k v al = al @ [(k, v)]"
  by (induction al) auto

lemma getVectorComponentID_inject [simp]:
  "getVectorComponentID p proj a t = getVectorComponentID p proj b t \<longleftrightarrow> a = b"
  by (simp add: getVectorComponentID_def)

lemma configure_sources_all:
  assumes "list_all (wf_source parse) ss" "distinct (map ts_Name ss)" "fst ` set acc \<inter> source_id p proj ` set ss = {}"
  shows "configure_sources parse render ms proj p ss acc =
    Inr (acc @ map (\<lambda>s. (source_id p proj s, source_config ms (render (confine proj (selector_of parse s))))) ss)"
  using assms
proof (induction ss arbitrary: acc)
  case (Cons s ss)
  from Cons.prems(1) obtain m fss where m: "ts_Metrics s = Some m" "parse (ms_MetricsQL m) = Inr (MetricExpr fss)"
    by (auto simp: wf_source_def split: option.splits sum.splits expr.splits)
  have "source_id p proj s \<notin> fst ` set acc" using Cons.prems(3) by auto
  moreover have "fst ` set (acc @ [(source_id p proj s, v)]) \<inter> source_id p proj ` set ss = {}" for v
    using Cons.prems(2,3) by auto
  moreover have "selector_of parse s = fss" by (simp add: selector_of_def m)
  ultimately show ?case using Cons m by (simp add: update_fresh)
qed simp

lemma retrieve_not_nil: "retrieveBasicAuthSecret get ref p \<noteq> Inl NilDeref"
  by (simp add: retrieveBasicAuthSecret_def split: sum.splits get_error.splits)

lemma getSink_nil:
  assumes "wf_sink url_error k"
  shows "getSinkVectorConfig get proj k p = Inl NilDeref \<longleftrightarrow> \<not> sink_auth_complete k"
proof -
  obtain t w where w: "sk_Target k = Some t" "st_PrometheusRemoteWrite t = Some w"
    using assms by (auto simp: wf_sink_def split: option.splits)
  show ?thesis
  proof (cases "prw_Authentication w")
    case (Some auth)
    then show ?thesis using w retrieve_not_nil
      by (cases "au_BasicAuth auth") (auto simp: sink_auth_complete_def getSinkVectorConfig_def
          getPrometheusRemoteWriteSinkVectorConfig_def Let_def res_bind_def split: sum.splits)
  qed (use w in \<open>simp add: sink_auth_complete_def getSinkVectorConfig_def getPrometheusRemoteWriteSinkVectorConfig_def Let_def\<close>)
qed

lemma configure_sinks_nil:
  "k \<in> set ks \<Longrightarrow> getSinkVectorConfig get proj k p = Inl NilDeref \<Longrightarrow> configure_sinks get proj p ks acc = Inl NilDeref"
  by (induction ks arbitrary: acc) (auto split: sum.split op_error.split)

definition configured_sinks :: "secret_getter \<Rightarrow> string \<Rightarrow> ExportPolicy \<Rightarrow> TelemetrySink list \<Rightarrow> (string \<times> VectorSink) list" where
  "configured_sinks get proj p ks =
     concat (map (\<lambda>k. case getSinkVectorConfig get proj k p of Inl _ \<Rightarrow> [] | Inr v \<Rightarrow> [(sink_id p proj k, v)]) ks)"

lemma configure_sinks_all:
  assumes "\<forall>k \<in> set ks. getSinkVectorConfig get proj k p \<noteq> Inl NilDeref" "distinct (map sk_Name ks)"
    "fst ` set acc \<inter> sink_id p proj ` set ks = {}"
  shows "configure_sinks get proj p ks acc = Inr (acc @ configured_sinks get proj p ks)"
  using assms
proof (induction ks arbitrary: acc)
  case (Cons k ks)
  have k: "sink_id p proj k \<notin> fst ` set acc" using Cons.prems(3) by auto
  show ?case
  proof (cases "getSinkVectorConfig get proj k p")
    case (Inl e)
    with Cons.prems(1) have "e \<noteq> NilDeref" by auto
    then have "configure_sinks get proj p (k # ks) acc = configure_sinks get proj p ks acc"
      using Inl by (auto split: op_error.split)
    then show ?thesis using Inl Cons by (auto simp: configured_sinks_def)
  next
    case (Inr v)
    have "fst ` set (acc @ [(sink_id p proj k, v)]) \<inter> sink_id p proj ` set ks = {}"
      using Cons.prems(2,3) by auto
    then show ?thesis using Inr Cons by (auto simp: configured_sinks_def update_fresh [OF k])
  qed
qed (simp add: configured_sinks_def)

text \<open>The configuration of an admitted policy: built, or ended by the nil dereference of a sink.\<close>

lemma createVectorConfiguration_wf:
  assumes "wf_policy parse url_error p"
  shows "createVectorConfiguration parse render ms get proj p =
    (if auth_complete p
     then Inr \<lparr>vc_Sources = map (\<lambda>s. (source_id p proj s, source_config ms (render (confine proj (selector_of parse s))))) (sp_Sources (ep_Spec p)),
       vc_Sinks = configured_sinks get proj p (sp_Sinks (ep_Spec p))\<rparr>
     else Inl NilDeref)"
proof -
  have nil: "getSinkVectorConfig get proj k p = Inl NilDeref \<longleftrightarrow> \<not> sink_auth_complete k" if "k \<in> set (sp_Sinks (ep_Spec p))" for k
    using that assms by (intro getSink_nil [of url_error]) (simp add: wf_policy_def list_all_iff)
  have "configure_sinks get proj p (sp_Sinks (ep_Spec p)) [] =
      (if auth_complete p then Inr (configured_sinks get proj p (sp_Sinks (ep_Spec p))) else Inl NilDeref)"
    using nil configure_sinks_nil [of _ "sp_Sinks (ep_Spec p)" get proj p "[]"] assms
      configure_sinks_all [of "sp_Sinks (ep_Spec p)" get proj p "[]"]
    by (auto simp: auth_complete_def list_all_iff wf_policy_def)
  then show ?thesis
    using assms configure_sources_all [of parse "sp_Sources (ep_Spec p)" "[]" p proj render ms]
    by (simp add: createVectorConfiguration_def wf_policy_def)
qed

text \<open>A series is its labels, an absent label being empty; \<open>fm\<close> says when a filter matches a series.\<close>

definition selects :: "(LabelFilter \<Rightarrow> (string \<Rightarrow> string) \<Rightarrow> bool) \<Rightarrow> LabelFilter list list \<Rightarrow> (string \<Rightarrow> string) \<Rightarrow> bool" where
  "selects fm fss series \<longleftrightarrow> list_ex (list_all (\<lambda>f. fm f series)) fss"

lemma selects_confine:
  assumes "fm (project_filter proj) series \<longleftrightarrow> series projectLabel = proj"
  shows "selects fm (confine proj fss) series \<longleftrightarrow> (fss = [] \<or> selects fm fss series) \<and> series projectLabel = proj"
  using assms by (auto simp: selects_def confine_def list_ex_iff)

text \<open>
  C26. Export stays within the project. For an admitted policy whose sinks' authentication is always basic
  authentication, the Vector configuration is built: it has one source for each source of the policy,
  under distinct component ids, and the query of each selects exactly the series that the policy's own
  selector selects (all of them for an empty selector) and that carry the label of the project the policy
  belongs to; its sinks are those whose configuration could be built. For an admitted policy with a sink
  whose authentication is given without basic authentication, which the webhook lets through, nothing is
  built and the reconciler dereferences nil. The MetricsQL printer is assumed to print a selector that
  parses back, and an equality filter to mean equality.
\<close>

theorem vector_sources_confined:
  assumes "wf_policy parse url_error p"
    and "list_all (\<lambda>s. parse (render (confine proj (selector_of parse s))) =
      Inr (MetricExpr (confine proj (selector_of parse s)))) (sp_Sources (ep_Spec p))"
    and "\<And>f series. \<not> lbl_IsNegative f \<Longrightarrow> \<not> lbl_IsRegexp f \<Longrightarrow> fm f series \<longleftrightarrow> series (lbl_Label f) = lbl_Value f"
  shows "if auth_complete p
    then \<exists>cfg. createVectorConfiguration parse render ms get proj p = Inr cfg \<and>
      map fst (vc_Sources cfg) = map (source_id p proj) (sp_Sources (ep_Spec p)) \<and> distinct (map fst (vc_Sources cfg)) \<and>
      list_all2 (\<lambda>s (k, v). \<exists>q fss. vs_Match v = [q] \<and> parse q = Inr (MetricExpr fss) \<and>
        (\<forall>series. selects fm fss series \<longleftrightarrow>
          (selector_of parse s = [] \<or> selects fm (selector_of parse s) series) \<and> series projectLabel = proj))
        (sp_Sources (ep_Spec p)) (vc_Sources cfg) \<and>
      vc_Sinks cfg = configured_sinks get proj p (sp_Sinks (ep_Spec p))
    else createVectorConfiguration parse render ms get proj p = Inl NilDeref"
proof -
  have pf: "fm (project_filter proj) series \<longleftrightarrow> series projectLabel = proj" for series
    using assms(3) [of "project_filter proj" series] by (simp add: project_filter_def)
  have "distinct (map (source_id p proj) (sp_Sources (ep_Spec p)))"
    using assms(1) by (auto simp: wf_policy_def distinct_map inj_on_def)
  then show ?thesis
    using assms(2) selects_confine [of fm proj, OF pf]
    by (auto simp: createVectorConfiguration_wf [OF assms(1)] source_config_def list_all2_map2 comp_def list_all_iff intro!: list.rel_refl_strong)
qed

section \<open>Lemmas on the status\<close>

text \<open>Setting the same condition again changes nothing and says so.\<close>

definition sets_once :: "condition_setter \<Rightarrow> bool" where
  "sets_once set_cond \<longleftrightarrow> (\<forall>cs c. set_cond (fst (set_cond cs c)) c = (fst (set_cond cs c), False))"

lemma getSinkStatus_in_Name [simp]: "ss_Name (getSinkStatus_in sts n) = n"
  by (induction sts) auto

lemma getSinkStatus_in_nth:
  "distinct (map ss_Name sts) \<Longrightarrow> i < length sts \<Longrightarrow> getSinkStatus_in sts (ss_Name (sts ! i)) = sts ! i"
proof (induction sts arbitrary: i)
  case (Cons s sts)
  then show ?case by (cases i) auto
qed simp

lemma sink_status_Name: "sink_status sc get p s = Inr (st, ch) \<Longrightarrow> ss_Name st = sk_Name s"
  by (auto simp: sink_status_def getSinkStatus_def Let_def split: option.splits)

lemma sink_condition_policy:
  "ep_Namespace p' = ep_Namespace p \<Longrightarrow> sink_condition get p' w = sink_condition get p w"
proof -
  assume "ep_Namespace p' = ep_Namespace p"
  then have "retrieveBasicAuthSecret get ref p' = retrieveBasicAuthSecret get ref p" for ref
    by (simp add: retrieveBasicAuthSecret_def)
  then show ?thesis by (simp add: sink_condition_def Let_def split: option.split)
qed

lemma sink_status_stable:
  assumes "sink_status sc get p s = Inr (st, ch)" "sets_once sc" "getSinkStatus p' (sk_Name s) = st" "ep_Namespace p' = ep_Namespace p"
  shows "sink_status sc get p' s = Inr (st, False)"
proof -
  obtain t where t: "sk_Target s = Some t" using assms(1) by (auto simp: sink_status_def Let_def split: option.splits)
  show ?thesis
  proof (cases "st_PrometheusRemoteWrite t")
    case None
    then show ?thesis using assms(3) t by (simp add: sink_status_def)
  next
    case (Some w)
    then have "st = (getSinkStatus p (sk_Name s))\<lparr>ss_Conditions :=
        fst (sc (ss_Conditions (getSinkStatus p (sk_Name s))) (sink_condition get p w))\<rparr>"
      using assms(1) t by (simp add: sink_status_def Let_def)
    then have "sc (ss_Conditions st) (sink_condition get p w) = (ss_Conditions st, False)"
      using assms(2) by (simp add: sets_once_def)
    then show ?thesis using assms(3) t Some sink_condition_policy [OF assms(4)] by (simp add: sink_status_def Let_def)
  qed
qed

lemma sink_statuses_stable:
  assumes "sink_statuses sc get p ss = Inr (sts, ch)" "sets_once sc" "ep_Namespace p' = ep_Namespace p"
    and "list_all2 (\<lambda>s st. getSinkStatus p' (sk_Name s) = st) ss sts"
  shows "sink_statuses sc get p' ss = Inr (sts, False)"
  using assms
proof (induction ss arbitrary: sts ch)
  case (Cons s ss)
  then obtain st c sts' c' where "sts = st # sts'" "sink_status sc get p s = Inr (st, c)" "sink_statuses sc get p ss = Inr (sts', c')"
    by (auto split: prod.splits)
  with Cons show ?case by (auto simp: sink_status_stable)
qed auto

lemma sink_statuses_Name: "sink_statuses sc get p ss = Inr (sts, ch) \<Longrightarrow> map ss_Name sts = map sk_Name ss"
  by (induction ss arbitrary: sts ch) (auto simp: sink_status_Name split: prod.splits)

lemma status_stable:
  assumes "reconcileExportPolicyStatus sc get p = Inr (p1, ch)" "sets_once sc" "distinct (map sk_Name (sp_Sinks (ep_Spec p)))"
  shows "reconcileExportPolicyStatus sc get p1 = Inr (p1, False) \<and> (\<exists>st. p1 = p\<lparr>ep_Status := st\<rparr>)"
proof -
  obtain sts c where s: "sink_statuses sc get p (sp_Sinks (ep_Spec p)) = Inr (sts, c)" and
    p1: "p1 = p\<lparr>ep_Status := \<lparr>es_Conditions = fst (sc (es_Conditions (ep_Status p)) (ready_condition (ep_Generation p) sts)), es_Sinks = sts\<rparr>\<rparr>"
    using assms(1) by (cases "ep_Status p") (auto simp: reconcileExportPolicyStatus_def updateExportPolicyConditions_def Let_def)
  note names = sink_statuses_Name [OF s]
  have len: "length sts = length (sp_Sinks (ep_Spec p))" using arg_cong [OF names, of length] by simp
  have "list_all2 (\<lambda>s st. getSinkStatus p1 (sk_Name s) = st) (sp_Sinks (ep_Spec p)) sts"
    unfolding list_all2_conv_all_nth
  proof (intro conjI allI impI)
    fix i assume i: "i < length (sp_Sinks (ep_Spec p))"
    then have "sk_Name (sp_Sinks (ep_Spec p) ! i) = ss_Name (sts ! i)"
      using names len by (metis nth_map)
    then show "getSinkStatus p1 (sk_Name (sp_Sinks (ep_Spec p) ! i)) = sts ! i"
      using getSinkStatus_in_nth [of sts i] i len names assms(3) by (simp add: getSinkStatus_def p1)
  qed (simp add: len)
  then have "sink_statuses sc get p1 (sp_Sinks (ep_Spec p)) = Inr (sts, False)"
    by (intro sink_statuses_stable [OF s assms(2)]) (simp_all add: p1)
  then have "reconcileExportPolicyStatus sc get p1 = Inr (p1, False)"
    using assms(2) by (simp add: reconcileExportPolicyStatus_def updateExportPolicyConditions_def p1 sets_once_def)
  then show ?thesis using p1 by auto
qed

section \<open>Lemmas on reconciling\<close>

text \<open>
  What the finalizer manager documents: an object that is not being deleted gets the finalizer, if it
  lacks it; one that is being deleted and has it is finalized, and loses it when that succeeds.
\<close>

definition runs_finalizer :: "finalizers \<Rightarrow> bool" where
  "runs_finalizer fz \<longleftrightarrow> (\<forall>act p. fz act p =
     (if ep_Deleted p
      then if exportPolicyControllerFinalizer \<in> set (ep_Finalizers p)
        then (case act p of
            (Some e, calls) \<Rightarrow> (Inl e, calls)
          | (None, calls) \<Rightarrow> (Inr (True, p\<lparr>ep_Finalizers := removeAll exportPolicyControllerFinalizer (ep_Finalizers p)\<rparr>), calls))
        else (Inr (False, p), [])
      else if exportPolicyControllerFinalizer \<in> set (ep_Finalizers p) then (Inr (False, p), [])
        else (Inr (True, p\<lparr>ep_Finalizers := ep_Finalizers p @ [exportPolicyControllerFinalizer]\<rparr>), [])))"

text \<open>The configuration depends on a policy's specification and identity, not on status and finalizers.\<close>

lemma getVectorComponentID_policy [simp]:
  "getVectorComponentID (p\<lparr>ep_Status := st\<rparr>) = getVectorComponentID p"
  "getVectorComponentID (p\<lparr>ep_Finalizers := fs\<rparr>) = getVectorComponentID p"
  by (simp_all add: getVectorComponentID_def fun_eq_iff)

lemma wf_policy_update [simp]:
  "wf_policy parse ue (p\<lparr>ep_Status := st\<rparr>) = wf_policy parse ue p"
  "wf_policy parse ue (p\<lparr>ep_Finalizers := fs\<rparr>) = wf_policy parse ue p"
  "auth_complete (p\<lparr>ep_Status := st\<rparr>) = auth_complete p"
  "auth_complete (p\<lparr>ep_Finalizers := fs\<rparr>) = auth_complete p"
  by (simp_all add: wf_policy_def auth_complete_def)

lemma getSinkVectorConfig_policy [simp]:
  "getSinkVectorConfig get proj k (p\<lparr>ep_Status := st\<rparr>) = getSinkVectorConfig get proj k p"
  "getSinkVectorConfig get proj k (p\<lparr>ep_Finalizers := fs\<rparr>) = getSinkVectorConfig get proj k p"
  by (simp_all add: getSinkVectorConfig_def getPrometheusRemoteWriteSinkVectorConfig_def retrieveBasicAuthSecret_def Let_def
      split: option.split)

lemma configured_sinks_policy [simp]:
  "configured_sinks get proj (p\<lparr>ep_Status := st\<rparr>) ks = configured_sinks get proj p ks"
  "configured_sinks get proj (p\<lparr>ep_Finalizers := fs\<rparr>) ks = configured_sinks get proj p ks"
  unfolding configured_sinks_def getSinkVectorConfig_policy getVectorComponentID_policy by (rule refl)+

lemma createVectorConfiguration_policy:
  assumes "wf_policy parse ue p"
  shows "createVectorConfiguration parse render ms get proj (p\<lparr>ep_Status := st\<rparr>) = createVectorConfiguration parse render ms get proj p"
    and "createVectorConfiguration parse render ms get proj (p\<lparr>ep_Finalizers := fs\<rparr>) = createVectorConfiguration parse render ms get proj p"
  using assms by (simp_all add: createVectorConfiguration_wf [where url_error = ue])

lemma config_secret_policy [simp]:
  "config_secret r (p\<lparr>ep_Status := st\<rparr>) json = config_secret r p json"
  "config_secret r (p\<lparr>ep_Finalizers := fs\<rparr>) json = config_secret r p json"
  by (simp_all add: config_secret_def config_secret_name_def)

lemma sink_statuses_total:
  "list_all (wf_sink url_error) ss \<Longrightarrow> \<exists>r. sink_statuses sc get p ss = Inr r"
  by (induction ss) (auto simp: sink_status_def wf_sink_def Let_def split: option.splits)

lemma status_total: "wf_policy parse ue p \<Longrightarrow> \<exists>p1 ch. reconcileExportPolicyStatus sc get p = Inr (p1, ch)"
  using sink_statuses_total [of ue "sp_Sinks (ep_Spec p)" sc get p]
  by (auto simp: reconcileExportPolicyStatus_def wf_policy_def Let_def)

text \<open>
  C27. A policy's configuration is deleted before the policy is let go: a run for a policy that is being
  deleted first deletes its Secret, and removes the finalizer only when the deletion succeeded or there
  was nothing to delete; when it failed, the policy is not updated and the run fails, to be repeated.
  Nothing else is written. The finalizer manager is assumed to behave as documented.
\<close>

theorem deletion_releases_last:
  assumes "runs_finalizer (lb_finalizers L)" "ap_GetCluster api = None" "ap_GetPolicy api = Inr p" "ep_Deleted p"
  shows "Reconcile L api r cluster =
    (let ns = er_DownstreamVectorConfigNamespace r; name = ''export-policy-vector-config-'' @ ep_UID p;
         p' = p\<lparr>ep_Finalizers := removeAll exportPolicyControllerFinalizer (ep_Finalizers p)\<rparr> in
     if exportPolicyControllerFinalizer \<notin> set (ep_Finalizers p) then (Done, [])
     else case ap_DeleteSecret api ns name of
       Some (GetError e) \<Rightarrow> (Failed (OpWrapped ''failed to delete downstream secret'' (OpError e)), [DeleteSecret ns name])
     | _ \<Rightarrow> (case ap_UpdatePolicy api p' of Some e \<Rightarrow> Failed e | None \<Rightarrow> Done, [DeleteSecret ns name, UpdatePolicy p']))"
  using assms
  by (auto simp: Reconcile_def runs_finalizer_def Finalize_def config_secret_name_def Let_def
      split: option.split get_error.split)

text \<open>The end of a run: the Secret is written, or building its configuration dereferenced nil.\<close>

definition finish :: "(op_error + VectorConfig) \<Rightarrow> (VectorConfig \<Rightarrow> ConfigSecret) \<Rightarrow> api_call list \<Rightarrow> outcome \<times> api_call list" where
  "finish built secret calls = (case built of Inl e \<Rightarrow> (Panicked, calls) | Inr cfg \<Rightarrow> (Done, calls @ [PutSecret (secret cfg)]))"

text \<open>
  C28. Reconciling converges. For an admitted policy that is not being deleted, with the API reachable, a
  run adds the finalizer if the policy lacks it, and then updates the status and asks to be run again
  when the status had to change, and finishes otherwise; run on the policy as it then is, with its status
  and finalizer, it makes no other call and finishes. To finish is to write the policy's Secret, named
  after its UID, with the Vector configuration of the policy, and nothing else, when the authentication of
  every sink is basic authentication; with a sink whose authentication lacks it, which the webhook lets
  through, every run that gets so far panics and no Secret is ever written. Setting a condition is
  assumed to report no change the second time, and the finalizer manager to behave as documented.
\<close>

theorem reconcile_converges:
  assumes "runs_finalizer (lb_finalizers L)" "sets_once (lb_set_cond L)"
    and "wf_policy (lb_parse L) ue p" "\<not> ep_Deleted p"
    and "\<And>cfg. lb_marshal L cfg = Inr (json cfg)"
    and "ap_GetCluster api = None" "\<And>q. ap_UpdatePolicy api q = None" "\<And>q. ap_UpdateStatus api q = None"
    and "\<And>s. ap_CreateOrUpdate api s = None"
  shows "\<exists>p0 p1 changed built calls.
    built = createVectorConfiguration (lb_parse L) (lb_render L) (er_MetricsService r) (ap_GetSecret api) (ReplaceAll cluster ''/'' []) p \<and>
    (if auth_complete p then \<exists>cfg. built = Inr cfg else built = Inl NilDeref) \<and>
    (if exportPolicyControllerFinalizer \<in> set (ep_Finalizers p) then p0 = p \<and> calls = []
     else p0 = p\<lparr>ep_Finalizers := ep_Finalizers p @ [exportPolicyControllerFinalizer]\<rparr> \<and> calls = [UpdatePolicy p0]) \<and>
    p1 = p0\<lparr>ep_Status := ep_Status p1\<rparr> \<and>
    Reconcile L (api\<lparr>ap_GetPolicy := Inr p\<rparr>) r cluster =
      (if changed then (Requeue, calls @ [UpdateStatus p1]) else finish built (\<lambda>cfg. config_secret r p (json cfg)) calls) \<and>
    Reconcile L (api\<lparr>ap_GetPolicy := Inr p1\<rparr>) r cluster = finish built (\<lambda>cfg. config_secret r p (json cfg)) []"
proof -
  define has where "has \<longleftrightarrow> exportPolicyControllerFinalizer \<in> set (ep_Finalizers p)"
  define p0 where "p0 = (if has then p else p\<lparr>ep_Finalizers := ep_Finalizers p @ [exportPolicyControllerFinalizer]\<rparr>)"
  define calls where "calls = (if has then [] else [UpdatePolicy p0])"
  let ?cvc = "createVectorConfiguration (lb_parse L) (lb_render L) (er_MetricsService r) (ap_GetSecret api) (ReplaceAll cluster ''/'' [])"
  let ?fin = "finish (?cvc p) (\<lambda>cfg. config_secret r p (json cfg))"
  have wf0: "wf_policy (lb_parse L) ue p0" "\<not> ep_Deleted p0" "exportPolicyControllerFinalizer \<in> set (ep_Finalizers p0)"
    "\<And>j. config_secret r p0 j = config_secret r p j" using assms(3,4) by (auto simp: p0_def has_def)
  obtain p1 ch where st: "reconcileExportPolicyStatus (lb_set_cond L) (ap_GetSecret api) p0 = Inr (p1, ch)"
    using status_total [OF wf0(1)] by blast
  have "distinct (map sk_Name (sp_Sinks (ep_Spec p0)))" using wf0(1) by (simp add: wf_policy_def)
  from status_stable [OF st assms(2) this] obtain s where
    st1: "reconcileExportPolicyStatus (lb_set_cond L) (ap_GetSecret api) p1 = Inr (p1, False)" and p1: "p1 = p0\<lparr>ep_Status := s\<rparr>"
    by blast
  have cfg01: "?cvc p1 = ?cvc p"
    using createVectorConfiguration_policy [OF wf0(1)] createVectorConfiguration_policy [OF assms(3)] by (auto simp: p1 p0_def)
  have run: "Reconcile L (api\<lparr>ap_GetPolicy := Inr p\<rparr>) r cluster = reconcile_active L (api\<lparr>ap_GetPolicy := Inr p\<rparr>) r cluster p0 calls"
    using assms(1,4,6,7) by (auto simp: Reconcile_def runs_finalizer_def p0_def has_def calls_def Let_def)
  have run1: "Reconcile L (api\<lparr>ap_GetPolicy := Inr p1\<rparr>) r cluster = reconcile_active L (api\<lparr>ap_GetPolicy := Inr p1\<rparr>) r cluster p1 []"
    using assms(1,6) wf0(2,3) by (simp add: Reconcile_def runs_finalizer_def p1 Let_def)
  have active1: "reconcile_active L (api\<lparr>ap_GetPolicy := Inr p1\<rparr>) r cluster p1 [] = ?fin []"
    using st1 cfg01 assms(5,9) wf0(4) by (simp add: reconcile_active_def finish_def Let_def p1 split: sum.split)
  have active: "reconcile_active L (api\<lparr>ap_GetPolicy := Inr p\<rparr>) r cluster p0 calls = (if ch then (Requeue, calls @ [UpdateStatus p1]) else ?fin calls)"
    using st cfg01 assms(5,8,9) wf0(4) by (simp add: reconcile_active_def finish_def Let_def p1 split: sum.split)
  have "if auth_complete p then \<exists>cfg. ?cvc p = Inr cfg else ?cvc p = Inl NilDeref"
    using createVectorConfiguration_wf [OF assms(3)] by simp
  then show ?thesis
    using run run1 active1 active
    by (intro exI [of _ p0] exI [of _ p1] exI [of _ ch] exI [of _ "?cvc p"] exI [of _ calls]) (auto simp: p1 p0_def calls_def has_def)
qed

section \<open>Examples\<close>

definition example_filter :: LabelFilter where
  "example_filter = \<lparr>lbl_Label = ''job'', lbl_Value = ''api'', lbl_IsNegative = False, lbl_IsRegexp = False\<rparr>"

definition example_parse :: metricsql where
  "example_parse q =
     (if q = ''u'' then Inr (MetricExpr [[example_filter]])
      else if q = ''c'' then Inr (MetricExpr (confine ''acme'' [[example_filter]]))
      else Inl ''syntax'')"

definition example_policy :: "bool \<Rightarrow> ExportPolicy" where
  "example_policy deleted =
     \<lparr>ep_Name = ''p'', ep_Namespace = ''n'', ep_UID = ''7'', ep_Generation = 1, ep_Deleted = deleted,
      ep_Finalizers = (if deleted then [exportPolicyControllerFinalizer] else []),
      ep_Spec = \<lparr>sp_Sources = [\<lparr>ts_Name = ''s'', ts_Metrics = Some \<lparr>ms_MetricsQL = ''u''\<rparr>\<rparr>],
        sp_Sinks = [\<lparr>sk_Name = ''k'', sk_Sources = [''s''], sk_Target = Some \<lparr>st_PrometheusRemoteWrite =
          Some \<lparr>prw_Authentication = None, prw_Endpoint = ''http'', prw_Batch = \<lparr>bt_Timeout = 5, bt_MaxSize = 5\<rparr>,
            prw_Retry = \<lparr>rt_MaxAttempts = 3, rt_BackoffDuration = 5\<rparr>\<rparr>\<rparr>\<rparr>]\<rparr>,
      ep_Status = \<lparr>es_Conditions = [], es_Sinks = []\<rparr>\<rparr>"

definition example_set_cond :: condition_setter where
  "example_set_cond cs c = (if c \<in> set cs then (cs, False) else (filter (\<lambda>d. cd_Type d \<noteq> cd_Type c) cs @ [c], True))"

definition example_finalizers :: finalizers where
  "example_finalizers act p =
     (if ep_Deleted p
      then if exportPolicyControllerFinalizer \<in> set (ep_Finalizers p)
        then (case act p of
            (Some e, calls) \<Rightarrow> (Inl e, calls)
          | (None, calls) \<Rightarrow> (Inr (True, p\<lparr>ep_Finalizers := removeAll exportPolicyControllerFinalizer (ep_Finalizers p)\<rparr>), calls))
        else (Inr (False, p), [])
      else if exportPolicyControllerFinalizer \<in> set (ep_Finalizers p) then (Inr (False, p), [])
        else (Inr (True, p\<lparr>ep_Finalizers := ep_Finalizers p @ [exportPolicyControllerFinalizer]\<rparr>), []))"

definition example_libs :: Libs where
  "example_libs = \<lparr>lb_finalizers = example_finalizers, lb_set_cond = example_set_cond, lb_parse = example_parse,
     lb_render = (\<lambda>_. ''c''), lb_marshal = (\<lambda>_. Inr ''json'')\<rparr>"

definition example_api :: Api where
  "example_api = \<lparr>ap_GetCluster = None, ap_GetPolicy = Inr (example_policy True), ap_GetSecret = (\<lambda>_ _. Inl NotFound),
     ap_DeleteSecret = (\<lambda>_ _. Some (GetError ''down'')), ap_UpdatePolicy = (\<lambda>_. None), ap_UpdateStatus = (\<lambda>_. None),
     ap_CreateOrUpdate = (\<lambda>_. None)\<rparr>"

definition example_reconciler :: ExportPolicyReconciler where
  "example_reconciler = \<lparr>er_DownstreamVectorConfigNamespace = ''d'', er_MetricsService = \<lparr>mv_Endpoint = ''m'', mv_Username = ''u'', mv_Password = ''w''\<rparr>,
     er_VectorConfigLabelKey = ''a'', er_VectorConfigLabelValue = ''b''\<rparr>"

lemma example_facts:
  "runs_finalizer (lb_finalizers example_libs)" "sets_once (lb_set_cond example_libs)"
  "lb_marshal example_libs cfg = Inr ''json''" "lb_parse example_libs = example_parse"
  by (simp_all add: runs_finalizer_def example_libs_def example_finalizers_def sets_once_def example_set_cond_def)

lemma example_policy_wf: "wf_policy example_parse (\<lambda>_. None) (example_policy d)" "auth_complete (example_policy d)"
  by (cases d; code_simp)+

theorem vector_sources_confined_witness:
  "\<exists>cfg. createVectorConfiguration example_parse (\<lambda>_. ''c'') (er_MetricsService example_reconciler) (\<lambda>_ _. Inl NotFound) ''acme''
      (example_policy False) = Inr cfg \<and>
    map fst (vc_Sources cfg) = [''export-policy:acme:n:p:7:s-source''] \<and>
    list_all2 (\<lambda>s (k, v). \<exists>q fss. vs_Match v = [q] \<and> example_parse q = Inr (MetricExpr fss) \<and>
      (\<forall>series. selects (\<lambda>f series. series (lbl_Label f) = lbl_Value f) fss series \<longleftrightarrow>
        (selector_of example_parse s = [] \<or> selects (\<lambda>f series. series (lbl_Label f) = lbl_Value f) (selector_of example_parse s) series) \<and>
        series projectLabel = ''acme''))
      (sp_Sources (ep_Spec (example_policy False))) (vc_Sources cfg)"
proof -
  have r: "list_all (\<lambda>s. example_parse ((\<lambda>_. ''c'') (confine ''acme'' (selector_of example_parse s))) =
      Inr (MetricExpr (confine ''acme'' (selector_of example_parse s)))) (sp_Sources (ep_Spec (example_policy False)))"
    by (simp add: example_policy_def example_parse_def selector_of_def)
  have i: "map (source_id (example_policy False) ''acme'') (sp_Sources (ep_Spec (example_policy False))) = [''export-policy:acme:n:p:7:s-source'']"
    by code_simp
  show ?thesis
    using vector_sources_confined [where url_error = "\<lambda>_. None" and fm = "\<lambda>f series. series (lbl_Label f) = lbl_Value f" and
        ms = "er_MetricsService example_reconciler" and get = "\<lambda>_ _. Inl NotFound" and p = "example_policy False" and
        parse = example_parse and proj = "''acme''" and render = "\<lambda>_. ''c''", OF example_policy_wf(1) r refl]
    unfolding i if_P [OF example_policy_wf(2)] by (elim exE conjE, intro exI conjI) assumption+
qed

theorem deletion_releases_last_witness:
  "Reconcile example_libs example_api example_reconciler ''c'' =
     (Failed (OpWrapped ''failed to delete downstream secret'' (OpError ''down'')),
      [DeleteSecret ''d'' ''export-policy-vector-config-7''])"
proof -
  have a: "ap_GetCluster example_api = None" "ap_GetPolicy example_api = Inr (example_policy True)" "ep_Deleted (example_policy True)"
    by (simp_all add: example_api_def example_policy_def)
  show ?thesis
    unfolding deletion_releases_last [OF example_facts(1) a] by code_simp
qed

theorem reconcile_converges_witness:
  "\<exists>p1. Reconcile example_libs (example_api\<lparr>ap_GetPolicy := Inr p1\<rparr>) example_reconciler ''c'' =
     (Done, [PutSecret (config_secret example_reconciler (example_policy False) ''json'')])"
proof -
  have a: "ap_GetCluster example_api = None" "\<And>q. ap_UpdatePolicy example_api q = None" "\<And>q. ap_UpdateStatus example_api q = None"
    "\<And>s. ap_CreateOrUpdate example_api s = None" "\<not> ep_Deleted (example_policy False)"
    by (simp_all add: example_api_def example_policy_def)
  have w: "wf_policy (lb_parse example_libs) (\<lambda>_. None) (example_policy False)"
    unfolding example_facts(4) by (rule example_policy_wf)
  from reconcile_converges [where json = "\<lambda>_. ''json''", OF example_facts(1,2) w a(5) example_facts(3) a(1-4),
      of example_reconciler "''c''"] obtain p1 built where b: "\<exists>cfg. built = Inr cfg"
    "Reconcile example_libs (example_api\<lparr>ap_GetPolicy := Inr p1\<rparr>) example_reconciler ''c'' =
       finish built (\<lambda>cfg. config_secret example_reconciler (example_policy False) ''json'') []"
    using example_policy_wf(2) by auto
  then show ?thesis by (cases built) (auto simp: finish_def)
qed

end
