(* ===== verification/TaskGroup.thy ===== *)
theory TaskGroup
  imports Prelude
begin

text \<open>
  How the operator runs and stops (\<^verbatim>\<open>operator/cmd/main.go\<close>, \<^verbatim>\<open>runUntilManagerStops\<close>): the manager and its
  workers are goroutines of one error group that share a context. Goroutines interleave in any order, so
  a run is a sequence of events: the shutdown signal, a goroutine's function returning, and the group
  taking note of what it returned. The error group is a package of \<^verbatim>\<open>golang.org/x/sync\<close>: a parameter,
  with its documented behaviour as \<open>errgroup_laws\<close>.
\<close>

section \<open>Errors of a task\<close>

text \<open>An error is \<^verbatim>\<open>context.Canceled\<close> or a text with the errors it wraps; \<^verbatim>\<open>errors.Is\<close> searches the tree.\<close>

datatype task_error = ContextCanceled | TaskError string "task_error list"

fun is_canceled :: "task_error \<Rightarrow> bool" where
  "is_canceled ContextCanceled = True"
| "is_canceled (TaskError m es) = list_ex is_canceled es"

definition ignoreCanceled :: "task_error option \<Rightarrow> task_error option" where
  "ignoreCanceled err = (case err of None \<Rightarrow> None | Some e \<Rightarrow> if is_canceled e then None else Some e)"

lemma ignoreCanceled_Some [simp]: "ignoreCanceled r = Some e \<longleftrightarrow> r = Some e \<and> \<not> is_canceled e"
  by (auto simp: ignoreCanceled_def split: option.splits)

section \<open>The error group\<close>

record 'g errgroup =
  eg_WithContext :: 'g
  eg_Note :: "task_error option \<Rightarrow> 'g \<Rightarrow> 'g"
  eg_Canceled :: "'g \<Rightarrow> bool"
  eg_Err :: "'g \<Rightarrow> task_error option"

text \<open>
  The group's context is canceled the first time a function returns an error, and the error of the
  group is the first one returned.
\<close>

definition errgroup_laws :: "'g errgroup \<Rightarrow> bool" where
  "errgroup_laws eg \<longleftrightarrow>
     \<not> eg_Canceled eg (eg_WithContext eg) \<and> eg_Err eg (eg_WithContext eg) = None \<and>
     (\<forall>r g. eg_Canceled eg (eg_Note eg r g) \<longleftrightarrow> r \<noteq> None \<or> eg_Canceled eg g) \<and>
     (\<forall>r g. eg_Err eg (eg_Note eg r g) = (case eg_Err eg g of None \<Rightarrow> r | Some e \<Rightarrow> Some e))"

section \<open>Running until the manager stops\<close>

text \<open>
  A goroutine of the group is running, has returned a value that the group has not seen yet, or is
  finished. The workers come first, the manager last. \<open>rs_signal\<close> is the context \<^verbatim>\<open>main\<close> passes in,
  \<open>rs_cancel\<close> the one derived from it with \<^verbatim>\<open>context.WithCancel\<close>.
\<close>

datatype task_status = Running | Returned "task_error option" | Finished "task_error option"

record 'g group_state =
  rs_signal :: bool
  rs_cancel :: bool
  rs_tasks :: "task_status list"
  rs_group :: 'g

datatype task_event = Signal | Return nat "task_error option" | Note nat

definition runUntilManagerStops :: "'g errgroup \<Rightarrow> nat \<Rightarrow> 'g group_state" where
  "runUntilManagerStops eg workers =
     \<lparr>rs_signal = False, rs_cancel = False, rs_tasks = replicate workers Running @ [Running], rs_group = eg_WithContext eg\<rparr>"

text \<open>
  One event. What a goroutine's function returns goes through \<^verbatim>\<open>ignoreCanceled\<close>; the deferred \<^verbatim>\<open>cancel\<close>
  of the manager's goroutine runs before the group sees its result.
\<close>

fun task_event_step :: "'g errgroup \<Rightarrow> task_event \<Rightarrow> 'g group_state \<Rightarrow> 'g group_state option" where
  "task_event_step eg Signal s = Some (s\<lparr>rs_signal := True\<rparr>)"
| "task_event_step eg (Return i err) s =
     (if i < length (rs_tasks s) \<and> rs_tasks s ! i = Running
      then Some (s\<lparr>rs_tasks := (rs_tasks s)[i := Returned (ignoreCanceled err)],
                   rs_cancel := rs_cancel s \<or> Suc i = length (rs_tasks s)\<rparr>)
      else None)"
| "task_event_step eg (Note i) s =
     (if i < length (rs_tasks s)
      then (case rs_tasks s ! i of
              Returned r \<Rightarrow> Some (s\<lparr>rs_tasks := (rs_tasks s)[i := Finished r], rs_group := eg_Note eg r (rs_group s)\<rparr>)
            | _ \<Rightarrow> None)
      else None)"

text \<open>The context the goroutines run with, and \<^verbatim>\<open>g.Wait\<close>: it returns once all are finished.\<close>

definition run_ctx_done :: "'g errgroup \<Rightarrow> 'g group_state \<Rightarrow> bool" where
  "run_ctx_done eg s \<longleftrightarrow> rs_signal s \<or> rs_cancel s \<or> eg_Canceled eg (rs_group s)"

fun is_finished :: "task_status \<Rightarrow> bool" where
  "is_finished (Finished r) = True"
| "is_finished _ = False"

definition run_Wait :: "'g errgroup \<Rightarrow> 'g group_state \<Rightarrow> task_error option option" where
  "run_Wait eg s = (if list_all is_finished (rs_tasks s) then Some (eg_Err eg (rs_group s)) else None)"

inductive group_run :: "'g errgroup \<Rightarrow> nat \<Rightarrow> task_event list \<Rightarrow> 'g group_state \<Rightarrow> bool" for eg n where
  group_start: "group_run eg n [] (runUntilManagerStops eg n)"
| group_event: "group_run eg n es s \<Longrightarrow> task_event_step eg e s = Some s' \<Longrightarrow> group_run eg n (es @ [e]) s'"

text \<open>A given schedule, run from a state.\<close>

fun run_schedule :: "'g errgroup \<Rightarrow> task_event list \<Rightarrow> 'g group_state \<Rightarrow> 'g group_state option" where
  "run_schedule eg [] s = Some s"
| "run_schedule eg (e # es) s = (case task_event_step eg e s of None \<Rightarrow> None | Some s' \<Rightarrow> run_schedule eg es s')"

lemma run_schedule_run:
  "run_schedule eg es s = Some s' \<Longrightarrow> group_run eg n fs s \<Longrightarrow> group_run eg n (fs @ es) s'"
proof (induction eg es s arbitrary: fs rule: run_schedule.induct)
  case (2 eg e es s)
  then obtain s1 where s1: "task_event_step eg e s = Some s1" "run_schedule eg es s1 = Some s'" by (auto split: option.splits)
  from "2.IH" [OF s1 group_event [OF "2.prems"(2) s1(1)]] show ?case by simp
qed simp

section \<open>What a run has done so far, read off its events\<close>

text \<open>The value a task handed to the group, and the first failure the group took note of.\<close>

fun returned_value :: "task_event list \<Rightarrow> nat \<Rightarrow> task_error option option" where
  "returned_value [] i = None"
| "returned_value (Return j r # es) i = (if i = j then Some (ignoreCanceled r) else returned_value es i)"
| "returned_value (e # es) i = returned_value es i"

fun first_some :: "'a option list \<Rightarrow> 'a option" where
  "first_some [] = None"
| "first_some (None # xs) = first_some xs"
| "first_some (Some x # xs) = Some x"

fun noted_tasks :: "task_event list \<Rightarrow> nat list" where
  "noted_tasks [] = []"
| "noted_tasks (Note i # es) = i # noted_tasks es"
| "noted_tasks (e # es) = noted_tasks es"

fun task_weight :: "task_status \<Rightarrow> nat" where
  "task_weight Running = 2"
| "task_weight (Returned r) = 1"
| "task_weight (Finished r) = 0"

definition pending :: "'g group_state \<Rightarrow> nat" where
  "pending s = sum_list (map task_weight (rs_tasks s))"

fun is_task_event :: "task_event \<Rightarrow> bool" where
  "is_task_event Signal = False"
| "is_task_event _ = True"

lemma returned_value_append [simp]:
  "returned_value (es @ fs) i = (case returned_value es i of None \<Rightarrow> returned_value fs i | Some r \<Rightarrow> Some r)"
  by (induction es i rule: returned_value.induct) auto

lemma noted_tasks_append [simp]: "noted_tasks (es @ fs) = noted_tasks es @ noted_tasks fs"
  by (induction es rule: noted_tasks.induct) auto

lemma first_some_append [simp]:
  "first_some (xs @ ys) = (case first_some xs of None \<Rightarrow> first_some ys | Some x \<Rightarrow> Some x)"
  by (induction xs rule: first_some.induct) auto

lemma first_some_None: "first_some xs = None \<longleftrightarrow> set xs \<subseteq> {None}"
  by (induction xs rule: first_some.induct) auto

lemma first_some_in: "first_some xs = Some x \<Longrightarrow> Some x \<in> set xs"
  by (induction xs rule: first_some.induct) auto

lemma returned_value_Some: "returned_value es i = Some v \<Longrightarrow> \<exists>r. Return i r \<in> set es \<and> v = ignoreCanceled r"
  by (induction es i rule: returned_value.induct) (auto split: if_splits)

lemma returned_value_None: "returned_value es i = None \<longleftrightarrow> (\<forall>r. Return i r \<notin> set es)"
  by (induction es i rule: returned_value.induct) auto

text \<open>The status of a task agrees with the events.\<close>

fun status_agrees :: "task_event list \<Rightarrow> nat \<Rightarrow> task_status \<Rightarrow> bool" where
  "status_agrees es i Running \<longleftrightarrow> returned_value es i = None \<and> i \<notin> set (noted_tasks es)"
| "status_agrees es i (Returned r) \<longleftrightarrow> returned_value es i = Some r \<and> i \<notin> set (noted_tasks es)"
| "status_agrees es i (Finished r) \<longleftrightarrow> returned_value es i = Some r \<and> i \<in> set (noted_tasks es)"

definition tasks_agree :: "nat \<Rightarrow> task_event list \<Rightarrow> task_status list \<Rightarrow> bool" where
  "tasks_agree n es ts \<longleftrightarrow> length ts = Suc n \<and> (\<forall>i \<le> n. status_agrees es i (ts ! i)) \<and>
     (\<forall>i > n. returned_value es i = None \<and> i \<notin> set (noted_tasks es))"

definition first_failure :: "task_event list \<Rightarrow> task_error option" where
  "first_failure es = first_some (map (\<lambda>i. the (returned_value es i)) (noted_tasks es))"

lemma pending_update:
  "i < length (rs_tasks s) \<Longrightarrow> pending (s\<lparr>rs_tasks := (rs_tasks s)[i := st], rs_cancel := c\<rparr>) + task_weight (rs_tasks s ! i) =
     pending s + task_weight st"
  "i < length (rs_tasks s) \<Longrightarrow> pending (s\<lparr>rs_tasks := (rs_tasks s)[i := st], rs_group := g\<rparr>) + task_weight (rs_tasks s ! i) =
     pending s + task_weight st"
proof -
  have *: "i < length xs \<Longrightarrow> sum_list (map task_weight (xs[i := st])) + task_weight (xs ! i) = sum_list (map task_weight xs) + task_weight st"
    for xs by (induction xs arbitrary: i) (auto split: nat.splits)
  show "i < length (rs_tasks s) \<Longrightarrow> pending (s\<lparr>rs_tasks := (rs_tasks s)[i := st], rs_cancel := c\<rparr>) + task_weight (rs_tasks s ! i) =
     pending s + task_weight st"
    "i < length (rs_tasks s) \<Longrightarrow> pending (s\<lparr>rs_tasks := (rs_tasks s)[i := st], rs_group := g\<rparr>) + task_weight (rs_tasks s ! i) =
     pending s + task_weight st" by (simp_all add: pending_def *)
qed

definition run_inv :: "'g errgroup \<Rightarrow> nat \<Rightarrow> task_event list \<Rightarrow> 'g group_state \<Rightarrow> bool" where
  "run_inv eg n es s \<longleftrightarrow>
     tasks_agree n es (rs_tasks s) \<and> (rs_signal s \<longleftrightarrow> Signal \<in> set es) \<and> (rs_cancel s \<longleftrightarrow> returned_value es n \<noteq> None) \<and>
     eg_Err eg (rs_group s) = first_failure es \<and> (eg_Canceled eg (rs_group s) \<longleftrightarrow> first_failure es \<noteq> None) \<and>
     length (filter is_task_event es) + pending s = 2 * Suc n"

lemma tasks_agree_Return:
  assumes "tasks_agree n es ts" "i \<le> n" "ts ! i = Running"
  shows "tasks_agree n (es @ [Return i r]) (ts[i := Returned (ignoreCanceled r)])"
proof -
  have "status_agrees (es @ [Return i r]) j (ts[i := Returned (ignoreCanceled r)] ! j)" if "j \<le> n" for j
    using assms that by (cases "j = i"; cases "ts ! j") (auto simp: tasks_agree_def)
  then show ?thesis using assms by (auto simp: tasks_agree_def)
qed

lemma tasks_agree_Note:
  assumes "tasks_agree n es ts" "i \<le> n" "ts ! i = Returned r"
  shows "tasks_agree n (es @ [Note i]) (ts[i := Finished r])"
proof -
  have "returned_value es i = Some r" using assms by (auto simp: tasks_agree_def)
  then have "status_agrees (es @ [Note i]) j (ts[i := Finished r] ! j)" if "j \<le> n" for j
    using assms that by (cases "j = i"; cases "ts ! j") (auto simp: tasks_agree_def split: option.split)
  then show ?thesis using assms by (auto simp: tasks_agree_def split: option.split)
qed

lemma tasks_agree_noted: "tasks_agree n es ts \<Longrightarrow> i \<in> set (noted_tasks es) \<Longrightarrow> i \<le> n \<and> (\<exists>v. returned_value es i = Some v)"
proof
  assume a: "tasks_agree n es ts" "i \<in> set (noted_tasks es)"
  show i: "i \<le> n" using a by (metis tasks_agree_def not_le)
  have "status_agrees es i (ts ! i)" using a(1) i by (simp add: tasks_agree_def)
  then show "\<exists>v. returned_value es i = Some v" using a(2) by (cases "ts ! i") simp_all
qed

lemma first_failure_Return:
  assumes "tasks_agree n es ts"
  shows "first_failure (es @ [Return i r]) = first_failure es"
proof -
  have "the (returned_value (es @ [Return i r]) j) = the (returned_value es j)" if "j \<in> set (noted_tasks es)" for j
    using tasks_agree_noted [OF assms that] by auto
  then have "map (\<lambda>j. the (returned_value (es @ [Return i r]) j)) (noted_tasks es) = map (\<lambda>j. the (returned_value es j)) (noted_tasks es)"
    by (intro map_cong) auto
  then show ?thesis unfolding first_failure_def by (simp del: returned_value_append map_eq_conv)
qed

lemma first_failure_Note: "first_failure (es @ [Note i]) = (case first_failure es of None \<Rightarrow> the (returned_value es i) | Some e \<Rightarrow> Some e)"
proof -
  have "returned_value (es @ [Note i]) = returned_value es" by (intro ext) (simp split: option.split)
  then show ?thesis by (cases "the (returned_value es i)") (simp_all add: first_failure_def split: option.split)
qed

lemma group_run_inv:
  assumes "errgroup_laws eg" "group_run eg n es s"
  shows "run_inv eg n es s"
  using assms(2)
proof induction
  case group_start
  have "(replicate n Running @ [Running]) ! i = Running" if "i \<le> n" for i
    using that by (simp add: nth_append)
  then show ?case using assms(1)
    by (simp add: run_inv_def runUntilManagerStops_def tasks_agree_def first_failure_def errgroup_laws_def pending_def sum_list_replicate)
next
  case (group_event es s e s')
  note inv = group_event.IH [unfolded run_inv_def]
  have len: "length (rs_tasks s) = Suc n" using inv by (simp add: tasks_agree_def)
  show ?case
  proof (cases e)
    case Signal
    have s': "s' = s\<lparr>rs_signal := True\<rparr>" using group_event.hyps(2) Signal by simp
    have r: "returned_value (es @ [Signal]) = returned_value es" by (intro ext) (simp split: option.split)
    have "status_agrees (es @ [Signal]) i st = status_agrees es i st" for i st
      by (cases st) (simp_all add: r del: returned_value_append)
    then have "tasks_agree n (es @ [Signal]) (rs_tasks s)" using inv by (simp add: tasks_agree_def r del: returned_value_append)
    then show ?thesis using inv
      by (simp add: run_inv_def Signal s' r first_failure_def pending_def del: returned_value_append)
  next
    case (Return i r)
    then have i: "i \<le> n" "rs_tasks s ! i = Running" and s': "s' = s\<lparr>rs_tasks := (rs_tasks s)[i := Returned (ignoreCanceled r)], rs_cancel := rs_cancel s \<or> i = n\<rparr>"
      using group_event.hyps(2) len by (auto split: if_splits)
    have "returned_value es n = None" if "i = n" using that i inv by (auto simp: tasks_agree_def)
    moreover have "tasks_agree n (es @ [Return i r]) (rs_tasks s')" using tasks_agree_Return inv i s' by simp
    moreover have "pending s' + 2 = pending s + 1"
      using pending_update(1) [of i s "rs_cancel s \<or> i = n" "Returned (ignoreCanceled r)"] len i s' by simp
    moreover have "first_failure (es @ [Return i r]) = first_failure es" using inv first_failure_Return by blast
    moreover have "rs_cancel s' \<longleftrightarrow> returned_value (es @ [Return i r]) n \<noteq> None" using inv s' by (auto split: option.split)
    moreover have "length (filter is_task_event (es @ [Return i r])) = Suc (length (filter is_task_event es))" by simp
    ultimately show ?thesis using inv by (simp add: run_inv_def Return s' del: returned_value_append)
  next
    case (Note i)
    then obtain r where i: "i \<le> n" "rs_tasks s ! i = Returned r"
      and s': "s' = s\<lparr>rs_tasks := (rs_tasks s)[i := Finished r], rs_group := eg_Note eg r (rs_group s)\<rparr>"
      using group_event.hyps(2) len by (auto split: if_splits task_status.splits)
    have v: "returned_value es i = Some r" using i inv by (auto simp: tasks_agree_def)
    have "tasks_agree n (es @ [Note i]) (rs_tasks s')" using tasks_agree_Note inv i s' by simp
    moreover have "pending s' + 1 = pending s"
      using pending_update(2) [of i s "eg_Note eg r (rs_group s)" "Finished r"] len i s' by simp
    moreover have "eg_Err eg (rs_group s') = first_failure (es @ [Note i])" "eg_Canceled eg (rs_group s') \<longleftrightarrow> first_failure (es @ [Note i]) \<noteq> None"
      using assms(1) inv v s' by (auto simp: errgroup_laws_def first_failure_Note split: option.splits)
    ultimately show ?thesis using inv Note s' by (auto simp: run_inv_def split: option.splits)
  qed
qed

lemma pending_zero: "pending s = 0 \<longleftrightarrow> list_all is_finished (rs_tasks s)"
proof -
  have "task_weight t = 0 \<longleftrightarrow> is_finished t" for t by (cases t) simp_all
  then show ?thesis by (simp add: pending_def list_all_iff)
qed

text \<open>A task that is not finished can always make the next event.\<close>

lemma group_progress:
  assumes "\<not> list_all is_finished (rs_tasks s)"
  shows "\<exists>e s'. e \<in> {Return i (Some ContextCanceled) | i. True} \<union> {Note i | i. True} \<and> task_event_step eg e s = Some s'"
proof -
  from assms obtain i where i: "i < length (rs_tasks s)" "\<not> is_finished (rs_tasks s ! i)" by (auto simp: list_all_length)
  show ?thesis
  proof (cases "rs_tasks s ! i")
    case Running
    then have "\<exists>s'. task_event_step eg (Return i (Some ContextCanceled)) s = Some s'" using i by simp
    then show ?thesis by blast
  next
    case (Returned r)
    then have "\<exists>s'. task_event_step eg (Note i) s = Some s'" using i by simp
    then show ?thesis by blast
  next
    case (Finished r)
    then show ?thesis using i by simp
  qed
qed

lemma group_drains:
  assumes "errgroup_laws eg" "group_run eg n es s"
  shows "\<exists>es' s'. set es' \<subseteq> {Return i (Some ContextCanceled) | i. True} \<union> {Note i | i. True} \<and>
    group_run eg n (es @ es') s' \<and> pending s' = 0"
  using assms(2)
proof (induction "pending s" arbitrary: es s rule: less_induct)
  case less
  show ?case
  proof (cases "pending s = 0")
    case True
    then show ?thesis using less.prems by (intro exI [of _ "[]"] exI [of _ s]) simp
  next
    case False
    then obtain e s1 where e: "e \<in> {Return i (Some ContextCanceled) | i. True} \<union> {Note i | i. True}" "task_event_step eg e s = Some s1"
      using group_progress [of s eg] by (auto simp: pending_zero)
    have r: "group_run eg n (es @ [e]) s1" using less.prems e(2) by (rule group_event)
    have "is_task_event e" using e(1) by auto
    then have "pending s1 < pending s"
      using group_run_inv [OF assms(1) r] group_run_inv [OF assms(1) less.prems] by (simp add: run_inv_def)
    from less.hyps [OF this r] obtain es' s' where
      h: "set es' \<subseteq> {Return i (Some ContextCanceled) | i. True} \<union> {Note i | i. True}"
        "group_run eg n ((es @ [e]) @ es') s'" "pending s' = 0" by blast
    then show ?thesis using e(1) by (intro exI [of _ "e # es'"] exI [of _ s']) simp
  qed
qed

lemma finished_returned:
  assumes "run_inv eg n es s" "pending s = 0" "i \<le> n"
  shows "i \<in> set (noted_tasks es)"
proof -
  have "is_finished (rs_tasks s ! i)" using assms by (auto simp: run_inv_def tasks_agree_def pending_zero list_all_length)
  moreover have "status_agrees es i (rs_tasks s ! i)" using assms by (simp add: run_inv_def tasks_agree_def)
  ultimately show ?thesis by (cases "rs_tasks s ! i") simp_all
qed

lemma first_failure_None:
  assumes "run_inv eg n es s" "pending s = 0"
  shows "first_failure es = None \<longleftrightarrow> (\<forall>i \<le> n. returned_value es i = Some None)"
proof -
  have t: "tasks_agree n es (rs_tasks s)" using assms(1) by (simp add: run_inv_def)
  have n: "set (noted_tasks es) = {i. i \<le> n}"
    using finished_returned [OF assms] tasks_agree_noted [OF t] by blast
  have "first_failure es = None \<longleftrightarrow> (\<forall>i \<in> set (noted_tasks es). the (returned_value es i) = None)"
    by (auto simp: first_failure_def first_some_None)
  also have "\<dots> \<longleftrightarrow> (\<forall>i \<le> n. returned_value es i = Some None)"
    using tasks_agree_noted [OF t] n by fastforce
  finally show ?thesis .
qed

text \<open>
  C36. Shutdown of the operator, for every interleaving of its goroutines and any number of workers. The
  shared context is canceled exactly when the shutdown signal came, the manager returned, cleanly or
  not, or the group took note of a failure: a worker that ends without one stops nobody. Waiting returns
  exactly when every goroutine has ended, after as many events as they have steps, with the first failure
  noted, and with none exactly when every goroutine returned nothing but cancellation; a reported failure is one a
  goroutine returned. From every state, goroutines that answer the cancellation end the run.
\<close>

theorem manager_shutdown:
  assumes "errgroup_laws eg" "group_run eg n es s"
  shows "(run_ctx_done eg s \<longleftrightarrow> Signal \<in> set es \<or> (\<exists>r. Return n r \<in> set es) \<or> first_failure es \<noteq> None) \<and>
    (run_Wait eg s = (if pending s = 0 then Some (first_failure es) else None)) \<and>
    (length (filter is_task_event es) + pending s = 2 * Suc n) \<and>
    (pending s = 0 \<longrightarrow> (first_failure es = None \<longleftrightarrow> (\<forall>i \<le> n. returned_value es i = Some None))) \<and>
    (first_failure es = Some e \<longrightarrow> (\<exists>i \<le> n. Return i (Some e) \<in> set es \<and> \<not> is_canceled e)) \<and>
    (\<exists>es' s'. set es' \<subseteq> {Return i (Some ContextCanceled) | i. True} \<union> {Note i | i. True} \<and>
      group_run eg n (es @ es') s' \<and> run_Wait eg s' = Some (first_failure (es @ es')))"
proof -
  note inv = group_run_inv [OF assms]
  have t: "tasks_agree n es (rs_tasks s)" using inv by (simp add: run_inv_def)
  show ?thesis
  proof (intro conjI)
    show "run_ctx_done eg s \<longleftrightarrow> Signal \<in> set es \<or> (\<exists>r. Return n r \<in> set es) \<or> first_failure es \<noteq> None"
      using inv by (simp add: run_ctx_done_def run_inv_def returned_value_None)
    show "run_Wait eg s = (if pending s = 0 then Some (first_failure es) else None)"
      using inv by (simp add: run_Wait_def run_inv_def pending_zero)
    show "length (filter is_task_event es) + pending s = 2 * Suc n" using inv by (simp add: run_inv_def)
    show "pending s = 0 \<longrightarrow> (first_failure es = None \<longleftrightarrow> (\<forall>i \<le> n. returned_value es i = Some None))"
      using first_failure_None [OF inv] by blast
    show "first_failure es = Some e \<longrightarrow> (\<exists>i \<le> n. Return i (Some e) \<in> set es \<and> \<not> is_canceled e)"
    proof
      assume f: "first_failure es = Some e"
      obtain i where i: "i \<in> set (noted_tasks es)" "the (returned_value es i) = Some e"
        using first_some_in [OF f [unfolded first_failure_def]] by auto
      then have "i \<le> n" "returned_value es i = Some (Some e)" using tasks_agree_noted [OF t i(1)] by auto
      moreover from returned_value_Some [OF this(2)] obtain r where "Return i r \<in> set es" "ignoreCanceled r = Some e" by metis
      ultimately show "\<exists>i \<le> n. Return i (Some e) \<in> set es \<and> \<not> is_canceled e" by auto
    qed
    obtain es' s' where *: "set es' \<subseteq> {Return i (Some ContextCanceled) | i. True} \<union> {Note i | i. True}"
      "group_run eg n (es @ es') s'" "pending s' = 0" using group_drains [OF assms] by blast
    then have "run_Wait eg s' = Some (first_failure (es @ es'))"
      using group_run_inv [OF assms(1) *(2)] by (simp add: run_Wait_def run_inv_def pending_zero)
    with * show "\<exists>es' s'. set es' \<subseteq> {Return i (Some ContextCanceled) | i. True} \<union> {Note i | i. True} \<and>
        group_run eg n (es @ es') s' \<and> run_Wait eg s' = Some (first_failure (es @ es'))" by blast
  qed
qed

text \<open>
  The manager loses its lease while a worker runs: the worker is told to stop before the group knows of the
  failure, and the failure is what the run returns.
\<close>

definition example_errgroup :: "task_error option errgroup" where
  "example_errgroup = \<lparr>eg_WithContext = None, eg_Note = (\<lambda>r g. case g of None \<Rightarrow> r | Some e \<Rightarrow> Some e),
     eg_Canceled = (\<lambda>g. g \<noteq> None), eg_Err = (\<lambda>g. g)\<rparr>"

definition example_events :: "task_event list" where
  "example_events = [Return 1 (Some (TaskError ''leader election lost'' [])), Return 0 (Some (TaskError ''stopped'' [ContextCanceled])), Note 0, Note 1]"

lemma example_errgroup_laws: "errgroup_laws example_errgroup"
  by (auto simp: errgroup_laws_def example_errgroup_def split: option.splits)

lemma example_group_run: "\<exists>s. group_run example_errgroup 1 example_events s \<and> pending s = 0"
proof -
  let ?s = "\<lparr>rs_signal = False, rs_cancel = True, rs_tasks = [Finished None, Finished (Some (TaskError ''leader election lost'' []))],
      rs_group = Some (TaskError ''leader election lost'' [])\<rparr>"
  have "run_schedule example_errgroup example_events (runUntilManagerStops example_errgroup 1) = Some ?s" by code_simp
  from run_schedule_run [OF this group_start] have "group_run example_errgroup 1 example_events ?s" by simp
  moreover have "pending ?s = 0" by (simp add: pending_def)
  ultimately show ?thesis by blast
qed

theorem manager_shutdown_witness:
  "\<exists>s. group_run example_errgroup 1 example_events s \<and> run_ctx_done example_errgroup s \<and>
     run_Wait example_errgroup s = Some (Some (TaskError ''leader election lost'' []))"
proof -
  obtain s where s: "group_run example_errgroup 1 example_events s" "pending s = 0" using example_group_run by blast
  note m = manager_shutdown [OF example_errgroup_laws s(1)]
  have "first_failure example_events = Some (TaskError ''leader election lost'' [])"
    by (simp add: first_failure_def example_events_def ignoreCanceled_def)
  then show ?thesis using m s by (intro exI [of _ s]) simp
qed

end
