(* ===== verification/OperatorMain.thy ===== *)
theory OperatorMain
  imports Controller TaskGroup Complex_Main
begin

text \<open>
  The process of the operator (\<^verbatim>\<open>operator/cmd/main.go\<close>, with \<^verbatim>\<open>SetupWithManager\<close> of the controller): what is
  built from the flags, the environment and the server configuration, in the order it is built, and
  which failure ends the process. Kubernetes and controller-runtime are parameters: \<open>operator_libs\<close> has one
  function for each call that can fail, and what a call builds (a cluster, a manager, a certificate
  watcher) is its name. How the process runs and stops is the theory \<open>TaskGroup\<close>.
\<close>

section \<open>Settings\<close>

record TelemetryServicesOperator =
  cfg_Discovery :: DiscoveryConfig
  cfg_DownstreamResourceManagement :: DownstreamResourceManagementConfig

record operator_flags =
  fl_metricsAddr :: string
  fl_probeAddr :: string
  fl_enableLeaderElection :: bool
  fl_secureMetrics :: bool
  fl_webhookCertPath :: string
  fl_webhookCertName :: string
  fl_webhookCertKey :: string
  fl_metricsCertPath :: string
  fl_metricsCertName :: string
  fl_metricsCertKey :: string
  fl_enableHTTP2 :: bool
  fl_vectorConfigLabelKey :: string
  fl_vectorConfigLabelValue :: string
  fl_vectorConfigurationNamespace :: string
  fl_serverConfigFile :: string

definition default_flags :: operator_flags where
  "default_flags =
     \<lparr>fl_metricsAddr = ''0'', fl_probeAddr = '':8081'', fl_enableLeaderElection = False, fl_secureMetrics = True,
      fl_webhookCertPath = [], fl_webhookCertName = ''tls.crt'', fl_webhookCertKey = ''tls.key'',
      fl_metricsCertPath = [], fl_metricsCertName = ''tls.crt'', fl_metricsCertKey = ''tls.key'',
      fl_enableHTTP2 = False,
      fl_vectorConfigLabelKey = ''telemetry.miloapis.com/vector-export-policy-config'',
      fl_vectorConfigLabelValue = ''true'', fl_vectorConfigurationNamespace = ''default'', fl_serverConfigFile = []\<rparr>"

text \<open>
  \<^verbatim>\<open>rest.Config\<close>: the fields the operator sets, and the others by name. A dialer is the library's own or a
  \<^verbatim>\<open>net.Dialer\<close> with its timeout and keep-alive in nanoseconds.
\<close>

datatype dial = OtherDial string | NetDialer int int

record rest_config =
  rc_QPS :: rat
  rc_Burst :: int
  rc_RateLimiter :: "string option"
  rc_Dial :: "dial option"
  rc_Fields :: "(string \<times> string) list"

definition leaderElectionQPS :: rat where "leaderElectionQPS = 5"
definition leaderElectionBurst :: int where "leaderElectionBurst = 10"

definition leaderElectionRestConfig :: "rest_config \<Rightarrow> rest_config" where
  "leaderElectionRestConfig base =
     base\<lparr>rc_RateLimiter := None, rc_QPS := leaderElectionQPS, rc_Burst := leaderElectionBurst,
       rc_Dial := Some (NetDialer (30 * 10 ^ 9) (30 * 10 ^ 9))\<rparr>"

section \<open>TLS of the two servers\<close>

record tls_config =
  tls_NextProtos :: "string list"
  tls_GetCertificate :: "string option"

datatype tls_option = DisableHTTP2 | WatchCertificate string

fun apply_tls_option :: "tls_option \<Rightarrow> tls_config \<Rightarrow> tls_config" where
  "apply_tls_option DisableHTTP2 c = c\<lparr>tls_NextProtos := [''http/1.1'']\<rparr>"
| "apply_tls_option (WatchCertificate w) c = c\<lparr>tls_GetCertificate := Some w\<rparr>"

text \<open>A server applies its options in order.\<close>

definition tls_with :: "tls_option list \<Rightarrow> tls_config \<Rightarrow> tls_config" where
  "tls_with opts c = fold apply_tls_option opts c"

definition tlsOpts :: "operator_flags \<Rightarrow> tls_option list" where
  "tlsOpts fl = (if \<not> fl_enableHTTP2 fl then [DisableHTTP2] else [])"

record metrics_options =
  mo_BindAddress :: string
  mo_SecureServing :: bool
  mo_TLSOpts :: "tls_option list"
  mo_FilterProvider :: bool

section \<open>What the libraries are asked for\<close>

datatype provider = SingleProvider string string | MiloProvider string

text \<open>\<^verbatim>\<open>managedProvider\<close> hides that the provider can be started, so the manager does not start it.\<close>

datatype managed_provider = ManagedProvider provider

record milo_options =
  mp_Scheme :: bool
  mp_InternalServiceDiscovery :: bool
  mp_ProjectRestConfig :: rest_config

record manager_options =
  mg_Metrics :: metrics_options
  mg_WebhookTLSOpts :: "tls_option list"
  mg_HealthProbeBindAddress :: string
  mg_LeaderElection :: bool
  mg_LeaderElectionID :: string
  mg_LeaderElectionConfig :: rest_config
  mg_LeaderElectionReleaseOnCancel :: bool

record controller_registration =
  cr_For :: string
  cr_EngageWithLocalCluster :: bool
  cr_EngageWithProviderClusters :: bool
  cr_Watches :: string
  cr_Named :: string
  cr_Reconciler :: ExportPolicyReconciler
  cr_DownstreamCluster :: string

record operator_libs =
  ol_ReadFile :: "string \<Rightarrow> string + string"
  ol_DecodeInto :: "string \<Rightarrow> string + TelemetryServicesOperator"
  ol_certwatcher :: "string \<Rightarrow> string \<Rightarrow> string + string"
  ol_BuildConfigFromFlags :: "string \<Rightarrow> string \<Rightarrow> string + rest_config"
  ol_GetConfig :: "string + rest_config"
  ol_cluster_New :: "rest_config \<Rightarrow> string + string"
  ol_manager_New :: "rest_config \<Rightarrow> string + string"
  ol_miloprovider_New :: "string \<Rightarrow> milo_options \<Rightarrow> string + provider"
  ol_mcmanager_New :: "rest_config \<Rightarrow> managed_provider \<Rightarrow> manager_options \<Rightarrow> string + string"
  ol_RegisterFinalizer :: "string \<Rightarrow> string option"
  ol_Complete :: "string \<Rightarrow> controller_registration \<Rightarrow> string option"
  ol_AddHealthzCheck :: "string \<Rightarrow> string \<Rightarrow> string option"
  ol_AddReadyzCheck :: "string \<Rightarrow> string \<Rightarrow> string option"
  ol_Getenv :: "string \<Rightarrow> string"
  ol_ProviderSingle :: string
  ol_ProviderMilo :: string

section \<open>Start of the process\<close>

text \<open>\<^verbatim>\<open>filepath.Join\<close> of two elements, with \<^verbatim>\<open>filepath.Clean\<close>.\<close>

fun clean_path_segs :: "bool \<Rightarrow> string list \<Rightarrow> string list \<Rightarrow> string list" where
  "clean_path_segs rooted out [] = out"
| "clean_path_segs rooted out (w # ws) =
     (if w = [] \<or> w = ''.'' then clean_path_segs rooted out ws
      else if w = ''..'' then
        (if out \<noteq> [] \<and> last out \<noteq> ''..'' then clean_path_segs rooted (butlast out) ws
         else if rooted then clean_path_segs rooted out ws
         else clean_path_segs rooted (out @ [w]) ws)
      else clean_path_segs rooted (out @ [w]) ws)"

definition filepath_Clean :: "string \<Rightarrow> string" where
  "filepath_Clean p =
     (let rooted = (p \<noteq> [] \<and> hd p = CHR ''/'');
          q = (if rooted then ''/'' else []) @ JoinStr (clean_path_segs rooted [] (SplitChar CHR ''/'' p)) ''/''
      in if q = [] then ''.'' else q)"

definition filepath_Join :: "string \<Rightarrow> string \<Rightarrow> string" where
  "filepath_Join a b =
     (if a \<noteq> [] then filepath_Clean (a @ ''/'' @ b) else if b \<noteq> [] then filepath_Clean b else [])"

datatype discovery_error =
    DiscoveryRestFailed string | ProjectRestFailed string | DiscoveryManagerFailed string
  | MiloProviderFailed string | UnsupportedMode string

datatype exit_error =
    NoServerConfig | ReadServerConfig string | DecodeServerConfig string | WebhookCertWatcher string
  | MetricsCertWatcher string | UpstreamKubeconfig string | DownstreamKubeconfig string
  | DownstreamCluster string | ClusterDiscovery discovery_error | StartManager string
  | CreateController string | SetupHealthCheck string | SetupReadyCheck string | UnableToStart task_error

definition exit_with :: "('e \<Rightarrow> exit_error) \<Rightarrow> 'e + 'a \<Rightarrow> exit_error + 'a" where
  "exit_with f r = (case r of Inl e \<Rightarrow> Inl (f e) | Inr x \<Rightarrow> Inr x)"

definition exit_if :: "('e \<Rightarrow> exit_error) \<Rightarrow> 'e option \<Rightarrow> exit_error + unit" where
  "exit_if f r = (case r of Some e \<Rightarrow> Inl (f e) | None \<Rightarrow> Inr ())"

lemma exit_Inr [simp]:
  "exit_with f r = Inr x \<longleftrightarrow> r = Inr x"
  "exit_if f q = Inr u \<longleftrightarrow> q = None"
  by (auto simp: exit_with_def exit_if_def split: sum.splits option.splits)

definition server_config :: "operator_libs \<Rightarrow> operator_flags \<Rightarrow> exit_error + TelemetryServicesOperator" where
  "server_config lib fl =
     (if fl_serverConfigFile fl = [] then Inl NoServerConfig
      else res_bind (exit_with (\<lambda>_. ReadServerConfig (fl_serverConfigFile fl)) (ol_ReadFile lib (fl_serverConfigFile fl)))
        (\<lambda>data. exit_with DecodeServerConfig (ol_DecodeInto lib data)))"

definition watch_certificate ::
  "operator_libs \<Rightarrow> (string \<Rightarrow> exit_error) \<Rightarrow> string \<Rightarrow> string \<Rightarrow> string \<Rightarrow> tls_option list \<Rightarrow> exit_error + tls_option list" where
  "watch_certificate lib f path name key opts =
     (if path = [] then Inr opts
      else res_bind (exit_with f (ol_certwatcher lib (filepath_Join path name) (filepath_Join path key)))
        (\<lambda>w. Inr (opts @ [WatchCertificate w])))"

definition webhookTLSOpts :: "operator_libs \<Rightarrow> operator_flags \<Rightarrow> exit_error + tls_option list" where
  "webhookTLSOpts lib fl =
     watch_certificate lib WebhookCertWatcher (fl_webhookCertPath fl) (fl_webhookCertName fl) (fl_webhookCertKey fl) (tlsOpts fl)"

definition metricsServerOptions :: "operator_libs \<Rightarrow> operator_flags \<Rightarrow> exit_error + metrics_options" where
  "metricsServerOptions lib fl =
     res_map (\<lambda>opts. \<lparr>mo_BindAddress = fl_metricsAddr fl, mo_SecureServing = fl_secureMetrics fl, mo_TLSOpts = opts,
                       mo_FilterProvider = fl_secureMetrics fl\<rparr>)
       (watch_certificate lib MetricsCertWatcher (fl_metricsCertPath fl) (fl_metricsCertName fl) (fl_metricsCertKey fl) (tlsOpts fl))"

text \<open>
  The clusters the operator discovers. Runnables are clusters and managers by name; an empty mode is as
  unsupported as any other text.
\<close>

definition initializeClusterDiscovery ::
  "operator_libs \<Rightarrow> TelemetryServicesOperator \<Rightarrow> string \<Rightarrow> discovery_error + string list \<times> provider" where
  "initializeClusterDiscovery lib cfg deploymentCluster =
     (let d = cfg_Discovery cfg; from_file = ol_BuildConfigFromFlags lib [] in
      if dc_Mode d = ol_ProviderSingle lib then Inr ([deploymentCluster], SingleProvider ''single'' deploymentCluster)
      else if dc_Mode d = ol_ProviderMilo lib then
        (case DiscoveryRestConfig (ol_GetConfig lib) from_file d of
           Inl e \<Rightarrow> Inl (DiscoveryRestFailed e)
         | Inr discoveryRestConfig \<Rightarrow>
        (case ProjectRestConfig (ol_GetConfig lib) from_file d of
           Inl e \<Rightarrow> Inl (ProjectRestFailed e)
         | Inr projectRestConfig \<Rightarrow>
        (case ol_manager_New lib discoveryRestConfig of
           Inl e \<Rightarrow> Inl (DiscoveryManagerFailed e)
         | Inr discoveryManager \<Rightarrow>
        (case ol_miloprovider_New lib discoveryManager
                \<lparr>mp_Scheme = True, mp_InternalServiceDiscovery = dc_InternalServiceDiscovery d, mp_ProjectRestConfig = projectRestConfig\<rparr> of
           Inl e \<Rightarrow> Inl (MiloProviderFailed e)
         | Inr provider \<Rightarrow> Inr ([deploymentCluster, discoveryManager], provider)))))
      else Inl (UnsupportedMode (dc_Mode d)))"

text \<open>\<^verbatim>\<open>SetupWithManager\<close> registers the finalizer, then the controller.\<close>

definition SetupWithManager :: "operator_libs \<Rightarrow> string \<Rightarrow> string \<Rightarrow> ExportPolicyReconciler \<Rightarrow> string option" where
  "SetupWithManager lib mgr downstreamCluster r =
     (case ol_RegisterFinalizer lib exportPolicyControllerFinalizer of
        Some e \<Rightarrow> Some (''failed to register export policy controller finalizer: '' @ e)
      | None \<Rightarrow> ol_Complete lib mgr
          \<lparr>cr_For = ''ExportPolicy'', cr_EngageWithLocalCluster = False, cr_EngageWithProviderClusters = True,
           cr_Watches = ''Secret'', cr_Named = ''exportpolicy'', cr_Reconciler = r, cr_DownstreamCluster = downstreamCluster\<rparr>)"

definition operator_reconciler :: "operator_libs \<Rightarrow> operator_flags \<Rightarrow> ExportPolicyReconciler" where
  "operator_reconciler lib fl =
     \<lparr>er_DownstreamVectorConfigNamespace = fl_vectorConfigurationNamespace fl,
      er_MetricsService = \<lparr>mv_Endpoint = ol_Getenv lib ''TELEMETRY_SERVICE_METRICS_ENDPOINT'',
        mv_Username = ol_Getenv lib ''TELEMETRY_SERVICE_METRICS_USERNAME'',
        mv_Password = ol_Getenv lib ''TELEMETRY_SERVICE_METRICS_PASSWORD''\<rparr>,
      er_VectorConfigLabelKey = fl_vectorConfigLabelKey fl, er_VectorConfigLabelValue = fl_vectorConfigLabelValue fl\<rparr>"

definition manager_options_of :: "operator_flags \<Rightarrow> metrics_options \<Rightarrow> tls_option list \<Rightarrow> rest_config \<Rightarrow> manager_options" where
  "manager_options_of fl metrics webhook upstream =
     \<lparr>mg_Metrics = metrics, mg_WebhookTLSOpts = webhook, mg_HealthProbeBindAddress = fl_probeAddr fl,
      mg_LeaderElection = fl_enableLeaderElection fl, mg_LeaderElectionID = ''telemetry.miloapis.com'',
      mg_LeaderElectionConfig = leaderElectionRestConfig upstream, mg_LeaderElectionReleaseOnCancel = True\<rparr>"

text \<open>
  The goroutines besides the manager: each runnable is started, then the provider. What is ready to run
  keeps the options the manager was made with, for the statements below.
\<close>

datatype worker = StartRunnable string | StartProvider provider string

record operator_ready =
  or_Manager :: string
  or_Provider :: managed_provider
  or_Options :: manager_options
  or_Downstream :: string
  or_Workers :: "worker list"

definition operator_main :: "operator_libs \<Rightarrow> operator_flags \<Rightarrow> exit_error + operator_ready" where
  "operator_main lib fl =
     res_bind (server_config lib fl) (\<lambda>cfg.
     res_bind (webhookTLSOpts lib fl) (\<lambda>webhook.
     res_bind (metricsServerOptions lib fl) (\<lambda>metrics.
     res_bind (exit_with UpstreamKubeconfig (ol_BuildConfigFromFlags lib [] [])) (\<lambda>upstream.
     res_bind (exit_with DownstreamKubeconfig (ol_GetConfig lib)) (\<lambda>downstream.
     res_bind (exit_with DownstreamCluster (ol_cluster_New lib downstream)) (\<lambda>cluster.
     res_bind (exit_with ClusterDiscovery (initializeClusterDiscovery lib cfg cluster)) (\<lambda>(runnables, provider).
     let opts = manager_options_of fl metrics webhook upstream in
     res_bind (exit_with StartManager (ol_mcmanager_New lib upstream (ManagedProvider provider) opts)) (\<lambda>mgr.
     res_bind (exit_if CreateController (SetupWithManager lib mgr cluster (operator_reconciler lib fl))) (\<lambda>_.
     res_bind (exit_if SetupHealthCheck (ol_AddHealthzCheck lib mgr ''healthz'')) (\<lambda>_.
     res_bind (exit_if SetupReadyCheck (ol_AddReadyzCheck lib mgr ''readyz'')) (\<lambda>_.
     Inr \<lparr>or_Manager = mgr, or_Provider = ManagedProvider provider, or_Options = opts, or_Downstream = cluster,
          or_Workers = map StartRunnable runnables @ [StartProvider provider mgr]\<rparr>)))))))))))"

text \<open>
  The exit status of the process after some events of its goroutines, if it has ended: 1 when it did not
  start or waiting for the group returned an error.
\<close>

definition operator_process :: "operator_libs \<Rightarrow> 'g errgroup \<Rightarrow> operator_flags \<Rightarrow> task_event list \<Rightarrow> nat option" where
  "operator_process lib eg fl es =
     (case operator_main lib fl of
        Inl e \<Rightarrow> Some 1
      | Inr ready \<Rightarrow>
          (case run_schedule eg es (runUntilManagerStops eg (length (or_Workers ready))) of
             None \<Rightarrow> None
           | Some s \<Rightarrow> map_option (\<lambda>err. if err = None then 0 else 1) (run_Wait eg s)))"

section \<open>What a started operator has\<close>

lemma tls_protocols:
  assumes "watch_certificate lib f path name key (tlsOpts fl) = Inr opts" "\<not> fl_enableHTTP2 fl"
  shows "tls_NextProtos (tls_with opts c) = [''http/1.1'']"
  using assms by (auto simp: watch_certificate_def tlsOpts_def tls_with_def split: if_splits)

text \<open>Given a path, the server presents the certificate watched there; otherwise its own.\<close>

definition serves_watched :: "operator_libs \<Rightarrow> string \<Rightarrow> string \<Rightarrow> string \<Rightarrow> tls_option list \<Rightarrow> tls_config \<Rightarrow> bool" where
  "serves_watched lib path name key opts c \<longleftrightarrow>
     (if path = [] then tls_GetCertificate (tls_with opts c) = tls_GetCertificate c
      else case ol_certwatcher lib (filepath_Join path name) (filepath_Join path key) of
             Inl e \<Rightarrow> False | Inr w \<Rightarrow> tls_GetCertificate (tls_with opts c) = Some w)"

lemma tls_certificate:
  "watch_certificate lib f path name key (tlsOpts fl) = Inr opts \<Longrightarrow> serves_watched lib path name key opts c"
  by (auto simp: serves_watched_def watch_certificate_def tlsOpts_def tls_with_def split: if_splits)

lemma discovery_runnables:
  assumes "initializeClusterDiscovery lib cfg cluster = Inr (runnables, provider)"
  shows "cluster \<in> set runnables" "dc_Mode (cfg_Discovery cfg) \<in> {ol_ProviderSingle lib, ol_ProviderMilo lib}"
  using assms by (auto simp: initializeClusterDiscovery_def Let_def split: if_splits sum.splits)

text \<open>
  The documentation of the mode says that it defaults to the single cluster, and a defaulting function
  exists for that, but nothing registers it: with no mode in the configuration the operator stops.
\<close>

lemma empty_mode_refused:
  assumes "server_config lib fl = Inr cfg" "dc_Mode (cfg_Discovery cfg) = []" "ol_ProviderSingle lib \<noteq> []" "ol_ProviderMilo lib \<noteq> []"
  shows "initializeClusterDiscovery lib cfg cluster = Inl (UnsupportedMode []) \<and> (\<exists>e. operator_main lib fl = Inl e)"
proof -
  have d: "initializeClusterDiscovery lib cfg c = Inl (UnsupportedMode [])" for c
    using assms(2-4) by (simp add: initializeClusterDiscovery_def Let_def)
  have "operator_main lib fl \<noteq> Inr ready" for ready
    using assms(1) d by (auto simp: operator_main_def Let_def split: prod.splits)
  then show ?thesis using d by (cases "operator_main lib fl") auto
qed

fun is_StartProvider :: "worker \<Rightarrow> bool" where
  "is_StartProvider (StartProvider p m) = True"
| "is_StartProvider (StartRunnable r) = False"

lemma filter_StartRunnable [simp]: "filter is_StartProvider (map StartRunnable rs) = []"
  by (induction rs) simp_all

text \<open>
  C37. An operator that starts is set up as its flags say: neither server offers HTTP/2 unless it was enabled,
  whatever the library's defaults; each serves the certificate watched at the given path; metrics served
  over HTTPS are behind authentication and authorization; leader election uses the control plane's
  connection settings with a rate limit of its own (5 requests per second, bursts of 10) and a dialer of
  its own (30 seconds of timeout and of keep-alive); the provider is started exactly once, by the
  operator, and the cluster the Secrets are written to is started too; the controller is registered for
  the discovered clusters only, with the settings of the flags and the environment; and the discovery mode
  in the configuration it read is one of the two supported.
\<close>

theorem operator_starts_configured:
  assumes "operator_main lib fl = Inr ready"
  shows "(\<not> fl_enableHTTP2 fl \<longrightarrow> tls_NextProtos (tls_with (mg_WebhookTLSOpts (or_Options ready)) c) = [''http/1.1''] \<and>
      tls_NextProtos (tls_with (mo_TLSOpts (mg_Metrics (or_Options ready))) c) = [''http/1.1'']) \<and>
    (serves_watched lib (fl_webhookCertPath fl) (fl_webhookCertName fl) (fl_webhookCertKey fl) (mg_WebhookTLSOpts (or_Options ready)) c) \<and>
    (serves_watched lib (fl_metricsCertPath fl) (fl_metricsCertName fl) (fl_metricsCertKey fl) (mo_TLSOpts (mg_Metrics (or_Options ready))) c) \<and>
    (mo_SecureServing (mg_Metrics (or_Options ready)) = fl_secureMetrics fl) \<and>
    (mo_FilterProvider (mg_Metrics (or_Options ready)) = fl_secureMetrics fl) \<and>
    (\<exists>upstream. ol_BuildConfigFromFlags lib [] [] = Inr upstream \<and>
      rc_Fields (mg_LeaderElectionConfig (or_Options ready)) = rc_Fields upstream \<and>
      rc_RateLimiter (mg_LeaderElectionConfig (or_Options ready)) = None \<and>
      rc_QPS (mg_LeaderElectionConfig (or_Options ready)) = 5 \<and> rc_Burst (mg_LeaderElectionConfig (or_Options ready)) = 10 \<and>
      rc_Dial (mg_LeaderElectionConfig (or_Options ready)) = Some (NetDialer (30 * 10 ^ 9) (30 * 10 ^ 9))) \<and>
    (\<exists>p. or_Provider ready = ManagedProvider p \<and> filter is_StartProvider (or_Workers ready) = [StartProvider p (or_Manager ready)]) \<and>
    (StartRunnable (or_Downstream ready) \<in> set (or_Workers ready)) \<and>
    (\<exists>reg. ol_Complete lib (or_Manager ready) reg = None \<and> \<not> cr_EngageWithLocalCluster reg \<and> cr_EngageWithProviderClusters reg \<and>
      cr_Reconciler reg = operator_reconciler lib fl \<and> cr_DownstreamCluster reg = or_Downstream ready) \<and>
    (\<exists>cfg. server_config lib fl = Inr cfg \<and> dc_Mode (cfg_Discovery cfg) \<in> {ol_ProviderSingle lib, ol_ProviderMilo lib})"
proof -
  from assms obtain cfg webhook metrics upstream downstream runnables provider where
    cfg: "server_config lib fl = Inr cfg" and w: "webhookTLSOpts lib fl = Inr webhook" and m: "metricsServerOptions lib fl = Inr metrics"
    and u: "ol_BuildConfigFromFlags lib [] [] = Inr upstream"
    and dc: "initializeClusterDiscovery lib cfg (or_Downstream ready) = Inr (runnables, provider)"
    and su: "SetupWithManager lib (or_Manager ready) (or_Downstream ready) (operator_reconciler lib fl) = None"
    and ready: "or_Provider ready = ManagedProvider provider" "or_Options ready = manager_options_of fl metrics webhook upstream"
      "or_Workers ready = map StartRunnable runnables @ [StartProvider provider (or_Manager ready)]"
    by (auto simp: operator_main_def Let_def split: prod.splits)
  obtain mopts where mo: "watch_certificate lib MetricsCertWatcher (fl_metricsCertPath fl) (fl_metricsCertName fl) (fl_metricsCertKey fl) (tlsOpts fl) = Inr mopts"
    and metrics: "metrics = \<lparr>mo_BindAddress = fl_metricsAddr fl, mo_SecureServing = fl_secureMetrics fl, mo_TLSOpts = mopts, mo_FilterProvider = fl_secureMetrics fl\<rparr>"
    using m by (auto simp: metricsServerOptions_def)
  have opts [simp]: "mg_WebhookTLSOpts (or_Options ready) = webhook" "mg_Metrics (or_Options ready) = metrics"
    "mg_LeaderElectionConfig (or_Options ready) = leaderElectionRestConfig upstream" by (simp_all add: ready manager_options_of_def)
  show ?thesis
  proof (intro conjI)
    show "\<not> fl_enableHTTP2 fl \<longrightarrow> tls_NextProtos (tls_with (mg_WebhookTLSOpts (or_Options ready)) c) = [''http/1.1''] \<and>
        tls_NextProtos (tls_with (mo_TLSOpts (mg_Metrics (or_Options ready))) c) = [''http/1.1'']"
      using tls_protocols [OF w [unfolded webhookTLSOpts_def]] tls_protocols [OF mo] metrics by simp
    show "serves_watched lib (fl_webhookCertPath fl) (fl_webhookCertName fl) (fl_webhookCertKey fl) (mg_WebhookTLSOpts (or_Options ready)) c"
      using tls_certificate [OF w [unfolded webhookTLSOpts_def]] by simp
    show "serves_watched lib (fl_metricsCertPath fl) (fl_metricsCertName fl) (fl_metricsCertKey fl) (mo_TLSOpts (mg_Metrics (or_Options ready))) c"
      using tls_certificate [OF mo] metrics by simp
    show "mo_SecureServing (mg_Metrics (or_Options ready)) = fl_secureMetrics fl" "mo_FilterProvider (mg_Metrics (or_Options ready)) = fl_secureMetrics fl"
      by (simp_all add: metrics)
    show "\<exists>upstream. ol_BuildConfigFromFlags lib [] [] = Inr upstream \<and>
        rc_Fields (mg_LeaderElectionConfig (or_Options ready)) = rc_Fields upstream \<and>
        rc_RateLimiter (mg_LeaderElectionConfig (or_Options ready)) = None \<and>
        rc_QPS (mg_LeaderElectionConfig (or_Options ready)) = 5 \<and> rc_Burst (mg_LeaderElectionConfig (or_Options ready)) = 10 \<and>
        rc_Dial (mg_LeaderElectionConfig (or_Options ready)) = Some (NetDialer (30 * 10 ^ 9) (30 * 10 ^ 9))"
      using u by (simp add: leaderElectionRestConfig_def leaderElectionQPS_def leaderElectionBurst_def)
    show "\<exists>p. or_Provider ready = ManagedProvider p \<and> filter is_StartProvider (or_Workers ready) = [StartProvider p (or_Manager ready)]"
      by (simp add: ready)
    show "StartRunnable (or_Downstream ready) \<in> set (or_Workers ready)" using discovery_runnables(1) [OF dc] by (simp add: ready)
    show "\<exists>reg. ol_Complete lib (or_Manager ready) reg = None \<and> \<not> cr_EngageWithLocalCluster reg \<and> cr_EngageWithProviderClusters reg \<and>
        cr_Reconciler reg = operator_reconciler lib fl \<and> cr_DownstreamCluster reg = or_Downstream ready"
      using su by (force simp: SetupWithManager_def split: option.splits)
    show "\<exists>cfg. server_config lib fl = Inr cfg \<and> dc_Mode (cfg_Discovery cfg) \<in> {ol_ProviderSingle lib, ol_ProviderMilo lib}"
      using cfg discovery_runnables(2) [OF dc] by blast
  qed
qed

definition example_operator_libs :: operator_libs where
  "example_operator_libs =
     \<lparr>ol_ReadFile = (\<lambda>f. if f = ''/config.yaml'' then Inr ''mode: milo'' else Inl ''no such file''),
      ol_DecodeInto = (\<lambda>d. Inr \<lparr>cfg_Discovery = \<lparr>dc_Mode = ''milo'', dc_InternalServiceDiscovery = True,
        dc_DiscoveryKubeconfigPath = [], dc_ProjectKubeconfigPath = ''/project''\<rparr>,
        cfg_DownstreamResourceManagement = \<lparr>dr_KubeconfigPath = []\<rparr>\<rparr>),
      ol_certwatcher = (\<lambda>c k. Inr (c @ '' '' @ k)),
      ol_BuildConfigFromFlags = (\<lambda>m k. Inr \<lparr>rc_QPS = 50, rc_Burst = 100, rc_RateLimiter = Some ''shared'', rc_Dial = None, rc_Fields = [(''Host'', k)]\<rparr>),
      ol_GetConfig = Inr \<lparr>rc_QPS = 20, rc_Burst = 30, rc_RateLimiter = None, rc_Dial = None, rc_Fields = [(''Host'', ''in-cluster'')]\<rparr>,
      ol_cluster_New = (\<lambda>c. Inr ''deployment''), ol_manager_New = (\<lambda>c. Inr ''discovery''),
      ol_miloprovider_New = (\<lambda>m opts. Inr (MiloProvider m)), ol_mcmanager_New = (\<lambda>c p opts. Inr ''mgr''),
      ol_RegisterFinalizer = (\<lambda>n. None), ol_Complete = (\<lambda>m r. None), ol_AddHealthzCheck = (\<lambda>m n. None),
      ol_AddReadyzCheck = (\<lambda>m n. None), ol_Getenv = (\<lambda>n. []), ol_ProviderSingle = ''single'', ol_ProviderMilo = ''milo''\<rparr>"

definition example_operator_flags :: operator_flags where
  "example_operator_flags = default_flags\<lparr>fl_serverConfigFile := ''/config.yaml'', fl_metricsCertPath := ''/certs/''\<rparr>"

lemma example_operator_ready:
  "\<exists>ready. operator_main example_operator_libs example_operator_flags = Inr ready \<and>
     or_Workers ready = [StartRunnable ''deployment'', StartRunnable ''discovery'', StartProvider (MiloProvider ''discovery'') ''mgr'']"
  by (simp add: operator_main_def server_config_def webhookTLSOpts_def metricsServerOptions_def watch_certificate_def exit_with_def exit_if_def
      initializeClusterDiscovery_def DiscoveryRestConfig_def ProjectRestConfig_def SetupWithManager_def
      example_operator_libs_def example_operator_flags_def default_flags_def Let_def)

theorem operator_starts_configured_witness:
  "\<exists>ready. operator_main example_operator_libs example_operator_flags = Inr ready \<and>
     tls_with (mo_TLSOpts (mg_Metrics (or_Options ready))) \<lparr>tls_NextProtos = [''h2''], tls_GetCertificate = None\<rparr> =
       \<lparr>tls_NextProtos = [''http/1.1''], tls_GetCertificate = Some ''/certs/tls.crt /certs/tls.key''\<rparr> \<and>
     StartRunnable ''deployment'' \<in> set (or_Workers ready)"
proof -
  obtain ready where r: "operator_main example_operator_libs example_operator_flags = Inr ready" using example_operator_ready by blast
  let ?c = "\<lparr>tls_NextProtos = [''h2''], tls_GetCertificate = None\<rparr>"
  have j: "filepath_Join ''/certs/'' ''tls.crt'' = ''/certs/tls.crt''" "filepath_Join ''/certs/'' ''tls.key'' = ''/certs/tls.key''" by code_simp+
  note facts = operator_starts_configured [OF r, of ?c]
  have "tls_NextProtos (tls_with (mo_TLSOpts (mg_Metrics (or_Options ready))) ?c) = [''http/1.1'']"
    using facts [THEN conjunct1] by (simp add: example_operator_flags_def default_flags_def)
  moreover have "tls_GetCertificate (tls_with (mo_TLSOpts (mg_Metrics (or_Options ready))) ?c) = Some ''/certs/tls.crt /certs/tls.key''"
    using facts [THEN conjunct2, THEN conjunct2, THEN conjunct1] by (simp add: serves_watched_def example_operator_flags_def default_flags_def example_operator_libs_def j)
  moreover have "StartRunnable ''deployment'' \<in> set (or_Workers ready)" using example_operator_ready r by auto
  ultimately show ?thesis using r by (intro exI [of _ ready]) simp
qed

text \<open>A process that exits with status 0 started, and every goroutine of it ended with nothing but cancellation.\<close>

lemma operator_exits_clean:
  assumes "errgroup_laws eg" "operator_process lib eg fl es = Some 0"
  shows "\<exists>ready. operator_main lib fl = Inr ready \<and> (\<forall>i \<le> length (or_Workers ready). returned_value es i = Some None)"
proof -
  from assms(2) obtain ready s where r: "operator_main lib fl = Inr ready"
    and s: "run_schedule eg es (runUntilManagerStops eg (length (or_Workers ready))) = Some s" and w: "run_Wait eg s = Some None"
    by (auto simp: operator_process_def split: sum.splits option.splits if_splits)
  have "group_run eg (length (or_Workers ready)) es s" using run_schedule_run [OF s group_start] by simp
  note inv = group_run_inv [OF assms(1) this]
  have "pending s = 0" "first_failure es = None" using w inv by (auto simp: run_Wait_def pending_zero run_inv_def split: if_splits)
  then show ?thesis using first_failure_None [OF inv] r by blast
qed

end
