(* ===== verification/DeepCopy.thy ===== *)
theory DeepCopy
  imports GoHeap OperatorMain
begin

text \<open>
  The generated copies of the operator's API types (operator/api/v1alpha1/zz_generated.deepcopy.go and
  operator/internal/config/zz_generated.deepcopy.go), on memory. A struct with references is a record
  that holds addresses (its name ends in \<open>M\<close>); what it stands for is the value of \<open>ExportPolicy\<close> of the
  same name. The copies of \<^verbatim>\<open>ObjectMeta\<close>, \<^verbatim>\<open>ListMeta\<close> and \<^verbatim>\<open>Condition\<close> belong to apimachinery and are
  parameters.
\<close>

section \<open>Structs and objects\<close>

record TypeMeta =
  tm_Kind :: string
  tm_APIVersion :: string

record AuthenticationM =
  am_BasicAuth :: "addr option"

record PrometheusRemoteWriteSinkM =
  pw_Authentication :: "addr option"
  pw_Endpoint :: string
  pw_Batch :: Batch
  pw_Retry :: Retry

record SinkTargetM =
  tg_PrometheusRemoteWrite :: "addr option"

record TelemetrySinkM =
  km_Name :: string
  km_Sources :: "slice option"
  km_Target :: "addr option"

record TelemetrySourceM =
  om_Name :: string
  om_Metrics :: "addr option"

record ExportPolicySpecM =
  xm_Sources :: "slice option"
  xm_Sinks :: "slice option"

record SinkStatusM =
  zm_Name :: string
  zm_Conditions :: "slice option"

record ExportPolicyStatusM =
  um_Conditions :: "slice option"
  um_Sinks :: "slice option"

record 'om ExportPolicyM =
  pm_TypeMeta :: TypeMeta
  pm_ObjectMeta :: 'om
  pm_Spec :: ExportPolicySpecM
  pm_Status :: ExportPolicyStatusM

record 'lm ExportPolicyListM =
  lm_TypeMeta :: TypeMeta
  lm_ListMeta :: 'lm
  lm_Items :: "slice option"

text \<open>The objects of the heap: structs, the arrays of slices, and those of the library.\<close>

datatype ('om, 'lm, 'x) obj =
    LibraryObj 'x
  | MetricSourceObj (the_MetricSource: MetricSource)
  | LocalSecretReferenceObj (the_LocalSecretReference: LocalSecretReference)
  | BasicAuthObj (the_BasicAuth: BasicAuthAuthentication)
  | BatchObj (the_Batch: Batch)
  | RetryObj (the_Retry: Retry)
  | AuthenticationObj (the_Authentication: AuthenticationM)
  | RemoteWriteObj (the_RemoteWrite: PrometheusRemoteWriteSinkM)
  | TargetObj (the_Target: SinkTargetM)
  | SinkObj (the_Sink: TelemetrySinkM)
  | SourceObj (the_Source: TelemetrySourceM)
  | SpecObj (the_Spec: ExportPolicySpecM)
  | SinkStatusObj (the_SinkStatus: SinkStatusM)
  | StatusObj (the_Status: ExportPolicyStatusM)
  | PolicyObj (the_Policy: "'om ExportPolicyM")
  | PolicyListObj (the_PolicyList: "'lm ExportPolicyListM")
  | DiscoveryObj (the_Discovery: DiscoveryConfig)
  | DownstreamObj (the_Downstream: DownstreamResourceManagementConfig)
  | OperatorObj (the_Operator: "TypeMeta \<times> TelemetryServicesOperator")
  | StringArray (the_Strings: "string list")
  | SourceArray (the_Sources: "TelemetrySourceM list")
  | SinkArray (the_Sinks: "TelemetrySinkM list")
  | ConditionArray (the_Conditions: "Condition list")
  | SinkStatusArray (the_SinkStatuses: "SinkStatusM list")
  | PolicyArray (the_Policies: "'om ExportPolicyM list")

definition typed :: "('o \<Rightarrow> bool) \<Rightarrow> ('o \<Rightarrow> 'v) \<Rightarrow> 'o \<Rightarrow> 'v option" where
  "typed is un x = (if is x then Some (un x) else None)"

type_synonym ('v, 'om, 'lm, 'x) copier = "'v \<Rightarrow> ('om, 'lm, 'x) obj heap \<Rightarrow> ('v \<times> ('om, 'lm, 'x) obj heap) option"
type_synonym ('v, 'a, 'om, 'lm, 'x) reader = "('om, 'lm, 'x) obj heap \<Rightarrow> 'v \<Rightarrow> 'a option"
type_synonym ('v, 'om, 'lm, 'x) reach = "('om, 'lm, 'x) obj heap \<Rightarrow> 'v \<Rightarrow> addr set"

abbreviation metricSource_of where "metricSource_of \<equiv> typed is_MetricSourceObj the_MetricSource"
abbreviation localSecretReference_of where "localSecretReference_of \<equiv> typed is_LocalSecretReferenceObj the_LocalSecretReference"
abbreviation basicAuth_of where "basicAuth_of \<equiv> typed is_BasicAuthObj the_BasicAuth"
abbreviation batch_of where "batch_of \<equiv> typed is_BatchObj the_Batch"
abbreviation retry_of where "retry_of \<equiv> typed is_RetryObj the_Retry"
abbreviation authentication_of where "authentication_of \<equiv> typed is_AuthenticationObj the_Authentication"
abbreviation remoteWrite_of where "remoteWrite_of \<equiv> typed is_RemoteWriteObj the_RemoteWrite"
abbreviation target_of where "target_of \<equiv> typed is_TargetObj the_Target"
abbreviation sink_of where "sink_of \<equiv> typed is_SinkObj the_Sink"
abbreviation source_of where "source_of \<equiv> typed is_SourceObj the_Source"
abbreviation spec_of where "spec_of \<equiv> typed is_SpecObj the_Spec"
abbreviation sinkStatus_of where "sinkStatus_of \<equiv> typed is_SinkStatusObj the_SinkStatus"
abbreviation status_of where "status_of \<equiv> typed is_StatusObj the_Status"
abbreviation policy_of where "policy_of \<equiv> typed is_PolicyObj the_Policy"
abbreviation policyList_of where "policyList_of \<equiv> typed is_PolicyListObj the_PolicyList"
abbreviation discovery_of where "discovery_of \<equiv> typed is_DiscoveryObj the_Discovery"
abbreviation downstream_of where "downstream_of \<equiv> typed is_DownstreamObj the_Downstream"
abbreviation operator_of where "operator_of \<equiv> typed is_OperatorObj the_Operator"
abbreviation strings_of where "strings_of \<equiv> typed is_StringArray the_Strings"
abbreviation sources_of where "sources_of \<equiv> typed is_SourceArray the_Sources"
abbreviation sinks_of where "sinks_of \<equiv> typed is_SinkArray the_Sinks"
abbreviation conditions_of where "conditions_of \<equiv> typed is_ConditionArray the_Conditions"
abbreviation sinkStatuses_of where "sinkStatuses_of \<equiv> typed is_SinkStatusArray the_SinkStatuses"
abbreviation policies_of where "policies_of \<equiv> typed is_PolicyArray the_Policies"

section \<open>The copies\<close>

definition BasicAuthAuthentication_DeepCopyInto :: "(BasicAuthAuthentication, 'om, 'lm, 'x) copier" where
  "BasicAuthAuthentication_DeepCopyInto s h = Some (s\<lparr>ba_SecretRef := ba_SecretRef s\<rparr>, h)"

definition Batch_DeepCopyInto :: "(Batch, 'om, 'lm, 'x) copier" where
  "Batch_DeepCopyInto s h = Some (s\<lparr>bt_Timeout := bt_Timeout s\<rparr>, h)"

definition Retry_DeepCopyInto :: "(Retry, 'om, 'lm, 'x) copier" where
  "Retry_DeepCopyInto s h = Some (s\<lparr>rt_BackoffDuration := rt_BackoffDuration s\<rparr>, h)"

definition LocalSecretReference_DeepCopyInto :: "(LocalSecretReference, 'om, 'lm, 'x) copier" where
  "LocalSecretReference_DeepCopyInto s h = Some (s, h)"

definition MetricSource_DeepCopyInto :: "(MetricSource, 'om, 'lm, 'x) copier" where
  "MetricSource_DeepCopyInto s h = Some (s, h)"

definition Authentication_DeepCopyInto :: "(AuthenticationM, 'om, 'lm, 'x) copier" where
  "Authentication_DeepCopyInto s h = do {
     (basicAuth, h) \<leftarrow> copy_ptr basicAuth_of BasicAuthObj copy_plain (am_BasicAuth s) h;
     Some (s\<lparr>am_BasicAuth := basicAuth\<rparr>, h)}"

definition PrometheusRemoteWriteSink_DeepCopyInto :: "(PrometheusRemoteWriteSinkM, 'om, 'lm, 'x) copier" where
  "PrometheusRemoteWriteSink_DeepCopyInto s h = do {
     (authentication, h) \<leftarrow> copy_ptr authentication_of AuthenticationObj Authentication_DeepCopyInto (pw_Authentication s) h;
     Some (s\<lparr>pw_Authentication := authentication, pw_Batch := pw_Batch s, pw_Retry := pw_Retry s\<rparr>, h)}"

definition SinkTarget_DeepCopyInto :: "(SinkTargetM, 'om, 'lm, 'x) copier" where
  "SinkTarget_DeepCopyInto s h = do {
     (remoteWrite, h) \<leftarrow> copy_ptr remoteWrite_of RemoteWriteObj PrometheusRemoteWriteSink_DeepCopyInto (tg_PrometheusRemoteWrite s) h;
     Some (s\<lparr>tg_PrometheusRemoteWrite := remoteWrite\<rparr>, h)}"

definition TelemetrySink_DeepCopyInto :: "(TelemetrySinkM, 'om, 'lm, 'x) copier" where
  "TelemetrySink_DeepCopyInto s h = do {
     (sources, h) \<leftarrow> copy_slice strings_of StringArray copy_plain (km_Sources s) h;
     (target, h) \<leftarrow> copy_ptr target_of TargetObj SinkTarget_DeepCopyInto (km_Target s) h;
     Some (s\<lparr>km_Sources := sources, km_Target := target\<rparr>, h)}"

definition TelemetrySource_DeepCopyInto :: "(TelemetrySourceM, 'om, 'lm, 'x) copier" where
  "TelemetrySource_DeepCopyInto s h = do {
     (metrics, h) \<leftarrow> copy_ptr metricSource_of MetricSourceObj copy_plain (om_Metrics s) h;
     Some (s\<lparr>om_Metrics := metrics\<rparr>, h)}"

definition ExportPolicySpec_DeepCopyInto :: "(ExportPolicySpecM, 'om, 'lm, 'x) copier" where
  "ExportPolicySpec_DeepCopyInto s h = do {
     (sources, h) \<leftarrow> copy_slice sources_of SourceArray TelemetrySource_DeepCopyInto (xm_Sources s) h;
     (sinks, h) \<leftarrow> copy_slice sinks_of SinkArray TelemetrySink_DeepCopyInto (xm_Sinks s) h;
     Some (s\<lparr>xm_Sources := sources, xm_Sinks := sinks\<rparr>, h)}"

definition SinkStatus_DeepCopyInto :: "(Condition, 'om, 'lm, 'x) copier \<Rightarrow> (SinkStatusM, 'om, 'lm, 'x) copier" where
  "SinkStatus_DeepCopyInto cc s h = do {
     (conditions, h) \<leftarrow> copy_slice conditions_of ConditionArray cc (zm_Conditions s) h;
     Some (s\<lparr>zm_Conditions := conditions\<rparr>, h)}"

definition ExportPolicyStatus_DeepCopyInto :: "(Condition, 'om, 'lm, 'x) copier \<Rightarrow> (ExportPolicyStatusM, 'om, 'lm, 'x) copier" where
  "ExportPolicyStatus_DeepCopyInto cc s h = do {
     (conditions, h) \<leftarrow> copy_slice conditions_of ConditionArray cc (um_Conditions s) h;
     (sinks, h) \<leftarrow> copy_slice sinkStatuses_of SinkStatusArray (SinkStatus_DeepCopyInto cc) (um_Sinks s) h;
     Some (s\<lparr>um_Conditions := conditions, um_Sinks := sinks\<rparr>, h)}"

definition ExportPolicy_DeepCopyInto ::
  "('om, 'om, 'lm, 'x) copier \<Rightarrow> (Condition, 'om, 'lm, 'x) copier \<Rightarrow> ('om ExportPolicyM, 'om, 'lm, 'x) copier" where
  "ExportPolicy_DeepCopyInto oc cc s h = do {
     (objectMeta, h) \<leftarrow> oc (pm_ObjectMeta s) h;
     (spec, h) \<leftarrow> ExportPolicySpec_DeepCopyInto (pm_Spec s) h;
     (status, h) \<leftarrow> ExportPolicyStatus_DeepCopyInto cc (pm_Status s) h;
     Some (s\<lparr>pm_TypeMeta := pm_TypeMeta s, pm_ObjectMeta := objectMeta, pm_Spec := spec, pm_Status := status\<rparr>, h)}"

definition ExportPolicyList_DeepCopyInto ::
  "('om, 'om, 'lm, 'x) copier \<Rightarrow> ('lm, 'om, 'lm, 'x) copier \<Rightarrow> (Condition, 'om, 'lm, 'x) copier \<Rightarrow> ('lm ExportPolicyListM, 'om, 'lm, 'x) copier" where
  "ExportPolicyList_DeepCopyInto oc lc cc s h = do {
     (listMeta, h) \<leftarrow> lc (lm_ListMeta s) h;
     (items, h) \<leftarrow> copy_slice policies_of PolicyArray (ExportPolicy_DeepCopyInto oc cc) (lm_Items s) h;
     Some (s\<lparr>lm_TypeMeta := lm_TypeMeta s, lm_ListMeta := listMeta, lm_Items := items\<rparr>, h)}"

definition DiscoveryConfig_DeepCopyInto :: "(DiscoveryConfig, 'om, 'lm, 'x) copier" where
  "DiscoveryConfig_DeepCopyInto s h = Some (s, h)"

definition DownstreamResourceManagementConfig_DeepCopyInto :: "(DownstreamResourceManagementConfig, 'om, 'lm, 'x) copier" where
  "DownstreamResourceManagementConfig_DeepCopyInto s h = Some (s, h)"

definition TelemetryServicesOperator_DeepCopyInto :: "(TypeMeta \<times> TelemetryServicesOperator, 'om, 'lm, 'x) copier" where
  "TelemetryServicesOperator_DeepCopyInto s h =
     Some ((fst s, (snd s)\<lparr>cfg_Discovery := cfg_Discovery (snd s), cfg_DownstreamResourceManagement := cfg_DownstreamResourceManagement (snd s)\<rparr>), h)"

subsection \<open>New objects\<close>

text \<open>\<^verbatim>\<open>DeepCopy\<close>: nil for nil, or a new object that \<^verbatim>\<open>DeepCopyInto\<close> fills.\<close>

type_synonym ('om, 'lm, 'x) new_copy = "(addr option, 'om, 'lm, 'x) copier"

definition BasicAuthAuthentication_DeepCopy :: "('om, 'lm, 'x) new_copy" where
  "BasicAuthAuthentication_DeepCopy = copy_ptr basicAuth_of BasicAuthObj BasicAuthAuthentication_DeepCopyInto"

definition Batch_DeepCopy :: "('om, 'lm, 'x) new_copy" where
  "Batch_DeepCopy = copy_ptr batch_of BatchObj Batch_DeepCopyInto"

definition Retry_DeepCopy :: "('om, 'lm, 'x) new_copy" where
  "Retry_DeepCopy = copy_ptr retry_of RetryObj Retry_DeepCopyInto"

definition LocalSecretReference_DeepCopy :: "('om, 'lm, 'x) new_copy" where
  "LocalSecretReference_DeepCopy = copy_ptr localSecretReference_of LocalSecretReferenceObj LocalSecretReference_DeepCopyInto"

definition MetricSource_DeepCopy :: "('om, 'lm, 'x) new_copy" where
  "MetricSource_DeepCopy = copy_ptr metricSource_of MetricSourceObj MetricSource_DeepCopyInto"

definition Authentication_DeepCopy :: "('om, 'lm, 'x) new_copy" where
  "Authentication_DeepCopy = copy_ptr authentication_of AuthenticationObj Authentication_DeepCopyInto"

definition PrometheusRemoteWriteSink_DeepCopy :: "('om, 'lm, 'x) new_copy" where
  "PrometheusRemoteWriteSink_DeepCopy = copy_ptr remoteWrite_of RemoteWriteObj PrometheusRemoteWriteSink_DeepCopyInto"

definition SinkTarget_DeepCopy :: "('om, 'lm, 'x) new_copy" where
  "SinkTarget_DeepCopy = copy_ptr target_of TargetObj SinkTarget_DeepCopyInto"

definition TelemetrySink_DeepCopy :: "('om, 'lm, 'x) new_copy" where
  "TelemetrySink_DeepCopy = copy_ptr sink_of SinkObj TelemetrySink_DeepCopyInto"

definition TelemetrySource_DeepCopy :: "('om, 'lm, 'x) new_copy" where
  "TelemetrySource_DeepCopy = copy_ptr source_of SourceObj TelemetrySource_DeepCopyInto"

definition ExportPolicySpec_DeepCopy :: "('om, 'lm, 'x) new_copy" where
  "ExportPolicySpec_DeepCopy = copy_ptr spec_of SpecObj ExportPolicySpec_DeepCopyInto"

definition SinkStatus_DeepCopy :: "(Condition, 'om, 'lm, 'x) copier \<Rightarrow> ('om, 'lm, 'x) new_copy" where
  "SinkStatus_DeepCopy cc = copy_ptr sinkStatus_of SinkStatusObj (SinkStatus_DeepCopyInto cc)"

definition ExportPolicyStatus_DeepCopy :: "(Condition, 'om, 'lm, 'x) copier \<Rightarrow> ('om, 'lm, 'x) new_copy" where
  "ExportPolicyStatus_DeepCopy cc = copy_ptr status_of StatusObj (ExportPolicyStatus_DeepCopyInto cc)"

definition ExportPolicy_DeepCopy :: "('om, 'om, 'lm, 'x) copier \<Rightarrow> (Condition, 'om, 'lm, 'x) copier \<Rightarrow> ('om, 'lm, 'x) new_copy" where
  "ExportPolicy_DeepCopy oc cc = copy_ptr policy_of PolicyObj (ExportPolicy_DeepCopyInto oc cc)"

definition ExportPolicyList_DeepCopy :: "('om, 'om, 'lm, 'x) copier \<Rightarrow> ('lm, 'om, 'lm, 'x) copier \<Rightarrow> (Condition, 'om, 'lm, 'x) copier \<Rightarrow> ('om, 'lm, 'x) new_copy" where
  "ExportPolicyList_DeepCopy oc lc cc = copy_ptr policyList_of PolicyListObj (ExportPolicyList_DeepCopyInto oc lc cc)"

definition DiscoveryConfig_DeepCopy :: "('om, 'lm, 'x) new_copy" where
  "DiscoveryConfig_DeepCopy = copy_ptr discovery_of DiscoveryObj DiscoveryConfig_DeepCopyInto"

definition DownstreamResourceManagementConfig_DeepCopy :: "('om, 'lm, 'x) new_copy" where
  "DownstreamResourceManagementConfig_DeepCopy = copy_ptr downstream_of DownstreamObj DownstreamResourceManagementConfig_DeepCopyInto"

definition TelemetryServicesOperator_DeepCopy :: "('om, 'lm, 'x) new_copy" where
  "TelemetryServicesOperator_DeepCopy = copy_ptr operator_of OperatorObj TelemetryServicesOperator_DeepCopyInto"

text \<open>
  \<^verbatim>\<open>DeepCopyObject\<close> returns an interface value: of a nil pointer the nil interface, not one that holds a
  nil pointer.
\<close>

datatype runtime_object = ExportPolicyPtr "addr option" | ExportPolicyListPtr "addr option" | TelemetryServicesOperatorPtr "addr option"

definition as_object :: "(addr option \<Rightarrow> runtime_object) \<Rightarrow> (addr option \<times> 'h) option \<Rightarrow> (runtime_object option \<times> 'h) option" where
  "as_object ptr r = do {(c, h) \<leftarrow> r; Some (if c \<noteq> None then Some (ptr c) else None, h)}"

definition ExportPolicy_DeepCopyObject ::
  "('om, 'om, 'lm, 'x) copier \<Rightarrow> (Condition, 'om, 'lm, 'x) copier \<Rightarrow> addr option \<Rightarrow> ('om, 'lm, 'x) obj heap \<Rightarrow> (runtime_object option \<times> ('om, 'lm, 'x) obj heap) option" where
  "ExportPolicy_DeepCopyObject oc cc p h = as_object ExportPolicyPtr (ExportPolicy_DeepCopy oc cc p h)"

definition ExportPolicyList_DeepCopyObject ::
  "('om, 'om, 'lm, 'x) copier \<Rightarrow> ('lm, 'om, 'lm, 'x) copier \<Rightarrow> (Condition, 'om, 'lm, 'x) copier \<Rightarrow> addr option \<Rightarrow> ('om, 'lm, 'x) obj heap \<Rightarrow> (runtime_object option \<times> ('om, 'lm, 'x) obj heap) option" where
  "ExportPolicyList_DeepCopyObject oc lc cc p h = as_object ExportPolicyListPtr (ExportPolicyList_DeepCopy oc lc cc p h)"

definition TelemetryServicesOperator_DeepCopyObject ::
  "addr option \<Rightarrow> ('om, 'lm, 'x) obj heap \<Rightarrow> (runtime_object option \<times> ('om, 'lm, 'x) obj heap) option" where
  "TelemetryServicesOperator_DeepCopyObject p h = as_object TelemetryServicesOperatorPtr (TelemetryServicesOperator_DeepCopy p h)"

section \<open>What the structs stand for\<close>

definition authentication_val :: "(AuthenticationM, Authentication, 'om, 'lm, 'x) reader" where
  "authentication_val = struct_val am_BasicAuth (\<lambda>_ b. \<lparr>au_BasicAuth = b\<rparr>) (ptr_val basicAuth_of plain_val)"
definition authentication_foot :: "(AuthenticationM, 'om, 'lm, 'x) reach" where
  "authentication_foot = struct_foot am_BasicAuth (ptr_foot basicAuth_of plain_foot)"

definition remoteWrite_val :: "(PrometheusRemoteWriteSinkM, PrometheusRemoteWriteSink, 'om, 'lm, 'x) reader" where
  "remoteWrite_val = struct_val pw_Authentication
     (\<lambda>s a. \<lparr>prw_Authentication = a, prw_Endpoint = pw_Endpoint s, prw_Batch = pw_Batch s, prw_Retry = pw_Retry s\<rparr>)
     (ptr_val authentication_of authentication_val)"
definition remoteWrite_foot :: "(PrometheusRemoteWriteSinkM, 'om, 'lm, 'x) reach" where
  "remoteWrite_foot = struct_foot pw_Authentication (ptr_foot authentication_of authentication_foot)"

definition target_val :: "(SinkTargetM, SinkTarget, 'om, 'lm, 'x) reader" where
  "target_val = struct_val tg_PrometheusRemoteWrite (\<lambda>_ w. \<lparr>st_PrometheusRemoteWrite = w\<rparr>) (ptr_val remoteWrite_of remoteWrite_val)"
definition target_foot :: "(SinkTargetM, 'om, 'lm, 'x) reach" where
  "target_foot = struct_foot tg_PrometheusRemoteWrite (ptr_foot remoteWrite_of remoteWrite_foot)"

definition sink_val :: "(TelemetrySinkM, TelemetrySink, 'om, 'lm, 'x) reader" where
  "sink_val = struct_val (\<lambda>s. (km_Sources s, km_Target s)) (\<lambda>s (ss, t). \<lparr>sk_Name = km_Name s, sk_Sources = ss, sk_Target = t\<rparr>)
     (pair_val (slice_val strings_of plain_val) (ptr_val target_of target_val))"
definition sink_foot :: "(TelemetrySinkM, 'om, 'lm, 'x) reach" where
  "sink_foot = struct_foot (\<lambda>s. (km_Sources s, km_Target s)) (pair_foot (slice_foot strings_of plain_foot) (ptr_foot target_of target_foot))"

definition source_val :: "(TelemetrySourceM, TelemetrySource, 'om, 'lm, 'x) reader" where
  "source_val = struct_val om_Metrics (\<lambda>s m. \<lparr>ts_Name = om_Name s, ts_Metrics = m\<rparr>) (ptr_val metricSource_of plain_val)"
definition source_foot :: "(TelemetrySourceM, 'om, 'lm, 'x) reach" where
  "source_foot = struct_foot om_Metrics (ptr_foot metricSource_of plain_foot)"

definition spec_val :: "(ExportPolicySpecM, ExportPolicySpec, 'om, 'lm, 'x) reader" where
  "spec_val = struct_val (\<lambda>s. (xm_Sources s, xm_Sinks s)) (\<lambda>s (a, b). \<lparr>sp_Sources = a, sp_Sinks = b\<rparr>)
     (pair_val (slice_val sources_of source_val) (slice_val sinks_of sink_val))"
definition spec_foot :: "(ExportPolicySpecM, 'om, 'lm, 'x) reach" where
  "spec_foot = struct_foot (\<lambda>s. (xm_Sources s, xm_Sinks s)) (pair_foot (slice_foot sources_of source_foot) (slice_foot sinks_of sink_foot))"

definition sinkStatus_val :: "(SinkStatusM, SinkStatus, 'om, 'lm, 'x) reader" where
  "sinkStatus_val = struct_val zm_Conditions (\<lambda>s c. \<lparr>ss_Name = zm_Name s, ss_Conditions = c\<rparr>) (slice_val conditions_of plain_val)"
definition sinkStatus_foot :: "(SinkStatusM, 'om, 'lm, 'x) reach" where
  "sinkStatus_foot = struct_foot zm_Conditions (slice_foot conditions_of plain_foot)"

definition status_val :: "(ExportPolicyStatusM, ExportPolicyStatus, 'om, 'lm, 'x) reader" where
  "status_val = struct_val (\<lambda>s. (um_Conditions s, um_Sinks s)) (\<lambda>s (c, ss). \<lparr>es_Conditions = c, es_Sinks = ss\<rparr>)
     (pair_val (slice_val conditions_of plain_val) (slice_val sinkStatuses_of sinkStatus_val))"
definition status_foot :: "(ExportPolicyStatusM, 'om, 'lm, 'x) reach" where
  "status_foot = struct_foot (\<lambda>s. (um_Conditions s, um_Sinks s))
     (pair_foot (slice_foot conditions_of plain_foot) (slice_foot sinkStatuses_of sinkStatus_foot))"

text \<open>The metadata of an object that the operator reads; \<open>mv\<close> and \<open>mf\<close> are its value and its reach.\<close>

record ObjectMeta =
  meta_Name :: string
  meta_Namespace :: string
  meta_UID :: string
  meta_Generation :: int
  meta_Deleted :: bool
  meta_Finalizers :: "string list"

definition policy_of_parts :: "'om ExportPolicyM \<Rightarrow> ObjectMeta \<times> ExportPolicySpec \<times> ExportPolicyStatus \<Rightarrow> TypeMeta \<times> ExportPolicy" where
  "policy_of_parts s x = (case x of (m, sp, st) \<Rightarrow>
     (pm_TypeMeta s, \<lparr>ep_Name = meta_Name m, ep_Namespace = meta_Namespace m, ep_UID = meta_UID m, ep_Generation = meta_Generation m,
       ep_Deleted = meta_Deleted m, ep_Finalizers = meta_Finalizers m, ep_Spec = sp, ep_Status = st\<rparr>))"

definition policy_val :: "('om, ObjectMeta, 'om, 'lm, 'x) reader \<Rightarrow> ('om ExportPolicyM, TypeMeta \<times> ExportPolicy, 'om, 'lm, 'x) reader" where
  "policy_val mv = struct_val (\<lambda>s. (pm_ObjectMeta s, pm_Spec s, pm_Status s)) policy_of_parts (pair_val mv (pair_val spec_val status_val))"
definition policy_foot :: "('om, 'om, 'lm, 'x) reach \<Rightarrow> ('om ExportPolicyM, 'om, 'lm, 'x) reach" where
  "policy_foot mf = struct_foot (\<lambda>s. (pm_ObjectMeta s, pm_Spec s, pm_Status s)) (pair_foot mf (pair_foot spec_foot status_foot))"

definition policyList_val ::
  "('om, ObjectMeta, 'om, 'lm, 'x) reader \<Rightarrow> ('lm, 'l, 'om, 'lm, 'x) reader \<Rightarrow> ('lm ExportPolicyListM, TypeMeta \<times> 'l \<times> (TypeMeta \<times> ExportPolicy) list, 'om, 'lm, 'x) reader" where
  "policyList_val mv lv = struct_val (\<lambda>s. (lm_ListMeta s, lm_Items s)) (\<lambda>s (l, ps). (lm_TypeMeta s, l, ps))
     (pair_val lv (slice_val policies_of (policy_val mv)))"
definition policyList_foot ::
  "('om, 'om, 'lm, 'x) reach \<Rightarrow> ('lm, 'om, 'lm, 'x) reach \<Rightarrow> ('lm ExportPolicyListM, 'om, 'lm, 'x) reach" where
  "policyList_foot mf lf = struct_foot (\<lambda>s. (lm_ListMeta s, lm_Items s)) (pair_foot lf (slice_foot policies_of (policy_foot mf)))"

section \<open>Copies are deep\<close>

lemma typed_simps [simp]: "is x \<Longrightarrow> typed is un x = Some (un x)"
  by (simp add: typed_def)

text \<open>Copies without references, as assignments.\<close>

lemma plain_copies [simp]:
  "BasicAuthAuthentication_DeepCopyInto = copy_plain" "Batch_DeepCopyInto = copy_plain" "Retry_DeepCopyInto = copy_plain"
  "LocalSecretReference_DeepCopyInto = copy_plain" "MetricSource_DeepCopyInto = copy_plain" "DiscoveryConfig_DeepCopyInto = copy_plain"
  "DownstreamResourceManagementConfig_DeepCopyInto = copy_plain" "TelemetryServicesOperator_DeepCopyInto = copy_plain"
  by (simp_all add: fun_eq_iff BasicAuthAuthentication_DeepCopyInto_def Batch_DeepCopyInto_def Retry_DeepCopyInto_def
    LocalSecretReference_DeepCopyInto_def MetricSource_DeepCopyInto_def DiscoveryConfig_DeepCopyInto_def
    DownstreamResourceManagementConfig_DeepCopyInto_def TelemetryServicesOperator_DeepCopyInto_def copy_plain_def)

interpretation authentication: deep_copier authentication_val authentication_foot Authentication_DeepCopyInto
  unfolding authentication_val_def authentication_foot_def
  by (rule deep_copier_struct [OF deep_copier_ptr [where emb = BasicAuthObj, OF plain.deep_copier_axioms], where upd = "\<lambda>s x. s\<lparr>am_BasicAuth := x\<rparr>"])
    (simp_all add: Authentication_DeepCopyInto_def fun_eq_iff split: Option.bind_split prod.split)

interpretation remoteWrite: deep_copier remoteWrite_val remoteWrite_foot PrometheusRemoteWriteSink_DeepCopyInto
  unfolding remoteWrite_val_def remoteWrite_foot_def
  by (rule deep_copier_struct [OF deep_copier_ptr [where emb = AuthenticationObj, OF authentication.deep_copier_axioms], where upd = "\<lambda>s x. s\<lparr>pw_Authentication := x\<rparr>"])
    (simp_all add: PrometheusRemoteWriteSink_DeepCopyInto_def fun_eq_iff split: Option.bind_split prod.split)

interpretation target: deep_copier target_val target_foot SinkTarget_DeepCopyInto
  unfolding target_val_def target_foot_def
  by (rule deep_copier_struct [OF deep_copier_ptr [where emb = RemoteWriteObj, OF remoteWrite.deep_copier_axioms], where upd = "\<lambda>s x. s\<lparr>tg_PrometheusRemoteWrite := x\<rparr>"])
    (simp_all add: SinkTarget_DeepCopyInto_def fun_eq_iff split: Option.bind_split prod.split)

interpretation sink: deep_copier sink_val sink_foot TelemetrySink_DeepCopyInto
  unfolding sink_val_def sink_foot_def
  by (rule deep_copier_struct [OF deep_copier_pair [OF deep_copier_slice [where emb = StringArray, OF plain.deep_copier_axioms] deep_copier_ptr [where emb = TargetObj, OF target.deep_copier_axioms]],
        where upd = "\<lambda>s x. s\<lparr>km_Sources := fst x, km_Target := snd x\<rparr>"])
    (simp_all add: TelemetrySink_DeepCopyInto_def copy_pair_def fun_eq_iff split: Option.bind_split prod.split)

interpretation source: deep_copier source_val source_foot TelemetrySource_DeepCopyInto
  unfolding source_val_def source_foot_def
  by (rule deep_copier_struct [OF deep_copier_ptr [where emb = MetricSourceObj, OF plain.deep_copier_axioms], where upd = "\<lambda>s x. s\<lparr>om_Metrics := x\<rparr>"])
    (simp_all add: TelemetrySource_DeepCopyInto_def fun_eq_iff split: Option.bind_split prod.split)

interpretation spec: deep_copier spec_val spec_foot ExportPolicySpec_DeepCopyInto
  unfolding spec_val_def spec_foot_def
  by (rule deep_copier_struct [OF deep_copier_pair [OF deep_copier_slice [where emb = SourceArray, OF source.deep_copier_axioms] deep_copier_slice [where emb = SinkArray, OF sink.deep_copier_axioms]],
        where upd = "\<lambda>s x. s\<lparr>xm_Sources := fst x, xm_Sinks := snd x\<rparr>"])
    (simp_all add: ExportPolicySpec_DeepCopyInto_def copy_pair_def fun_eq_iff split: Option.bind_split prod.split)

text \<open>With the copies of the library as they are documented.\<close>

lemma sinkStatus_copier:
  assumes "deep_copier plain_val plain_foot cc"
  shows "deep_copier sinkStatus_val sinkStatus_foot (SinkStatus_DeepCopyInto cc)"
  unfolding sinkStatus_val_def sinkStatus_foot_def
  by (rule deep_copier_struct [OF deep_copier_slice [where emb = ConditionArray, OF assms], where upd = "\<lambda>s x. s\<lparr>zm_Conditions := x\<rparr>"])
    (simp_all add: SinkStatus_DeepCopyInto_def fun_eq_iff split: Option.bind_split prod.split)

lemma status_copier:
  assumes "deep_copier plain_val plain_foot cc"
  shows "deep_copier status_val status_foot (ExportPolicyStatus_DeepCopyInto cc)"
  unfolding status_val_def status_foot_def
  by (rule deep_copier_struct [OF deep_copier_pair [OF deep_copier_slice [where emb = ConditionArray, OF assms] deep_copier_slice [where emb = SinkStatusArray, OF sinkStatus_copier [OF assms]]],
        where upd = "\<lambda>s x. s\<lparr>um_Conditions := fst x, um_Sinks := snd x\<rparr>"])
    (simp_all add: ExportPolicyStatus_DeepCopyInto_def copy_pair_def fun_eq_iff split: Option.bind_split prod.split)

lemma policy_copier:
  assumes "deep_copier mv mf oc" "deep_copier plain_val plain_foot cc"
  shows "deep_copier (policy_val mv) (policy_foot mf) (ExportPolicy_DeepCopyInto oc cc)"
  unfolding policy_val_def policy_foot_def
  by (rule deep_copier_struct [OF deep_copier_pair [OF assms(1) deep_copier_pair [OF spec.deep_copier_axioms status_copier [OF assms(2)]]],
        where upd = "\<lambda>s x. s\<lparr>pm_ObjectMeta := fst x, pm_Spec := fst (snd x), pm_Status := snd (snd x)\<rparr>"])
    (simp_all add: ExportPolicy_DeepCopyInto_def copy_pair_def policy_of_parts_def fun_eq_iff split: Option.bind_split prod.split)

lemma policyList_copier:
  assumes "deep_copier mv mf oc" "deep_copier lv lf lc" "deep_copier plain_val plain_foot cc"
  shows "deep_copier (policyList_val mv lv) (policyList_foot mf lf) (ExportPolicyList_DeepCopyInto oc lc cc)"
  unfolding policyList_val_def policyList_foot_def
  by (rule deep_copier_struct [OF deep_copier_pair [OF assms(2) deep_copier_slice [where emb = PolicyArray, OF policy_copier [OF assms(1,3)]]],
        where upd = "\<lambda>s x. s\<lparr>lm_ListMeta := fst x, lm_Items := snd x\<rparr>"])
    (simp_all add: ExportPolicyList_DeepCopyInto_def copy_pair_def fun_eq_iff split: Option.bind_split prod.split)

section \<open>Properties\<close>

text \<open>
  C39. A copied policy is the same policy and shares nothing with the original. \<^verbatim>\<open>DeepCopyObject\<close> of a policy
  in memory returns a new object, never a nil one, that stands for the same value, down to every source,
  sink, target, authentication, status and condition; the addresses reached from the two are disjoint;
  and whatever is then written to memory reached from one of them, the other keeps its value. The same
  holds of a list of policies. A nil pointer gives the nil interface.
\<close>

theorem policy_copy_independent:
  assumes "deep_copier mv mf oc" "deep_copier lv lf lc" "deep_copier plain_val plain_foot cc" "wf_heap h"
    "ptr_val policy_of (policy_val mv) h (Some a) = Some v" "ptr_val policyList_of (policyList_val mv lv) h (Some l) = Some w"
  shows "(\<exists>b h'. ExportPolicy_DeepCopyObject oc cc (Some a) h = Some (Some (ExportPolicyPtr (Some b)), h') \<and> extends h h' \<and>
      copied_apart (ptr_val policy_of (policy_val mv)) (ptr_foot policy_of (policy_foot mf)) h' (Some a) (Some b) v) \<and>
    (\<exists>b h'. ExportPolicyList_DeepCopyObject oc lc cc (Some l) h = Some (Some (ExportPolicyListPtr (Some b)), h') \<and> extends h h' \<and>
      copied_apart (ptr_val policyList_of (policyList_val mv lv)) (ptr_foot policyList_of (policyList_foot mf lf)) h' (Some l) (Some b) w) \<and>
    ExportPolicy_DeepCopyObject oc cc None h = Some (None, h) \<and> ExportPolicyList_DeepCopyObject oc lc cc None h = Some (None, h)"
  using pointer_copied_apart [where prj = policy_of and emb = PolicyObj, OF policy_copier [OF assms(1,3)] _ assms(4,5)]
    pointer_copied_apart [where prj = policyList_of and emb = PolicyListObj, OF policyList_copier [OF assms(1-3)] _ assms(4,6)]
  by (auto simp: ExportPolicy_DeepCopyObject_def ExportPolicyList_DeepCopyObject_def ExportPolicy_DeepCopy_def
    ExportPolicyList_DeepCopy_def as_object_def copy_ptr_def [where p = None])

definition example_policies :: "(ObjectMeta, unit, unit) obj heap" where
  "example_policies = Heap
     [0 \<mapsto> PolicyListObj \<lparr>lm_TypeMeta = \<lparr>tm_Kind = ''ExportPolicyList'', tm_APIVersion = ''v1''\<rparr>, lm_ListMeta = (), lm_Items = Some (whole 1 1)\<rparr>,
      1 \<mapsto> PolicyArray [\<lparr>pm_TypeMeta = \<lparr>tm_Kind = ''ExportPolicy'', tm_APIVersion = ''v1''\<rparr>,
        pm_ObjectMeta = \<lparr>meta_Name = ''p'', meta_Namespace = ''n'', meta_UID = ''u'', meta_Generation = 1, meta_Deleted = False, meta_Finalizers = []\<rparr>,
        pm_Spec = \<lparr>xm_Sources = None, xm_Sinks = Some (whole 2 1)\<rparr>, pm_Status = \<lparr>um_Conditions = None, um_Sinks = None\<rparr>\<rparr>],
      2 \<mapsto> SinkArray [\<lparr>km_Name = ''s'', km_Sources = Some (whole 3 2), km_Target = Some 4\<rparr>],
      3 \<mapsto> StringArray [''a'', ''b''],
      4 \<mapsto> TargetObj \<lparr>tg_PrometheusRemoteWrite = None\<rparr>,
      5 \<mapsto> PolicyObj \<lparr>pm_TypeMeta = \<lparr>tm_Kind = ''ExportPolicy'', tm_APIVersion = ''v1''\<rparr>,
        pm_ObjectMeta = \<lparr>meta_Name = ''p'', meta_Namespace = ''n'', meta_UID = ''u'', meta_Generation = 1, meta_Deleted = False, meta_Finalizers = []\<rparr>,
        pm_Spec = \<lparr>xm_Sources = None, xm_Sinks = Some (whole 2 1)\<rparr>, pm_Status = \<lparr>um_Conditions = None, um_Sinks = None\<rparr>\<rparr>] 6"

lemma example_policies_read:
  "(case ptr_val policy_of (policy_val plain_val) example_policies (Some 5) of Some (Some (tm, p)) \<Rightarrow> map sk_Sources (sp_Sinks (ep_Spec p)) = [[''a'', ''b'']] | _ \<Rightarrow> False) \<and>
   (case ptr_val policyList_of (policyList_val plain_val plain_val) example_policies (Some 0) of Some (Some _) \<Rightarrow> True | _ \<Rightarrow> False)"
  by code_simp

theorem policy_copy_independent_witness:
  "\<exists>v b h'. ExportPolicy_DeepCopyObject copy_plain copy_plain (Some 5) example_policies = Some (Some (ExportPolicyPtr (Some b)), h') \<and>
     copied_apart (ptr_val policy_of (policy_val plain_val)) (ptr_foot policy_of (policy_foot plain_foot)) h' (Some 5) (Some b) v"
proof -
  have h: "wf_heap example_policies" by (auto simp: wf_heap_def example_policies_def)
  obtain v where v: "ptr_val policy_of (policy_val plain_val) example_policies (Some 5) = Some v"
    using example_policies_read by (auto split: option.splits)
  obtain w where w: "ptr_val policyList_of (policyList_val plain_val plain_val) example_policies (Some 0) = Some w"
    using example_policies_read by (auto split: option.splits)
  from policy_copy_independent [OF plain.deep_copier_axioms plain.deep_copier_axioms plain.deep_copier_axioms h v w] show ?thesis by blast
qed

end
