(* ===== verification/StatusMemory.thy ===== *)
theory StatusMemory
  imports DeepCopy
begin

text \<open>
  The status of an export policy, reconciled on memory (operator/internal/controller). \<open>Controller\<close> treats
  a policy as a value; here it is an object whose statuses share arrays, and the functions write where
  the code writes. \<open>None\<close>: a nil pointer is dereferenced, which panics. Memory that is only read is read
  as the value it stands for.
\<close>

section \<open>The functions\<close>

text \<open>
  \<^verbatim>\<open>apimeta.SetStatusCondition\<close> on a slice: the slice it leaves, whether it changed anything, and the
  memory. It is relied on for what \<open>sc\<close> says of the values, for writing to no array but the slice's own
  and for returning a slice of that array or of a new one.
\<close>

type_synonym ('om, 'lm, 'x) slice_setter =
  "slice option \<Rightarrow> Condition \<Rightarrow> ('om, 'lm, 'x) obj heap \<Rightarrow> (slice option \<times> bool \<times> ('om, 'lm, 'x) obj heap) option"

abbreviation conditions_val :: "(slice option, Condition list, 'om, 'lm, 'x) reader" where
  "conditions_val \<equiv> slice_val conditions_of plain_val"
abbreviation conditions_foot :: "(slice option, 'om, 'lm, 'x) reach" where
  "conditions_foot \<equiv> slice_foot conditions_of plain_foot"

definition sets_in_place :: "condition_setter \<Rightarrow> ('om, 'lm, 'x) slice_setter \<Rightarrow> bool" where
  "sets_in_place sc setc \<longleftrightarrow>
     (\<forall>h s c cs. wf_heap h \<longrightarrow> conditions_val h s = Some cs \<longrightarrow>
        (\<exists>s' h'. setc s c h = Some (s', snd (sc cs c), h') \<and> wf_heap h' \<and>
           conditions_val h' s' = Some (fst (sc cs c)) \<and> changes_only (conditions_foot h s) h h' \<and>
           conditions_foot h' s' \<subseteq> conditions_foot h s \<union> {hp_next h..}))"

text \<open>The loop variable \<^verbatim>\<open>existingStatus\<close> is an object of its own, whose address \<^verbatim>\<open>DeepCopy\<close> is given.\<close>

fun getSinkStatus_loop ::
  "(Condition, 'om, 'lm, 'x) copier \<Rightarrow> SinkStatusM list \<Rightarrow> string \<Rightarrow> ('om, 'lm, 'x) obj heap \<Rightarrow> (addr \<times> ('om, 'lm, 'x) obj heap) option" where
  "getSinkStatus_loop cc [] sinkName h = Some (alloc (SinkStatusObj \<lparr>zm_Name = sinkName, zm_Conditions = None\<rparr>) h)"
| "getSinkStatus_loop cc (s # ss) sinkName h =
     (if zm_Name s = sinkName then do {
        let (existingStatus, h) = alloc (SinkStatusObj s) h;
        (out, h) \<leftarrow> SinkStatus_DeepCopy cc (Some existingStatus) h;
        a \<leftarrow> out;
        Some (a, h)}
      else getSinkStatus_loop cc ss sinkName h)"

definition getSinkStatus_mem ::
  "(Condition, 'om, 'lm, 'x) copier \<Rightarrow> addr \<Rightarrow> string \<Rightarrow> ('om, 'lm, 'x) obj heap \<Rightarrow> (addr \<times> ('om, 'lm, 'x) obj heap) option" where
  "getSinkStatus_mem cc exportPolicy sinkName h = do {
     p \<leftarrow> load policy_of h exportPolicy;
     sinks \<leftarrow> elems sinkStatuses_of h (um_Sinks (pm_Status p));
     getSinkStatus_loop cc sinks sinkName h}"

definition sink_status_mem ::
  "(Condition, 'om, 'lm, 'x) copier \<Rightarrow> ('om, 'lm, 'x) slice_setter \<Rightarrow> secret_getter \<Rightarrow> ExportPolicy \<Rightarrow> addr \<Rightarrow> TelemetrySinkM \<Rightarrow>
   ('om, 'lm, 'x) obj heap \<Rightarrow> (SinkStatusM \<times> bool \<times> ('om, 'lm, 'x) obj heap) option" where
  "sink_status_mem cc setc get policy exportPolicy sink h = do {
     (status, h) \<leftarrow> getSinkStatus_mem cc exportPolicy (km_Name sink) h;
     t \<leftarrow> km_Target sink;
     target \<leftarrow> load target_of h t;
     (updated, h) \<leftarrow>
       (case tg_PrometheusRemoteWrite target of
          None \<Rightarrow> Some (False, h)
        | Some w \<Rightarrow> do {
            remote \<leftarrow> load remoteWrite_of h w;
            config \<leftarrow> remoteWrite_val h remote;
            st \<leftarrow> load sinkStatus_of h status;
            (conditions, updated, h) \<leftarrow> setc (zm_Conditions st) (sink_condition get policy config) h;
            Some (updated, put status (SinkStatusObj (st\<lparr>zm_Conditions := conditions\<rparr>)) h)});
     st \<leftarrow> load sinkStatus_of h status;
     Some (st, updated, h)}"

fun sink_statuses_mem ::
  "(Condition, 'om, 'lm, 'x) copier \<Rightarrow> ('om, 'lm, 'x) slice_setter \<Rightarrow> secret_getter \<Rightarrow> ExportPolicy \<Rightarrow> addr \<Rightarrow> TelemetrySinkM list \<Rightarrow>
   ('om, 'lm, 'x) obj heap \<Rightarrow> (SinkStatusM list \<times> bool \<times> ('om, 'lm, 'x) obj heap) option" where
  "sink_statuses_mem cc setc get policy exportPolicy [] h = Some ([], False, h)"
| "sink_statuses_mem cc setc get policy exportPolicy (s # ss) h = do {
     (st, updated, h) \<leftarrow> sink_status_mem cc setc get policy exportPolicy s h;
     (sts, others, h) \<leftarrow> sink_statuses_mem cc setc get policy exportPolicy ss h;
     Some (st # sts, updated \<or> others, h)}"

definition updateExportPolicyConditions_mem ::
  "('om, 'lm, 'x) slice_setter \<Rightarrow> ExportPolicy \<Rightarrow> addr \<Rightarrow> SinkStatusM list \<Rightarrow> ('om, 'lm, 'x) obj heap \<Rightarrow> (bool \<times> ('om, 'lm, 'x) obj heap) option" where
  "updateExportPolicyConditions_mem setc policy exportPolicy sinkStatuses h = do {
     sts \<leftarrow> list_val sinkStatus_val h sinkStatuses;
     p \<leftarrow> load policy_of h exportPolicy;
     (conditions, updated, h) \<leftarrow> setc (um_Conditions (pm_Status p)) (ready_condition (ep_Generation policy) sts) h;
     Some (updated, put exportPolicy (PolicyObj (p\<lparr>pm_Status := (pm_Status p)\<lparr>um_Conditions := conditions\<rparr>\<rparr>)) h)}"

definition reconcileExportPolicyStatus_mem ::
  "('om, ObjectMeta, 'om, 'lm, 'x) reader \<Rightarrow> (Condition, 'om, 'lm, 'x) copier \<Rightarrow> ('om, 'lm, 'x) slice_setter \<Rightarrow> secret_getter \<Rightarrow> addr \<Rightarrow>
   ('om, 'lm, 'x) obj heap \<Rightarrow> (bool \<times> ('om, 'lm, 'x) obj heap) option" where
  "reconcileExportPolicyStatus_mem mv cc setc get exportPolicy h = do {
     p \<leftarrow> load policy_of h exportPolicy;
     (tm, policy) \<leftarrow> policy_val mv h p;
     sinks \<leftarrow> elems sinks_of h (xm_Sinks (pm_Spec p));
     (sinkStatuses, statusChanged, h) \<leftarrow> sink_statuses_mem cc setc get policy exportPolicy sinks h;
     let (array, h) = alloc (SinkStatusArray sinkStatuses) h;
     p \<leftarrow> load policy_of h exportPolicy;
     let h = put exportPolicy (PolicyObj (p\<lparr>pm_Status := (pm_Status p)\<lparr>um_Sinks := Some (whole array (length sinkStatuses))\<rparr>\<rparr>)) h;
     (updated, h) \<leftarrow> updateExportPolicyConditions_mem setc policy exportPolicy sinkStatuses h;
     Some (updated \<or> statusChanged, h)}"

section \<open>Lemmas\<close>

lemma load_typed: "load (typed is un) h a = Some x \<longleftrightarrow> (\<exists>ob. hp_store h a = Some ob \<and> is ob \<and> un ob = x)"
  by (auto simp: load_def typed_def bind_eq_Some_conv)

lemma load_extends: "extends h h' \<Longrightarrow> wf_heap h \<Longrightarrow> load prj h a = Some x \<Longrightarrow> load prj h' a = Some x"
  using wf_heap_dom [of h] by (auto simp: load_def extends_def bind_eq_Some_conv)

lemma load_below: "wf_heap h \<Longrightarrow> load prj h a = Some x \<Longrightarrow> a < hp_next h"
  using wf_heap_dom [of h] by (auto simp: load_def bind_eq_Some_conv)

text \<open>An array of conditions is no object of another type.\<close>

lemma conditions_foot_cases:
  assumes "conditions_val h s = Some cs" "hp_store h a = Some ob" "\<not> is_ConditionArray ob"
  shows "a \<notin> conditions_foot h s"
proof (cases s)
  case (Some sl)
  then obtain xs where "load conditions_of h (sl_array sl) = Some xs" using assms(1)
    by (auto simp: slice_val_def elems_def bind_eq_Some_conv)
  then have "a \<noteq> sl_array sl" using assms(2,3) by (auto simp: load_typed)
  then show ?thesis using Some by (auto simp: slice_foot_def list_foot_def plain_foot_def split: option.split)
qed (simp add: slice_foot_def)

lemma sinkStatus_simps:
  "sinkStatus_val h s = map_option (\<lambda>c. \<lparr>ss_Name = zm_Name s, ss_Conditions = c\<rparr>) (conditions_val h (zm_Conditions s))"
  "sinkStatus_foot h s = conditions_foot h (zm_Conditions s)"
  by (simp_all add: sinkStatus_val_def sinkStatus_foot_def struct_val_def struct_foot_def)

interpretation sinkStatus_reads: represents sinkStatus_val sinkStatus_foot
  by (rule deep_copier.axioms(1) [OF sinkStatus_copier [OF plain.deep_copier_axioms]])

interpretation conditions_reads: represents conditions_val conditions_foot
  by (rule represents_slice [OF plain.represents_axioms])

interpretation sinkStatuses_reads: represents "list_val sinkStatus_val" "list_foot sinkStatus_foot"
  by (rule represents_list [OF sinkStatus_reads.represents_axioms])

interpretation sinks_reads: represents "list_val sink_val" "list_foot sink_foot"
  by (rule represents_list [OF sink.represents_axioms])

lemma getSinkStatus_loop_copies:
  assumes "deep_copier plain_val plain_foot cc" "wf_heap h" "list_val sinkStatus_val h ssM = Some ss"
  shows "\<exists>b st h'. getSinkStatus_loop cc ssM n h = Some (b, h') \<and> wf_heap h' \<and> extends h h' \<and> hp_next h \<le> b \<and>
    load sinkStatus_of h' b = Some st \<and> sinkStatus_val h' st = Some (getSinkStatus_in ss n) \<and> sinkStatus_foot h' st \<inter> {..<hp_next h} = {}"
  using assms(3)
proof (induction ssM arbitrary: ss)
  case Nil
  obtain b h' where al: "alloc (SinkStatusObj \<lparr>zm_Name = n, zm_Conditions = None\<rparr>) h = (b, h')" by fastforce
  show ?case using alloc_props [OF assms(2) al] al Nil
    by (intro exI [of _ b] exI [of _ "\<lparr>zm_Name = n, zm_Conditions = None\<rparr>"] exI [of _ h'])
      (simp add: load_typed sinkStatus_simps slice_val_def slice_foot_def elems_def)
next
  case (Cons s ssM)
  then obtain v vs where v: "sinkStatus_val h s = Some v" "list_val sinkStatus_val h ssM = Some vs" "ss = v # vs"
    by (auto simp: bind_eq_Some_conv)
  have nm: "ss_Name v = zm_Name s" using v(1) by (auto simp: sinkStatus_simps)
  show ?case
  proof (cases "zm_Name s = n")
    case True
    obtain e h1 where al: "alloc (SinkStatusObj s) h = (e, h1)" by fastforce
    note ap = alloc_props [OF assms(2) al]
    have "sinkStatus_val h1 s = Some v" using sinkStatus_reads.val_extends [OF assms(2) v(1) ap(2)] by simp
    then have "ptr_val sinkStatus_of sinkStatus_val h1 (Some e) = Some (Some v)" using ap(3) by (simp add: ptr_val_def load_def)
    from deep_copier.copies [OF deep_copier_ptr [where emb = SinkStatusObj and prj = sinkStatus_of, OF sinkStatus_copier [OF assms(1)]] ap(1) this]
    obtain q h2 where c: "SinkStatus_DeepCopy cc (Some e) h1 = Some (q, h2)" "wf_heap h2" "extends h1 h2"
      "ptr_val sinkStatus_of sinkStatus_val h2 q = Some (Some v)" "ptr_foot sinkStatus_of sinkStatus_foot h2 q \<inter> {..<hp_next h1} = {}"
      by (auto simp: SinkStatus_DeepCopy_def)
    then obtain b st where b: "q = Some b" "load sinkStatus_of h2 b = Some st" "sinkStatus_val h2 st = Some v"
      by (auto simp: ptr_val_def bind_eq_Some_conv split: option.splits)
    have "\<not> b < hp_next h1" "sinkStatus_foot h2 st \<inter> {..<hp_next h1} = {}" using c(5) b(1,2) by (auto simp: ptr_foot_def)
    then show ?thesis
      using True al c(1-3) b v(3) nm ap(5) extends_trans [OF ap(2) c(3)]
      by (intro exI [of _ b] exI [of _ st] exI [of _ h2]) fastforce
  qed (use Cons.IH [OF v(2)] v(3) nm in simp)
qed

lemma ptr_val_Some:
  "ptr_val prj v h (Some a) = Some y \<longleftrightarrow> (\<exists>x z. load prj h a = Some x \<and> v h x = Some z \<and> y = Some z)"
  by (auto simp: ptr_val_def bind_eq_Some_conv)

lemma sink_parts:
  assumes "sink_val h sk = Some s"
  shows "sk_Name s = km_Name sk" "ptr_val target_of target_val h (km_Target sk) = Some (sk_Target s)"
  using assms by (auto simp: sink_val_def struct_val_def pair_val_def bind_eq_Some_conv)

lemma status_parts:
  assumes "status_val h s = Some st"
  shows "conditions_val h (um_Conditions s) = Some (es_Conditions st)"
    "slice_val sinkStatuses_of sinkStatus_val h (um_Sinks s) = Some (es_Sinks st)"
  using assms by (auto simp: status_val_def struct_val_def pair_val_def bind_eq_Some_conv)

lemma spec_sinks: "spec_val h s = Some sp \<Longrightarrow> slice_val sinks_of sink_val h (xm_Sinks s) = Some (sp_Sinks sp)"
  by (auto simp: spec_val_def struct_val_def pair_val_def bind_eq_Some_conv)

text \<open>Setting a condition of a status at hand: its object and its array, and nothing allocated earlier.\<close>

lemma set_on_status:
  assumes "sets_in_place sc setc" "wf_heap h" "load sinkStatus_of h b = Some st" "sinkStatus_val h st = Some v" "extends h0 h"
    "hp_next h0 \<le> b" "sinkStatus_foot h st \<inter> {..<hp_next h0} = {}"
  shows "\<exists>cs h1. setc (zm_Conditions st) c h = Some (cs, snd (sc (ss_Conditions v) c), h1) \<and>
    (let st' = st\<lparr>zm_Conditions := cs\<rparr>; h2 = put b (SinkStatusObj st') h1 in
     wf_heap h2 \<and> extends h0 h2 \<and> sinkStatus_val h2 st' = Some (v\<lparr>ss_Conditions := fst (sc (ss_Conditions v) c)\<rparr>) \<and>
     sinkStatus_foot h2 st' \<inter> {..<hp_next h0} = {})"
proof -
  let ?s = "zm_Conditions st" and ?r = "sc (ss_Conditions v) c"
  have v: "conditions_val h ?s = Some (ss_Conditions v)" "ss_Name v = zm_Name st" using assms(4) by (auto simp: sinkStatus_simps)
  from assms(1,2) v(1) obtain cs h1 where e: "setc ?s c h = Some (cs, snd ?r, h1)" "wf_heap h1"
    "conditions_val h1 cs = Some (fst ?r)" "changes_only (conditions_foot h ?s) h h1" "conditions_foot h1 cs \<subseteq> conditions_foot h ?s \<union> {hp_next h..}"
    unfolding sets_in_place_def by blast
  let ?h2 = "put b (SinkStatusObj (st\<lparr>zm_Conditions := cs\<rparr>)) h1"
  from assms(3) obtain ob where ob: "hp_store h b = Some ob" "is_SinkStatusObj ob" by (auto simp: load_typed)
  then have nc: "\<not> is_ConditionArray ob" by (cases ob) simp_all
  have bd: "b < hp_next h" by (rule load_below [OF assms(2,3)])
  have "b \<notin> conditions_foot h ?s" by (rule conditions_foot_cases [OF v(1) ob(1) nc])
  then have "hp_store h1 b = Some ob" using e(4) bd ob(1) by (simp add: changes_only_def)
  then have nb: "b \<notin> conditions_foot h1 cs" by (rule conditions_foot_cases [OF e(3) _ nc])
  have le: "hp_next h0 \<le> hp_next h" "hp_next h \<le> hp_next h1" using assms(5) e(4) by (simp_all add: extends_def changes_only_def)
  have "extends h0 h1" using assms(5,7) e(4) unfolding extends_changes sinkStatus_simps by (rule_tac changes_newer) auto
  then have x: "extends h0 ?h2" using assms(6) unfolding extends_changes by (rule_tac changes_newer [OF _ changes_put [of b "{b}"]]) auto
  have "changes_only {b} h1 ?h2" by (simp add: changes_put)
  from conditions_reads.val_frame [OF e(2,3) this] nb have
    c: "conditions_val ?h2 cs = Some (fst ?r)" "conditions_foot ?h2 cs = conditions_foot h1 cs" by blast+
  have "conditions_foot h1 cs \<inter> {..<hp_next h0} = {}" using e(5) assms(7) le by (fastforce simp: sinkStatus_simps)
  moreover have "wf_heap ?h2" using put_props [OF e(2)] bd le by simp
  ultimately show ?thesis using e(1) x c v(2) by (intro exI [of _ cs] exI [of _ h1]) (simp add: sinkStatus_simps Let_def)
qed

lemma sink_status_mem_refines:
  assumes "deep_copier plain_val plain_foot cc" "sets_in_place sc setc" "wf_heap h" "load policy_of h a = Some P"
    "slice_val sinkStatuses_of sinkStatus_val h (um_Sinks (pm_Status P)) = Some (es_Sinks (ep_Status p))" "sink_val h sk = Some s"
  shows "case sink_status sc get p s of
      Inl _ \<Rightarrow> sink_status_mem cc setc get p a sk h = None
    | Inr (st, ch) \<Rightarrow> \<exists>stM h'. sink_status_mem cc setc get p a sk h = Some (stM, ch, h') \<and> wf_heap h' \<and> extends h h' \<and>
        sinkStatus_val h' stM = Some st \<and> sinkStatus_foot h' stM \<inter> {..<hp_next h} = {}"
proof -
  note sp = sink_parts [OF assms(6)]
  obtain ssM where ss: "elems sinkStatuses_of h (um_Sinks (pm_Status P)) = Some ssM" "list_val sinkStatus_val h ssM = Some (es_Sinks (ep_Status p))"
    using assms(5) by (auto simp: slice_val_def bind_eq_Some_conv)
  from getSinkStatus_loop_copies [OF assms(1,3) ss(2)] obtain b st h1 where
    g: "getSinkStatus_mem cc a (km_Name sk) h = Some (b, h1)" "wf_heap h1" "extends h h1" "hp_next h \<le> b" "load sinkStatus_of h1 b = Some st"
      "sinkStatus_val h1 st = Some (getSinkStatus p (sk_Name s))" "sinkStatus_foot h1 st \<inter> {..<hp_next h} = {}"
    using assms(4) ss(1) sp(1) by (fastforce simp: getSinkStatus_mem_def getSinkStatus_def)
  show ?thesis
  proof (cases "km_Target sk")
    case None
    then show ?thesis using sp(2) g(1) by (simp add: ptr_val_def sink_status_def sink_status_mem_def Let_def)
  next
    case (Some t)
    then obtain tM tv where t: "load target_of h t = Some tM" "target_val h tM = Some tv" "sk_Target s = Some tv"
      using sp(2) by (auto simp: ptr_val_Some)
    have t1: "load target_of h1 t = Some tM" by (rule load_extends [OF g(3) assms(3) t(1)])
    have tv: "ptr_val remoteWrite_of remoteWrite_val h1 (tg_PrometheusRemoteWrite tM) = Some (st_PrometheusRemoteWrite tv)"
      using target.val_extends [OF assms(3) t(2) g(3)] by (auto simp: target_val_def struct_val_def)
    show ?thesis
    proof (cases "tg_PrometheusRemoteWrite tM")
      case None
      then show ?thesis using tv g Some t t1 by (simp add: ptr_val_def sink_status_def sink_status_mem_def Let_def)
    next
      case (Some w)
      then obtain wM wv where w: "load remoteWrite_of h1 w = Some wM" "remoteWrite_val h1 wM = Some wv" "st_PrometheusRemoteWrite tv = Some wv"
        using tv by (auto simp: ptr_val_Some)
      from set_on_status [OF assms(2) g(2,5,6,3,4,7), of "sink_condition get p wv"] obtain cs h2 where
        c: "setc (zm_Conditions st) (sink_condition get p wv) h1 =
            Some (cs, snd (sc (ss_Conditions (getSinkStatus p (sk_Name s))) (sink_condition get p wv)), h2)"
          "let st' = st\<lparr>zm_Conditions := cs\<rparr>; h3 = put b (SinkStatusObj st') h2 in
           wf_heap h3 \<and> extends h h3 \<and> sinkStatus_val h3 st' = Some ((getSinkStatus p (sk_Name s))\<lparr>ss_Conditions :=
             fst (sc (ss_Conditions (getSinkStatus p (sk_Name s))) (sink_condition get p wv))\<rparr>) \<and> sinkStatus_foot h3 st' \<inter> {..<hp_next h} = {}"
        by blast
      have "load sinkStatus_of (put b (SinkStatusObj x) h2) b = Some x" for x by (simp add: load_def)
      then show ?thesis
        using Some \<open>km_Target sk = Some t\<close> t t1 w c g(1,5) by (simp add: sink_status_def sink_status_mem_def Let_def)
    qed
  qed
qed

interpretation statuses_slice: represents "slice_val sinkStatuses_of sinkStatus_val" "slice_foot sinkStatuses_of sinkStatus_foot"
  by (rule represents_slice [OF sinkStatus_reads.represents_axioms])

lemma sink_statuses_mem_refines:
  assumes "deep_copier plain_val plain_foot cc" "sets_in_place sc setc" "wf_heap h" "load policy_of h a = Some P"
    "slice_val sinkStatuses_of sinkStatus_val h (um_Sinks (pm_Status P)) = Some (es_Sinks (ep_Status p))" "list_val sink_val h sks = Some ss"
  shows "case sink_statuses sc get p ss of
      Inl _ \<Rightarrow> sink_statuses_mem cc setc get p a sks h = None
    | Inr (sts, ch) \<Rightarrow> \<exists>stsM h'. sink_statuses_mem cc setc get p a sks h = Some (stsM, ch, h') \<and> wf_heap h' \<and> extends h h' \<and>
        list_val sinkStatus_val h' stsM = Some sts \<and> list_foot sinkStatus_foot h' stsM \<inter> {..<hp_next h} = {}"
  using assms(3-6)
proof (induction sks arbitrary: h ss)
  case (Cons sk sks)
  then obtain v vs where v: "sink_val h sk = Some v" "list_val sink_val h sks = Some vs" "ss = v # vs" by (auto simp: bind_eq_Some_conv)
  note one = sink_status_mem_refines [OF assms(1,2) Cons.prems(1-3) v(1), of get]
  show ?case
  proof (cases "sink_status sc get p v")
    case (Inl e)
    then show ?thesis using one v(3) by (simp add: res_bind_def)
  next
    case (Inr r)
    obtain st ch where r: "r = (st, ch)" by fastforce
    with one Inr obtain stM h1 where 1: "sink_status_mem cc setc get p a sk h = Some (stM, ch, h1)" "wf_heap h1" "extends h h1"
      "sinkStatus_val h1 stM = Some st" "sinkStatus_foot h1 stM \<inter> {..<hp_next h} = {}" by auto
    note ih = Cons.IH [OF 1(2) load_extends [OF 1(3) Cons.prems(1,2)] conjunct1 [OF statuses_slice.val_extends [OF Cons.prems(1,3) 1(3)]]
      conjunct1 [OF sinks_reads.val_extends [OF Cons.prems(1) v(2) 1(3)]]]
    show ?thesis
    proof (cases "sink_statuses sc get p vs")
      case (Inl e)
      then show ?thesis using ih 1(1) v(3) Inr r by (simp add: res_bind_def)
    next
      case (Inr r2)
      obtain sts chs where r2: "r2 = (sts, chs)" by fastforce
      with ih Inr obtain stsM h2 where 2: "sink_statuses_mem cc setc get p a sks h1 = Some (stsM, chs, h2)" "wf_heap h2" "extends h1 h2"
        "list_val sinkStatus_val h2 stsM = Some sts" "list_foot sinkStatus_foot h2 stsM \<inter> {..<hp_next h1} = {}" by auto
      have s: "sinkStatus_val h2 stM = Some st" "sinkStatus_foot h2 stM = sinkStatus_foot h1 stM"
        using sinkStatus_reads.val_extends [OF 1(2,4) 2(3)] by simp_all
      have "hp_next h \<le> hp_next h1" using 1(3) by (simp add: extends_def)
      then have "list_foot sinkStatus_foot h2 (stM # stsM) \<inter> {..<hp_next h} = {}" using 1(5) 2(5) s(2) by fastforce
      then show ?thesis
        using 1(1) 2(1,2,4) s(1) v(3) Inr r r2 \<open>sink_status sc get p v = Inr r\<close> extends_trans [OF 1(3) 2(3)] by (simp add: res_bind_def)
    qed
  qed
qed simp

text \<open>The statuses at hand become the policy's, and its own conditions follow them.\<close>

lemma statuses_stored:
  assumes mv: "represents mv mf" and sp: "sets_in_place sc setc" and h: "wf_heap h" "load policy_of h a = Some P"
    and parts: "mv h (pm_ObjectMeta P) = Some m" "spec_val h (pm_Spec P) = Some spec" "conditions_val h (um_Conditions (pm_Status P)) = Some cs"
    and apart: "a \<notin> mf h (pm_ObjectMeta P) \<union> spec_foot h (pm_Spec P)"
      "conditions_foot h (um_Conditions (pm_Status P)) \<inter> (mf h (pm_ObjectMeta P) \<union> spec_foot h (pm_Spec P)) = {}"
    and h1: "wf_heap h1" "extends h h1" "list_val sinkStatus_val h1 stsM = Some sts" "list_foot sinkStatus_foot h1 stsM \<inter> {..<hp_next h} = {}"
    and al: "alloc (SinkStatusArray stsM) h1 = (arr, h2)"
    and h3: "h3 = put a (PolicyObj (P\<lparr>pm_Status := (pm_Status P)\<lparr>um_Sinks := Some (whole arr (length stsM))\<rparr>\<rparr>)) h2"
    and r: "r = sc cs (ready_condition (ep_Generation p) sts)"
  shows "\<exists>P' h'. updateExportPolicyConditions_mem setc p a stsM h3 = Some (snd r, h') \<and> wf_heap h' \<and> load policy_of h' a = Some P' \<and>
    policy_val mv h' P' = Some (policy_of_parts P (m, spec, \<lparr>es_Conditions = fst r, es_Sinks = sts\<rparr>)) \<and>
    changes_only (insert a (conditions_foot h (um_Conditions (pm_Status P)))) h h'"
proof -
  let ?C = "conditions_foot h (um_Conditions (pm_Status P))" and ?F = "list_foot sinkStatus_foot"
  note ap = alloc_props [OF h1(1) al]
  have ad: "a < hp_next h" by (rule load_below [OF h])
  have le: "hp_next h \<le> hp_next h1" "arr = hp_next h1" "hp_next h2 = Suc arr" using h1(2) ap(4,5) by (simp_all add: extends_def)
  from h(2) obtain ob where ob: "hp_store h a = Some ob" "is_PolicyObj ob" by (auto simp: load_typed)
  then have "\<not> is_ConditionArray ob" by (cases ob) simp_all
  then have aC: "a \<notin> ?C" by (rule conditions_foot_cases [OF parts(3) ob(1)])
  have Cl: "?C \<subseteq> {..<hp_next h}" by (rule conditions_reads.foot_below [OF h(1) parts(3)])
  have w3: "wf_heap h3" unfolding h3 using put_props(1) [OF ap(1), of a] ad le by simp
  have c12: "changes_only {a} h1 h3" unfolding h3
    by (rule changes_newer [OF changes_only_mono [OF iffD1 [OF extends_changes ap(2)]] changes_put [of a "{a}"]]) simp_all
  have c03: "changes_only {a} h h3"
    by (rule changes_only_trans [OF changes_only_mono [OF iffD1 [OF extends_changes h1(2)]] c12]) simp
  have k3: "conditions_val h3 (um_Conditions (pm_Status P)) = Some cs" "conditions_foot h3 (um_Conditions (pm_Status P)) = ?C"
    using conditions_reads.val_frame [OF h(1) parts(3) c03] aC by blast+
  have s3: "list_val sinkStatus_val h3 stsM = Some sts" "?F h3 stsM = ?F h1 stsM"
    using sinkStatuses_reads.val_frame [OF h1(1,3) c12] h1(4) ad by blast+
  let ?P1 = "P\<lparr>pm_Status := (pm_Status P)\<lparr>um_Sinks := Some (whole arr (length stsM))\<rparr>\<rparr>"
  have l3: "load policy_of h3 a = Some ?P1" by (simp add: h3 load_def)
  from sp w3 k3(1) obtain cs' h4 where e: "setc (um_Conditions (pm_Status P)) (ready_condition (ep_Generation p) sts) h3 = Some (cs', snd r, h4)"
    "wf_heap h4" "conditions_val h4 cs' = Some (fst r)" "changes_only ?C h3 h4" "conditions_foot h4 cs' \<subseteq> ?C \<union> {hp_next h3..}"
    unfolding sets_in_place_def r k3(2) [symmetric] by blast
  let ?P2 = "?P1\<lparr>pm_Status := (pm_Status ?P1)\<lparr>um_Conditions := cs'\<rparr>\<rparr>"
  let ?h5 = "put a (PolicyObj ?P2) h4"
  have n3: "hp_next h3 = Suc arr" "Suc arr \<le> hp_next h4" using e(4) le(3) by (simp_all add: h3 changes_only_def)
  have w5: "wf_heap ?h5" using put_props(1) [OF e(2), of a] ad le n3 by simp
  have c35: "changes_only (insert a ?C) h3 ?h5"
    by (rule changes_only_trans [OF changes_only_mono [OF e(4)] changes_put]) auto
  have c05: "changes_only (insert a ?C) h ?h5"
    by (rule changes_only_trans [OF changes_only_mono [OF c03] c35]) auto
  have "mv ?h5 (pm_ObjectMeta P) = Some m" using represents.val_frame [OF mv h(1) parts(1) c05] apart by blast
  moreover have "spec_val ?h5 (pm_Spec P) = Some spec" using spec.val_frame [OF h(1) parts(2) c05] apart by blast
  moreover have "conditions_val ?h5 cs' = Some (fst r)"
  proof -
    have "a \<notin> conditions_foot h4 cs'" using e(5) aC ad le n3 by auto
    then show ?thesis using conditions_reads.val_frame [OF e(2,3) changes_put [of a "{a}"]] by blast
  qed
  moreover have "slice_val sinkStatuses_of sinkStatus_val ?h5 (Some (whole arr (length stsM))) = Some sts"
  proof -
    have "arr \<noteq> a" "arr \<notin> ?C" using Cl ad le by auto
    then have "hp_store ?h5 arr = hp_store h3 arr" using c35 n3 by (simp add: changes_only_def)
    also have "\<dots> = Some (SinkStatusArray stsM)" using ap(3) \<open>arr \<noteq> a\<close> by (simp add: h3)
    finally have "elems sinkStatuses_of ?h5 (Some (whole arr (length stsM))) = Some stsM" by (intro elems_whole) (simp_all add: load_def)
    moreover have "list_val sinkStatus_val ?h5 stsM = Some sts"
      using sinkStatuses_reads.val_frame [OF w3 s3(1) c35] s3(2) h1(4) Cl ad by blast
    ultimately show ?thesis by (simp add: slice_val_def)
  qed
  ultimately have "policy_val mv ?h5 ?P2 = Some (policy_of_parts P (m, spec, \<lparr>es_Conditions = fst r, es_Sinks = sts\<rparr>))"
    by (simp add: policy_val_def struct_val_def pair_val_def status_val_def policy_of_parts_def)
  moreover have "updateExportPolicyConditions_mem setc p a stsM h3 = Some (snd r, ?h5)"
    using s3(1) l3 e(1) by (simp add: updateExportPolicyConditions_mem_def)
  moreover have "load policy_of ?h5 a = Some ?P2" by (simp add: load_def)
  ultimately show ?thesis using w5 c05 by blast
qed

section \<open>Properties\<close>

text \<open>
  C38. Treating a policy as a value is justified. Reconciling the status on memory does what the value
  semantics of \<open>Controller\<close> says: it panics exactly when that does, and otherwise reports the same and
  leaves the policy's object with the same status, metadata and specification. It writes to no object
  that existed before but the policy itself and the array of its own conditions: the arrays of the
  previous sink statuses, which the loop reads again for every sink, are only ever copied.
\<close>

theorem status_reconciled_on_memory:
  assumes "represents mv mf" "deep_copier plain_val plain_foot cc" "sets_in_place sc setc" "wf_heap h"
    "load policy_of h a = Some P" "policy_val mv h P = Some (tm, p)" "a \<notin> mf h (pm_ObjectMeta P) \<union> spec_foot h (pm_Spec P)"
    "conditions_foot h (um_Conditions (pm_Status P)) \<inter> (mf h (pm_ObjectMeta P) \<union> spec_foot h (pm_Spec P)) = {}"
  shows "case reconcileExportPolicyStatus sc get p of
      Inl _ \<Rightarrow> reconcileExportPolicyStatus_mem mv cc setc get a h = None
    | Inr (p', changed) \<Rightarrow>
        \<exists>P' h'. reconcileExportPolicyStatus_mem mv cc setc get a h = Some (changed, h') \<and> wf_heap h' \<and>
          load policy_of h' a = Some P' \<and> policy_val mv h' P' = Some (tm, p') \<and>
          changes_only (insert a (conditions_foot h (um_Conditions (pm_Status P)))) h h'"
proof -
  let ?C = "conditions_foot h (um_Conditions (pm_Status P))"
  from assms(6) obtain m where m: "mv h (pm_ObjectMeta P) = Some m" "spec_val h (pm_Spec P) = Some (ep_Spec p)"
    "status_val h (pm_Status P) = Some (ep_Status p)" "policy_of_parts P (m, ep_Spec p, ep_Status p) = (tm, p)"
    by (auto simp: policy_val_def struct_val_def pair_val_def bind_eq_Some_conv policy_of_parts_def)
  have c: "conditions_val h (um_Conditions (pm_Status P)) = Some (es_Conditions (ep_Status p))"
    "slice_val sinkStatuses_of sinkStatus_val h (um_Sinks (pm_Status P)) = Some (es_Sinks (ep_Status p))"
    using status_parts [OF m(3)] by simp_all
  obtain sks where sk: "elems sinks_of h (xm_Sinks (pm_Spec P)) = Some sks" "list_val sink_val h sks = Some (sp_Sinks (ep_Spec p))"
    using spec_sinks [OF m(2)] by (auto simp: slice_val_def bind_eq_Some_conv)
  note loop = sink_statuses_mem_refines [OF assms(2,3,4,5) c(2) sk(2), of get]
  show ?thesis
  proof (cases "sink_statuses sc get p (sp_Sinks (ep_Spec p))")
    case (Inl e)
    then show ?thesis using loop assms(5,6) sk(1) by (simp add: reconcileExportPolicyStatus_def reconcileExportPolicyStatus_mem_def res_bind_def)
  next
    case (Inr x)
    obtain sts ch where x: "x = (sts, ch)" by fastforce
    with loop Inr obtain stsM h1 where 1: "sink_statuses_mem cc setc get p a sks h = Some (stsM, ch, h1)" "wf_heap h1" "extends h h1"
      "list_val sinkStatus_val h1 stsM = Some sts" "list_foot sinkStatus_foot h1 stsM \<inter> {..<hp_next h} = {}" by auto
    obtain arr h2 where al: "alloc (SinkStatusArray stsM) h1 = (arr, h2)" by fastforce
    have l2: "load policy_of h2 a = Some P"
      by (rule load_extends [OF extends_trans [OF 1(3) alloc_props(2) [OF 1(2) al]] assms(4,5)])
    from statuses_stored [OF assms(1,3,4,5) m(1,2) c(1) assms(7,8) 1(2-5) al refl refl, of p] obtain P' h' where
      u: "updateExportPolicyConditions_mem setc p a stsM
           (put a (PolicyObj (P\<lparr>pm_Status := (pm_Status P)\<lparr>um_Sinks := Some (whole arr (length stsM))\<rparr>\<rparr>)) h2) =
         Some (snd (sc (es_Conditions (ep_Status p)) (ready_condition (ep_Generation p) sts)), h')"
      "wf_heap h'" "load policy_of h' a = Some P'"
      "policy_val mv h' P' = Some (policy_of_parts P (m, ep_Spec p,
         \<lparr>es_Conditions = fst (sc (es_Conditions (ep_Status p)) (ready_condition (ep_Generation p) sts)), es_Sinks = sts\<rparr>))"
      "changes_only (insert a ?C) h h'" by blast
    have "policy_of_parts P (m, ep_Spec p, st) = (tm, p\<lparr>ep_Status := st\<rparr>)" for st
      using m(4) by (cases p) (auto simp: policy_of_parts_def)
    then show ?thesis
      using Inr x 1(1) al l2 u assms(5,6) sk(1)
      by (simp add: reconcileExportPolicyStatus_def reconcileExportPolicyStatus_mem_def updateExportPolicyConditions_def res_bind_def Let_def)
  qed
qed

text \<open>A setter that replaces a condition in place and moves to a new array when there is one more.\<close>

definition example_setter :: "(ObjectMeta, unit, unit) slice_setter" where
  "example_setter s c h = do {
     cs \<leftarrow> elems conditions_of h s;
     let (ds, updated) = example_set_cond cs c;
     case s of
       Some sl \<Rightarrow>
         (if length ds = length cs then do {
            xs \<leftarrow> load conditions_of h (sl_array sl);
            Some (s, updated, put (sl_array sl) (ConditionArray (take (sl_off sl) xs @ ds @ drop (sl_off sl + sl_len sl) xs)) h)}
          else let (a, h') = alloc (ConditionArray ds) h in Some (Some (whole a (length ds)), updated, h'))
     | None \<Rightarrow> let (a, h') = alloc (ConditionArray ds) h in Some (Some (whole a (length ds)), updated, h')}"

lemma plain_list [simp]: "list_val plain_val h xs = Some xs" "list_foot plain_foot h xs = {}"
  by (induction xs) (simp_all add: plain_val_def plain_foot_def)

lemma example_sets_in_place: "sets_in_place example_set_cond example_setter"
  unfolding sets_in_place_def
proof (intro allI impI)
  fix h :: "(ObjectMeta, unit, unit) obj heap" and s c cs
  assume h: "wf_heap h" and v: "conditions_val h s = Some cs"
  then have e: "elems conditions_of h s = Some cs" by (simp add: slice_val_def bind_eq_Some_conv)
  obtain ds u where d: "example_set_cond cs c = (ds, u)" by fastforce
  obtain a h1 where al: "alloc (ConditionArray ds) h = (a, h1)" by fastforce
  note ap = alloc_props [OF h al]
  let ?g = "\<lambda>s' h'. wf_heap h' \<and> conditions_val h' s' = Some ds \<and> changes_only (conditions_foot h s) h h' \<and>
    conditions_foot h' s' \<subseteq> conditions_foot h s \<union> {hp_next h..}"
  have "elems conditions_of h1 (Some (whole a (length ds))) = Some ds" using ap(3) by (intro elems_whole) (simp_all add: load_def)
  moreover have "changes_only (conditions_foot h s) h h1" using ap(2) changes_only_mono by (auto simp: extends_changes)
  ultimately have new: "?g (Some (whole a (length ds))) h1" using ap(1,4) by (simp add: slice_val_def slice_foot_def) (simp add: whole_def)
  show "\<exists>s' h'. example_setter s c h = Some (s', snd (example_set_cond cs c), h') \<and> wf_heap h' \<and>
    conditions_val h' s' = Some (fst (example_set_cond cs c)) \<and> changes_only (conditions_foot h s) h h' \<and>
    conditions_foot h' s' \<subseteq> conditions_foot h s \<union> {hp_next h..}"
  proof (cases "s \<noteq> None \<and> length ds = length cs")
    case True
    then obtain sl xs where s: "s = Some sl" "load conditions_of h (sl_array sl) = Some xs" "sl_off sl + sl_len sl \<le> length xs"
      "cs = take (sl_len sl) (drop (sl_off sl) xs)" using e by (auto simp: elems_def bind_eq_Some_conv split: if_splits)
    let ?h = "put (sl_array sl) (ConditionArray (take (sl_off sl) xs @ ds @ drop (sl_off sl + sl_len sl) xs)) h"
    have l: "length ds = sl_len sl" using True s(3,4) by simp
    then have "elems conditions_of ?h s = Some ds" using s(1,3) by (simp add: elems_def load_def)
    moreover have "wf_heap ?h" by (rule put_props(1) [OF h load_below [OF h s(2)]])
    moreover have "conditions_foot ?h s = conditions_foot h s" using s(1) e calculation(1) by (simp add: slice_foot_def)
    moreover have "changes_only (conditions_foot h s) h ?h" using s(1) by (intro changes_put) (simp add: slice_foot_def)
    ultimately have "?g s ?h" by (simp add: slice_val_def)
    moreover have "example_setter s c h = Some (s, u, ?h)" using True e d s(1,2) by (simp add: example_setter_def)
    ultimately show ?thesis using d by auto
  next
    case False
    then have "example_setter s c h = Some (Some (whole a (length ds)), u, h1)"
      using e d al by (auto simp: example_setter_def split: option.split)
    then show ?thesis using new d by auto
  qed
qed

definition example_memory :: "(ObjectMeta, unit, unit) obj heap" where
  "example_memory = Heap
     [0 \<mapsto> PolicyObj \<lparr>pm_TypeMeta = \<lparr>tm_Kind = ''ExportPolicy'', tm_APIVersion = ''v1''\<rparr>,
        pm_ObjectMeta = \<lparr>meta_Name = ''p'', meta_Namespace = ''n'', meta_UID = ''u'', meta_Generation = 1, meta_Deleted = False, meta_Finalizers = []\<rparr>,
        pm_Spec = \<lparr>xm_Sources = None, xm_Sinks = Some (whole 1 2)\<rparr>, pm_Status = \<lparr>um_Conditions = None, um_Sinks = Some (whole 4 1)\<rparr>\<rparr>,
      1 \<mapsto> SinkArray [\<lparr>km_Name = ''s'', km_Sources = None, km_Target = Some 2\<rparr>, \<lparr>km_Name = ''s'', km_Sources = None, km_Target = Some 2\<rparr>],
      2 \<mapsto> TargetObj \<lparr>tg_PrometheusRemoteWrite = Some 3\<rparr>,
      3 \<mapsto> RemoteWriteObj \<lparr>pw_Authentication = None, pw_Endpoint = ''e'', pw_Batch = \<lparr>bt_Timeout = 0, bt_MaxSize = 0\<rparr>,
        pw_Retry = \<lparr>rt_MaxAttempts = 0, rt_BackoffDuration = 0\<rparr>\<rparr>,
      4 \<mapsto> SinkStatusArray [\<lparr>zm_Name = ''s'', zm_Conditions = Some (whole 5 1)\<rparr>],
      5 \<mapsto> ConditionArray [\<lparr>cd_Type = ''Accepted'', cd_Status = ''False'', cd_Reason = ''InvalidAuthentication'', cd_Message = [], cd_ObservedGeneration = 0\<rparr>]] 6"

lemma example_memory_policy:
  "case load policy_of example_memory 0 of None \<Rightarrow> False
   | Some P \<Rightarrow> (case policy_val plain_val example_memory P of None \<Rightarrow> False
      | Some (tm, p) \<Rightarrow> um_Conditions (pm_Status P) = None \<and> 0 \<notin> spec_foot example_memory (pm_Spec P) \<and>
          (case reconcileExportPolicyStatus example_set_cond (\<lambda>_ _. Inl NotFound) p of Inl _ \<Rightarrow> False | Inr (_, changed) \<Rightarrow> changed))"
  by code_simp

theorem status_reconciled_on_memory_witness:
  "\<exists>h'. reconcileExportPolicyStatus_mem plain_val copy_plain example_setter (\<lambda>_ _. Inl NotFound) 0 example_memory = Some (True, h') \<and>
     hp_store h' 5 = hp_store example_memory 5"
proof -
  have w: "wf_heap example_memory" by (auto simp: wf_heap_def example_memory_def)
  from example_memory_policy obtain P tm p where p: "load policy_of example_memory 0 = Some P" "policy_val plain_val example_memory P = Some (tm, p)"
    "um_Conditions (pm_Status P) = None" "0 \<notin> spec_foot example_memory (pm_Spec P)"
    "case reconcileExportPolicyStatus example_set_cond (\<lambda>_ _. Inl NotFound) p of Inl _ \<Rightarrow> False | Inr (_, changed) \<Rightarrow> changed"
    by (auto split: option.splits)
  from p(5) obtain p' where r: "reconcileExportPolicyStatus example_set_cond (\<lambda>_ _. Inl NotFound) p = Inr (p', True)"
    by (cases "reconcileExportPolicyStatus example_set_cond (\<lambda>_ _. Inl NotFound) p") auto
  have z: "0 \<notin> plain_foot example_memory (pm_ObjectMeta P) \<union> spec_foot example_memory (pm_Spec P)"
    "conditions_foot example_memory (um_Conditions (pm_Status P)) \<inter> (plain_foot example_memory (pm_ObjectMeta P) \<union> spec_foot example_memory (pm_Spec P)) = {}"
    using p(3,4) by (simp_all add: plain_foot_def slice_foot_def)
  from status_reconciled_on_memory [OF plain.represents_axioms plain.deep_copier_axioms example_sets_in_place w p(1,2) z, of "\<lambda>_ _. Inl NotFound"] r
  obtain h' where h': "reconcileExportPolicyStatus_mem plain_val copy_plain example_setter (\<lambda>_ _. Inl NotFound) 0 example_memory = Some (True, h')"
    "changes_only (insert 0 (conditions_foot example_memory (um_Conditions (pm_Status P)))) example_memory h'" by auto
  have "5 < hp_next example_memory" by (simp add: example_memory_def)
  then have "hp_store h' 5 = hp_store example_memory 5" using h'(2) p(3) by (simp add: changes_only_def slice_foot_def)
  with h'(1) show ?thesis by blast
qed

end
