(* ===== verification/NKeyGenerator.thy ===== *)
theory NKeyGenerator
  imports Prelude "HOL-Library.AList"
begin

text \<open>
  The generator of leaf credentials (\<^verbatim>\<open>nkey-generator/main.go\<close>): for every enabled cluster it keeps a
  Secret with an NKey and a PushSecret that mirrors it, and it rewrites the ConfigMap with the users of
  the hub. The cluster's API is a store of Secrets, PushSecrets and ConfigMaps with a counter of calls;
  a parameter says, for every call, what others changed before it and whether it fails, before or after
  taking effect. NKeys and YAML are parameters.
\<close>

section \<open>Settings and names\<close>

record config =
  cf_namespace :: string
  cf_karmadaKubeconfig :: string
  cf_secretPrefix :: string
  cf_configMapName :: string
  cf_secretStoreName :: string
  cf_secretStoreKind :: string

definition envOr :: "(string \<Rightarrow> string) \<Rightarrow> string \<Rightarrow> string \<Rightarrow> string" where
  "envOr getenv k def = (if getenv k \<noteq> [] then getenv k else def)"

datatype nk_error =
    MissingKubeconfig
  | EmptyUsers
  | NoPublicKey string
  | WouldDrop "string list"
  | NkFailed string string

definition configFromEnv :: "(string \<Rightarrow> string) \<Rightarrow> nk_error + config" where
  "configFromEnv getenv =
     (let c = \<lparr>cf_namespace = envOr getenv ''NAMESPACE'' ''o11y-system'',
               cf_karmadaKubeconfig = getenv ''KARMADA_KUBECONFIG'',
               cf_secretPrefix = envOr getenv ''SECRET_PREFIX'' ''nats-leaf-nkey'',
               cf_configMapName = envOr getenv ''AUTHORIZED_LEAFS_CONFIGMAP'' ''nats-o11y-authorized-leafs'',
               cf_secretStoreName = envOr getenv ''SECRET_STORE_NAME'' ''gcp-secret-store'',
               cf_secretStoreKind = envOr getenv ''SECRET_STORE_KIND'' ''ClusterSecretStore''\<rparr> in
      if cf_karmadaKubeconfig c = [] then Inl MissingKubeconfig else Inr c)"

text \<open>The expression \<^verbatim>\<open>^[a-z0-9]([-a-z0-9]{0,61}[a-z0-9])?$\<close>.\<close>

definition alnum :: "char \<Rightarrow> bool" where
  "alnum c \<longleftrightarrow> char_in CHR ''a'' CHR ''z'' c \<or> char_in CHR ''0'' CHR ''9'' c"

definition validClusterName :: "string \<Rightarrow> bool" where
  "validClusterName name \<longleftrightarrow>
     name \<noteq> [] \<and> length name \<le> 63 \<and> alnum (hd name) \<and> alnum (last name) \<and> list_all (\<lambda>c. c = CHR ''-'' \<or> alnum c) name"

section \<open>Users\<close>

text \<open>
  A user of the account. One that is read back may have any shape: a field that is missing or not of
  its type is \<open>None\<close>, as is an element of a list that is no string.
\<close>

record User =
  us_User :: "string option"
  us_Nkey :: "string option"
  us_Publish :: "string option list option"
  us_Subscribe :: "string option list option"

definition permissionsMap :: "string option \<Rightarrow> string option \<Rightarrow> string list \<Rightarrow> string list \<Rightarrow> User" where
  "permissionsMap user nkey publish subscribe =
     \<lparr>us_User = user, us_Nkey = nkey, us_Publish = Some (map Some publish), us_Subscribe = Some (map Some subscribe)\<rparr>"

definition staticUsers :: "User list" where
  "staticUsers =
     [permissionsMap (Some ''CN=nack.nats.client'') None [''>''] [''>''],
      permissionsMap (Some ''CN=o11y-sink-nats-client'') None [''$JS.API.>'', ''$JS.ACK.>''] [''o11y.>'', ''_INBOX.>'']]"

definition nkeyUser :: "string \<Rightarrow> string \<Rightarrow> User" where
  "nkeyUser cluster publicKey =
     permissionsMap None (Some publicKey)
       [''o11y.logs.'' @ cluster @ ''.*'', ''o11y.metrics.'' @ cluster @ ''.*'', ''o11y.traces.'' @ cluster @ ''.*'']
       [''_INBOX.>'']"

fun cluster_from_subjects :: "string option list \<Rightarrow> string \<Rightarrow> string" where
  "cluster_from_subjects [] fallback = fallback"
| "cluster_from_subjects (s # ss) fallback =
     (case s of
        None \<Rightarrow> cluster_from_subjects ss fallback
      | Some subj \<Rightarrow>
          (case CutPrefix subj ''o11y.logs.'' of
             None \<Rightarrow> cluster_from_subjects ss fallback
           | Some rest \<Rightarrow>
               (case CutSuffix rest ''.*'' of Some cluster \<Rightarrow> cluster | None \<Rightarrow> cluster_from_subjects ss fallback)))"

definition clusterFromUser :: "User \<Rightarrow> string \<Rightarrow> string" where
  "clusterFromUser u fallback =
     (case us_Publish u of None \<Rightarrow> fallback | Some allow \<Rightarrow> cluster_from_subjects allow fallback)"

section \<open>The cluster's API\<close>

record PushSecret =
  ps_Store :: "string \<times> string"
  ps_Selector :: string
  ps_RemoteKey :: string

record kube =
  kb_Secrets :: "(string \<times> (string \<times> string) list) list"
  kb_PushSecrets :: "(string \<times> PushSecret) list"
  kb_ConfigMaps :: "(string \<times> string option) list"
  kb_calls :: nat

datatype resource = Secrets | PushSecrets | ConfigMaps

datatype api_op = GetOp resource | CreateOp resource | UpdateOp resource

datatype api_err = ApiNotFound | ApiAlreadyExists | ApiFailed string

type_synonym env = "api_op \<Rightarrow> nat \<Rightarrow> kube \<Rightarrow> kube \<times> (string \<times> bool) option"

text \<open>A call: the world moves, the call may fail, with or without having taken effect, and otherwise it takes effect.\<close>

definition api_call :: "env \<Rightarrow> api_op \<Rightarrow> (kube \<Rightarrow> (api_err + 'a) \<times> kube) \<Rightarrow> kube \<Rightarrow> (api_err + 'a) \<times> kube" where
  "api_call env opn act k =
     (let k1 = (fst (env opn (kb_calls k) k))\<lparr>kb_calls := Suc (kb_calls k)\<rparr> in
      case snd (env opn (kb_calls k) k) of
        Some (e, applied) \<Rightarrow> (Inl (ApiFailed e), if applied then snd (act k1) else k1)
      | None \<Rightarrow> act k1)"

definition get_in :: "(kube \<Rightarrow> (string \<times> 'a) list) \<Rightarrow> string \<Rightarrow> kube \<Rightarrow> (api_err + 'a) \<times> kube" where
  "get_in sel name k = (case map_of (sel k) name of None \<Rightarrow> Inl ApiNotFound | Some x \<Rightarrow> Inr x, k)"

definition createSecret :: "string \<Rightarrow> (string \<times> string) list \<Rightarrow> kube \<Rightarrow> (api_err + unit) \<times> kube" where
  "createSecret name data k =
     (if map_of (kb_Secrets k) name \<noteq> None then (Inl ApiAlreadyExists, k)
      else (Inr (), k\<lparr>kb_Secrets := AList.update name data (kb_Secrets k)\<rparr>))"

definition createPushSecret :: "string \<Rightarrow> PushSecret \<Rightarrow> kube \<Rightarrow> (api_err + unit) \<times> kube" where
  "createPushSecret name ps k =
     (if map_of (kb_PushSecrets k) name \<noteq> None then (Inl ApiAlreadyExists, k)
      else (Inr (), k\<lparr>kb_PushSecrets := AList.update name ps (kb_PushSecrets k)\<rparr>))"

definition updatePushSecret :: "string \<Rightarrow> PushSecret \<Rightarrow> kube \<Rightarrow> (api_err + unit) \<times> kube" where
  "updatePushSecret name ps k =
     (if map_of (kb_PushSecrets k) name = None then (Inl ApiNotFound, k)
      else (Inr (), k\<lparr>kb_PushSecrets := AList.update name ps (kb_PushSecrets k)\<rparr>))"

definition createConfigMap :: "string \<Rightarrow> string \<Rightarrow> kube \<Rightarrow> (api_err + unit) \<times> kube" where
  "createConfigMap name vals k =
     (if map_of (kb_ConfigMaps k) name \<noteq> None then (Inl ApiAlreadyExists, k)
      else (Inr (), k\<lparr>kb_ConfigMaps := AList.update name (Some vals) (kb_ConfigMaps k)\<rparr>))"

definition updateConfigMap :: "string \<Rightarrow> string \<Rightarrow> kube \<Rightarrow> (api_err + unit) \<times> kube" where
  "updateConfigMap name vals k =
     (if map_of (kb_ConfigMaps k) name = None then (Inl ApiNotFound, k)
      else (Inr (), k\<lparr>kb_ConfigMaps := AList.update name (Some vals) (kb_ConfigMaps k)\<rparr>))"

text \<open>An error of the API as it is returned by the generator, with its context.\<close>

fun api_err_text :: "api_err \<Rightarrow> string" where
  "api_err_text ApiNotFound = ''not found''"
| "api_err_text ApiAlreadyExists = ''already exists''"
| "api_err_text (ApiFailed e) = e"

definition failing :: "string \<Rightarrow> (api_err + 'a) \<times> kube \<Rightarrow> (nk_error + 'a) \<times> kube" where
  "failing what r = (case fst r of Inl e \<Rightarrow> Inl (NkFailed what (api_err_text e)) | Inr x \<Rightarrow> Inr x, snd r)"

section \<open>Keys\<close>

record nkeyPair =
  np_Seed :: string
  np_Public :: string

text \<open>The key library: each step of making a key may fail. The argument is the state of its randomness.\<close>

record KeyLib =
  kl_CreateUser :: "nat \<Rightarrow> string + nat"
  kl_Seed :: "nat \<Rightarrow> string + string"
  kl_PublicKey :: "nat \<Rightarrow> string + string"

definition generateNKey :: "KeyLib \<Rightarrow> nat \<Rightarrow> string + nkeyPair" where
  "generateNKey lib rnd =
     res_bind (kl_CreateUser lib rnd) (\<lambda>kp.
     res_bind (kl_Seed lib kp) (\<lambda>seed.
     res_bind (kl_PublicKey lib kp) (\<lambda>pub. Inr \<lparr>np_Seed = seed, np_Public = pub\<rparr>)))"

definition secret_name :: "config \<Rightarrow> string \<Rightarrow> string" where
  "secret_name cfg cluster = cf_secretPrefix cfg @ ''-'' @ cluster"

definition push_secret :: "config \<Rightarrow> string \<Rightarrow> PushSecret" where
  "push_secret cfg secretName =
     \<lparr>ps_Store = (cf_secretStoreName cfg, cf_secretStoreKind cfg), ps_Selector = secretName, ps_RemoteKey = secretName\<rparr>"

definition ensurePushSecret :: "env \<Rightarrow> config \<Rightarrow> string \<Rightarrow> kube \<Rightarrow> (nk_error + unit) \<times> kube" where
  "ensurePushSecret env cfg secretName k =
     (case api_call env (GetOp PushSecrets) (get_in kb_PushSecrets secretName) k of
        (Inr existing, k1) \<Rightarrow> failing [] (api_call env (UpdateOp PushSecrets) (updatePushSecret secretName (push_secret cfg secretName)) k1)
      | (Inl ApiNotFound, k1) \<Rightarrow> failing [] (api_call env (CreateOp PushSecrets) (createPushSecret secretName (push_secret cfg secretName)) k1)
      | (Inl e, k1) \<Rightarrow> (Inl (NkFailed ''get pushsecret'' (api_err_text e)), k1))"

definition data_value :: "(string \<times> string) list \<Rightarrow> string \<Rightarrow> string" where
  "data_value d key = (case map_of d key of None \<Rightarrow> [] | Some v \<Rightarrow> v)"

definition public_of :: "(string \<times> string) list \<Rightarrow> string" where
  "public_of d = (if data_value d ''public'' = [] then data_value d ''nkey'' else data_value d ''public'')"

definition ensureKey :: "env \<Rightarrow> KeyLib \<Rightarrow> config \<Rightarrow> string \<Rightarrow> kube \<Rightarrow> (nk_error + string) \<times> kube" where
  "ensureKey env lib cfg cluster k =
     (let secretName = secret_name cfg cluster in
      case api_call env (GetOp Secrets) (get_in kb_Secrets secretName) k of
        (Inr d, k1) \<Rightarrow>
          if public_of d = [] then (Inl (NoPublicKey secretName), k1)
          else (case ensurePushSecret env cfg secretName k1 of
              (Inl e, k2) \<Rightarrow> (Inl e, k2)
            | (Inr _, k2) \<Rightarrow> (Inr (public_of d), k2))
      | (Inl ApiNotFound, k1) \<Rightarrow>
          (case generateNKey lib (kb_calls k1) of
             Inl e \<Rightarrow> (Inl (NkFailed ''generate nkey'' e), k1)
           | Inr kp \<Rightarrow>
               (case api_call env (CreateOp Secrets)
                    (createSecret secretName [(''seed'', np_Seed kp), (''public'', np_Public kp), (''nkey'', np_Public kp)]) k1 of
                  (Inl (ApiFailed e), k2) \<Rightarrow> (Inl (NkFailed ''create secret'' e), k2)
                | (Inl ApiNotFound, k2) \<Rightarrow> (Inl (NkFailed ''create secret'' (api_err_text ApiNotFound)), k2)
                | (_, k2) \<Rightarrow>
                    (case ensurePushSecret env cfg secretName k2 of
                       (Inl e, k3) \<Rightarrow> (Inl e, k3)
                     | (Inr _, k3) \<Rightarrow> (Inr (np_Public kp), k3))))
      | (Inl e, k1) \<Rightarrow> (Inl (NkFailed ''get secret'' (api_err_text e)), k1))"

section \<open>The list of users\<close>

record Yaml =
  ym_Marshal :: "User list \<Rightarrow> string + string"
  ym_Unmarshal :: "string \<Rightarrow> User list option"

definition previousUsers :: "env \<Rightarrow> Yaml \<Rightarrow> string \<Rightarrow> kube \<Rightarrow> User list \<times> kube" where
  "previousUsers env y name k =
     (case api_call env (GetOp ConfigMaps) (get_in kb_ConfigMaps name) k of
        (Inl e, k1) \<Rightarrow> ([], k1)
      | (Inr None, k1) \<Rightarrow> ([], k1)
      | (Inr (Some raw), k1) \<Rightarrow> (case ym_Unmarshal y raw of None \<Rightarrow> [] | Some us \<Rightarrow> us, k1))"

definition nkeys_of :: "User list \<Rightarrow> string list" where
  "nkeys_of us = concat (map (\<lambda>u. case us_Nkey u of None \<Rightarrow> [] | Some pub \<Rightarrow> [pub]) us)"

fun dropped_loop :: "env \<Rightarrow> config \<Rightarrow> string list \<Rightarrow> User list \<Rightarrow> kube \<Rightarrow> (nk_error + string list) \<times> kube" where
  "dropped_loop env cfg have_keys [] k = (Inr [], k)"
| "dropped_loop env cfg have_keys (u # us) k =
     (case us_Nkey u of
        None \<Rightarrow> dropped_loop env cfg have_keys us k
      | Some pub \<Rightarrow>
          if pub \<in> set have_keys then dropped_loop env cfg have_keys us k
          else
            (let cluster = clusterFromUser u pub in
             case api_call env (GetOp Secrets) (get_in kb_Secrets (secret_name cfg cluster)) k of
               (Inr _, k1) \<Rightarrow>
                 (case dropped_loop env cfg have_keys us k1 of
                    (Inl e, k2) \<Rightarrow> (Inl e, k2)
                  | (Inr ds, k2) \<Rightarrow> (Inr (cluster # ds), k2))
             | (Inl ApiNotFound, k1) \<Rightarrow> dropped_loop env cfg have_keys us k1
             | (Inl e, k1) \<Rightarrow> (Inl (NkFailed ''checking secret'' (api_err_text e)), k1)))"

definition droppedNkeys :: "env \<Rightarrow> config \<Rightarrow> User list \<Rightarrow> User list \<Rightarrow> kube \<Rightarrow> (nk_error + string list) \<times> kube" where
  "droppedNkeys env cfg prev nxt k = dropped_loop env cfg (nkeys_of nxt) prev k"

definition writeConfigMap :: "env \<Rightarrow> Yaml \<Rightarrow> config \<Rightarrow> User list \<Rightarrow> kube \<Rightarrow> (nk_error + unit) \<times> kube" where
  "writeConfigMap env y cfg users k =
     (case previousUsers env y (cf_configMapName cfg) k of (prev, k1) \<Rightarrow>
     (case droppedNkeys env cfg prev users k1 of
        (Inl e, k2) \<Rightarrow> (Inl e, k2)
      | (Inr dropped, k2) \<Rightarrow>
          if dropped \<noteq> [] then (Inl (WouldDrop dropped), k2)
          else (case ym_Marshal y users of
              Inl e \<Rightarrow> (Inl (NkFailed ''marshal values.yaml'' e), k2)
            | Inr vals \<Rightarrow>
                (case api_call env (GetOp ConfigMaps) (get_in kb_ConfigMaps (cf_configMapName cfg)) k2 of
                   (Inr existing, k3) \<Rightarrow> failing [] (api_call env (UpdateOp ConfigMaps) (updateConfigMap (cf_configMapName cfg) vals) k3)
                 | (Inl ApiNotFound, k3) \<Rightarrow> failing [] (api_call env (CreateOp ConfigMaps) (createConfigMap (cf_configMapName cfg) vals) k3)
                 | (Inl e, k3) \<Rightarrow> (Inl (NkFailed ''get configmap'' (api_err_text e)), k3)))))"

fun ensure_keys :: "env \<Rightarrow> KeyLib \<Rightarrow> config \<Rightarrow> string list \<Rightarrow> kube \<Rightarrow> (nk_error + User list) \<times> kube" where
  "ensure_keys env lib cfg [] k = (Inr [], k)"
| "ensure_keys env lib cfg (name # names) k =
     (if \<not> validClusterName name then ensure_keys env lib cfg names k
      else (case ensureKey env lib cfg name k of
          (Inl e, k1) \<Rightarrow> (Inl e, k1)
        | (Inr pub, k1) \<Rightarrow>
            (case ensure_keys env lib cfg names k1 of
               (Inl e, k2) \<Rightarrow> (Inl e, k2)
             | (Inr us, k2) \<Rightarrow> (Inr (nkeyUser name pub # us), k2))))"

text \<open>\<open>clusters\<close> is what listing the enabled clusters returned.\<close>

definition sync :: "env \<Rightarrow> KeyLib \<Rightarrow> Yaml \<Rightarrow> config \<Rightarrow> string + string list \<Rightarrow> kube \<Rightarrow> (nk_error + unit) \<times> kube" where
  "sync env lib y cfg clusters k =
     (case clusters of
        Inl e \<Rightarrow> (Inl (NkFailed ''list karmada clusters'' e), k)
      | Inr names \<Rightarrow>
          (case ensure_keys env lib cfg names k of
             (Inl e, k1) \<Rightarrow> (Inl e, k1)
           | (Inr us, k1) \<Rightarrow>
               let users = staticUsers @ us in
               if users = [] then (Inl EmptyUsers, k1) else writeConfigMap env y cfg users k1))"

text \<open>
  The clusters that carry the label, by name: listing with a label selector is the Karmada API's.
\<close>

definition clusterLabel :: string where "clusterLabel = ''telemetry.miloapis.com/nats-leaf''"
definition clusterLabelValue :: string where "clusterLabelValue = ''enabled''"

definition enabledClusters :: "(string \<Rightarrow> string + (string \<times> 'o) list) \<Rightarrow> string + string list" where
  "enabledClusters List = res_map (\<lambda>items. map fst items) (List (clusterLabel @ ''='' @ clusterLabelValue))"

text \<open>The clients of a run, each of which may fail to build, and the run itself.\<close>

record ('kc, 'd, 'l) ClientLib =
  cb_BuildConfigFromFlags :: "string \<Rightarrow> string + 'kc"
  cb_dynamic :: "'kc \<Rightarrow> string + 'd"
  cb_InClusterConfig :: "string + 'kc"
  cb_kubernetes :: "'kc \<Rightarrow> string + 'l"
  cb_List :: "'d \<Rightarrow> string \<Rightarrow> string + (string \<times> 'd) list"

definition or_fail :: "string \<Rightarrow> string + 'a \<Rightarrow> nk_error + 'a" where
  "or_fail what r = (case r of Inl e \<Rightarrow> Inl (NkFailed what e) | Inr x \<Rightarrow> Inr x)"

definition generator_clients :: "('kc, 'd, 'l) ClientLib \<Rightarrow> config \<Rightarrow> nk_error + 'd" where
  "generator_clients cb cfg =
     res_bind (or_fail (''build karmada config from '' @ cf_karmadaKubeconfig cfg) (cb_BuildConfigFromFlags cb (cf_karmadaKubeconfig cfg))) (\<lambda>kc.
     res_bind (or_fail ''build karmada dynamic client'' (cb_dynamic cb kc)) (\<lambda>karmadaDyn.
     res_bind (or_fail ''build local in-cluster config'' (cb_InClusterConfig cb)) (\<lambda>lc.
     res_bind (or_fail ''build local clientset'' (cb_kubernetes cb lc)) (\<lambda>_.
     res_bind (or_fail ''build local dynamic client'' (cb_dynamic cb lc)) (\<lambda>_. Inr karmadaDyn)))))"

definition generator_run ::
  "(string \<Rightarrow> string) \<Rightarrow> ('kc, 'd, 'l) ClientLib \<Rightarrow> env \<Rightarrow> KeyLib \<Rightarrow> Yaml \<Rightarrow> kube \<Rightarrow> (nk_error + unit) \<times> kube" where
  "generator_run getenv cb env lib y k =
     (case configFromEnv getenv of
        Inl e \<Rightarrow> (Inl e, k)
      | Inr cfg \<Rightarrow>
          (case generator_clients cb cfg of
             Inl e \<Rightarrow> (Inl e, k)
           | Inr karmada \<Rightarrow> sync env lib y cfg (enabledClusters (cb_List cb karmada)) k))"

section \<open>Lemmas\<close>

text \<open>A run changes nothing unless its settings are complete, its clients build and the clusters can be listed.\<close>

lemma generator_run_closed:
  assumes "snd (generator_run getenv cb env lib y k) \<noteq> k"
  shows "\<exists>cfg d names. configFromEnv getenv = Inr cfg \<and> cf_karmadaKubeconfig cfg \<noteq> [] \<and> generator_clients cb cfg = Inr d \<and>
    enabledClusters (cb_List cb d) = Inr names \<and> generator_run getenv cb env lib y k = sync env lib y cfg (Inr names) k"
  using assms
  by (auto simp: generator_run_def sync_def configFromEnv_def Let_def split: sum.splits if_splits)

text \<open>What a step before the last write leaves alone: the ConfigMaps and every Secret there is.\<close>

definition keeps :: "kube \<Rightarrow> kube \<Rightarrow> bool" where
  "keeps k k' \<longleftrightarrow> kb_ConfigMaps k' = kb_ConfigMaps k \<and> map_of (kb_Secrets k) \<subseteq>\<^sub>m map_of (kb_Secrets k')"

lemma keeps_refl [simp, intro]: "keeps k k"
  by (simp add: keeps_def)

lemma keeps_trans: "keeps k k1 \<Longrightarrow> keeps k1 k2 \<Longrightarrow> keeps k k2"
  by (auto simp: keeps_def intro: map_le_trans)

lemma keeps_calls [simp]:
  "keeps k (k1\<lparr>kb_calls := n\<rparr>) = keeps k k1" "keeps (k\<lparr>kb_calls := n\<rparr>) k1 = keeps k k1"
  by (simp_all add: keeps_def)

lemma keepsD: "keeps k k' \<Longrightarrow> map_of (kb_Secrets k) n = Some d \<Longrightarrow> map_of (kb_Secrets k') n = Some d"
  by (metis domI keeps_def map_le_def)

lemma keeps_None: "keeps k k' \<Longrightarrow> map_of (kb_Secrets k') n = None \<Longrightarrow> map_of (kb_Secrets k) n = None"
  using keepsD [of k k' n] by (cases "map_of (kb_Secrets k) n") auto

text \<open>
  Others leave the ConfigMaps and the existing Secrets alone during a run, but may create Secrets, as
  another run of the generator does, and do anything to PushSecrets. Calls may fail.
\<close>

definition undisturbed :: "env \<Rightarrow> bool" where
  "undisturbed env \<longleftrightarrow> (\<forall>opn n k. keeps k (fst (env opn n k)))"

text \<open>Somebody else can create a cluster's missing Secret just before the generator does.\<close>

definition raced :: "env \<Rightarrow> config \<Rightarrow> string \<Rightarrow> bool" where
  "raced env cfg c \<longleftrightarrow> (\<exists>n k. map_of (kb_Secrets k) (secret_name cfg c) = None \<and>
     map_of (kb_Secrets (fst (env (CreateOp Secrets) n k))) (secret_name cfg c) \<noteq> None)"

definition moved :: "env \<Rightarrow> api_op \<Rightarrow> kube \<Rightarrow> kube" where
  "moved env opn k = (fst (env opn (kb_calls k) k))\<lparr>kb_calls := Suc (kb_calls k)\<rparr>"

lemma keeps_moved: "undisturbed env \<Longrightarrow> keeps k (moved env opn k)"
  by (simp add: undisturbed_def moved_def)

lemma api_call_moved:
  "api_call env opn act k =
     (case snd (env opn (kb_calls k) k) of
        Some (e, applied) \<Rightarrow> (Inl (ApiFailed e), if applied then snd (act (moved env opn k)) else moved env opn k)
      | None \<Rightarrow> act (moved env opn k))"
  unfolding api_call_def moved_def Let_def by (rule refl)

lemma api_call_keeps:
  assumes "undisturbed env" "\<And>k. keeps k (snd (act k))"
  shows "keeps k (snd (api_call env opn act k))"
  using keeps_moved [OF assms(1), of k opn] assms(2) [of "moved env opn k"]
  by (auto simp: api_call_moved intro: keeps_trans split: option.split)

lemma api_get:
  assumes "api_call env opn (get_in sel name) k = (r, k')"
  shows "k' = moved env opn k" and "r = Inr x \<Longrightarrow> map_of (sel k') name = Some x"
    and "r = Inl ApiNotFound \<Longrightarrow> map_of (sel k') name = None"
  using assms by (auto simp: api_call_moved get_in_def split: option.splits prod.splits)

lemma failing_snd [simp]: "snd (failing what r) = snd r"
  by (simp add: failing_def)

lemma act_keeps:
  "keeps k (snd (get_in sel name k))" "keeps k (snd (createPushSecret name ps k))" "keeps k (snd (updatePushSecret name ps k))"
  "keeps k (snd (createSecret name d k))"
  by (auto simp: get_in_def createPushSecret_def updatePushSecret_def createSecret_def keeps_def map_le_def update_conv')

lemma get_keeps: "undisturbed env \<Longrightarrow> api_call env opn (get_in sel name) k = (r, k') \<Longrightarrow> keeps k k'"
  using api_get(1) keeps_moved by metis

lemma create_keeps: "undisturbed env \<Longrightarrow> api_call env opn (createSecret name d) k = (r, k') \<Longrightarrow> keeps k k'"
  using api_call_keeps [of env "createSecret name d" k opn] act_keeps(4) by simp

lemma ensurePushSecret_keeps:
  assumes "undisturbed env"
  shows "keeps k (snd (ensurePushSecret env cfg name k))"
proof -
  obtain r k1 where g: "api_call env (GetOp PushSecrets) (get_in kb_PushSecrets name) k = (r, k1)" by fastforce
  then have k1: "keeps k k1" by (rule get_keeps [OF assms])
  have "keeps k1 (snd (api_call env (UpdateOp PushSecrets) (updatePushSecret name ps) k1))"
    "keeps k1 (snd (api_call env (CreateOp PushSecrets) (createPushSecret name ps) k1))" for ps
    by (rule api_call_keeps [OF assms act_keeps(3)] api_call_keeps [OF assms act_keeps(2)])+
  then show ?thesis using keeps_trans [OF k1] k1 by (auto simp: ensurePushSecret_def g split: sum.split api_err.split)
qed

lemma createSecret_cases:
  assumes "undisturbed env" "map_of (kb_Secrets k) (secret_name cfg c) = None"
    and "api_call env (CreateOp Secrets) (createSecret (secret_name cfg c) d) k = (r, k')"
  shows "(\<exists>e. r = Inl (ApiFailed e)) \<or> r = Inr () \<and> map_of (kb_Secrets k') (secret_name cfg c) = Some d \<or>
    r = Inl ApiAlreadyExists \<and> map_of (kb_Secrets k') (secret_name cfg c) \<noteq> None \<and> raced env cfg c"
proof -
  have "map_of (kb_Secrets (moved env (CreateOp Secrets) k)) (secret_name cfg c) \<noteq> None \<Longrightarrow> raced env cfg c"
    using assms(2) by (auto simp: raced_def moved_def)
  then show ?thesis
    using assms(3) by (auto simp: api_call_moved createSecret_def update_conv' split: option.splits prod.splits if_splits)
qed

lemma public_of_new: "public_of [(''seed'', s), (''public'', p), (''nkey'', p)] = p"
  by (simp add: public_of_def data_value_def)

text \<open>The key a cluster gets is the one stored in its Secret, unless the creation of that Secret was raced.\<close>

definition has_key :: "env \<Rightarrow> config \<Rightarrow> kube \<Rightarrow> string \<Rightarrow> string \<Rightarrow> bool" where
  "has_key env cfg k c pub \<longleftrightarrow>
     (\<exists>d. map_of (kb_Secrets k) (secret_name cfg c) = Some d \<and> (pub = public_of d \<or> raced env cfg c))"

lemma has_key_keeps: "keeps k k' \<Longrightarrow> has_key env cfg k c pub \<Longrightarrow> has_key env cfg k' c pub"
  by (auto simp: has_key_def dest: keepsD)

lemma ensureKey_undisturbed:
  assumes "undisturbed env" "ensureKey env lib cfg c k = (r, k')"
  shows "keeps k k' \<and> (\<forall>pub. r = Inr pub \<longrightarrow> has_key env cfg k' c pub)"
proof -
  let ?n = "secret_name cfg c"
  obtain r1 k1 where g: "api_call env (GetOp Secrets) (get_in kb_Secrets ?n) k = (r1, k1)" by fastforce
  have k1: "keeps k k1" by (rule get_keeps [OF assms(1) g])
  note get = api_get(2,3) [OF g]
  have push: "keeps k0 k2" if "ensurePushSecret env cfg ?n k0 = (rp, k2)" for k0 k2 rp
    using ensurePushSecret_keeps [OF assms(1), of k0 cfg ?n] that by simp
  show ?thesis
  proof (cases r1)
    case (Inr d)
    obtain rp k2 where p: "ensurePushSecret env cfg ?n k1 = (rp, k2)" by fastforce
    have "has_key env cfg k2 c (public_of d)" using get(1) [OF Inr] keepsD [OF push [OF p]] by (auto simp: has_key_def)
    then show ?thesis using assms(2) g Inr k1 push [OF p] p
      by (auto simp: ensureKey_def Let_def split: if_splits sum.splits intro: keeps_trans)
  next
    case (Inl e)
    show ?thesis
    proof (cases "e = ApiNotFound \<and> (\<exists>kp. generateNKey lib (kb_calls k1) = Inr kp)")
      case True
      then obtain kp where kp: "generateNKey lib (kb_calls k1) = Inr kp" by blast
      let ?d = "[(''seed'', np_Seed kp), (''public'', np_Public kp), (''nkey'', np_Public kp)]"
      obtain rc k2 where c: "api_call env (CreateOp Secrets) (createSecret ?n ?d) k1 = (rc, k2)" by fastforce
      have k2: "keeps k k2"
        by (rule keeps_trans [OF k1 create_keeps [OF assms(1) c]])
      have "map_of (kb_Secrets k1) ?n = None" using get(2) Inl True by simp
      note cs = createSecret_cases [OF assms(1) this c]
      obtain rp k3 where p: "ensurePushSecret env cfg ?n k2 = (rp, k3)" by fastforce
      have "has_key env cfg k2 c (np_Public kp)" if "\<not> (\<exists>e. rc = Inl (ApiFailed e))"
        using that cs public_of_new by (auto simp: has_key_def)
      then show ?thesis using assms(2) g Inl True kp c k1 k2 cs push [OF p] p has_key_keeps [OF push [OF p]]
        by (auto simp: ensureKey_def Let_def split: sum.splits intro: keeps_trans)
    next
      case False
      then show ?thesis using assms(2) g Inl k1
        by (auto simp: ensureKey_def Let_def split: sum.splits api_err.splits)
    qed
  qed
qed

lemma ensure_keys_undisturbed:
  assumes "undisturbed env" "ensure_keys env lib cfg names k = (r, k')"
  shows "keeps k k' \<and> (\<forall>us. r = Inr us \<longrightarrow>
    list_all2 (\<lambda>c u. \<exists>pub. u = nkeyUser c pub \<and> has_key env cfg k' c pub) (filter validClusterName names) us)"
  using assms(2)
proof (induction names arbitrary: k r k')
  case (Cons name names)
  show ?case
  proof (cases "validClusterName name")
    case True
    obtain r1 k1 where e: "ensureKey env lib cfg name k = (r1, k1)" by fastforce
    note ek = ensureKey_undisturbed [OF assms(1) e]
    obtain r2 k2 where es: "ensure_keys env lib cfg names k1 = (r2, k2)" by fastforce
    note IH = Cons.IH [OF es]
    show ?thesis
    proof (cases r1)
      case (Inl x)
      then show ?thesis using Cons.prems True e ek by auto
    next
      case (Inr pub)
      then have d: "has_key env cfg k2 name pub" using ek IH has_key_keeps by blast
      have "(r, k') = (case r2 of Inl e \<Rightarrow> (Inl e, k2) | Inr us \<Rightarrow> (Inr (nkeyUser name pub # us), k2))"
        using Cons.prems True e es Inr by (simp split: sum.splits)
      then show ?thesis using IH d ek keeps_trans True by (auto split: sum.splits)
    qed
  next
    case False
    then show ?thesis using Cons by simp
  qed
qed simp

lemma dropped_loop_undisturbed:
  assumes "undisturbed env" "dropped_loop env cfg ks us k = (r, k')"
  shows "keeps k k' \<and> (r = Inr [] \<longrightarrow> (\<forall>u \<in> set us. \<forall>pub. us_Nkey u = Some pub \<longrightarrow>
       pub \<in> set ks \<or> map_of (kb_Secrets k) (secret_name cfg (clusterFromUser u pub)) = None))"
  using assms(2)
proof (induction us arbitrary: k r k')
  case (Cons u us)
  show ?case
  proof (cases "\<exists>pub. us_Nkey u = Some pub \<and> pub \<notin> set ks")
    case False
    then have "dropped_loop env cfg ks (u # us) k = dropped_loop env cfg ks us k" by (auto split: option.splits)
    then show ?thesis using Cons False by auto
  next
    case True
    then obtain pub where pub: "us_Nkey u = Some pub" "pub \<notin> set ks" by blast
    let ?n = "secret_name cfg (clusterFromUser u pub)"
    obtain r1 k1 where g: "api_call env (GetOp Secrets) (get_in kb_Secrets ?n) k = (r1, k1)" by fastforce
    have k1: "keeps k k1" by (rule get_keeps [OF assms(1) g])
    have gone: "r1 = Inl ApiNotFound \<Longrightarrow> map_of (kb_Secrets k) ?n = None" using api_get(3) [OF g] keeps_None [OF k1] by simp
    obtain r2 k2 where d: "dropped_loop env cfg ks us k1 = (r2, k2)" by fastforce
    have "keeps k k2" using Cons.IH [OF d] keeps_trans [OF k1] by blast
    moreover have "\<forall>u \<in> set us. \<forall>pub. us_Nkey u = Some pub \<longrightarrow>
        pub \<in> set ks \<or> map_of (kb_Secrets k) (secret_name cfg (clusterFromUser u pub)) = None" if "r2 = Inr []"
      using Cons.IH [OF d] that by (fastforce dest: keepsD [OF k1])
    ultimately have "keeps k k2" "r2 = Inr [] \<Longrightarrow> \<forall>u \<in> set us. \<forall>pub. us_Nkey u = Some pub \<longrightarrow>
        pub \<in> set ks \<or> map_of (kb_Secrets k) (secret_name cfg (clusterFromUser u pub)) = None" by simp_all
    then show ?thesis
      using Cons.prems pub g d k1 gone by (auto split: sum.splits api_err.splits)
  qed
qed simp

text \<open>The users a ConfigMap holds, and those of them a run reads: none when the ConfigMap cannot be read.\<close>

definition stored_users :: "Yaml \<Rightarrow> string \<Rightarrow> kube \<Rightarrow> User list" where
  "stored_users y name k =
     (case map_of (kb_ConfigMaps k) name of Some (Some raw) \<Rightarrow> (case ym_Unmarshal y raw of None \<Rightarrow> [] | Some us \<Rightarrow> us) | _ \<Rightarrow> [])"

definition read_users :: "env \<Rightarrow> Yaml \<Rightarrow> string \<Rightarrow> kube \<Rightarrow> User list" where
  "read_users env y name k = (if snd (env (GetOp ConfigMaps) (kb_calls k) k) = None then stored_users y name k else [])"

lemma previousUsers_undisturbed:
  assumes "undisturbed env"
  shows "previousUsers env y name k = (read_users env y name k, moved env (GetOp ConfigMaps) k)"
proof -
  have "kb_ConfigMaps (moved env (GetOp ConfigMaps) k) = kb_ConfigMaps k"
    using keeps_moved [OF assms] by (simp add: keeps_def)
  then show ?thesis
    by (auto simp: previousUsers_def api_call_moved get_in_def read_users_def stored_users_def split: option.splits)
qed

text \<open>
  The ConfigMap now lists \<open>users\<close>, and every key that a run in the world \<open>k\<close> read there before and is not
  listed any more is that of a cluster without a Secret.
\<close>

definition published_users :: "env \<Rightarrow> Yaml \<Rightarrow> config \<Rightarrow> User list \<Rightarrow> kube \<Rightarrow> kube \<Rightarrow> bool" where
  "published_users env y cfg users k k' \<longleftrightarrow>
     (\<exists>vals. ym_Marshal y users = Inr vals \<and>
        map_of (kb_ConfigMaps k') = (map_of (kb_ConfigMaps k))(cf_configMapName cfg \<mapsto> Some vals)) \<and>
     (\<forall>u \<in> set (read_users env y (cf_configMapName cfg) k). \<forall>pub. us_Nkey u = Some pub \<longrightarrow>
        pub \<in> set (nkeys_of users) \<or> map_of (kb_Secrets k) (secret_name cfg (clusterFromUser u pub)) = None)"

lemma write_step:
  assumes "undisturbed env" "act = createConfigMap name vals \<or> act = updateConfigMap name vals"
    and "failing [] (api_call env opn act k) = (r, k')"
  shows "map_of (kb_Secrets k) \<subseteq>\<^sub>m map_of (kb_Secrets k') \<and>
    (kb_ConfigMaps k' = kb_ConfigMaps k \<and> r \<noteq> Inr () \<or> map_of (kb_ConfigMaps k') = (map_of (kb_ConfigMaps k))(name \<mapsto> Some vals))"
proof -
  have m: "map_of (kb_Secrets k) \<subseteq>\<^sub>m map_of (kb_Secrets (moved env opn k))" "kb_ConfigMaps (moved env opn k) = kb_ConfigMaps k"
    using keeps_moved [OF assms(1)] by (simp_all add: keeps_def)
  show ?thesis
    using assms(2,3) m by (auto simp: api_call_moved failing_def createConfigMap_def updateConfigMap_def update_conv'
        split: option.splits prod.splits if_splits)
qed

lemma writeConfigMap_undisturbed:
  assumes "undisturbed env" "writeConfigMap env y cfg users k = (r, k')"
  shows "map_of (kb_Secrets k) \<subseteq>\<^sub>m map_of (kb_Secrets k') \<and>
    (kb_ConfigMaps k' = kb_ConfigMaps k \<and> r \<noteq> Inr () \<or> published_users env y cfg users k k')"
proof -
  let ?cm = "cf_configMapName cfg" and ?k1 = "moved env (GetOp ConfigMaps) k"
  note pr = previousUsers_undisturbed [OF assms(1), of y ?cm k]
  obtain rd k2 where dr: "dropped_loop env cfg (nkeys_of users) (read_users env y ?cm k) ?k1 = (rd, k2)" by fastforce
  note d = dropped_loop_undisturbed [OF assms(1) dr]
  have k1: "keeps k ?k1" by (rule keeps_moved [OF assms(1)])
  then have k2: "keeps k k2" using d keeps_trans by blast
  obtain rg k3 where g: "api_call env (GetOp ConfigMaps) (get_in kb_ConfigMaps ?cm) k2 = (rg, k3)" by fastforce
  have k3: "keeps k k3" by (rule keeps_trans [OF k2 get_keeps [OF assms(1) g]])
  show ?thesis
  proof (cases "rd = Inr [] \<and> (\<exists>vals. ym_Marshal y users = Inr vals)")
    case True
    then obtain vals where v: "rd = Inr []" "ym_Marshal y users = Inr vals" by blast
    have dropped: "\<forall>u \<in> set (read_users env y ?cm k). \<forall>pub. us_Nkey u = Some pub \<longrightarrow>
        pub \<in> set (nkeys_of users) \<or> map_of (kb_Secrets k) (secret_name cfg (clusterFromUser u pub)) = None"
      using d v(1) by (fastforce dest: keepsD [OF k1])
    have "writeConfigMap env y cfg users k =
       (case rg of
          Inr existing \<Rightarrow> failing [] (api_call env (UpdateOp ConfigMaps) (updateConfigMap ?cm vals) k3)
        | Inl ApiNotFound \<Rightarrow> failing [] (api_call env (CreateOp ConfigMaps) (createConfigMap ?cm vals) k3)
        | Inl e \<Rightarrow> (Inl (NkFailed ''get configmap'' (api_err_text e)), k3))"
      using pr dr v g by (simp add: writeConfigMap_def droppedNkeys_def split: sum.split api_err.split)
    then have "(\<exists>act opn. (act = createConfigMap ?cm vals \<or> act = updateConfigMap ?cm vals) \<and> failing [] (api_call env opn act k3) = (r, k')) \<or>
        r \<noteq> Inr () \<and> k' = k3"
      using assms(2) by (auto split: sum.splits api_err.splits)
    then have "map_of (kb_Secrets k3) \<subseteq>\<^sub>m map_of (kb_Secrets k') \<and>
      (kb_ConfigMaps k' = kb_ConfigMaps k3 \<and> r \<noteq> Inr () \<or> map_of (kb_ConfigMaps k') = (map_of (kb_ConfigMaps k3))(?cm \<mapsto> Some vals))"
      using write_step [OF assms(1)] by (metis map_le_refl)
    then show ?thesis using k3 v(2) dropped by (auto simp: published_users_def keeps_def intro: map_le_trans)
  next
    case False
    then have "r \<noteq> Inr () \<and> k' = k2" using assms(2) pr dr
      by (auto simp: writeConfigMap_def droppedNkeys_def split: sum.splits if_splits)
    then show ?thesis using k2 by (simp add: keeps_def)
  qed
qed

lemma nkeys_of_append [simp]: "nkeys_of (a @ b) = nkeys_of a @ nkeys_of b"
  by (simp add: nkeys_of_def)

lemma nkeys_of_static [simp]: "nkeys_of staticUsers = []"
  by (simp add: nkeys_of_def staticUsers_def permissionsMap_def)


section \<open>What a leaf may publish\<close>

text \<open>
  The tokens of a subject. \<open>nats_match p s\<close> stands for the server's matching of the subject \<open>s\<close> by the
  pattern \<open>p\<close>: without the token \<open>>\<close>, each token of the pattern is the subject's or a \<open>*\<close>.
\<close>

abbreviation tokens :: "string \<Rightarrow> string list" where
  "tokens s \<equiv> SplitChar CHR ''.'' s"

definition may_publish :: "(string \<Rightarrow> string \<Rightarrow> bool) \<Rightarrow> User \<Rightarrow> string \<Rightarrow> bool" where
  "may_publish nats_match u subj \<longleftrightarrow>
     (case us_Publish u of
        None \<Rightarrow> False
      | Some allow \<Rightarrow> list_ex (\<lambda>p. case p of None \<Rightarrow> False | Some pat \<Rightarrow> nats_match pat subj) allow)"

lemma validClusterName_no_dot: "validClusterName c \<Longrightarrow> CHR ''.'' \<notin> set c \<and> c \<noteq> ''*'' \<and> c \<noteq> ''>''"
proof -
  assume "validClusterName c"
  then have a: "list_all (\<lambda>x. x = CHR ''-'' \<or> alnum x) c" by (simp add: validClusterName_def)
  have n: "\<not> alnum CHR ''.''" "\<not> alnum CHR ''*''" "\<not> alnum CHR ''>''" by code_simp+
  have "CHR ''.'' \<notin> set c" by (rule list_all_notin [OF a]) (use n(1) in simp)
  moreover have "c \<noteq> ''*''" "c \<noteq> ''>''" using a n(2,3) by auto
  ultimately show ?thesis by simp
qed

lemma tokens_scope:
  assumes "CHR ''.'' \<notin> set c" "CHR ''.'' \<notin> set sig"
  shows "tokens (''o11y.'' @ sig @ ''.'' @ c @ ''.*'') = [''o11y'', sig, c, ''*'']"
proof -
  have eq: "''o11y.'' @ sig @ ''.'' @ c @ ''.*'' = ''o11y'' @ CHR ''.'' # (sig @ CHR ''.'' # (c @ CHR ''.'' # ''*''))" by simp
  have o: "CHR ''.'' \<notin> set ''o11y''" by code_simp
  have t: "tokens ''*'' = [''*'']" by code_simp
  show ?thesis unfolding eq SplitChar_append [OF o] SplitChar_append [OF assms(2)] SplitChar_append [OF assms(1)] t by (rule refl)
qed

lemma scope_match:
  assumes "validClusterName c" "CHR ''.'' \<notin> set sig" "sig \<noteq> ''*''" "sig \<noteq> ''>''"
    and "\<And>p s. ''>'' \<notin> set (tokens p) \<Longrightarrow> nats_match p s \<longleftrightarrow> list_all2 (\<lambda>a b. a = ''*'' \<or> a = b) (tokens p) (tokens s)"
  shows "nats_match (''o11y.'' @ sig @ ''.'' @ c @ ''.*'') subj \<longleftrightarrow> (\<exists>t. tokens subj = [''o11y'', sig, c, t])"
proof -
  have c: "CHR ''.'' \<notin> set c" "c \<noteq> ''*''" "c \<noteq> ''>''" using validClusterName_no_dot [OF assms(1)] by auto
  note ts = tokens_scope [OF c(1) assms(2)]
  have gt: "''>'' \<notin> set (tokens (''o11y.'' @ sig @ ''.'' @ c @ ''.*''))"
    using assms(4) c(3) unfolding ts by auto
  show ?thesis
    using c(2) assms(3) unfolding assms(5) [OF gt] ts by (auto simp: list_all2_Cons1)
qed

text \<open>
  C30. A leaf publishes only its own telemetry: the user written for a valid cluster name may publish
  exactly to subjects of four tokens, \<open>o11y\<close>, one of the three signals, the cluster and one more. So no
  subject is open to two clusters, and the cluster is read back from the user exactly. The server's
  matching of subjects is assumed as NATS documents it.
\<close>

theorem leaf_publish_scoped:
  assumes "validClusterName c" "validClusterName c'"
    and "\<And>p s. ''>'' \<notin> set (tokens p) \<Longrightarrow> nats_match p s \<longleftrightarrow> list_all2 (\<lambda>a b. a = ''*'' \<or> a = b) (tokens p) (tokens s)"
  shows "(may_publish nats_match (nkeyUser c pub) subj \<longleftrightarrow>
      (\<exists>sig \<in> {''logs'', ''metrics'', ''traces''}. \<exists>t. tokens subj = [''o11y'', sig, c, t])) \<and>
    (may_publish nats_match (nkeyUser c pub) subj \<and> may_publish nats_match (nkeyUser c' pub') subj \<longrightarrow> c = c') \<and>
    clusterFromUser (nkeyUser c pub) fallback = c"
proof -
  have scope: "may_publish nats_match (nkeyUser b key) subj \<longleftrightarrow>
      (\<exists>sig \<in> {''logs'', ''metrics'', ''traces''}. \<exists>t. tokens subj = [''o11y'', sig, b, t])" if "validClusterName b" for b key
    using scope_match [OF that _ _ _ assms(3), of "''logs''" subj] scope_match [OF that _ _ _ assms(3), of "''metrics''" subj]
      scope_match [OF that _ _ _ assms(3), of "''traces''" subj]
    by (simp add: may_publish_def nkeyUser_def permissionsMap_def)
  have "CutPrefix (''o11y.logs.'' @ c @ ''.*'') ''o11y.logs.'' = Some (c @ ''.*'')" by (rule CutPrefix_append)
  then have "clusterFromUser (nkeyUser c pub) fallback = c"
    by (simp add: clusterFromUser_def nkeyUser_def permissionsMap_def)
  moreover have "may_publish nats_match (nkeyUser c pub) subj \<and> may_publish nats_match (nkeyUser c' pub') subj \<longrightarrow> c = c'"
    unfolding scope [OF assms(1)] scope [OF assms(2)] by auto
  ultimately show ?thesis using scope [OF assms(1)] by blast
qed

definition example_match :: "string \<Rightarrow> string \<Rightarrow> bool" where
  "example_match p s \<longleftrightarrow> list_all2 (\<lambda>a b. a = ''*'' \<or> a = b) (tokens p) (tokens s)"

theorem leaf_publish_scoped_witness:
  "may_publish example_match (nkeyUser ''fra'' ''K'') ''o11y.logs.fra.x'' \<and>
   \<not> may_publish example_match (nkeyUser ''ams'' ''L'') ''o11y.logs.fra.x'' \<and>
   clusterFromUser (nkeyUser ''fra'' ''K'') [] = ''fra''"
proof -
  have v: "validClusterName ''fra''" "validClusterName ''ams''" by code_simp+
  have m: "may_publish example_match (nkeyUser ''fra'' ''K'') ''o11y.logs.fra.x''" by code_simp
  have "(may_publish example_match (nkeyUser ''fra'' ''K'') ''o11y.logs.fra.x'' \<and>
      may_publish example_match (nkeyUser ''ams'' ''L'') ''o11y.logs.fra.x'' \<longrightarrow> ''fra'' = ''ams'') \<and>
    clusterFromUser (nkeyUser ''fra'' ''K'') [] = ''fra''"
    by (rule leaf_publish_scoped [OF v, THEN conjunct2]) (simp add: example_match_def)
  with m show ?thesis by simp
qed

definition example_env :: env where
  "example_env opn n k = (k, if opn = CreateOp ConfigMaps then Some (''down'', True) else None)"

definition example_keylib :: KeyLib where
  "example_keylib = \<lparr>kl_CreateUser = Inr, kl_Seed = (\<lambda>_. Inr ''S''), kl_PublicKey = (\<lambda>_. Inr ''P'')\<rparr>"

definition example_yaml :: Yaml where
  "example_yaml = \<lparr>ym_Marshal = (\<lambda>us. Inr ''doc''), ym_Unmarshal = (\<lambda>_. Some [nkeyUser ''old'' ''Q''])\<rparr>"

definition example_config :: config where
  "example_config = \<lparr>cf_namespace = ''n'', cf_karmadaKubeconfig = ''k'', cf_secretPrefix = ''l'', cf_configMapName = ''m'',
     cf_secretStoreName = ''s'', cf_secretStoreKind = ''t''\<rparr>"

definition example_kube :: kube where
  "example_kube = \<lparr>kb_Secrets = [(''l-ams'', [(''public'', ''A'')])], kb_PushSecrets = [], kb_ConfigMaps = [(''m'', Some ''doc'')], kb_calls = 0\<rparr>"


end
