(* ===== verification/Migrate.thy ===== *)
theory Migrate
  imports Storage
begin

text \<open>
  The migration job (\<^verbatim>\<open>clickhouse-migrate\<close>): its settings, the rendering of the migration files and the
  run, which creates the database and applies the migrations. The file system, the TLS files, the
  ClickHouse connection and the migration library are parameters; what is done to the database is
  recorded in order.
\<close>

section \<open>Settings\<close>

record migrate_config =
  mc_host :: string
  mc_port :: string
  mc_username :: string
  mc_database :: string
  mc_cluster :: string
  mc_migrationsDir :: string
  mc_tlsCertFile :: string
  mc_tlsKeyFile :: string
  mc_tlsCAFile :: string
  mc_migrationsTable :: string
  mc_queryapiUser :: string

datatype mg_error =
    MissingEnv "string list"
  | InvalidQueryapiUser string
  | InvalidCluster string
  | NoSqlFiles string
  | UnresolvedPlaceholder string string
  | NoCertificates string
  | MgError string
  | MgWrapped string mg_error
  | Joined mg_error mg_error

definition ident_start :: "char \<Rightarrow> bool" where
  "ident_start c \<longleftrightarrow> char_in CHR ''A'' CHR ''Z'' c \<or> char_in CHR ''a'' CHR ''z'' c \<or> char_in CHR ''0'' CHR ''9'' c \<or> c = CHR ''_''"

text \<open>The expression \<^verbatim>\<open>^[A-Za-z0-9_][A-Za-z0-9_-]*$\<close>.\<close>

definition safeIdentifier :: "string \<Rightarrow> bool" where
  "safeIdentifier s \<longleftrightarrow> (case s of [] \<Rightarrow> False | c # cs \<Rightarrow> ident_start c \<and> list_all (\<lambda>d. ident_start d \<or> d = CHR ''-'') cs)"

definition env_or :: "(string \<Rightarrow> string) \<Rightarrow> string \<Rightarrow> string \<Rightarrow> string" where
  "env_or getenv key fallback = (if getenv key \<noteq> [] then getenv key else fallback)"

text \<open>
  The required variables that are missing are collected from a map, so their order is not determined:
  \<open>order\<close> is the order the map is iterated in.
\<close>

definition missing_vars :: "((string \<times> string) list \<Rightarrow> (string \<times> string) list) \<Rightarrow> migrate_config \<Rightarrow> string list" where
  "missing_vars order c =
     map fst (filter (\<lambda>(n, v). v = []) (order [(''CLICKHOUSE_HOST'', mc_host c), (''CLICKHOUSE_USER'', mc_username c),
       (''CLICKHOUSE_DATABASE'', mc_database c), (''CLICKHOUSE_CLUSTER'', mc_cluster c)]))"

definition migrate_configFromEnv ::
  "((string \<times> string) list \<Rightarrow> (string \<times> string) list) \<Rightarrow> string \<Rightarrow> (string \<Rightarrow> string) \<Rightarrow> mg_error + migrate_config" where
  "migrate_configFromEnv order DefaultMigrationsTable getenv =
     (let c = \<lparr>mc_host = getenv ''CLICKHOUSE_HOST'', mc_port = env_or getenv ''CLICKHOUSE_PORT'' ''9440'',
               mc_username = getenv ''CLICKHOUSE_USER'', mc_database = getenv ''CLICKHOUSE_DATABASE'',
               mc_cluster = getenv ''CLICKHOUSE_CLUSTER'', mc_migrationsDir = env_or getenv ''MIGRATIONS_DIR'' ''/migrations'',
               mc_tlsCertFile = env_or getenv ''CLICKHOUSE_TLS_CERT_FILE'' ''/etc/clickhouse-client/certs/tls.crt'',
               mc_tlsKeyFile = env_or getenv ''CLICKHOUSE_TLS_KEY_FILE'' ''/etc/clickhouse-client/certs/tls.key'',
               mc_tlsCAFile = env_or getenv ''CLICKHOUSE_TLS_CA_FILE'' ''/etc/clickhouse-client/certs/ca.crt'',
               mc_migrationsTable = env_or getenv ''MIGRATIONS_TABLE'' DefaultMigrationsTable,
               mc_queryapiUser = env_or getenv ''CLICKHOUSE_QUERYAPI_USER'' ''queryapi''\<rparr> in
      if missing_vars order c \<noteq> [] then Inl (MissingEnv (missing_vars order c))
      else if \<not> safeIdentifier (mc_queryapiUser c) then Inl (InvalidQueryapiUser (mc_queryapiUser c))
      else if \<not> safeIdentifier (mc_cluster c) then Inl (InvalidCluster (mc_cluster c))
      else Inr c)"

section \<open>Rendering\<close>

definition token_char :: "char \<Rightarrow> bool" where
  "token_char c \<longleftrightarrow> char_in CHR ''A'' CHR ''Z'' c \<or> c = CHR ''_''"

text \<open>The first match of \<^verbatim>\<open>\{\{[A-Z_]+\}\}\<close>.\<close>

definition token_at :: "string \<Rightarrow> string option" where
  "token_at s =
     (case CutPrefix s ''{{'' of
        None \<Rightarrow> None
      | Some r \<Rightarrow>
          (let name = takeWhile token_char r in
           if name \<noteq> [] \<and> HasPrefix (drop (length name) r) ''}}'' then Some (''{{'' @ name @ ''}}'') else None))"

fun unresolvedToken :: "string \<Rightarrow> string option" where
  "unresolvedToken [] = None"
| "unresolvedToken (c # s) = (case token_at (c # s) of Some t \<Rightarrow> Some t | None \<Rightarrow> unresolvedToken s)"

definition substitute :: "(string \<times> string) list \<Rightarrow> string \<Rightarrow> string" where
  "substitute vars content = foldl (\<lambda>r (key, v). ReplaceAll r (''{{'' @ key @ ''}}'') v) content vars"

text \<open>
  A directory is its file names; \<^verbatim>\<open>filepath.Glob\<close> returns the matching ones in order. Reading and
  writing may fail.
\<close>

record file_system =
  fs_Names :: "string \<Rightarrow> string list"
  fs_Read :: "string \<Rightarrow> string \<Rightarrow> string + string"
  fs_WriteError :: "string \<Rightarrow> string \<Rightarrow> string option"

definition glob_sql :: "file_system \<Rightarrow> string \<Rightarrow> string list" where
  "glob_sql fs dir = sort_strings (filter (\<lambda>n. HasSuffix n ''.sql'') (fs_Names fs dir))"

fun render_files ::
  "file_system \<Rightarrow> string \<Rightarrow> string \<Rightarrow> (string \<times> string) list \<Rightarrow> string list \<Rightarrow> (string \<times> string) list \<Rightarrow> mg_error + (string \<times> string) list" where
  "render_files fs src dst vars [] written = Inr written"
| "render_files fs src dst vars (f # files) written =
     (case fs_Read fs src f of
        Inl e \<Rightarrow> Inl (MgWrapped ''read'' (MgError e))
      | Inr content \<Rightarrow>
          (let rendered = substitute vars content in
           case unresolvedToken rendered of
             Some m \<Rightarrow> Inl (UnresolvedPlaceholder f m)
           | None \<Rightarrow>
               (case fs_WriteError fs dst f of
                  Some e \<Rightarrow> Inl (MgWrapped ''write'' (MgError e))
                | None \<Rightarrow> render_files fs src dst vars files (written @ [(f, rendered)]))))"

definition renderMigrations ::
  "file_system \<Rightarrow> string \<Rightarrow> string \<Rightarrow> (string \<times> string) list \<Rightarrow> mg_error + (string \<times> string) list" where
  "renderMigrations fs src dst vars =
     (if glob_sql fs src = [] then Inl (NoSqlFiles src) else render_files fs src dst vars (glob_sql fs src) [])"

section \<open>The run\<close>

record tls_files =
  tf_KeyPair :: "string \<Rightarrow> string \<Rightarrow> string + string"
  tf_ReadCA :: "string \<Rightarrow> string + string"
  tf_HasCerts :: "string \<Rightarrow> bool"

definition loadClientTLSConfig :: "tls_files \<Rightarrow> string \<Rightarrow> string \<Rightarrow> string \<Rightarrow> mg_error + string \<times> string" where
  "loadClientTLSConfig tf certFile keyFile caFile =
     (case tf_KeyPair tf certFile keyFile of
        Inl e \<Rightarrow> Inl (MgWrapped ''loading client cert/key'' (MgError e))
      | Inr cert \<Rightarrow>
          (case tf_ReadCA tf caFile of
             Inl e \<Rightarrow> Inl (MgWrapped ''reading CA file'' (MgError e))
           | Inr ca \<Rightarrow> if tf_HasCerts tf ca then Inr (cert, ca) else Inl (NoCertificates caFile)))"

definition quoteIdentifier :: "string \<Rightarrow> string" where
  "quoteIdentifier name = ''`'' @ ReplaceAll name ''`'' ''``'' @ ''`''"

definition create_database :: "migrate_config \<Rightarrow> string" where
  "create_database cfg =
     ''CREATE DATABASE IF NOT EXISTS '' @ quoteIdentifier (mc_database cfg) @ '' ON CLUSTER '' @ [CHR 0x27] @ mc_cluster cfg @ [CHR 0x27] @
     '' ENGINE = Replicated('' @ [CHR 0x27] @ ''/clickhouse/'' @ mc_cluster cfg @ ''/databases/'' @ mc_database cfg @ [CHR 0x27] @
     '', '' @ [CHR 0x27] @ ''{shard}'' @ [CHR 0x27] @ '', '' @ [CHR 0x27] @ ''{replica}'' @ [CHR 0x27] @ '')''"

datatype up_result = UpDone | UpNoChange | UpError string

text \<open>What the job does to the database server, and how the server and the library answer.\<close>

datatype db_event = ExecStatement string | MigrateUp "(string \<times> string) list"

record server =
  sv_Exec :: "string \<Rightarrow> string option"
  sv_Close :: "string option"
  sv_Driver :: "string option"
  sv_Migrate :: "string option"
  sv_Up :: "(string \<times> string) list \<Rightarrow> up_result"
  sv_Version :: "string + nat \<times> bool"

definition join_errors :: "mg_error option \<Rightarrow> mg_error option \<Rightarrow> mg_error option" where
  "join_errors a b = (case (a, b) of (None, None) \<Rightarrow> None | (Some e, None) \<Rightarrow> Some e | (None, Some e) \<Rightarrow> Some e | (Some e, Some f) \<Rightarrow> Some (Joined e f))"

definition ensureDatabaseExists :: "server \<Rightarrow> migrate_config \<Rightarrow> mg_error option \<times> db_event list" where
  "ensureDatabaseExists sv cfg =
     (let stmt = create_database cfg in
      (join_errors (map_option MgError (sv_Exec sv stmt)) (map_option MgError (sv_Close sv)), [ExecStatement stmt]))"

definition applyMigrations :: "server \<Rightarrow> (string \<times> string) list \<Rightarrow> (mg_error + nat \<times> bool) \<times> db_event list" where
  "applyMigrations sv files =
     (case sv_Driver sv of
        Some e \<Rightarrow> (Inl (MgWrapped ''initializing clickhouse migrate driver'' (MgError e)), [])
      | None \<Rightarrow>
     (case sv_Migrate sv of
        Some e \<Rightarrow> (Inl (MgWrapped ''initializing migrate instance'' (MgError e)), [])
      | None \<Rightarrow>
     (case sv_Up sv files of
        UpError e \<Rightarrow> (Inl (MgWrapped ''applying migrations'' (MgError e)), [MigrateUp files])
      | _ \<Rightarrow>
     (case sv_Version sv of
        Inl e \<Rightarrow> (Inl (MgWrapped ''reading migration version'' (MgError e)), [MigrateUp files])
      | Inr vd \<Rightarrow> (Inr vd, [MigrateUp files])))))"

definition migrate_run ::
  "((string \<times> string) list \<Rightarrow> (string \<times> string) list) \<Rightarrow> string \<Rightarrow> (string \<Rightarrow> string) \<Rightarrow> (string + string) \<Rightarrow> file_system \<Rightarrow> tls_files \<Rightarrow> server \<Rightarrow>
   mg_error option \<times> db_event list" where
  "migrate_run order DefaultMigrationsTable getenv MkdirTemp fs tf sv =
     (case migrate_configFromEnv order DefaultMigrationsTable getenv of
        Inl e \<Rightarrow> (Some e, [])
      | Inr cfg \<Rightarrow>
     (case MkdirTemp of
        Inl e \<Rightarrow> (Some (MgWrapped ''creating rendered migrations dir'' (MgError e)), [])
      | Inr renderedDir \<Rightarrow>
     (case renderMigrations fs (mc_migrationsDir cfg) renderedDir [(''QUERYAPI_USER'', mc_queryapiUser cfg)] of
        Inl e \<Rightarrow> (Some e, [])
      | Inr files \<Rightarrow>
     (case loadClientTLSConfig tf (mc_tlsCertFile cfg) (mc_tlsKeyFile cfg) (mc_tlsCAFile cfg) of
        Inl e \<Rightarrow> (Some (MgWrapped ''loading TLS config'' e), [])
      | Inr tls \<Rightarrow>
     (case ensureDatabaseExists sv cfg of
        (Some e, evs) \<Rightarrow> (Some (MgWrapped ''ensuring database exists'' e), evs)
      | (None, evs) \<Rightarrow>
     (case applyMigrations sv files of
        (Inl e, evs') \<Rightarrow> (Some e, evs @ evs')
      | (Inr vd, evs') \<Rightarrow> (None, evs @ evs')))))))"

section \<open>Lemmas\<close>

text \<open>A placeholder, wherever it stands.\<close>

definition placeholder_in :: "string \<Rightarrow> bool" where
  "placeholder_in s \<longleftrightarrow> (\<exists>a n b. s = a @ ''{{'' @ n @ ''}}'' @ b \<and> n \<noteq> [] \<and> list_all token_char n)"

lemma takeWhile_token: "list_all token_char n \<Longrightarrow> takeWhile token_char (n @ ''}}'' @ b) = n"
proof (induction n)
  case Nil
  have "\<not> token_char CHR ''}''" by code_simp
  then show ?case by simp
qed simp

lemma token_at_Some:
  "(\<exists>t. token_at s = Some t) \<longleftrightarrow> (\<exists>n b. s = ''{{'' @ n @ ''}}'' @ b \<and> n \<noteq> [] \<and> list_all token_char n)" (is "?l \<longleftrightarrow> ?r")
proof
  assume ?l
  then obtain r where r: "s = ''{{'' @ r" "takeWhile token_char r \<noteq> []" "HasPrefix (drop (length (takeWhile token_char r)) r) ''}}''"
    by (auto simp: token_at_def CutPrefix_Some Let_def split: option.splits if_splits)
  obtain b where "drop (length (takeWhile token_char r)) r = ''}}'' @ b" using r(3) by (metis HasPrefixE)
  then have "r = takeWhile token_char r @ ''}}'' @ b" by (metis append_take_drop_id takeWhile_eq_take)
  moreover have "list_all token_char (takeWhile token_char r)" by (auto simp: list_all_iff dest: set_takeWhileD)
  ultimately show ?r using r(1,2) by metis
next
  assume ?r
  then obtain n b where s: "s = ''{{'' @ n @ ''}}'' @ b" "n \<noteq> []" "list_all token_char n" by blast
  then have "CutPrefix s ''{{'' = Some (n @ ''}}'' @ b)" by (simp only: CutPrefix_append)
  moreover have "HasPrefix (drop (length n) (n @ ''}}'' @ b)) ''}}''" by (simp add: HasPrefix_def)
  ultimately show ?l using s(2) takeWhile_token [OF s(3), of b] unfolding token_at_def by (simp add: Let_def)
qed

lemma placeholder_in_Cons:
  "placeholder_in (c # s) \<longleftrightarrow> (\<exists>t. token_at (c # s) = Some t) \<or> placeholder_in s"
  unfolding placeholder_in_def token_at_Some Cons_eq_append_conv by blast

lemma unresolvedToken_None: "unresolvedToken s = None \<longleftrightarrow> \<not> placeholder_in s"
proof (induction s)
  case Nil
  show ?case by (simp add: placeholder_in_def)
next
  case (Cons c s)
  then show ?case by (cases "token_at (c # s)") (simp_all add: placeholder_in_Cons)
qed

lemma render_files_ok:
  assumes "render_files fs src dst vars files written = Inr out"
  shows "\<exists>new. out = written @ new \<and>
    list_all2 (\<lambda>f (n, r). n = f \<and> (\<exists>content. fs_Read fs src f = Inr content \<and> r = substitute vars content) \<and> \<not> placeholder_in r) files new"
  using assms
proof (induction files arbitrary: written)
  case (Cons f files)
  then obtain content where c: "fs_Read fs src f = Inr content" "unresolvedToken (substitute vars content) = None"
    "render_files fs src dst vars files (written @ [(f, substitute vars content)]) = Inr out"
    by (auto simp: Let_def split: sum.splits option.splits)
  from Cons.IH [OF c(3)] obtain new where "out = (written @ [(f, substitute vars content)]) @ new"
    "list_all2 (\<lambda>f (n, r). n = f \<and> (\<exists>content. fs_Read fs src f = Inr content \<and> r = substitute vars content) \<and> \<not> placeholder_in r) files new"
    by blast
  then show ?case using c(1,2) by (intro exI [of _ "(f, substitute vars content) # new"]) (simp add: unresolvedToken_None)
qed simp

lemma safeIdentifier_chars: "safeIdentifier s \<Longrightarrow> list_all (\<lambda>d. ident_start d \<or> d = CHR ''-'') s"
  by (simp add: safeIdentifier_def split: list.splits)

lemma safeIdentifier_quotes:
  assumes "safeIdentifier s"
  shows "CHR ''`'' \<notin> set s" "CHR 0x27 \<notin> set s"
proof -
  have n: "\<not> ident_start CHR ''`''" "\<not> ident_start CHR 0x27" by code_simp+
  note a = safeIdentifier_chars [OF assms]
  show "CHR ''`'' \<notin> set s" by (rule list_all_notin [OF a]) (use n(1) in simp)
  show "CHR 0x27 \<notin> set s" by (rule list_all_notin [OF a]) (use n(2) in simp)
qed

lemma renderMigrations_ok:
  "renderMigrations fs src dst vars = Inr files \<Longrightarrow>
     list_all2 (\<lambda>f (n, r). n = f \<and> (\<exists>content. fs_Read fs src f = Inr content \<and> r = substitute vars content) \<and> \<not> placeholder_in r)
       (glob_sql fs src) files"
  using render_files_ok [of fs src dst vars "glob_sql fs src" "[]" files]
  by (simp add: renderMigrations_def split: if_splits)

lemma migrate_configFromEnv_safe:
  "migrate_configFromEnv order tab getenv = Inr cfg \<Longrightarrow> safeIdentifier (mc_queryapiUser cfg) \<and> safeIdentifier (mc_cluster cfg)"
  by (auto simp: migrate_configFromEnv_def Let_def split: if_splits)

lemma ensureDatabaseExists_event:
  "\<exists>err. ensureDatabaseExists sv cfg = (err, [ExecStatement (create_database cfg)]) \<and> (err = None \<longrightarrow> sv_Exec sv (create_database cfg) = None)"
  by (auto simp: ensureDatabaseExists_def join_errors_def Let_def split: option.splits)

lemma applyMigrations_event:
  "\<exists>r evs. applyMigrations sv files = (r, evs) \<and> (evs = [] \<or> evs = [MigrateUp files]) \<and>
     ((\<exists>vd. r = Inr vd) \<longleftrightarrow> evs = [MigrateUp files] \<and> sv_Up sv files \<in> {UpDone, UpNoChange} \<and> (\<exists>vd. sv_Version sv = Inr vd))"
  by (auto simp: applyMigrations_def split: option.split up_result.split sum.split)

text \<open>
  C31. The job touches the database only with everything in order. If it does anything at all, its
  settings were valid, so neither the user it splices into the migrations nor the cluster in its own
  statement holds a quote; every migration file was rendered with the user substituted, and no
  placeholder is left in any of them. It first creates the database, and migrates with exactly these
  files only if that succeeded; it succeeds exactly when the migrations were applied and their version
  read. Otherwise it fails without touching the database.
\<close>

theorem migrate_fails_closed:
  "case migrate_run order tab getenv tmp fs tf sv of (err, evs) \<Rightarrow>
     (case evs of
        [] \<Rightarrow> (\<exists>e. err = Some e)
      | ev # evs' \<Rightarrow> (\<exists>cfg files.
          migrate_configFromEnv order tab getenv = Inr cfg \<and>
          CHR ''`'' \<notin> set (mc_queryapiUser cfg) \<and> CHR 0x27 \<notin> set (mc_cluster cfg) \<and>
          list_all2 (\<lambda>f (n, r). n = f \<and>
              (\<exists>content. fs_Read fs (mc_migrationsDir cfg) f = Inr content \<and> r = substitute [(''QUERYAPI_USER'', mc_queryapiUser cfg)] content) \<and>
              \<not> placeholder_in r) (glob_sql fs (mc_migrationsDir cfg)) files \<and>
          ev = ExecStatement (create_database cfg) \<and>
          (evs' = [] \<or> evs' = [MigrateUp files] \<and> sv_Exec sv (create_database cfg) = None) \<and>
          (err = None \<longleftrightarrow> evs' = [MigrateUp files] \<and> sv_Up sv files \<in> {UpDone, UpNoChange} \<and> (\<exists>vd. sv_Version sv = Inr vd))))"
proof (cases "\<exists>cfg dir files tls. migrate_configFromEnv order tab getenv = Inr cfg \<and> tmp = Inr dir \<and>
    renderMigrations fs (mc_migrationsDir cfg) dir [(''QUERYAPI_USER'', mc_queryapiUser cfg)] = Inr files \<and>
    loadClientTLSConfig tf (mc_tlsCertFile cfg) (mc_tlsKeyFile cfg) (mc_tlsCAFile cfg) = Inr tls")
  case False
  then have "\<exists>e. migrate_run order tab getenv tmp fs tf sv = (Some e, [])"
    by (auto simp: migrate_run_def split: sum.splits)
  then show ?thesis by auto
next
  case True
  then obtain cfg dir files tls where c: "migrate_configFromEnv order tab getenv = Inr cfg" "tmp = Inr dir"
    "renderMigrations fs (mc_migrationsDir cfg) dir [(''QUERYAPI_USER'', mc_queryapiUser cfg)] = Inr files"
    "loadClientTLSConfig tf (mc_tlsCertFile cfg) (mc_tlsKeyFile cfg) (mc_tlsCAFile cfg) = Inr tls" by blast
  have q: "CHR ''`'' \<notin> set (mc_queryapiUser cfg)" "CHR 0x27 \<notin> set (mc_cluster cfg)"
    using migrate_configFromEnv_safe [OF c(1)] safeIdentifier_quotes by blast+
  obtain derr where d: "ensureDatabaseExists sv cfg = (derr, [ExecStatement (create_database cfg)])"
    "derr = None \<longrightarrow> sv_Exec sv (create_database cfg) = None" using ensureDatabaseExists_event by blast
  obtain r evs where a: "applyMigrations sv files = (r, evs)" "evs = [] \<or> evs = [MigrateUp files]"
    "(\<exists>vd. r = Inr vd) \<longleftrightarrow> evs = [MigrateUp files] \<and> sv_Up sv files \<in> {UpDone, UpNoChange} \<and> (\<exists>vd. sv_Version sv = Inr vd)"
    using applyMigrations_event by metis
  obtain err evs' where run: "migrate_run order tab getenv tmp fs tf sv = (err, ExecStatement (create_database cfg) # evs')" and
    e: "evs' = [] \<or> evs' = [MigrateUp files] \<and> sv_Exec sv (create_database cfg) = None"
    "err = None \<longleftrightarrow> evs' = [MigrateUp files] \<and> sv_Up sv files \<in> {UpDone, UpNoChange} \<and> (\<exists>vd. sv_Version sv = Inr vd)"
  proof (cases derr)
    case None
    show ?thesis
      by (rule that [of "case r of Inl e \<Rightarrow> Some e | Inr _ \<Rightarrow> None" evs])
        (use c d a None in \<open>auto simp: migrate_run_def split: sum.splits\<close>)
  next
    case (Some x)
    then show ?thesis using c d by (intro that [of "Some (MgWrapped ''ensuring database exists'' x)" "[]"]) (auto simp: migrate_run_def)
  qed
  show ?thesis
    unfolding run prod.case list.case using c(1) q renderMigrations_ok [OF c(3)] e by blast
qed

end
