(* ===== verification/CliPages.thy ===== *)
theory CliPages
  imports CliClient
begin

text \<open>
  Reading a window page by page (\<^verbatim>\<open>cli/logs/fetch.go\<close>). The querier and the callback are functions on a
  state; a loop that does not end is \<open>None\<close>.
\<close>

section \<open>Pages\<close>

type_synonym 's querier = "ClientQuery \<Rightarrow> 's \<Rightarrow> (cli_error + Entry list) \<times> 's"

type_synonym 's page_fn = "Entry list \<Rightarrow> 's \<Rightarrow> bool \<times> 's"

text \<open>\<^verbatim>\<open>Time.Unix()\<close>: whole seconds, rounded down; \<^verbatim>\<open>time.Unix(sec, 0)\<close> is the start of a second.\<close>

definition unix :: "Entry \<Rightarrow> int" where
  "unix e = en_Time e div 1000000000"

definition second_start :: "int \<Rightarrow> int" where
  "second_start sec = sec * 1000000000"

definition fresh_entries :: "int \<Rightarrow> string list \<Rightarrow> Entry list \<Rightarrow> Entry list" where
  "fresh_entries edge seen page = filter (\<lambda>e. unix e \<noteq> edge \<or> Entry_Key e \<notin> set seen) page"

partial_function (option) pages_loop ::
  "'s querier \<Rightarrow> 's page_fn \<Rightarrow> ClientQuery \<Rightarrow> int \<Rightarrow> string list \<Rightarrow> 's \<Rightarrow> (cli_error option \<times> 's) option" where
  "pages_loop querier fn q edge seen s =
     (case querier q s of
        (Inl e, s1) \<Rightarrow> Some (Some e, s1)
      | (Inr page, s1) \<Rightarrow>
          let fresh = fresh_entries edge seen page;
              r = (if fresh \<noteq> [] then fn fresh s1 else (True, s1));
              lst = unix (last page) in
          if \<not> fst r then Some (None, snd r)
          else if int (length page) < cq_Limit q then Some (None, snd r)
          else if fresh = [] then
            pages_loop querier fn
              (if cq_Direction q = Backward then q\<lparr>cq_End := second_start lst\<rparr> else q\<lparr>cq_Start := second_start (lst + 1)\<rparr>)
              (-1) [] (snd r)
          else
            let seen0 = (if lst \<noteq> edge then [] else seen) in
            pages_loop querier fn
              (if cq_Direction q = Backward then q\<lparr>cq_End := second_start (lst + 1)\<rparr> else q\<lparr>cq_Start := second_start lst\<rparr>)
              lst (seen0 @ map Entry_Key (filter (\<lambda>e. unix e = lst) page)) (snd r))"

definition Pages :: "'s querier \<Rightarrow> ClientQuery \<Rightarrow> 's page_fn \<Rightarrow> 's \<Rightarrow> (cli_error option \<times> 's) option" where
  "Pages querier q fn s =
     (let q1 = (if cq_Limit q \<le> 0 then q\<lparr>cq_Limit := MaxLimit\<rparr> else q);
          q2 = (if cq_Direction q1 = [] then q1\<lparr>cq_Direction := Backward\<rparr> else q1) in
      pages_loop querier fn q2 (-1) [] s)"

text \<open>The callbacks of \<^verbatim>\<open>Tail\<close> and \<^verbatim>\<open>All\<close> collect into a list next to the state of the querier.\<close>

definition collecting :: "(Entry list \<Rightarrow> bool) \<Rightarrow> ('s \<times> Entry list) page_fn" where
  "collecting go_on page s = (let out = snd s @ page in (go_on out, (fst s, out)))"

definition lift_querier :: "'s querier \<Rightarrow> ('s \<times> Entry list) querier" where
  "lift_querier querier q s = (let r = querier q (fst s) in (fst r, (snd r, snd s)))"

definition Tail :: "'s querier \<Rightarrow> string \<Rightarrow> int \<Rightarrow> int \<Rightarrow> int \<Rightarrow> 's \<Rightarrow> ((cli_error + Entry list) \<times> 's) option" where
  "Tail querier query start till n s =
     (if n \<le> 0 then Some (Inr [], s)
      else
        let q = \<lparr>cq_Query = query, cq_Start = start, cq_End = till, cq_Limit = min n MaxLimit, cq_Direction = Backward\<rparr> in
        (case Pages (lift_querier querier) q (collecting (\<lambda>out. int (length out) < n)) (s, []) of
           None \<Rightarrow> None
         | Some (Some e, s') \<Rightarrow> Some (Inl e, fst s')
         | Some (None, s') \<Rightarrow> Some (Inr (rev (take (nat n) (snd s'))), fst s')))"

definition All :: "'s querier \<Rightarrow> string \<Rightarrow> int \<Rightarrow> int \<Rightarrow> 's \<Rightarrow> (cli_error option \<times> 's \<times> Entry list) option" where
  "All querier query start till s =
     (let q = \<lparr>cq_Query = query, cq_Start = start, cq_End = till, cq_Limit = MaxLimit, cq_Direction = Forward\<rparr> in
      Pages (lift_querier querier) q (collecting (\<lambda>_. True)) (s, []))"

section \<open>What the pages are to add up to\<close>

text \<open>
  A log that does not change: the lines \<open>D\<close>. The lines of a window are those within it, ordered by time
  in the direction asked for; a query answers the first ones, up to its limit.
\<close>

definition window_lines :: "Entry list \<Rightarrow> int \<Rightarrow> int \<Rightarrow> string \<Rightarrow> Entry list" where
  "window_lines D start till dir = Sort (filter (\<lambda>e. start \<le> en_Time e \<and> en_Time e < till) D) dir"

definition serves :: "Entry list \<Rightarrow> 's querier \<Rightarrow> bool" where
  "serves D querier \<longleftrightarrow> (\<forall>q s. querier q s =
     (Inr (take (nat (cq_Limit q)) (window_lines D (cq_Start q) (cq_End q) (cq_Direction q))), s))"

text \<open>Fewer than \<open>n\<close> lines in every second.\<close>

definition sparse :: "nat \<Rightarrow> Entry list \<Rightarrow> bool" where
  "sparse n W \<longleftrightarrow> (\<forall>e \<in> set W. length (filter (\<lambda>d. unix d = unix e) W) < n)"

text \<open>The rank of a line in a direction: its second, or its second backwards.\<close>

definition rank :: "string \<Rightarrow> Entry \<Rightarrow> int" where
  "rank dir e = (if dir = Backward then - unix e else unix e)"

lemma unix_ge: "b \<le> unix e \<longleftrightarrow> second_start b \<le> en_Time e"
  by (simp add: unix_def second_start_def le_div_iff)

lemma unix_lt: "unix e < b \<longleftrightarrow> en_Time e < second_start b"
  using unix_ge [of b e] by linarith

lemma rank_unix: "rank dir d = rank dir e \<longleftrightarrow> unix d = unix e"
  by (simp add: rank_def)

abbreviation lines_of :: "Entry list \<Rightarrow> ClientQuery \<Rightarrow> Entry list" where
  "lines_of D q \<equiv> window_lines D (cq_Start q) (cq_End q) (cq_Direction q)"

lemma filter_window_lines:
  "filter P (window_lines D start till dir) = Sort (filter P (filter (\<lambda>e. start \<le> en_Time e \<and> en_Time e < till) D)) dir"
  by (simp add: window_lines_def Sort_def filter_sort)

lemma window_lines_set: "e \<in> set (window_lines D start till dir) \<longleftrightarrow> e \<in> set D \<and> start \<le> en_Time e \<and> en_Time e < till"
  by (auto simp: window_lines_def Sort_def)

text \<open>The window moved to the second of \<open>e\<close> holds the lines from that second on.\<close>

lemma next_lines:
  assumes "d \<in> set (lines_of D q)" "rank (cq_Direction q) d < rank (cq_Direction q) e" "e \<in> set (lines_of D q)"
  shows "lines_of D (if cq_Direction q = Backward then q\<lparr>cq_End := second_start (unix e + 1)\<rparr> else q\<lparr>cq_Start := second_start (unix e)\<rparr>) =
    filter (\<lambda>x. rank (cq_Direction q) e \<le> rank (cq_Direction q) x) (lines_of D q)"
proof (cases "cq_Direction q = Backward")
  case True
  have lt: "en_Time x < second_start (unix e + 1) \<longleftrightarrow> unix x \<le> unix e" for x
    using unix_lt [of x "unix e + 1"] by linarith
  have "second_start (unix e + 1) \<le> cq_End q"
    using assms(1,2) True unix_ge [of "unix e + 1" d] by (simp add: rank_def window_lines_set)
  then have "filter (\<lambda>x. cq_Start q \<le> en_Time x \<and> en_Time x < second_start (unix e + 1)) D =
      filter (\<lambda>x. unix x \<le> unix e) (filter (\<lambda>x. cq_Start q \<le> en_Time x \<and> en_Time x < cq_End q) D)"
    by (auto simp: lt [symmetric] intro!: filter_cong)
  then show ?thesis using True unfolding filter_window_lines by (simp add: window_lines_def rank_def)
next
  case False
  have "cq_Start q \<le> second_start (unix e)"
    using assms(1,2) False unix_lt [of d "unix e"] by (simp add: rank_def window_lines_set)
  then have "filter (\<lambda>x. second_start (unix e) \<le> en_Time x \<and> en_Time x < cq_End q) D =
      filter (\<lambda>x. unix e \<le> unix x) (filter (\<lambda>x. cq_Start q \<le> en_Time x \<and> en_Time x < cq_End q) D)"
    by (auto simp: unix_ge intro!: filter_cong)
  then show ?thesis using False unfolding filter_window_lines by (simp add: window_lines_def rank_def)
qed

lemma sorted_rank:
  assumes "dir = Forward \<or> dir = Backward"
  shows "sorted (map (rank dir) (window_lines D start till dir))"
proof -
  have fb: "Forward \<noteq> Backward" by (simp add: Forward_def Backward_def)
  have u: "en_Time a \<le> en_Time b \<Longrightarrow> unix a \<le> unix b" for a b by (simp add: unix_def zdiv_mono1)
  from assms show ?thesis
  proof
    assume d: "dir = Forward"
    then have "sorted_wrt (\<lambda>a b. en_Time a \<le> en_Time b) (window_lines D start till dir)"
      using Sort_sorted [of dir "filter (\<lambda>e. start \<le> en_Time e \<and> en_Time e < till) D"] by (simp add: window_lines_def sorted_map)
    then show ?thesis using d fb u by (auto simp: sorted_map rank_def elim!: sorted_wrt_mono_rel [rotated])
  next
    assume d: "dir = Backward"
    then have "sorted_wrt (\<lambda>a b. en_Time b \<le> en_Time a) (window_lines D start till dir)"
      using Sort_sorted [of dir "filter (\<lambda>e. start \<le> en_Time e \<and> en_Time e < till) D"] fb
      by (simp add: window_lines_def sorted_wrt_rev sorted_wrt_map)
    then show ?thesis using d u by (auto simp: sorted_map rank_def elim!: sorted_wrt_mono_rel [rotated])
  qed
qed

lemma sparse_filter: "sparse n W \<Longrightarrow> sparse n (filter P W)"
proof -
  assume s: "sparse n W"
  have "length (filter Q (filter P W)) \<le> length (filter Q W)" for Q
    by (induction W) auto
  then show ?thesis using s unfolding sparse_def by (metis (no_types, lifting) filter_is_subset order_le_less_trans subsetD)
qed

lemma sparse_same_second:
  assumes "sparse n (X @ R)" "\<forall>x \<in> set X. unix x = sec" "0 < n"
  shows "length X < n"
proof (cases X)
  case (Cons x xs)
  then have "x \<in> set (X @ R)" "unix x = sec" using assms(2) by auto
  then have "length (filter (\<lambda>d. unix d = sec) (X @ R)) < n" using assms(1) unfolding sparse_def by blast
  moreover have "filter (\<lambda>d. unix d = sec) X = X" using assms(2) by (simp add: filter_id_conv)
  ultimately show ?thesis by simp
qed (simp add: assms(3))

text \<open>One step on the lines: the page, what of it is new, and where the next page starts.\<close>

lemma fresh_page:
  assumes "\<forall>x \<in> set X. unix x = edge" "set seen = Entry_Key ` set X" "distinct (map Entry_Key (X @ R))"
  shows "fresh_entries edge seen (X @ take m R) = take m R"
proof -
  have "filter (\<lambda>e. unix e \<noteq> edge \<or> Entry_Key e \<notin> set seen) X = []"
    using assms(1,2) by (auto simp: filter_empty_conv)
  moreover have "filter (\<lambda>e. unix e \<noteq> edge \<or> Entry_Key e \<notin> set seen) (take m R) = take m R"
    using assms(2,3) by (auto simp: filter_id_conv dest: in_set_takeD)
  ultimately show ?thesis by (simp add: fresh_entries_def)
qed

lemma full_page:
  assumes "sorted (map (rank dir) (pg @ R))" "sparse n (pg @ R)" "length pg = n" "0 < n"
  defines "e \<equiv> last pg"
  shows "filter (\<lambda>x. rank dir e \<le> rank dir x) (pg @ R) = filter (\<lambda>x. unix x = unix e) pg @ R"
    and "\<exists>d \<in> set pg. rank dir d < rank dir e"
proof -
  have ne: "pg \<noteq> []" using assms(3,4) by auto
  have srt: "sorted_wrt (\<lambda>a b. rank dir a \<le> rank dir b) (pg @ R)" using assms(1) by (simp only: sorted_map)
  have le: "rank dir x \<le> rank dir e" if "x \<in> set pg" for x
  proof -
    have "pg = butlast pg @ [e]" using ne by (simp add: e_def)
    then have "sorted_wrt (\<lambda>a b. rank dir a \<le> rank dir b) (butlast pg @ [e])" "x \<in> set (butlast pg) \<or> x = e"
      using srt that by (metis sorted_wrt_append, metis UnE empty_iff empty_set list.set(2) set_append insert_iff)
    then show ?thesis by (auto simp: sorted_wrt_append)
  qed
  have ge: "rank dir e \<le> rank dir x" if "x \<in> set R" for x
    using srt that ne by (auto simp: sorted_wrt_append e_def)
  have "filter (\<lambda>x. rank dir e \<le> rank dir x) pg = filter (\<lambda>x. unix x = unix e) pg"
  proof (rule filter_cong [OF refl])
    fix x assume "x \<in> set pg"
    then show "(rank dir e \<le> rank dir x) = (unix x = unix e)" using le [of x] rank_unix [of dir x e] by linarith
  qed
  moreover have "filter (\<lambda>x. rank dir e \<le> rank dir x) R = R" using ge by (simp add: filter_id_conv)
  ultimately show "filter (\<lambda>x. rank dir e \<le> rank dir x) (pg @ R) = filter (\<lambda>x. unix x = unix e) pg @ R" by simp
  show "\<exists>d \<in> set pg. rank dir d < rank dir e"
  proof (rule ccontr)
    assume "\<not> ?thesis"
    then have "\<forall>x \<in> set pg. unix x = unix e" using le rank_unix [of dir] by (metis linorder_not_less order_antisym)
    then show False using sparse_same_second [OF assms(2) _ assms(4), of "unix e"] assms(3) by simp
  qed
qed

lemma next_page:
  assumes "cq_Direction q = Forward \<or> cq_Direction q = Backward" "lines_of D q = pg @ R" "distinct (map Entry_Key (pg @ R))"
    "sparse n (pg @ R)" "length pg = n" "0 < n"
  defines "e \<equiv> last pg"
  shows "lines_of D (if cq_Direction q = Backward then q\<lparr>cq_End := second_start (unix e + 1)\<rparr> else q\<lparr>cq_Start := second_start (unix e)\<rparr>) =
      filter (\<lambda>x. unix x = unix e) pg @ R"
    and "distinct (map Entry_Key (filter (\<lambda>x. unix x = unix e) pg @ R))"
    and "sparse n (filter (\<lambda>x. unix x = unix e) pg @ R)"
    and "unix (hd pg) \<noteq> unix e"
proof -
  have ne: "pg \<noteq> []" using assms(5,6) by auto
  have srt: "sorted (map (rank (cq_Direction q)) (pg @ R))"
    using sorted_rank [OF assms(1), of D "cq_Start q" "cq_End q"] assms(2) by simp
  note fp = full_page [OF srt assms(4-6), folded e_def]
  obtain d where d: "d \<in> set pg" "rank (cq_Direction q) d < rank (cq_Direction q) e" using fp(2) by blast
  show "lines_of D (if cq_Direction q = Backward then q\<lparr>cq_End := second_start (unix e + 1)\<rparr> else q\<lparr>cq_Start := second_start (unix e)\<rparr>) =
      filter (\<lambda>x. unix x = unix e) pg @ R"
    using next_lines [of d D q e] d ne assms(2) fp(1) by (simp add: e_def)
  show "distinct (map Entry_Key (filter (\<lambda>x. unix x = unix e) pg @ R))"
    unfolding fp(1) [symmetric] by (rule distinct_map_filter [OF assms(3)])
  show "sparse n (filter (\<lambda>x. unix x = unix e) pg @ R)"
    unfolding fp(1) [symmetric] by (rule sparse_filter [OF assms(4)])
  have "rank (cq_Direction q) (hd pg) \<le> rank (cq_Direction q) d"
    using srt d(1) ne by (cases pg) auto
  then show "unix (hd pg) \<noteq> unix e" using d(2) rank_unix [of "cq_Direction q" "hd pg" e] by linarith
qed

lemma pages_loop_collects:
  assumes "serves D querier" "cq_Direction q = Forward \<or> cq_Direction q = Backward" "0 < cq_Limit q"
    and "lines_of D q = X @ R" "distinct (map Entry_Key (X @ R))" "sparse (nat (cq_Limit q)) (X @ R)"
    and "\<forall>x \<in> set X. unix x = edge" "set seen = Entry_Key ` set X"
  shows "\<exists>T. pages_loop (lift_querier querier) (collecting go_on) q edge seen (s, out) = Some (None, (s, out @ T)) \<and>
    prefix T R \<and> (T = R \<or> \<not> go_on (out @ T))"
  using assms
proof (induction "length R" arbitrary: q X R edge seen out rule: less_induct)
  case less
  let ?n = "nat (cq_Limit q)"
  define m where "m = ?n - length X"
  define F where "F = take m R"
  have n: "0 < ?n" using less.prems(3) by simp
  have X: "length X < ?n" by (rule sparse_same_second [OF less.prems(6) less.prems(7) n])
  have page: "take ?n (X @ R) = X @ F" using X by (simp add: F_def m_def)
  have ask: "lift_querier querier q (s, out) = (Inr (X @ F), (s, out))"
    using less.prems(1,4) page by (simp add: lift_querier_def serves_def)
  have fresh: "fresh_entries edge seen (X @ F) = F" unfolding F_def by (rule fresh_page [OF less.prems(7,8,5)])
  note loop = pages_loop.simps [of "lift_querier querier" "collecting go_on" q edge seen "(s, out)"]
  have full: "int (length (X @ F)) < cq_Limit q \<longleftrightarrow> F = R \<and> length (X @ F) < ?n"
    using X by (auto simp: F_def m_def min_def split: if_splits)
  show ?case
  proof (cases "F = []")
    case True
    then have "R = []" using X by (simp add: F_def m_def)
    then show ?thesis using loop ask fresh full True X by (intro exI [of _ "[]"]) (simp add: Let_def)
  next
    case nonempty: False
    have pre: "prefix F R" unfolding F_def by (rule take_is_prefix)
    show ?thesis
    proof (cases "\<not> go_on (out @ F) \<or> int (length (X @ F)) < cq_Limit q")
      case True
      then show ?thesis using loop ask fresh nonempty full pre
        by (intro exI [of _ F]) (auto simp: Let_def collecting_def)
    next
      case False
      then have go: "go_on (out @ F)" and ge: "\<not> int (length (X @ F)) < cq_Limit q" by simp_all
      have "length (X @ F) \<le> ?n" using X by (simp add: F_def m_def)
      then have len: "length (X @ F) = ?n" using ge by linarith
      define R' where "R' = drop m R"
      have R: "R = F @ R'" by (simp add: F_def R'_def)
      define e where "e = last (X @ F)"
      define X' where "X' = filter (\<lambda>x. unix x = unix e) (X @ F)"
      define q' where "q' = (if cq_Direction q = Backward then q\<lparr>cq_End := second_start (unix e + 1)\<rparr> else q\<lparr>cq_Start := second_start (unix e)\<rparr>)"
      have dir: "cq_Direction q' = cq_Direction q" "cq_Limit q' = cq_Limit q" by (simp_all add: q'_def)
      have V: "lines_of D q = (X @ F) @ R'" "distinct (map Entry_Key ((X @ F) @ R'))" "sparse ?n ((X @ F) @ R')"
        using less.prems(4-6) R by simp_all
      note nxt = next_page [OF less.prems(2) V len n, folded e_def, folded X'_def q'_def]
      have V': "lines_of D q' = X' @ R'" and keys: "distinct (map Entry_Key (X' @ R'))" and
        sp': "sparse (nat (cq_Limit q')) (X' @ R')" using nxt(1-3) dir(2) by simp_all
      have "X = []" if "unix e = edge" using nxt(4) less.prems(7) that by (cases X) auto
      then have seen': "set ((if unix e \<noteq> edge then [] else seen) @ map Entry_Key X') = Entry_Key ` set X'"
        using less.prems(8) by auto
      have F_ne: "length R' < length R" using R nonempty by simp
      have "\<exists>T. pages_loop (lift_querier querier) (collecting go_on) q' (unix e)
          ((if unix e \<noteq> edge then [] else seen) @ map Entry_Key X') (s, out @ F) = Some (None, (s, (out @ F) @ T)) \<and>
          prefix T R' \<and> (T = R' \<or> \<not> go_on ((out @ F) @ T))"
        by (rule less.hyps [OF F_ne less.prems(1) _ _ V' keys sp' _ seen']) (use less.prems(2,3) in \<open>auto simp: dir X'_def\<close>)
      then obtain T where T: "pages_loop (lift_querier querier) (collecting go_on) q' (unix e)
          ((if unix e \<noteq> edge then [] else seen) @ map Entry_Key X') (s, out @ F) = Some (None, (s, (out @ F) @ T))"
        "prefix T R'" "T = R' \<or> \<not> go_on ((out @ F) @ T)" by blast
      have "pages_loop (lift_querier querier) (collecting go_on) q edge seen (s, out) =
          pages_loop (lift_querier querier) (collecting go_on) q' (unix e) ((if unix e \<noteq> edge then [] else seen) @ map Entry_Key X') (s, out @ F)"
        unfolding loop ask prod.case sum.case Let_def fresh
        using nonempty go ge by (simp only: collecting_def Let_def fst_conv snd_conv if_True if_False simp_thms q'_def X'_def e_def not_False_eq_True)
      then show ?thesis using T R by (intro exI [of _ "F @ T"]) auto
    qed
  qed
qed

lemma window_lines_keys: "distinct (map Entry_Key D) \<Longrightarrow> distinct (map Entry_Key (window_lines D start till dir))"
proof -
  assume "distinct (map Entry_Key D)"
  then have "distinct (map Entry_Key (filter (\<lambda>e. start \<le> en_Time e \<and> en_Time e < till) D))" by (rule distinct_map_filter)
  moreover have "mset (map Entry_Key (window_lines D start till dir)) =
      mset (map Entry_Key (filter (\<lambda>e. start \<le> en_Time e \<and> en_Time e < till) D))"
    unfolding window_lines_def by (simp only: mset_map Sort_mset)
  ultimately show ?thesis by (metis mset_eq_imp_distinct_iff)
qed

lemma Pages_complete:
  assumes "serves D querier" "distinct (map Entry_Key D)" "cq_Direction q = Forward \<or> cq_Direction q = Backward"
    "0 < cq_Limit q" "sparse (nat (cq_Limit q)) (lines_of D q)"
  shows "\<exists>T. Pages (lift_querier querier) q (collecting go_on) (s, []) = Some (None, (s, T)) \<and>
    prefix T (lines_of D q) \<and> (T = lines_of D q \<or> \<not> go_on T)"
proof -
  have "cq_Direction q \<noteq> []" using assms(3) by (auto simp: Forward_def Backward_def)
  then have "Pages (lift_querier querier) q (collecting go_on) (s, []) = pages_loop (lift_querier querier) (collecting go_on) q (-1) [] (s, [])"
    using assms(4) by (simp add: Pages_def)
  then show ?thesis
    using pages_loop_collects [OF assms(1,3,4), of "[]" "lines_of D q" "-1" "[]" go_on s "[]"]
      window_lines_keys [OF assms(2)] assms(5) by simp
qed

lemma Pages_first:
  assumes "serves D querier" "cq_Direction q = Backward" "0 < cq_Limit q"
  shows "Pages (lift_querier querier) q (collecting (\<lambda>out. int (length out) < cq_Limit q)) (s, []) =
    Some (None, (s, take (nat (cq_Limit q)) (lines_of D q)))"
proof -
  let ?p = "take (nat (cq_Limit q)) (lines_of D q)"
  have "lift_querier querier q (s, []) = (Inr ?p, (s, []))" using assms(1) by (simp add: lift_querier_def serves_def)
  moreover have "fresh_entries (-1) [] ?p = ?p" by (simp add: fresh_entries_def)
  ultimately show ?thesis
    using assms(2,3) by (simp add: Pages_def Backward_def pages_loop.simps [of _ _ q] collecting_def Let_def) linarith
qed

lemma All_complete:
  assumes "serves D querier" "distinct (map Entry_Key D)" "sparse 5000 (window_lines D start till Forward)"
  shows "All querier query start till s = Some (None, (s, window_lines D start till Forward))"
proof -
  let ?q = "\<lparr>cq_Query = query, cq_Start = start, cq_End = till, cq_Limit = MaxLimit, cq_Direction = Forward\<rparr>"
  show ?thesis
    using Pages_complete [of D querier ?q "\<lambda>_. True" s] assms by (auto simp: All_def Let_def MaxLimit_def)
qed

lemma Tail_complete:
  assumes "serves D querier" "distinct (map Entry_Key D)" "n \<le> 5000 \<or> sparse 5000 (window_lines D start till Backward)"
  shows "Tail querier query start till n s = Some (Inr (rev (take (nat n) (window_lines D start till Backward))), s)"
proof (cases "n \<le> 0")
  case False
  let ?t = "\<lparr>cq_Query = query, cq_Start = start, cq_End = till, cq_Limit = min n MaxLimit, cq_Direction = Backward\<rparr>"
  consider "n \<le> 5000" | "5000 < n" "sparse 5000 (window_lines D start till Backward)" using assms(3) by fastforce
  then show ?thesis
  proof cases
    case 1
    then have "min n MaxLimit = n" by (simp add: MaxLimit_def)
    then show ?thesis using Pages_first [OF assms(1), of ?t s] False by (simp add: Tail_def Let_def)
  next
    case 2
    then have "min n MaxLimit = 5000" by (simp add: MaxLimit_def)
    then obtain T where T: "Pages (lift_querier querier) ?t (collecting (\<lambda>out. int (length out) < n)) (s, []) = Some (None, (s, T))"
      "prefix T (window_lines D start till Backward)" "T = window_lines D start till Backward \<or> \<not> int (length T) < n"
      using Pages_complete [of D querier ?t "\<lambda>out. int (length out) < n" s] assms(1,2) 2 by auto
    have "take (nat n) T = take (nat n) (window_lines D start till Backward)"
      using T(2,3) by (auto elim!: prefixE)
    then show ?thesis using T(1) False by (simp add: Tail_def Let_def)
  qed
qed (simp add: Tail_def)

section \<open>Property\<close>

text \<open>
  C33. Reading by pages is reading the window: on a log that does not change, whose lines have distinct
  keys and of which no second of the window holds a whole page (5000 lines), \<open>All\<close> ends and emits
  exactly the lines of the window, each once and oldest first, and \<open>Tail\<close> ends and returns the newest
  \<open>n\<close> of them, oldest first; for \<open>n\<close> up to a page it does so however many lines a second holds.
\<close>

theorem paging_is_complete:
  assumes "serves D querier" "distinct (map Entry_Key D)" "sparse 5000 (window_lines D start till Forward)"
    "n \<le> 5000 \<or> sparse 5000 (window_lines D start till Backward)"
  shows "All querier query start till s = Some (None, (s, window_lines D start till Forward)) \<and>
    Tail querier query start till n s = Some (Inr (rev (take (nat n) (window_lines D start till Backward))), s)"
  using All_complete [OF assms(1-3)] Tail_complete [OF assms(1,2,4)] by simp

definition two_lines :: "Entry list" where
  "two_lines = [\<lparr>en_Time = 7, en_Labels = [(''a'', ''b'')], en_Line = ''second'', en_stream = ''s''\<rparr>,
     \<lparr>en_Time = 5, en_Labels = [(''a'', ''b'')], en_Line = ''first'', en_stream = ''s''\<rparr>]"

theorem paging_is_complete_witness:
  "serves two_lines (\<lambda>q (s::unit). (Inr (take (nat (cq_Limit q)) (window_lines two_lines (cq_Start q) (cq_End q) (cq_Direction q))), s)) \<and>
   All (\<lambda>q s. (Inr (take (nat (cq_Limit q)) (window_lines two_lines (cq_Start q) (cq_End q) (cq_Direction q))), s)) ''{}'' 0 9 () =
     Some (None, ((), rev two_lines)) \<and>
   Tail (\<lambda>q s. (Inr (take (nat (cq_Limit q)) (window_lines two_lines (cq_Start q) (cq_End q) (cq_Direction q))), s)) ''{}'' 0 9 1 () =
     Some (Inr (take 1 two_lines), ())"
proof -
  let ?querier = "\<lambda>q (s::unit). (Inr (take (nat (cq_Limit q)) (window_lines two_lines (cq_Start q) (cq_End q) (cq_Direction q))), s)"
  have s: "serves two_lines ?querier" by (simp add: serves_def)
  have k: "distinct (map Entry_Key two_lines)" by code_simp
  have f: "sparse 5000 (window_lines two_lines 0 9 Forward)" by code_simp
  have w: "window_lines two_lines 0 9 Forward = rev two_lines"
    "rev (take (nat 1) (window_lines two_lines 0 9 Backward)) = take 1 two_lines" by code_simp+
  show ?thesis using paging_is_complete [OF s k f, of 1 "''{}''" "()"] s w by simp
qed

end
