(* ===== verification/CliFollow.thy ===== *)
theory CliFollow
  imports CliPages
begin

text \<open>
  Following a log by polling (\<^verbatim>\<open>cli/logs/follow.go\<close>): the follower's memory of what it emitted, one poll,
  and the loop that polls until the context ends. The querier, the clock and the context are given by
  the number of the poll.
\<close>

section \<open>The follower\<close>

definition FollowOverlap :: int where "FollowOverlap = 10000000000"
definition followMinInterval :: int where "followMinInterval = 500000000"
definition followMaxInterval :: int where "followMaxInterval = 2000000000"
definition followBackoffStep :: int where "followBackoffStep = 250000000"
definition followEndSlack :: int where "followEndSlack = 60000000000"
definition followErrorInterval :: int where "followErrorInterval = 10000000000"

text \<open>A nil \<^verbatim>\<open>seen\<close> and an empty one are read alike.\<close>

record Follower =
  fl_Query :: string
  fl_cursor :: int
  fl_seen :: "string \<rightharpoonup> int"
  fl_floor :: int

definition new_follower :: "string \<Rightarrow> Follower" where
  "new_follower query = \<lparr>fl_Query = query, fl_cursor = 0, fl_seen = Map.empty, fl_floor = 0\<rparr>"

abbreviation nanos :: "Entry \<Rightarrow> int" where
  "nanos e \<equiv> UnixNano (en_Time e)"

fun admit_loop :: "Entry list \<Rightarrow> Follower \<Rightarrow> Entry list \<times> Follower" where
  "admit_loop [] f = ([], f)"
| "admit_loop (e # es) f =
     (let ts = nanos e in
      if ts < fl_floor f then admit_loop es f
      else if fl_seen f (Entry_Key e) \<noteq> None then admit_loop es f
      else let r = admit_loop es (f\<lparr>fl_seen := (fl_seen f)(Entry_Key e \<mapsto> ts), fl_cursor := max (fl_cursor f) ts\<rparr>) in
        (e # fst r, snd r))"

definition prune :: "Follower \<Rightarrow> Follower" where
  "prune f =
     (let cutoff = wrap64 (fl_cursor f - (FollowOverlap + 1000000000)) in
      f\<lparr>fl_seen := (\<lambda>k. case fl_seen f k of None \<Rightarrow> None | Some ts \<Rightarrow> if ts < cutoff then None else Some ts)\<rparr>)"

definition admit :: "Follower \<Rightarrow> Entry list \<Rightarrow> Entry list \<times> Follower" where
  "admit f entries = (let r = admit_loop entries f in (fst r, prune (snd r)))"

definition Backlog :: "Follower \<Rightarrow> Entry list \<Rightarrow> Follower" where
  "Backlog f entries = (let f' = snd (admit f entries) in f'\<lparr>fl_floor := fl_cursor f'\<rparr>)"

section \<open>Polling\<close>

text \<open>
  \<open>fw_Done n\<close>: the wait ahead of poll \<open>n\<close> ended because the context did; \<open>fw_Err n\<close>: the context had
  ended when query \<open>n\<close> returned. The clock is read once at the start and once a poll.
\<close>

record follow_world =
  fw_QueryRange :: "nat \<Rightarrow> ClientQuery \<Rightarrow> cli_error + Entry list"
  fw_Done :: "nat \<Rightarrow> bool"
  fw_Err :: "nat \<Rightarrow> bool"
  fw_Now :: "nat \<Rightarrow> int"

datatype notice = LostContact cli_error | Reconnected

record run_state =
  fr_follower :: Follower
  fr_since :: int
  fr_interval :: int
  fr_failing :: bool
  fr_skipOverlap :: bool
  fr_queries :: "ClientQuery list"
  fr_emitted :: "Entry list"
  fr_status :: "notice list"

definition poll_start :: "run_state \<Rightarrow> int" where
  "poll_start st =
     (let cursor = fl_cursor (fr_follower st) in
      if cursor > 0 then (if fr_skipOverlap st then cursor else cursor - FollowOverlap) else fr_since st)"

definition next_interval :: "bool \<Rightarrow> Entry list \<Rightarrow> int \<Rightarrow> int" where
  "next_interval full fresh interval =
     (if full then 0
      else if fresh \<noteq> [] then followMinInterval
      else min (max interval followMinInterval + followBackoffStep) followMaxInterval)"

text \<open>A poll that answered.\<close>

definition accept :: "Entry list \<Rightarrow> run_state \<Rightarrow> run_state" where
  "accept entries st =
     (let st1 = (if fr_failing st then st\<lparr>fr_status := fr_status st @ [Reconnected], fr_failing := False\<rparr> else st);
          r = admit (fr_follower st1) entries;
          full = (MaxLimit \<le> int (length entries)) in
      st1\<lparr>fr_follower := snd r, fr_emitted := fr_emitted st1 @ fst r,
          fr_skipOverlap := (full \<and> fst r = []), fr_interval := next_interval full (fst r) (fr_interval st1)\<rparr>)"

text \<open>One turn of the loop: the value returned when it ends it, and the state.\<close>

definition poll :: "follow_world \<Rightarrow> run_state \<Rightarrow> cli_error option option \<times> run_state" where
  "poll w st =
     (let n = length (fr_queries st) in
      if fw_Done w n then (Some None, st)
      else
        let q = \<lparr>cq_Query = fl_Query (fr_follower st), cq_Start = poll_start st, cq_End = fw_Now w (Suc n) + followEndSlack,
                 cq_Limit = MaxLimit, cq_Direction = Forward\<rparr>;
            st1 = st\<lparr>fr_queries := fr_queries st @ [q]\<rparr> in
        if fw_Err w n then (Some None, st1)
        else (case fw_QueryRange w n q of
            Inl err \<Rightarrow>
              if Permanent err then (Some (Some err), st1)
              else (None, (if fr_failing st1 then st1 else st1\<lparr>fr_status := fr_status st1 @ [LostContact err], fr_failing := True\<rparr>)
                \<lparr>fr_interval := followErrorInterval\<rparr>)
          | Inr entries \<Rightarrow> (None, accept entries st1)))"

partial_function (option) run_loop :: "follow_world \<Rightarrow> run_state \<Rightarrow> (cli_error option \<times> run_state) option" where
  "run_loop w st = (case poll w st of (Some r, st') \<Rightarrow> Some (r, st') | (None, st') \<Rightarrow> run_loop w st')"

definition run_start :: "follow_world \<Rightarrow> Follower \<Rightarrow> run_state" where
  "run_start w f =
     \<lparr>fr_follower = f, fr_since = fw_Now w 0 - FollowOverlap, fr_interval = 0, fr_failing = False, fr_skipOverlap = False,
      fr_queries = [], fr_emitted = [], fr_status = []\<rparr>"

definition Follower_Run :: "follow_world \<Rightarrow> Follower \<Rightarrow> (cli_error option \<times> run_state) option" where
  "Follower_Run w f = run_loop w (run_start w f)"

text \<open>The states a run passes through, with the value it returned once it has.\<close>

inductive follows :: "follow_world \<Rightarrow> Follower \<Rightarrow> cli_error option option \<times> run_state \<Rightarrow> bool" for w f where
  start: "follows w f (None, run_start w f)"
| turn: "follows w f (None, st) \<Longrightarrow> follows w f (poll w st)"

text \<open>The backlog is recorded one entry at a time, as it is printed.\<close>

definition seeded :: "string \<Rightarrow> Entry list \<Rightarrow> Follower" where
  "seeded query entries = fold (\<lambda>e f. Backlog f [e]) entries (new_follower query)"

section \<open>What a follower remembers\<close>

text \<open>A querier whose answers hold nothing older than the second before the start asked for.\<close>

definition answers_window :: "follow_world \<Rightarrow> bool" where
  "answers_window w \<longleftrightarrow> (\<forall>n q es. fw_QueryRange w n q = Inr es \<longrightarrow>
     (\<forall>e \<in> set es. int64 (en_Time e) \<and> cq_Start q - 1000000000 \<le> en_Time e))"

text \<open>
  The memory \<open>f\<close> of a history \<open>H\<close> of admitted entries, which still knows the keys of those from \<open>c\<close> on.
\<close>

definition remembers :: "int \<Rightarrow> Follower \<Rightarrow> Entry list \<Rightarrow> bool" where
  "remembers c f H \<longleftrightarrow>
     0 \<le> fl_floor f \<and> fl_floor f \<le> fl_cursor f \<and> int64 (fl_cursor f) \<and> distinct (map Entry_Key H) \<and>
     (\<forall>e \<in> set H. 0 \<le> nanos e \<and> nanos e \<le> fl_cursor f) \<and>
     (\<forall>e \<in> set H. c \<le> nanos e \<longrightarrow> fl_seen f (Entry_Key e) \<noteq> None) \<and>
     (\<forall>k ts. fl_seen f k = Some ts \<longrightarrow> (\<exists>e \<in> set H. Entry_Key e = k \<and> nanos e = ts))"

abbreviation horizon :: "Follower \<Rightarrow> int" where
  "horizon f \<equiv> fl_cursor f - (FollowOverlap + 1000000000)"

lemma remembers_seen: "remembers c f H \<Longrightarrow> e \<in> set H \<Longrightarrow> c \<le> nanos e \<Longrightarrow> \<exists>ts. fl_seen f (Entry_Key e) = Some ts"
  unfolding remembers_def by simp

lemma remembers_from: "remembers c f H \<Longrightarrow> fl_seen f k = Some ts \<Longrightarrow> \<exists>e \<in> set H. Entry_Key e = k \<and> nanos e = ts"
  unfolding remembers_def by simp

lemma dec_no_nul: "CHR 0x00 \<notin> set (dec n)"
  by (rule list_all_notin [of is_digit]) (simp_all add: dec_digits is_digit_def)

lemma Itoa_no_nul: "CHR 0x00 \<notin> set (Itoa i)"
  by (simp add: Itoa_def dec_no_nul)

lemma split_at_nul:
  "a @ CHR 0x00 # x = b @ CHR 0x00 # y \<Longrightarrow> CHR 0x00 \<notin> set a \<Longrightarrow> CHR 0x00 \<notin> set b \<Longrightarrow> a = b"
proof (induction a arbitrary: b)
  case Nil
  then show ?case by (cases b) auto
next
  case (Cons c a)
  then show ?case by (cases b) auto
qed

lemma Entry_Key_nanos:
  assumes "Entry_Key d = Entry_Key e"
  shows "nanos d = nanos e"
proof -
  have "Itoa (nanos d) = Itoa (nanos e)"
    by (rule split_at_nul [OF assms [unfolded Entry_Key_def Let_def append_Cons append_Nil]]) (rule Itoa_no_nul)+
  then have "ParseInt (Itoa (nanos d)) = ParseInt (Itoa (nanos e))" by (rule arg_cong)
  moreover have "int64 (nanos d)" "int64 (nanos e)" by (simp_all add: UnixNano_def wrap64_int64)
  ultimately show ?thesis by (simp add: ParseInt_Itoa)
qed

lemma admit_loop_remembers:
  assumes "remembers c f H" "\<forall>e \<in> set es. fl_floor f \<le> nanos e \<longrightarrow> c \<le> nanos e" "admit_loop es f = (fresh, f')"
  shows "remembers c f' (H @ fresh) \<and> fl_floor f' = fl_floor f \<and> fl_Query f' = fl_Query f \<and> fl_cursor f \<le> fl_cursor f' \<and>
    (fl_cursor f' = fl_cursor f \<or> fl_cursor f' \<in> nanos ` set es) \<and>
    set fresh \<subseteq> {e \<in> set es. fl_floor f \<le> nanos e} \<and>
    (\<forall>e \<in> set es. fl_floor f \<le> nanos e \<longrightarrow> Entry_Key e \<in> Entry_Key ` set (H @ fresh))"
  using assms
proof (induction es arbitrary: f H fresh)
  case (Cons e es)
  have rest: "\<forall>e \<in> set es. fl_floor f \<le> nanos e \<longrightarrow> c \<le> nanos e" using Cons.prems(2) by simp
  show ?case
  proof (cases "nanos e < fl_floor f \<or> fl_seen f (Entry_Key e) \<noteq> None")
    case True
    then have "admit_loop es f = (fresh, f')" using Cons.prems(3) by (simp add: Let_def split: if_splits)
    note IH = Cons.IH [OF Cons.prems(1) rest this]
    have "Entry_Key e \<in> Entry_Key ` set (H @ fresh)" if ge: "fl_floor f \<le> nanos e"
    proof -
      obtain ts where "fl_seen f (Entry_Key e) = Some ts" using ge True by auto
      then obtain d where "d \<in> set H" "Entry_Key d = Entry_Key e" using remembers_from [OF Cons.prems(1)] by blast
      then show ?thesis by (auto intro: rev_image_eqI)
    qed
    then show ?thesis using IH by auto
  next
    case False
    define g where "g = f\<lparr>fl_seen := (fl_seen f)(Entry_Key e \<mapsto> nanos e), fl_cursor := max (fl_cursor f) (nanos e)\<rparr>"
    obtain fr where fr: "admit_loop es g = (fr, f')" "fresh = e # fr"
      using Cons.prems(3) False by (cases "admit_loop es g") (auto simp: Let_def g_def)
    have new: "Entry_Key e \<notin> Entry_Key ` set H"
    proof
      assume "Entry_Key e \<in> Entry_Key ` set H"
      then obtain d where d: "d \<in> set H" "Entry_Key d = Entry_Key e" by force
      then have "c \<le> nanos d" using Entry_Key_nanos [of d e] Cons.prems(2) False by simp
      then show False using remembers_seen [OF Cons.prems(1) d(1)] d(2) False by simp
    qed
    have "int64 (nanos e)" by (simp add: UnixNano_def wrap64_int64)
    then have "remembers c g (H @ [e])"
      using Cons.prems(1) False new by (auto simp: remembers_def g_def max_def)
    moreover have "\<forall>e \<in> set es. fl_floor g \<le> nanos e \<longrightarrow> c \<le> nanos e" using rest by (simp add: g_def)
    ultimately have "remembers c f' ((H @ [e]) @ fr) \<and> fl_floor f' = fl_floor g \<and> fl_Query f' = fl_Query g \<and> fl_cursor g \<le> fl_cursor f' \<and>
      (fl_cursor f' = fl_cursor g \<or> fl_cursor f' \<in> nanos ` set es) \<and> set fr \<subseteq> {e \<in> set es. fl_floor g \<le> nanos e} \<and>
      (\<forall>d \<in> set es. fl_floor g \<le> nanos d \<longrightarrow> Entry_Key d \<in> Entry_Key ` set ((H @ [e]) @ fr))"
      by (rule Cons.IH [OF _ _ fr(1)])
    then show ?thesis using fr(2) False by (auto simp: g_def max_def split: if_splits)
  qed
qed simp

lemma prune_remembers:
  assumes "remembers c f H" "c \<le> horizon f"
  shows "remembers (horizon f) (prune f) H"
proof -
  have "wrap64 (horizon f) = horizon f"
    using assms(1) by (intro wrap64_id) (auto simp: remembers_def int64_def FollowOverlap_def)
  moreover have "fl_seen f (Entry_Key e) = Some (nanos e)" if e: "e \<in> set H" "horizon f \<le> nanos e" for e
  proof -
    have "c \<le> nanos e" using e(2) assms(2) by linarith
    then obtain ts where ts: "fl_seen f (Entry_Key e) = Some ts" using remembers_seen [OF assms(1) e(1)] by blast
    obtain d where "Entry_Key d = Entry_Key e" "nanos d = ts" using remembers_from [OF assms(1) ts] by blast
    then show ?thesis using ts Entry_Key_nanos [of d e] by simp
  qed
  ultimately show ?thesis
    using assms(1) unfolding remembers_def prune_def by (auto simp: Let_def split: option.splits if_splits)
qed

lemma prune_fields [simp]:
  "fl_cursor (prune f) = fl_cursor f" "fl_floor (prune f) = fl_floor f" "fl_Query (prune f) = fl_Query f"
  by (simp_all add: prune_def Let_def)

lemma admit_remembers:
  assumes "remembers (horizon f) f H" "\<forall>e \<in> set es. fl_floor f \<le> nanos e \<longrightarrow> horizon f \<le> nanos e" "admit f es = (fresh, f')"
  shows "remembers (horizon f') f' (H @ fresh)" "fl_floor f' = fl_floor f" "fl_cursor f \<le> fl_cursor f'"
    "fl_cursor f' = fl_cursor f \<or> fl_cursor f' \<in> nanos ` set es" "set fresh \<subseteq> {e \<in> set es. fl_floor f \<le> nanos e}"
    "\<forall>e \<in> set es. fl_floor f \<le> nanos e \<longrightarrow> Entry_Key e \<in> Entry_Key ` set (H @ fresh)"
proof -
  obtain g where g: "admit_loop es f = (fresh, g)" "f' = prune g"
    using assms(3) by (cases "admit_loop es f") (auto simp: admit_def Let_def)
  note a = admit_loop_remembers [OF assms(1,2) g(1)]
  show "remembers (horizon f') f' (H @ fresh)"
    using prune_remembers [of "horizon f" g "H @ fresh"] a g(2) by simp
  show "fl_floor f' = fl_floor f" "fl_cursor f \<le> fl_cursor f'" "fl_cursor f' = fl_cursor f \<or> fl_cursor f' \<in> nanos ` set es"
    "set fresh \<subseteq> {e \<in> set es. fl_floor f \<le> nanos e}"
    "\<forall>e \<in> set es. fl_floor f \<le> nanos e \<longrightarrow> Entry_Key e \<in> Entry_Key ` set (H @ fresh)"
    using a g(2) by simp_all
qed

text \<open>The memory after a backlog: its floor is the newest of it.\<close>

definition seeds :: "Follower \<Rightarrow> Entry list \<Rightarrow> Entry list \<Rightarrow> bool" where
  "seeds f bs H \<longleftrightarrow>
     remembers (horizon f) f H \<and> set H \<subseteq> set bs \<and> fl_floor f = fl_cursor f \<and> (fl_cursor f = 0 \<or> fl_cursor f \<in> nanos ` set bs) \<and>
     (\<forall>b \<in> set bs. nanos b \<le> fl_floor f \<and> (nanos b < fl_floor f \<or> Entry_Key b \<in> Entry_Key ` set H))"

lemma Backlog_seeds:
  assumes "seeds f bs H"
  shows "\<exists>H'. seeds (Backlog f [b]) (bs @ [b]) H'"
proof -
  obtain fresh f' where a: "admit f [b] = (fresh, f')" by fastforce
  have r: "remembers (horizon f) f H" "\<forall>e \<in> set [b]. fl_floor f \<le> nanos e \<longrightarrow> horizon f \<le> nanos e"
    using assms by (auto simp: seeds_def FollowOverlap_def)
  note ar = admit_remembers [OF r a]
  have B: "Backlog f [b] = f'\<lparr>fl_floor := fl_cursor f'\<rparr>" using a by (simp add: Backlog_def Let_def)
  have "nanos b \<le> fl_cursor f'"
  proof (cases "fl_floor f \<le> nanos b")
    case True
    then obtain e where "e \<in> set (H @ fresh)" "Entry_Key e = Entry_Key b" using ar(6) by force
    then show ?thesis using ar(1) Entry_Key_nanos [of e b] unfolding remembers_def by fastforce
  next
    case False
    then show ?thesis using ar(2,3) assms by (simp add: seeds_def)
  qed
  moreover have "remembers (horizon f') (f'\<lparr>fl_floor := fl_cursor f'\<rparr>) (H @ fresh)" using ar(1) by (simp add: remembers_def)
  moreover have "nanos b < fl_cursor f' \<or> Entry_Key b \<in> Entry_Key ` set (H @ fresh)"
    using ar(3,6) assms by (auto simp: seeds_def)
  moreover have "nanos d \<le> fl_cursor f' \<and> (nanos d < fl_cursor f' \<or> Entry_Key d \<in> Entry_Key ` set (H @ fresh))" if "d \<in> set bs" for d
    using that assms ar(3) by (auto simp: seeds_def)
  ultimately have "seeds (Backlog f [b]) (bs @ [b]) (H @ fresh)"
    using assms ar(4,5) unfolding seeds_def B by auto
  then show ?thesis by blast
qed

lemma seeded_seeds: "\<exists>H. seeds (seeded query bs) bs H"
proof (induction bs rule: rev_induct)
  case Nil
  have "seeds (seeded query []) [] []"
    by (simp add: seeds_def seeded_def new_follower_def remembers_def int64_def)
  then show ?case by blast
next
  case (snoc b bs)
  then show ?case using Backlog_seeds by (auto simp: seeded_def)
qed

section \<open>What a run does\<close>

text \<open>Notices alternate, a lost contact first: whether contact is lost after them, if they do.\<close>

fun told :: "bool \<Rightarrow> notice list \<Rightarrow> bool option" where
  "told failing [] = Some failing"
| "told False (LostContact e # ns) = told True ns"
| "told True (Reconnected # ns) = told False ns"
| "told failing (n # ns) = None"

lemma told_append: "told failing ns = Some b \<Longrightarrow> told failing (ns @ ms) = told b ms"
  by (induction failing ns rule: told.induct) auto

text \<open>What holds throughout a run, and what each answer has become.\<close>

definition answered :: "follow_world \<Rightarrow> run_state \<Rightarrow> nat \<Rightarrow> Entry \<Rightarrow> bool" where
  "answered w st n e \<longleftrightarrow> n < length (fr_queries st) \<and> \<not> fw_Err w n \<and>
     (case fw_QueryRange w n (fr_queries st ! n) of Inl _ \<Rightarrow> False | Inr es \<Rightarrow> e \<in> set es)"

definition run_ok :: "follow_world \<Rightarrow> Follower \<Rightarrow> Entry list \<Rightarrow> run_state \<Rightarrow> bool" where
  "run_ok w f0 H st \<longleftrightarrow>
     remembers (horizon (fr_follower st)) (fr_follower st) (H @ fr_emitted st) \<and>
     fl_floor (fr_follower st) = fl_floor f0 \<and>
     (\<forall>e \<in> set (fr_emitted st). fl_floor f0 \<le> nanos e \<and> (\<exists>n. answered w st n e)) \<and>
     (\<forall>n e. answered w st n e \<and> fl_floor f0 \<le> nanos e \<longrightarrow> Entry_Key e \<in> Entry_Key ` set (H @ fr_emitted st)) \<and>
     0 \<le> fr_interval st \<and> fr_interval st \<le> followErrorInterval \<and>
     told False (fr_status st) = Some (fr_failing st)"

lemma answered_snoc:
  "fr_queries st' = fr_queries st @ [q] \<Longrightarrow> answered w st' n e \<longleftrightarrow> answered w st n e \<or>
     (n = length (fr_queries st) \<and> \<not> fw_Err w n \<and> (case fw_QueryRange w n q of Inl _ \<Rightarrow> False | Inr es \<Rightarrow> e \<in> set es))"
  by (auto simp: answered_def nth_append less_Suc_eq)

lemma next_interval_bounds: "0 \<le> next_interval full fresh i \<and> next_interval full fresh i \<le> followErrorInterval"
  by (auto simp: next_interval_def followMinInterval_def followMaxInterval_def followBackoffStep_def followErrorInterval_def)

text \<open>A poll asks from within the memory of the follower.\<close>

lemma poll_in_memory:
  assumes "answers_window w" "fw_QueryRange w n q = Inr es" "cq_Start q = poll_start st"
    "remembers (horizon (fr_follower st)) (fr_follower st) H"
  shows "\<forall>e \<in> set es. fl_floor (fr_follower st) \<le> nanos e \<longrightarrow> horizon (fr_follower st) \<le> nanos e"
proof (intro ballI impI)
  fix e assume e: "e \<in> set es" "fl_floor (fr_follower st) \<le> nanos e"
  have t: "int64 (en_Time e)" "cq_Start q - 1000000000 \<le> en_Time e" using assms(1,2) e(1) by (auto simp: answers_window_def)
  then have n: "nanos e = en_Time e" by (simp add: UnixNano_def wrap64_id)
  show "horizon (fr_follower st) \<le> nanos e"
  proof (cases "fl_cursor (fr_follower st) > 0")
    case True
    then show ?thesis using t(2) n assms(3) by (auto simp: poll_start_def FollowOverlap_def Let_def split: if_splits)
  next
    case False
    then show ?thesis using e(2) assms(4) by (simp add: remembers_def FollowOverlap_def)
  qed
qed

lemma accept_ok:
  assumes "run_ok w f0 H st" "answers_window w" "\<not> fw_Err w (length (fr_queries st))"
    "fw_QueryRange w (length (fr_queries st)) q = Inr es" "cq_Start q = poll_start st"
  shows "run_ok w f0 H (accept es (st\<lparr>fr_queries := fr_queries st @ [q]\<rparr>))"
proof -
  define st' where "st' = accept es (st\<lparr>fr_queries := fr_queries st @ [q]\<rparr>)"
  obtain fresh f' where a: "admit (fr_follower st) es = (fresh, f')" by fastforce
  have r: "remembers (horizon (fr_follower st)) (fr_follower st) (H @ fr_emitted st)" "fl_floor (fr_follower st) = fl_floor f0"
    using assms(1) by (simp_all add: run_ok_def)
  note ar = admit_remembers [OF r(1) poll_in_memory [OF assms(2,4,5) r(1)] a]
  have f: "fr_follower st' = f'" "fr_emitted st' = fr_emitted st @ fresh" "fr_queries st' = fr_queries st @ [q]"
    "\<exists>full i. fr_interval st' = next_interval full fresh i"
    "fr_status st' = fr_status st @ (if fr_failing st then [Reconnected] else [])" "\<not> fr_failing st'"
    using a by (auto simp: st'_def accept_def Let_def)
  have ans: "answered w st' n e \<longleftrightarrow> answered w st n e \<or> (n = length (fr_queries st) \<and> e \<in> set es)" for n e
    using answered_snoc [OF f(3)] assms(3,4) by auto
  have "told False (fr_status st') = Some (fr_failing st')"
    using assms(1) f(5,6) told_append [of False "fr_status st" "fr_failing st"] by (auto simp: run_ok_def)
  moreover have "0 \<le> fr_interval st' \<and> fr_interval st' \<le> followErrorInterval" using f(4) next_interval_bounds by auto
  moreover have "Entry_Key e \<in> Entry_Key ` set (H @ fr_emitted st')" if e: "answered w st' n e" "fl_floor f0 \<le> nanos e" for n e
  proof (cases "answered w st n e")
    case True
    then have "Entry_Key e \<in> Entry_Key ` set (H @ fr_emitted st)" using e(2) assms(1) unfolding run_ok_def by blast
    then show ?thesis using f(2) by auto
  next
    case False
    then show ?thesis using e ar(6) r(2) f(2) by (simp add: ans)
  qed
  moreover have "fl_floor f0 \<le> nanos e \<and> (\<exists>n. answered w st' n e)" if "e \<in> set (fr_emitted st')" for e
    using that assms(1) ar(5) r(2) f(2) by (auto simp: ans run_ok_def)
  ultimately have "run_ok w f0 H st'"
    using ar(1,2) r(2) f(1,2) unfolding run_ok_def by auto
  then show ?thesis by (simp add: st'_def)
qed

lemma poll_ok:
  assumes "run_ok w f0 H st" "answers_window w"
  shows "run_ok w f0 H (snd (poll w st)) \<and> (\<forall>e. fst (poll w st) = Some (Some e) \<longrightarrow> Permanent e)"
proof (cases "fw_Done w (length (fr_queries st))")
  case True
  then show ?thesis using assms(1) by (simp add: poll_def Let_def)
next
  case False
  let ?n = "length (fr_queries st)"
  define q where "q = \<lparr>cq_Query = fl_Query (fr_follower st), cq_Start = poll_start st, cq_End = fw_Now w (Suc ?n) + followEndSlack,
                 cq_Limit = MaxLimit, cq_Direction = Forward\<rparr>"
  define st1 where "st1 = st\<lparr>fr_queries := fr_queries st @ [q]\<rparr>"
  have p: "poll w st = (if fw_Err w ?n then (Some None, st1)
        else (case fw_QueryRange w ?n q of
            Inl err \<Rightarrow>
              if Permanent err then (Some (Some err), st1)
              else (None, (if fr_failing st1 then st1 else st1\<lparr>fr_status := fr_status st1 @ [LostContact err], fr_failing := True\<rparr>)
                \<lparr>fr_interval := followErrorInterval\<rparr>)
          | Inr entries \<Rightarrow> (None, accept entries st1)))"
    using False by (simp add: poll_def Let_def q_def st1_def split: sum.split)
  show ?thesis
  proof (cases "fw_Err w ?n \<or> (\<exists>err. fw_QueryRange w ?n q = Inl err)")
    case True
    define st' where "st' = snd (poll w st)"
    have f: "fr_follower st' = fr_follower st" "fr_emitted st' = fr_emitted st" "fr_queries st' = fr_queries st @ [q]"
      "fr_interval st' = fr_interval st \<or> fr_interval st' = followErrorInterval"
      "(fr_status st' = fr_status st \<and> fr_failing st' = fr_failing st) \<or>
       (\<not> fr_failing st \<and> fr_failing st' \<and> (\<exists>err. fr_status st' = fr_status st @ [LostContact err]))"
      using True p by (auto simp: st'_def st1_def split: sum.splits)
    have ans: "answered w st' n e \<longleftrightarrow> answered w st n e" for n e
      using answered_snoc [OF f(3)] True by (auto split: sum.splits)
    have "told False (fr_status st') = Some (fr_failing st')"
      using assms(1) f(5) told_append [of False "fr_status st" "fr_failing st"] by (auto simp: run_ok_def)
    then have "run_ok w f0 H st'" using assms(1) f(1,2,4) by (auto simp: run_ok_def ans followErrorInterval_def)
    then show ?thesis using True p by (auto simp: st'_def split: sum.splits)
  next
    case False
    then obtain es where es: "\<not> fw_Err w ?n" "fw_QueryRange w ?n q = Inr es" by (cases "fw_QueryRange w ?n q") auto
    then show ?thesis
      using p accept_ok [OF assms es] by (simp add: q_def st1_def)
  qed
qed

lemma follows_ok:
  assumes "answers_window w" "seeds f bs H" "follows w f rst"
  shows "run_ok w f H (snd rst) \<and> (\<forall>e. fst rst = Some (Some e) \<longrightarrow> Permanent e)"
  using assms(3)
proof (induction rule: follows.induct)
  case start
  have "run_ok w f H (run_start w f)"
    using assms(2) by (simp add: run_ok_def run_start_def seeds_def answered_def followErrorInterval_def)
  then show ?case by simp
next
  case (turn st)
  then show ?case using poll_ok [OF _ assms(1)] by simp
qed

lemma run_loop_ends:
  assumes "fw_Done w n" "length (fr_queries st) \<le> n" "follows w f (None, st)"
  shows "\<exists>r st'. run_loop w st = Some (r, st') \<and> follows w f (Some r, st')"
  using assms(2,3)
proof (induction "n - length (fr_queries st)" arbitrary: st rule: less_induct)
  case less
  obtain res st1 where p: "poll w st = (res, st1)" by fastforce
  have f: "follows w f (res, st1)" using follows.turn [OF less.prems(2)] p by simp
  show ?case
  proof (cases res)
    case (Some r)
    then show ?thesis using p f by (intro exI [of _ r] exI [of _ st1]) (simp add: run_loop.simps [of w st])
  next
    case None
    then have nd: "\<not> fw_Done w (length (fr_queries st))" using p by (auto simp: poll_def Let_def)
    have "length (fr_queries st1) = Suc (length (fr_queries st))"
      using p None nd by (auto simp: poll_def accept_def Let_def split: if_splits sum.splits)
    moreover have "length (fr_queries st) \<noteq> n" using nd assms(1) by auto
    ultimately have "\<exists>r st'. run_loop w st1 = Some (r, st') \<and> follows w f (Some r, st')"
      using less.prems(1) f None by (intro less.hyps) auto
    then show ?thesis using p None by (simp add: run_loop.simps [of w st])
  qed
qed

lemma run_is_exact:
  assumes "answers_window w" "follows w (seeded query backlog) (res, st)"
  shows "distinct (map Entry_Key (fr_emitted st)) \<and>
    (\<forall>e \<in> set (fr_emitted st). Entry_Key e \<notin> Entry_Key ` set backlog \<and> (\<forall>b \<in> set backlog. nanos b \<le> nanos e) \<and> (\<exists>n. answered w st n e)) \<and>
    (\<forall>n e. answered w st n e \<and> 0 \<le> nanos e \<and> (\<forall>b \<in> set backlog. nanos b \<le> nanos e) \<longrightarrow>
       Entry_Key e \<in> Entry_Key ` set (backlog @ fr_emitted st)) \<and>
    told False (fr_status st) = Some (fr_failing st) \<and> 0 \<le> fr_interval st \<and> fr_interval st \<le> followErrorInterval \<and>
    (\<forall>e. res = Some (Some e) \<longrightarrow> Permanent e) \<and>
    ((\<exists>n. fw_Done w n) \<longrightarrow> (\<exists>r st'. Follower_Run w (seeded query backlog) = Some (r, st') \<and> follows w (seeded query backlog) (Some r, st')))"
proof -
  obtain H where H: "seeds (seeded query backlog) backlog H" using seeded_seeds by blast
  let ?f = "seeded query backlog"
  have ok: "run_ok w ?f H st" and perm: "\<forall>e. res = Some (Some e) \<longrightarrow> Permanent e" using follows_ok [OF assms(1) H assms(2)] by simp_all
  have floor: "fl_floor ?f = 0 \<or> fl_floor ?f \<in> nanos ` set backlog" and below: "\<forall>b \<in> set backlog. nanos b \<le> fl_floor ?f"
    and kept: "\<forall>b \<in> set backlog. nanos b < fl_floor ?f \<or> Entry_Key b \<in> Entry_Key ` set H" and sub: "set H \<subseteq> set backlog"
    using H by (auto simp: seeds_def)
  have emitted: "\<forall>e \<in> set (fr_emitted st). fl_floor ?f \<le> nanos e \<and> (\<exists>n. answered w st n e)"
    and complete: "\<And>n e. answered w st n e \<Longrightarrow> fl_floor ?f \<le> nanos e \<Longrightarrow> Entry_Key e \<in> Entry_Key ` set (H @ fr_emitted st)"
    and keys: "distinct (map Entry_Key (H @ fr_emitted st))"
    using ok unfolding run_ok_def remembers_def by blast+
  have new: "Entry_Key e \<notin> Entry_Key ` set backlog" if e: "e \<in> set (fr_emitted st)" for e
  proof
    assume "Entry_Key e \<in> Entry_Key ` set backlog"
    then obtain b where b: "b \<in> set backlog" "Entry_Key b = Entry_Key e" by force
    have "fl_floor ?f \<le> nanos b" using emitted e Entry_Key_nanos [OF b(2)] by simp
    then have "\<not> nanos b < fl_floor ?f" by simp
    then have "Entry_Key b \<in> Entry_Key ` set H" using kept b(1) by blast
    then have "Entry_Key e \<in> Entry_Key ` set H" by (simp only: b(2))
    then show False using keys e by auto
  qed
  have "Entry_Key e \<in> Entry_Key ` set (backlog @ fr_emitted st)"
    if e: "answered w st n e" "0 \<le> nanos e" "\<forall>b \<in> set backlog. nanos b \<le> nanos e" for n e
  proof -
    have "fl_floor ?f \<le> nanos e" using floor e(2,3) by auto
    then show ?thesis using complete [OF e(1)] sub by auto
  qed
  moreover have "\<exists>r st'. Follower_Run w ?f = Some (r, st') \<and> follows w ?f (Some r, st')" if "fw_Done w n" for n
    unfolding Follower_Run_def by (rule run_loop_ends [OF that]) (simp_all add: run_start_def follows.start [unfolded run_start_def])
  moreover have "\<forall>b \<in> set backlog. nanos b \<le> nanos e" if "e \<in> set (fr_emitted st)" for e
    using emitted below that by force
  ultimately show ?thesis
    using new emitted keys perm ok by (auto simp: run_ok_def)
qed

text \<open>
  The order of what is emitted: after each other, what the polls answered, each poll's in the order of its
  answer. And when a run ends: it polls as long as the context has not ended.
\<close>

definition poll_answer :: "follow_world \<Rightarrow> run_state \<Rightarrow> nat \<Rightarrow> Entry list" where
  "poll_answer w st n = (if fw_Err w n then [] else case fw_QueryRange w n (fr_queries st ! n) of Inl _ \<Rightarrow> [] | Inr es \<Rightarrow> es)"

definition in_answer_order :: "follow_world \<Rightarrow> run_state \<Rightarrow> bool" where
  "in_answer_order w st \<longleftrightarrow>
     (\<exists>chunks. fr_emitted st = concat chunks \<and>
        list_all2 (\<lambda>n c. subseq c (poll_answer w st n)) [0..<length (fr_queries st)] chunks)"

lemma admit_subseq: "subseq (fst (admit f es)) es"
proof -
  have "subseq (fst (admit_loop es f)) es"
    by (induction es f rule: admit_loop.induct) (auto simp: Let_def)
  then show ?thesis by (simp add: admit_def Let_def)
qed

lemma in_answer_order_snoc:
  assumes "in_answer_order w st" "fr_queries st' = fr_queries st @ [q]" "fr_emitted st' = fr_emitted st @ c"
    "subseq c (poll_answer w st' (length (fr_queries st)))"
  shows "in_answer_order w st'"
proof -
  obtain chunks where ch: "fr_emitted st = concat chunks"
    "list_all2 (\<lambda>n c. subseq c (poll_answer w st n)) [0..<length (fr_queries st)] chunks"
    using assms(1) by (auto simp: in_answer_order_def)
  have "poll_answer w st' n = poll_answer w st n" if "n < length (fr_queries st)" for n
    using that assms(2) by (simp add: poll_answer_def nth_append)
  then have "list_all2 (\<lambda>n c. subseq c (poll_answer w st' n)) [0..<length (fr_queries st)] chunks"
    using ch(2) by (auto simp: list_all2_conv_all_nth)
  then show ?thesis unfolding in_answer_order_def
    using ch(1) assms(2-4) by (intro exI [of _ "chunks @ [c]"]) (simp add: list_all2_appendI)
qed

lemma poll_cases:
  assumes "poll w st = (res, st')" "\<not> fw_Done w (length (fr_queries st))"
  shows "\<exists>q c. fr_queries st' = fr_queries st @ [q] \<and> fr_emitted st' = fr_emitted st @ c \<and>
    subseq c (poll_answer w st' (length (fr_queries st))) \<and> (res = Some None \<longrightarrow> fw_Err w (length (fr_queries st)))"
  using assms admit_subseq by (auto simp: poll_def poll_answer_def accept_def Let_def split: if_splits sum.splits)

lemma follows_order:
  assumes "follows w f rst"
  shows "in_answer_order w (snd rst) \<and> (\<forall>n < length (fr_queries (snd rst)). \<not> fw_Done w n) \<and>
    (fst rst = Some None \<longrightarrow> fw_Done w (length (fr_queries (snd rst))) \<or>
       fr_queries (snd rst) \<noteq> [] \<and> fw_Err w (length (fr_queries (snd rst)) - 1))"
  using assms
proof (induction rule: follows.induct)
  case start
  show ?case by (simp add: in_answer_order_def run_start_def)
next
  case (turn st)
  show ?case
  proof (cases "fw_Done w (length (fr_queries st))")
    case True
    then show ?thesis using turn.IH by (simp add: poll_def Let_def)
  next
    case False
    obtain res st' where p: "poll w st = (res, st')" by fastforce
    from poll_cases [OF p False] obtain q c where c: "fr_queries st' = fr_queries st @ [q]" "fr_emitted st' = fr_emitted st @ c"
      "subseq c (poll_answer w st' (length (fr_queries st)))" "res = Some None \<longrightarrow> fw_Err w (length (fr_queries st))" by blast
    then have "in_answer_order w st'" using in_answer_order_snoc [of w st st' q c] turn.IH by simp
    then show ?thesis using p c False turn.IH by (auto simp: less_Suc_eq)
  qed
qed

section \<open>Property\<close>

text \<open>
  C32. Following a log repeats nothing and loses nothing. Against a querier whose answers hold nothing
  older than the second before the start they were asked from, at every moment of a run that followed
  a backlog: no two emitted lines have the same key, none has the key of a backlog line or is older than
  one, and each came from an answer; and every line of every answer that is not older than the backlog
  has been emitted or was in the backlog. Notices of lost and regained contact alternate, waits lie
  between nothing and ten seconds, only errors a retry cannot fix end a run with an error, and a run
  whose context ends does return.
\<close>

theorem following_is_exact:
  assumes "answers_window w" "follows w (seeded query backlog) (res, st)"
  shows "distinct (map Entry_Key (fr_emitted st)) \<and>
    (\<forall>e \<in> set (fr_emitted st). Entry_Key e \<notin> Entry_Key ` set backlog \<and> (\<forall>b \<in> set backlog. nanos b \<le> nanos e) \<and> (\<exists>n. answered w st n e)) \<and>
    (\<forall>n e. answered w st n e \<and> 0 \<le> nanos e \<and> (\<forall>b \<in> set backlog. nanos b \<le> nanos e) \<longrightarrow>
       Entry_Key e \<in> Entry_Key ` set (backlog @ fr_emitted st)) \<and>
    told False (fr_status st) = Some (fr_failing st) \<and> 0 \<le> fr_interval st \<and> fr_interval st \<le> followErrorInterval \<and>
    (\<forall>e. res = Some (Some e) \<longrightarrow> Permanent e) \<and>
    ((\<exists>n. fw_Done w n) \<longrightarrow> (\<exists>r st'. Follower_Run w (seeded query backlog) = Some (r, st') \<and> follows w (seeded query backlog) (Some r, st')))"
  by (rule run_is_exact [OF assms])

definition two_line_world :: follow_world where
  "two_line_world = \<lparr>fw_QueryRange = (\<lambda>n q. Inr (filter (\<lambda>e. cq_Start q \<le> en_Time e) (rev two_lines))),
     fw_Done = (\<lambda>n. n = 1), fw_Err = (\<lambda>_. False), fw_Now = (\<lambda>_. 9)\<rparr>"

theorem following_is_exact_witness:
  "answers_window two_line_world \<and>
   map en_Line (fr_emitted (snd (poll two_line_world (run_start two_line_world (seeded ''{}'' (drop 1 two_lines)))))) = [''second''] \<and>
   (\<exists>r st'. Follower_Run two_line_world (seeded ''{}'' (drop 1 two_lines)) = Some (r, st'))"
proof -
  let ?f = "seeded ''{}'' (drop 1 two_lines)"
  have w: "answers_window two_line_world" by (auto simp: answers_window_def two_line_world_def two_lines_def int64_def)
  have e: "map en_Line (fr_emitted (snd (poll two_line_world (run_start two_line_world ?f)))) = [''second'']" by code_simp
  have d: "fw_Done two_line_world 1" by (simp add: two_line_world_def)
  have "follows two_line_world ?f (poll two_line_world (run_start two_line_world ?f))" by (intro follows.turn follows.start)
  then have "follows two_line_world ?f (fst (poll two_line_world (run_start two_line_world ?f)), snd (poll two_line_world (run_start two_line_world ?f)))"
    by simp
  from following_is_exact [OF w this] show ?thesis using w e d by blast
qed

end
