(* ===== verification/CliCommand.thy ===== *)
theory CliCommand
  imports CliFollow Selector
begin

text \<open>
  The commands of the datumctl plugin (\<^verbatim>\<open>cli/internal/command\<close>): windows and flags, printing, the hint an
  empty result gives, and the \<^verbatim>\<open>logs\<close> and \<^verbatim>\<open>labels\<close> commands over the client library. The flag parser, the
  clock, the writers, the formatting of times and the JSON encoder are parameters; a command that does
  not return is \<open>None\<close>.
\<close>

section \<open>Errors and flags\<close>

datatype cmd_error =
    UserError string string
  | CmdAPI cli_error
  | CmdWrite string
  | CmdFlags string

text \<open>
  \<open>ml_rfc3339\<close> and \<open>ml_duration\<close> are \<^verbatim>\<open>time.Parse\<close> and \<^verbatim>\<open>time.ParseDuration\<close>; \<open>ml_stamp utc t\<close> is a line's time in
  UTC or in the local zone, \<open>ml_RFC3339\<close> the time in a notice; \<open>ml_json\<close> and \<open>ml_jsonStrings\<close> encode a line
  and a list; \<open>ml_write n\<close> is the error of write \<open>n\<close> to the output, if any; \<open>ml_isp\<close> is \<^verbatim>\<open>unicode.IsPrint\<close> past
  ASCII.
\<close>

record CmdLib =
  ml_rfc3339 :: "string \<Rightarrow> int option"
  ml_duration :: "string \<Rightarrow> int option"
  ml_stamp :: "bool \<Rightarrow> int \<Rightarrow> string"
  ml_RFC3339 :: "int \<Rightarrow> string"
  ml_json :: "Entry \<Rightarrow> string"
  ml_jsonStrings :: "string list \<Rightarrow> string"
  ml_write :: "nat \<Rightarrow> string option"
  ml_isp :: "nat \<Rightarrow> bool"

record cmd_flags =
  fg_project :: string
  fg_projectChanged :: bool
  fg_output :: string

record logsOptions =
  lo_since :: string
  lo_start :: string
  lo_end :: string
  lo_limit :: int
  lo_follow :: bool
  lo_labels :: bool
  lo_utc :: bool

definition outputFormat :: "CmdLib \<Rightarrow> cmd_flags \<Rightarrow> cmd_error + string" where
  "outputFormat lib fl =
     (if fg_output fl \<in> {[], ''table'', ''text''} then Inr ''text''
      else if fg_output fl = ''json'' then Inr ''json''
      else Inl (UserError (''unsupported --output '' @ Quote (ml_isp lib) (fg_output fl)) ''use one of: table, json''))"

definition defaultSince :: int where "defaultSince = 3600000000000"

definition cmd_parseTime :: "CmdLib \<Rightarrow> string \<Rightarrow> string \<Rightarrow> cmd_error + int" where
  "cmd_parseTime lib flag s =
     (case ParseInt s of
        Some secs \<Rightarrow> Inr (time_Unix secs 0)
      | None \<Rightarrow> (case ml_rfc3339 lib s of
          Some t \<Rightarrow> Inr t
        | None \<Rightarrow> Inl (UserError (''invalid '' @ flag @ '' '' @ Quote (ml_isp lib) s)
            ''use an RFC3339 time such as 2026-10-06T09:00:00Z, or unix seconds'')))"

text \<open>A number of days is a \<^verbatim>\<open>time.Duration\<close>, 64 bits of nanoseconds.\<close>

definition parseSince :: "CmdLib \<Rightarrow> string \<Rightarrow> cmd_error + int" where
  "parseSince lib s =
     (let bad = Inl (UserError (''invalid --since '' @ Quote (ml_isp lib) s) ''use a positive duration such as 15m, 2h or 7d'') in
      case CutSuffix s ''d'' of
        Some days \<Rightarrow> (case ParseInt days of
            Some n \<Rightarrow> if n > 0 then Inr (wrap64 (wrap64 (n * 24) * 3600000000000)) else bad
          | None \<Rightarrow> bad)
      | None \<Rightarrow> (case ml_duration lib s of
            Some d \<Rightarrow> if d > 0 then Inr d else bad
          | None \<Rightarrow> bad))"

definition window_end :: "CmdLib \<Rightarrow> int \<Rightarrow> string \<Rightarrow> cmd_error + int" where
  "window_end lib now till = (if till \<noteq> [] then cmd_parseTime lib ''--end'' till else Inr now)"

definition window_start :: "CmdLib \<Rightarrow> int \<Rightarrow> string \<Rightarrow> string \<Rightarrow> cmd_error + int" where
  "window_start lib e since start =
     (if start \<noteq> [] then cmd_parseTime lib ''--start'' start
      else if since \<noteq> [] then (case parseSince lib since of Inl err \<Rightarrow> Inl err | Inr d \<Rightarrow> Inr (e - d))
      else Inr (e - defaultSince))"

definition resolveWindow :: "CmdLib \<Rightarrow> int \<Rightarrow> string \<Rightarrow> string \<Rightarrow> string \<Rightarrow> cmd_error + int \<times> int" where
  "resolveWindow lib now since start till =
     (if since \<noteq> [] \<and> start \<noteq> [] then Inl (UserError ''--since and --start are mutually exclusive; pass only one'' [])
      else case window_end lib now till of
        Inl err \<Rightarrow> Inl err
      | Inr e \<Rightarrow>
          (case window_start lib e since start of
             Inl err \<Rightarrow> Inl err
           | Inr s \<Rightarrow> if \<not> s < e then Inl (UserError ''the window is empty: its start is not before its end'' []) else Inr (s, e)))"

section \<open>Printing\<close>

definition formatLabels :: "CmdLib \<Rightarrow> (string \<times> string) list \<Rightarrow> string" where
  "formatLabels lib labels =
     ''{'' @ JoinStr (map (\<lambda>k. k @ ''='' @ Quote (ml_isp lib) (case map_of labels k of None \<Rightarrow> [] | Some v \<Rightarrow> v))
       (sort_strings (remdups (map fst labels)))) '', '' @ ''}''"

record printer =
  pr_json :: bool
  pr_labels :: bool
  pr_utc :: bool
  pr_printed :: nat
  pr_err :: "string option"
  pr_out :: "string list"

definition entry_text :: "CmdLib \<Rightarrow> printer \<Rightarrow> Entry \<Rightarrow> string" where
  "entry_text lib p e =
     (if pr_json p then ml_json lib e
      else ml_stamp lib (pr_utc p) (en_Time e) @
        (if pr_labels p \<or> en_Line e = [] then '' '' @ formatLabels lib (en_Labels e) else []) @
        (if en_Line e \<noteq> [] then '' '' @ en_Line e else []) @ [CHR 0x0A])"

text \<open>\<^verbatim>\<open>printed\<close> counts the writes attempted.\<close>

definition emit :: "CmdLib \<Rightarrow> Entry \<Rightarrow> printer \<Rightarrow> printer" where
  "emit lib e p =
     (if pr_err p \<noteq> None then p
      else case ml_write lib (pr_printed p) of
        Some err \<Rightarrow> p\<lparr>pr_printed := Suc (pr_printed p), pr_err := Some err\<rparr>
      | None \<Rightarrow> p\<lparr>pr_printed := Suc (pr_printed p), pr_out := pr_out p @ [entry_text lib p e]\<rparr>)"

definition emit_all :: "CmdLib \<Rightarrow> Entry list \<Rightarrow> printer \<Rightarrow> printer" where
  "emit_all lib es p = fold (emit lib) es p"

definition new_printer :: "string \<Rightarrow> logsOptions \<Rightarrow> printer" where
  "new_printer format o' =
     \<lparr>pr_json = (format = ''json''), pr_labels = lo_labels o', pr_utc = lo_utc o', pr_printed = 0, pr_err = None, pr_out = []\<rparr>"

section \<open>The hint of an empty result\<close>

fun unquoted_from :: "bool \<Rightarrow> string \<Rightarrow> string" where
  "unquoted_from inQuote [] = []"
| "unquoted_from True (c # s) =
     (if c = CHR 0x5C then (case s of [] \<Rightarrow> [] | d # t \<Rightarrow> unquoted_from True t)
      else if c = CHR 0x22 then CHR '' '' # unquoted_from False s
      else unquoted_from True s)"
| "unquoted_from False (c # s) =
     (if c = CHR 0x22 then CHR '' '' # unquoted_from True s
      else if c = CHR ''}'' then []
      else c # unquoted_from False s)"

definition unquotedSelector :: "string \<Rightarrow> string" where
  "unquotedSelector query = (case dropWhile (\<lambda>c. c \<noteq> CHR ''{'') query of [] \<Rightarrow> [] | _ # s \<Rightarrow> unquoted_from False s)"

text \<open>
  The matches of \<^verbatim>\<open>([A-Za-z_][A-Za-z0-9_]*)\s*(=~|!~|!=|=)\<close>, leftmost first. A name is followed by neither
  space nor operator before its last character, so the longest name is the only candidate.
\<close>

definition name_start :: "char \<Rightarrow> bool" where
  "name_start c \<longleftrightarrow> char_in CHR ''A'' CHR ''Z'' c \<or> char_in CHR ''a'' CHR ''z'' c \<or> c = CHR ''_''"

definition name_char :: "char \<Rightarrow> bool" where
  "name_char c \<longleftrightarrow> name_start c \<or> char_in CHR ''0'' CHR ''9'' c"

definition re_space :: "char \<Rightarrow> bool" where
  "re_space c \<longleftrightarrow> c \<in> {CHR 0x09, CHR 0x0A, CHR 0x0C, CHR 0x0D, CHR '' ''}"

definition match_op :: "string \<Rightarrow> string option" where
  "match_op s =
     (if HasPrefix s ''=~'' then Some ''=~'' else if HasPrefix s ''!~'' then Some ''!~''
      else if HasPrefix s ''!='' then Some ''!='' else if HasPrefix s ''='' then Some ''='' else None)"

function findMatchers :: "string \<Rightarrow> (string \<times> string) list" where
  "findMatchers [] = []"
| "findMatchers (c # s) =
     (let rest = dropWhile re_space (dropWhile name_char (c # s)) in
      if name_start c \<and> match_op rest \<noteq> None
      then (takeWhile name_char (c # s), the (match_op rest)) # findMatchers (drop (length (the (match_op rest))) rest)
      else findMatchers s)"
  by pat_completeness auto
termination
proof (relation "measure length", goal_cases)
  case (2 c s rest)
  have "length rest \<le> length (dropWhile name_char s)"
    using 2 by (simp add: length_dropWhile_le name_char_def)
  then show ?case using length_dropWhile_le [of name_char s] by simp
qed auto

fun required_loop :: "string list \<Rightarrow> (string \<times> string) list \<Rightarrow> string list" where
  "required_loop labels [] = labels"
| "required_loop labels ((name, op) # ms) =
     required_loop (if (op = ''='' \<or> op = ''=~'') \<and> name \<notin> set labels then labels @ [name] else labels) ms"

definition requiredLabels :: "string \<Rightarrow> string list" where
  "requiredLabels query = required_loop [] (findMatchers (unquotedSelector query))"

section \<open>The commands\<close>

record 's api =
  ap_QueryRange :: "'s querier"
  ap_LabelNames :: "int \<Rightarrow> int \<Rightarrow> 's \<Rightarrow> (cli_error + string list) \<times> 's"
  ap_LabelValues :: "string \<Rightarrow> int \<Rightarrow> int \<Rightarrow> 's \<Rightarrow> (cli_error + string list) \<times> 's"
  ap_follow :: "'s \<Rightarrow> follow_world"

fun emptyLabels_loop :: "'s api \<Rightarrow> int \<Rightarrow> int \<Rightarrow> string list \<Rightarrow> 's \<Rightarrow> string list \<times> 's" where
  "emptyLabels_loop api start till [] s = ([], s)"
| "emptyLabels_loop api start till (label # labels) s =
     (case ap_LabelValues api label start till s of (r, s1) \<Rightarrow>
        (case emptyLabels_loop api start till labels s1 of (unset, s2) \<Rightarrow>
           (if r = Inr [] then label # unset else unset, s2)))"

definition emptyLabels :: "'s api \<Rightarrow> string \<Rightarrow> int \<Rightarrow> int \<Rightarrow> 's \<Rightarrow> string list" where
  "emptyLabels api query start till s = fst (emptyLabels_loop api start till (requiredLabels query) s)"

definition labelsCommandFor :: "cmd_flags \<Rightarrow> logsOptions \<Rightarrow> string" where
  "labelsCommandFor fl o' =
     JoinStr ([''datumctl'', ''telemetry'', ''labels''] @
       concat (map (\<lambda>(name, value). if value \<noteq> [] then [''--'' @ name, value] else [])
         [(''since'', lo_since o'), (''start'', lo_start o'), (''end'', lo_end o')]) @
       (if fg_projectChanged fl then [''--project'', fg_project fl] else [])) '' ''"

definition nothing_matched :: "CmdLib \<Rightarrow> 's api \<Rightarrow> cmd_flags \<Rightarrow> logsOptions \<Rightarrow> string \<Rightarrow> int \<Rightarrow> int \<Rightarrow> 's \<Rightarrow> string list" where
  "nothing_matched lib api fl o' query start till s =
     (let unset = emptyLabels api query start till s in
      (''No lines matched between '' @ ml_RFC3339 lib start @ '' and '' @ ml_RFC3339 lib till @ ''.'') #
      (if unset \<noteq> []
       then [JoinStr unset '', '' @ '' '' @ (if length unset > 1 then ''have'' else ''has'') @
         '' no values in that window; run '' @ [CHR 0x27] @ labelsCommandFor fl o' @ [CHR 0x27] @ '' to see which labels are set.'']
       else []))"

fun cli_error_text :: "(nat \<Rightarrow> bool) \<Rightarrow> cli_error \<Rightarrow> string" where
  "cli_error_text isp (APIError code status detail) = APIError_text status detail"
| "cli_error_text isp (CliError s) = s"
| "cli_error_text isp (CliWrapped c e) = c @ '': '' @ cli_error_text isp e"
| "cli_error_text isp (BadResultType t) = ''logs query returned '' @ Quote isp t @ '' results, expected streams''"

fun notice_text :: "(nat \<Rightarrow> bool) \<Rightarrow> notice \<Rightarrow> string" where
  "notice_text isp (LostContact e) = ''Lost contact with the logs API, retrying: '' @ cli_error_text isp e"
| "notice_text isp Reconnected = ''Reconnected.''"

text \<open>The lines shown first: the newest \<^verbatim>\<open>limit\<close> ones, or all of the window; an error may follow some of them.\<close>

definition backlog_lines :: "'s api \<Rightarrow> string \<Rightarrow> int \<Rightarrow> int \<Rightarrow> int \<Rightarrow> 's \<Rightarrow> (cli_error option \<times> Entry list \<times> 's) option" where
  "backlog_lines api query start till limit s =
     (if limit \<ge> 0
      then (case Tail (ap_QueryRange api) query start till limit s of
          None \<Rightarrow> None
        | Some (Inl e, s') \<Rightarrow> Some (Some e, [], s')
        | Some (Inr es, s') \<Rightarrow> Some (None, es, s'))
      else (case All (ap_QueryRange api) query start till s of
          None \<Rightarrow> None
        | Some (err, s', es) \<Rightarrow> Some (err, es, s')))"

type_synonym cmd_result = "cmd_error option \<times> printer \<times> string list"

definition follow_lines :: "CmdLib \<Rightarrow> 's api \<Rightarrow> string \<Rightarrow> Entry list \<Rightarrow> 's \<Rightarrow> printer \<Rightarrow> cmd_result option" where
  "follow_lines lib api query backlog s p =
     (case Follower_Run (ap_follow api s) (seeded query backlog) of
        None \<Rightarrow> None
      | Some (err, st) \<Rightarrow>
          let p' = emit_all lib (fr_emitted st) p; notes = map (notice_text (ml_isp lib)) (fr_status st) in
          Some (case err of Some e \<Rightarrow> Some (CmdAPI e) | None \<Rightarrow> map_option CmdWrite (pr_err p'), p', notes))"

definition show_lines ::
  "CmdLib \<Rightarrow> 's api \<Rightarrow> cmd_flags \<Rightarrow> logsOptions \<Rightarrow> string \<Rightarrow> int \<Rightarrow> int \<Rightarrow> printer \<Rightarrow> 's \<Rightarrow> cmd_result option" where
  "show_lines lib api fl o' query start till p s =
     (case backlog_lines api query start till (lo_limit o') s of
        None \<Rightarrow> None
      | Some (err, backlog, s') \<Rightarrow>
          let p1 = emit_all lib backlog p in
          (case err of
             Some e \<Rightarrow> Some (Some (CmdAPI e), p1, [])
           | None \<Rightarrow>
          (case pr_err p1 of
             Some e \<Rightarrow> Some (Some (CmdWrite e), p1, [])
           | None \<Rightarrow>
               if \<not> lo_follow o'
               then Some (None, p1, if pr_printed p1 = 0 \<and> lo_limit o' \<noteq> 0 then nothing_matched lib api fl o' query start till s' else [])
               else follow_lines lib api query backlog s' p1)))"

definition runLogs ::
  "CmdLib \<Rightarrow> int \<Rightarrow> (string \<Rightarrow> cmd_error + 's) \<Rightarrow> 's api \<Rightarrow> cmd_flags \<Rightarrow> string \<Rightarrow> logsOptions \<Rightarrow> cmd_result option" where
  "runLogs lib now client api fl query o' =
     (let failed = (\<lambda>e. Some (Some e, new_printer ''text'' o', [])) in
      if query = [] then failed (UserError ''a log query is required''
        (''start with a stream selector, e.g. '' @ [CHR 0x27] @ ''{service_name='' @ [CHR 0x22] @ ''checkout'' @ [CHR 0x22] @ ''}'' @ [CHR 0x27]))
      else case outputFormat lib fl of
        Inl e \<Rightarrow> failed e
      | Inr format \<Rightarrow>
      if lo_limit o' < -1 then failed (UserError ''--limit must be -1 or greater'' [])
      else if lo_follow o' \<and> lo_end o' \<noteq> [] then failed (UserError ''--end cannot be combined with --follow, which always reads up to now'' [])
      else case resolveWindow lib now (lo_since o') (lo_start o') (lo_end o') of
        Inl e \<Rightarrow> failed e
      | Inr (start, till) \<Rightarrow>
     (case client (fg_project fl) of
        Inl e \<Rightarrow> failed e
      | Inr s \<Rightarrow> show_lines lib api fl o' query start till (new_printer format o') s))"

definition logsCommand_RunE ::
  "CmdLib \<Rightarrow> int \<Rightarrow> (string \<Rightarrow> cmd_error + 's) \<Rightarrow> 's api \<Rightarrow> cmd_flags \<Rightarrow> string list \<Rightarrow> logsOptions \<Rightarrow> cmd_result option" where
  "logsCommand_RunE lib now client api fl args o' = runLogs lib now client api fl (TrimSpace (JoinStr args '' '')) o'"

text \<open>The text \<^verbatim>\<open>labels\<close> writes to the output and to the error output, and its error.\<close>

definition labelsCommand_RunE ::
  "CmdLib \<Rightarrow> int \<Rightarrow> (string \<Rightarrow> cmd_error + 's) \<Rightarrow> 's api \<Rightarrow> cmd_flags \<Rightarrow> string list \<Rightarrow> string \<Rightarrow> string \<Rightarrow> string \<Rightarrow>
     cmd_error option \<times> string list \<times> string list" where
  "labelsCommand_RunE lib now client api fl args since startFlag endFlag =
     (case outputFormat lib fl of
        Inl e \<Rightarrow> (Some e, [], [])
      | Inr format \<Rightarrow>
     (case resolveWindow lib now since startFlag endFlag of
        Inl e \<Rightarrow> (Some e, [], [])
      | Inr (start, till) \<Rightarrow>
     (case client (fg_project fl) of
        Inl e \<Rightarrow> (Some e, [], [])
      | Inr s \<Rightarrow>
     (case fst (if args = [] then ap_LabelNames api start till s else ap_LabelValues api (hd args) start till s) of
        Inl e \<Rightarrow> (Some (CmdAPI e), [], [])
      | Inr unsorted \<Rightarrow>
          let names = sort_strings unsorted;
              write = (\<lambda>txt. case ml_write lib 0 of Some e \<Rightarrow> (Some (CmdWrite e), [], []) | None \<Rightarrow> (None, [txt], [])) in
          if format = ''json'' then write (ml_jsonStrings lib names)
          else if names = [] then (None, [], [''Nothing logged between '' @ ml_RFC3339 lib start @ '' and '' @ ml_RFC3339 lib till @ ''.''])
          else write (JoinStr names [CHR 0x0A] @ [CHR 0x0A])))))"

text \<open>The client of the plugin's context: the API host and the credentials helper datumctl passes in.\<close>

definition DatumctlClient :: "string \<Rightarrow> string \<Rightarrow> string \<Rightarrow> string \<Rightarrow> cmd_error + cli_state" where
  "DatumctlClient userAgent apiHost credentialsHelper project =
     (if apiHost = [] \<or> credentialsHelper = [] then
        Inl (UserError ''no API host or credentials were passed in; this plugin runs under datumctl''
          (''run it as '' @ [CHR 0x27] @ ''datumctl telemetry ...'' @ [CHR 0x27]))
      else if project = [] then
        Inl (UserError ''no project selected'' (''pass --project, or pick one with '' @ [CHR 0x27] @ ''datumctl ctx use'' @ [CHR 0x27]))
      else Inr \<lparr>cs_client = new_client (ProjectURL apiHost project) True userAgent, cs_requests = [], cs_tokens = 0\<rparr>)"

fun Render :: "(nat \<Rightarrow> bool) \<Rightarrow> cmd_error \<Rightarrow> string list" where
  "Render isp err =
     (let parts = (case err of
          UserError msg hint \<Rightarrow> (msg, hint)
        | CmdAPI e \<Rightarrow> (cli_error_text isp e, case as_APIError e of Some code \<Rightarrow> Hint code | None \<Rightarrow> [])
        | CmdWrite msg \<Rightarrow> (msg, [])
        | CmdFlags msg \<Rightarrow> (msg, [])) in
      (''error: '' @ fst parts) # (if snd parts \<noteq> [] then [[], snd parts] else []))"

section \<open>Reading a printed selector\<close>

lemma name_chars: "name_start c \<longleftrightarrow> ident_char 0 c" "name_char c \<longleftrightarrow> ident_rest c"
  by (auto simp: name_start_def name_char_def ident_rest_def ident_char_def)

lemma unquoted_plain:
  "\<forall>c \<in> set w. c \<noteq> CHR 0x22 \<and> c \<noteq> CHR ''}'' \<Longrightarrow> unquoted_from False (w @ t) = w @ unquoted_from False t"
  by (induction w) simp_all

lemma unquoted_quoted: "quoted_text w \<Longrightarrow> unquoted_from True (w @ t) = unquoted_from True t"
  by (induction rule: quoted_text.induct) simp_all

lemma unquoted_Quote: "unquoted_from False (Quote isp v @ t) = ''  '' @ unquoted_from False t"
  using unquoted_quoted [OF quoted_quote_body, of isp v "CHR 0x22 # t"] by (simp add: Quote_def)

lemma unquoted_matcher:
  assumes "valid_Matcher rxc m"
  shows "unquoted_from False (render_matcher isp m @ t) = m_Label m @ m_Op m @ ''  '' @ unquoted_from False t"
proof -
  have l: "\<forall>c \<in> set (m_Label m). c \<noteq> CHR 0x22 \<and> c \<noteq> CHR ''}''"
    using assms ident_plain [of "m_Label m"] by (simp add: valid_Matcher_def)
  show ?thesis
    by (simp add: render_matcher_def unquoted_plain [OF l] unquoted_plain [OF valid_Op_plain [OF assms]] unquoted_Quote)
qed

lemma findMatchers_skip: "\<not> name_start c \<Longrightarrow> findMatchers (c # s) = findMatchers s"
  by simp

lemma findMatchers_matcher:
  assumes "valid_Matcher rxc m"
  shows "findMatchers (m_Label m @ m_Op m @ CHR '' '' # t) = (m_Label m, m_Op m) # findMatchers (CHR '' '' # t)"
proof -
  obtain c w where l: "m_Label m = c # w" "name_start c" "\<forall>d \<in> set w. name_char d"
    using assms by (cases "m_Label m") (auto simp: valid_Matcher_def ident_def name_chars list_all_iff)
  have op: "m_Op m \<in> {''='', ''!='', ''=~'', ''!~''}" using assms by (auto simp: valid_Matcher_def)
  have stop: "\<not> name_char (hd (m_Op m))" "\<not> re_space (hd (m_Op m))" "m_Op m \<noteq> []"
    using op by (auto simp: name_char_def name_start_def re_space_def less_eq_char_def)
  have label: "\<forall>d \<in> set (m_Label m). name_char d" using l by (auto simp: name_char_def)
  have drop: "dropWhile name_char (m_Label m @ m_Op m @ CHR '' '' # t) = m_Op m @ CHR '' '' # t"
    "takeWhile name_char (m_Label m @ m_Op m @ CHR '' '' # t) = m_Label m"
    using label stop(1,3) by (simp_all add: dropWhile_append2 takeWhile_append2 dropWhile_eq_self_iff takeWhile_eq_Nil_iff)
  have rest: "dropWhile re_space (m_Op m @ CHR '' '' # t) = m_Op m @ CHR '' '' # t"
    using stop(2,3) by (simp add: dropWhile_eq_self_iff)
  have mo: "match_op (m_Op m @ CHR '' '' # t) = Some (m_Op m)" using op by (auto simp: match_op_def)
  have "findMatchers (c # (w @ m_Op m @ CHR '' '' # t)) =
      (takeWhile name_char (c # (w @ m_Op m @ CHR '' '' # t)), m_Op m) # findMatchers (drop (length (m_Op m)) (m_Op m @ CHR '' '' # t))"
    using l(1,2) drop(1) rest mo by (simp del: drop_append dropWhile.simps takeWhile.simps add: Let_def)
  then show ?thesis using l(1) drop(2) by simp
qed

lemma findMatchers_rendered:
  "list_all (valid_Matcher rxc) ms \<Longrightarrow>
   findMatchers (unquoted_from False (JoinStr (map (render_matcher isp) ms) '', '' @ CHR ''}'' # t)) =
   map (\<lambda>m. (m_Label m, m_Op m)) ms"
proof (induction ms rule: induct_list012)
  case (2 m)
  then show ?case
    by (simp add: unquoted_matcher [of rxc] findMatchers_matcher [of rxc] findMatchers_skip name_start_def less_eq_char_def
        del: findMatchers.simps(2))
next
  case (3 m n ms)
  then show ?case
    by (simp add: unquoted_matcher [of rxc] findMatchers_matcher [of rxc] findMatchers_skip name_start_def less_eq_char_def
        del: findMatchers.simps(2))
qed simp

text \<open>The elements of a list, each at its first place.\<close>

definition firsts :: "'a list \<Rightarrow> 'a list" where
  "firsts xs = rev (remdups (rev xs))"

lemma remdups_snoc: "remdups (ys @ [x]) = remdups (filter (\<lambda>y. y \<noteq> x) ys) @ [x]"
  by (induction ys) auto

lemma firsts_Cons: "firsts (x # xs) = x # firsts (filter (\<lambda>y. y \<noteq> x) xs)"
  by (simp add: firsts_def remdups_snoc rev_filter)

lemma required_loop_spec:
  "required_loop out ms = out @ firsts (filter (\<lambda>l. l \<notin> set out) (map fst (filter (\<lambda>(name, op). op = ''='' \<or> op = ''=~'') ms)))"
proof (induction out ms rule: required_loop.induct)
  case (2 out name op ms)
  show ?case
  proof (cases "(op = ''='' \<or> op = ''=~'') \<and> name \<notin> set out")
    case True
    then show ?thesis using 2 by (auto simp: firsts_Cons conj_commute)
  next
    case False
    then show ?thesis using 2 by auto
  qed
qed (simp add: firsts_def)

lemma requiredLabels_String:
  assumes "valid_Selector rxc s"
  shows "requiredLabels (Selector_String isp s) = firsts (map m_Label (filter (\<lambda>m. m_Op m = ''='' \<or> m_Op m = ''=~'') (s_Matchers s)))"
proof -
  have "findMatchers (unquotedSelector (Selector_String isp s)) = map (\<lambda>m. (m_Label m, m_Op m)) (s_Matchers s)"
    using findMatchers_rendered [of rxc "s_Matchers s" isp] assms
    by (simp add: unquotedSelector_def Selector_String_def valid_Selector_def)
  then show ?thesis by (simp add: requiredLabels_def required_loop_spec filter_map o_def split_def)
qed

text \<open>A printed label set is a selector, of one equality a label.\<close>

definition label_selector :: "(string \<times> string) list \<Rightarrow> Selector" where
  "label_selector labels =
     \<lparr>s_Matchers = map (\<lambda>k. \<lparr>m_Label = k, m_Op = ''='', m_Value = case map_of labels k of None \<Rightarrow> [] | Some v \<Rightarrow> v\<rparr>)
        (sort_strings (remdups (map fst labels))), s_Filters = []\<rparr>"

lemma formatLabels_selector: "formatLabels lib labels = Selector_String (ml_isp lib) (label_selector labels)"
  by (simp add: formatLabels_def Selector_String_def label_selector_def render_matcher_def o_def)

lemma sort_strings_Nil [simp]: "sort_strings xs = [] \<longleftrightarrow> xs = []"
  by (simp add: sort_strings_def flip: length_0_conv)

lemma label_selector_valid: "list_all ident (map fst labels) \<Longrightarrow> valid_Selector rxc (label_selector labels)"
  by (auto simp: valid_Selector_def label_selector_def valid_Matcher_def list_all_iff sort_strings_def)

section \<open>Printing lines\<close>

lemma emit_all_ok:
  assumes "\<forall>n. ml_write lib n = None" "pr_err p = None"
  shows "emit_all lib es p = p\<lparr>pr_printed := pr_printed p + length es, pr_out := pr_out p @ map (entry_text lib p) es\<rparr>"
  using assms(2)
proof (induction es arbitrary: p)
  case (Cons e es)
  have t: "entry_text lib (p\<lparr>pr_printed := n, pr_out := out\<rparr>) = entry_text lib p" for n out
    by (simp add: entry_text_def fun_eq_iff)
  have "emit lib e p = p\<lparr>pr_printed := Suc (pr_printed p), pr_out := pr_out p @ [entry_text lib p e]\<rparr>"
    using assms(1) Cons.prems by (simp add: emit_def)
  then show ?case using Cons by (simp add: emit_all_def t)
qed (simp add: emit_all_def)

lemma resolveWindow_spec:
  "resolveWindow lib now since start till = Inr (s, e) \<longleftrightarrow>
     (since = [] \<or> start = []) \<and> window_end lib now till = Inr e \<and> window_start lib e since start = Inr s \<and> s < e"
  by (auto simp: resolveWindow_def split: sum.splits if_splits)

text \<open>The lines a window shows first.\<close>

definition shown :: "Entry list \<Rightarrow> int \<Rightarrow> int \<Rightarrow> int \<Rightarrow> Entry list" where
  "shown D start till limit =
     (if limit < 0 then window_lines D start till Forward else rev (take (nat limit) (window_lines D start till Backward)))"

lemma backlog_shown:
  assumes "serves D (ap_QueryRange api)" "distinct (map Entry_Key D)" "sparse 5000 (window_lines D start till Forward)"
    "limit \<le> 5000 \<or> sparse 5000 (window_lines D start till Backward)"
  shows "backlog_lines api query start till limit s = Some (None, shown D start till limit, s)"
  using All_complete [OF assms(1-3)] Tail_complete [OF assms(1,2,4)] by (simp add: backlog_lines_def shown_def)

lemma distinct_map_append:
  "distinct (map f xs) \<Longrightarrow> distinct (map f ys) \<Longrightarrow> \<forall>y \<in> set ys. f y \<notin> f ` set xs \<Longrightarrow> distinct (map f (xs @ ys))"
  by (simp add: disjoint_iff) (metis imageE)

lemma shown_keys: "distinct (map Entry_Key D) \<Longrightarrow> distinct (map Entry_Key (shown D start till limit))"
  using window_lines_keys [of D start till Forward] window_lines_keys [of D start till Backward]
  by (simp add: shown_def rev_map [symmetric] take_map [symmetric])

lemma show_lines_done:
  assumes "backlog_lines api query start till (lo_limit o') s = Some (None, lines, s')" "\<forall>n. ml_write lib n = None" "\<not> lo_follow o'"
  shows "show_lines lib api fl o' query start till (new_printer format o') s =
    Some (None, (new_printer format o')\<lparr>pr_printed := length lines, pr_out := map (entry_text lib (new_printer format o')) lines\<rparr>,
      if lines = [] \<and> lo_limit o' \<noteq> 0 then nothing_matched lib api fl o' query start till s' else [])"
  using assms emit_all_ok [OF assms(2), of "new_printer format o'" lines]
  by (simp add: show_lines_def new_printer_def Let_def)

lemma show_lines_follow:
  assumes "backlog_lines api query start till (lo_limit o') s = Some (None, lines, s')" "\<forall>n. ml_write lib n = None" "lo_follow o'"
    "Follower_Run (ap_follow api s') (seeded query lines) = Some (err, st)"
  shows "show_lines lib api fl o' query start till (new_printer format o') s =
    Some (map_option CmdAPI err, (new_printer format o')\<lparr>pr_printed := length (lines @ fr_emitted st),
      pr_out := map (entry_text lib (new_printer format o')) (lines @ fr_emitted st)\<rparr>, map (notice_text (ml_isp lib)) (fr_status st))"
proof -
  let ?p = "new_printer format o'"
  define p1 where "p1 = ?p\<lparr>pr_printed := length lines, pr_out := map (entry_text lib ?p) lines\<rparr>"
  have e1: "emit_all lib lines ?p = p1" using emit_all_ok [OF assms(2), of ?p lines] by (simp add: p1_def new_printer_def)
  have t: "entry_text lib p1 = entry_text lib ?p" by (simp add: p1_def entry_text_def fun_eq_iff)
  have "pr_err p1 = None" by (simp add: p1_def new_printer_def)
  note e2 = emit_all_ok [OF assms(2) this, of "fr_emitted st"]
  show ?thesis
    using assms(1,3,4) e1 e2 t by (simp add: show_lines_def follow_lines_def Let_def p1_def new_printer_def split: option.split)
qed

lemma runLogs_shows:
  assumes "query \<noteq> []" "outputFormat lib fl = Inr format" "-1 \<le> lo_limit o'" "lo_follow o' \<longrightarrow> lo_end o' = []"
    "resolveWindow lib now (lo_since o') (lo_start o') (lo_end o') = Inr (start, till)" "client (fg_project fl) = Inr s"
  shows "runLogs lib now client api fl query o' = show_lines lib api fl o' query start till (new_printer format o') s"
  using assms by (auto simp: runLogs_def Let_def)

section \<open>Properties\<close>

text \<open>
  What \<^verbatim>\<open>--follow\<close> adds to the lines \<open>lines\<close> shown first, over a run of polls that ended in the state \<open>st\<close> with
  the result \<open>res\<close>: the lines of the answers, in the order of the polls and of each answer; of every answer
  all lines that are not older than those shown first and were not among them, no line twice. The run
  polled until the context ended, before a poll or during one, or a poll failed for good.
\<close>

definition follows_on :: "follow_world \<Rightarrow> string \<Rightarrow> Entry list \<Rightarrow> cli_error option \<Rightarrow> run_state \<Rightarrow> bool" where
  "follows_on w query lines res st \<longleftrightarrow>
     Follower_Run w (seeded query lines) = Some (res, st) \<and> in_answer_order w st \<and>
     distinct (map Entry_Key (lines @ fr_emitted st)) \<and>
     (\<forall>e \<in> set (fr_emitted st). (\<forall>d \<in> set lines. nanos d \<le> nanos e) \<and> (\<exists>n. answered w st n e)) \<and>
     (\<forall>n e. answered w st n e \<and> 0 \<le> nanos e \<and> (\<forall>d \<in> set lines. nanos d \<le> nanos e) \<longrightarrow>
        Entry_Key e \<in> Entry_Key ` set (lines @ fr_emitted st)) \<and>
     (\<forall>n < length (fr_queries st). \<not> fw_Done w n) \<and>
     (case res of
        None \<Rightarrow> fw_Done w (length (fr_queries st)) \<or> fr_queries st \<noteq> [] \<and> fw_Err w (length (fr_queries st) - 1)
      | Some e \<Rightarrow> Permanent e)"

lemma follow_exists:
  assumes "answers_window w" "fw_Done w k" "distinct (map Entry_Key lines)"
  shows "\<exists>res st. follows_on w query lines res st"
proof -
  have "follows w (seeded query lines) (None, run_start w (seeded query lines))" by (rule follows.start)
  from run_is_exact [OF assms(1) this] assms(2) obtain res st where
    r: "Follower_Run w (seeded query lines) = Some (res, st)" "follows w (seeded query lines) (Some res, st)" by blast
  note ex = run_is_exact [OF assms(1) r(2)]
  have "\<forall>e \<in> set (fr_emitted st). Entry_Key e \<notin> Entry_Key ` set lines" and "distinct (map Entry_Key (fr_emitted st))" using ex by blast+
  then have "distinct (map Entry_Key (lines @ fr_emitted st))" by (intro distinct_map_append assms(3))
  moreover have "case res of
        None \<Rightarrow> fw_Done w (length (fr_queries st)) \<or> fr_queries st \<noteq> [] \<and> fw_Err w (length (fr_queries st) - 1)
      | Some e \<Rightarrow> Permanent e"
    using ex follows_order [OF r(2)] by (cases res) auto
  moreover have "in_answer_order w st" "\<forall>n < length (fr_queries st). \<not> fw_Done w n" using follows_order [OF r(2)] by simp_all
  ultimately have "follows_on w query lines res st" unfolding follows_on_def using r(1) ex by blast
  then show ?thesis by blast
qed


definition plain_lib :: CmdLib where
  "plain_lib = \<lparr>ml_rfc3339 = (\<lambda>_. None), ml_duration = (\<lambda>_. None), ml_stamp = (\<lambda>_ t. Itoa t), ml_RFC3339 = Itoa,
     ml_json = en_Line, ml_jsonStrings = concat, ml_write = (\<lambda>_. None), ml_isp = (\<lambda>_. False)\<rparr>"

definition two_line_api :: "unit api" where
  "two_line_api = \<lparr>ap_QueryRange = (\<lambda>q s. (Inr (take (nat (cq_Limit q)) (window_lines two_lines (cq_Start q) (cq_End q) (cq_Direction q))), s)),
     ap_LabelNames = (\<lambda>_ _ s. (Inr [''a''], s)), ap_LabelValues = (\<lambda>_ _ _ s. (Inr [''b''], s)), ap_follow = (\<lambda>_. two_line_world)\<rparr>"


lemma Parse_empty_braces: "case Parse rxc ''{}'' of Inl e \<Rightarrow> True | Inr q \<Rightarrow> False"
  by code_simp

text \<open>
  C35. What the command prints of labels reads back. A printed label set is read by the API's parser as
  one equality for each label, with its value, exactly when it has at least one label and every name is an
  identifier of the query language; the empty set prints a pair of braces, which the parser refuses, and a
  set with another name is refused or read as something else. The labels the command checks after an
  empty result are exactly those a printed selector matches with = or =~, each once and in order,
  whatever its values and line filters hold.
\<close>

theorem printed_labels_read_back:
  "(Parse rxc (formatLabels lib labels) = Inr (query_of (label_selector labels)) \<longleftrightarrow> labels \<noteq> [] \<and> list_all ident (map fst labels)) \<and>
   (labels = [] \<longrightarrow> formatLabels lib labels = ''{}'' \<and> (\<exists>e. Parse rxc (formatLabels lib labels) = Inl e)) \<and>
   (list_all ident (map fst labels) \<longrightarrow> requiredLabels (formatLabels lib labels) = sort_strings (remdups (map fst labels))) \<and>
   (valid_Selector rxc s \<longrightarrow>
      requiredLabels (Selector_String isp s) = firsts (map m_Label (filter (\<lambda>m. m_Op m = ''='' \<or> m_Op m = ''=~'') (s_Matchers s))))"
proof -
  let ?ks = "sort_strings (remdups (map fst labels))"
  have v: "valid_Selector rxc (label_selector labels)" if "list_all ident (map fst labels)" by (rule label_selector_valid [OF that])
  have ne: "s_Matchers (label_selector labels) = [] \<longleftrightarrow> labels = []" by (simp add: label_selector_def)
  have ms: "map m_Label (filter (\<lambda>m. m_Op m = ''='' \<or> m_Op m = ''=~'') (s_Matchers (label_selector labels))) = ?ks"
    by (simp add: label_selector_def filter_map o_def)
  have "distinct ?ks" by (simp add: sort_strings_def)
  then have fs: "firsts ?ks = ?ks" by (simp add: firsts_def distinct_remdups_id)
  have "labels \<noteq> [] \<and> list_all ident (map fst labels)" if "Parse rxc (formatLabels lib labels) = Inr (query_of (label_selector labels))"
    using Parse_wf_query [OF that]
    by (auto simp: wf_query_def query_of_def label_selector_def matcher_of_def wf_matcher_def list_all_iff sort_strings_def)
  moreover have "Parse rxc (formatLabels lib labels) = Inr (query_of (label_selector labels))"
    if "labels \<noteq> [] \<and> list_all ident (map fst labels)"
    using Parse_Selector_String [OF v] that ne by (simp add: formatLabels_selector)
  moreover have "formatLabels lib labels = ''{}'' \<and> (\<exists>e. Parse rxc (formatLabels lib labels) = Inl e)" if "labels = []"
  proof -
    have b: "formatLabels lib labels = ''{}''" using that by (simp add: formatLabels_def sort_strings_def)
    then show ?thesis using Parse_empty_braces [of rxc] by (cases "Parse rxc ''{}''") simp_all
  qed
  moreover have "requiredLabels (formatLabels lib labels) = ?ks" if "list_all ident (map fst labels)"
    using requiredLabels_String [OF v [OF that]] ms fs by (simp add: formatLabels_selector)
  ultimately show ?thesis using requiredLabels_String by blast
qed

theorem printed_labels_read_back_witness:
  "requiredLabels (Selector_String (\<lambda>_. False) (Selector_Neq (Selector_Eq empty_Selector ''a'' ''x=}'') ''b'' ''y'')) = [''a''] \<and>
   Parse (\<lambda>_. True) (formatLabels plain_lib [(''b'', ''1''), (''a'', ''2'')]) =
     Inr (query_of (Selector_Eq (Selector_Eq empty_Selector ''a'' ''2'') ''b'' ''1''))"
proof -
  let ?s = "Selector_Neq (Selector_Eq empty_Selector ''a'' ''x=}'') ''b'' ''y''"
  let ?l = "[(''b'', ''1''), (''a'', ''2'')]"
  have v: "valid_Selector (\<lambda>_. True) ?s"
    by (simp add: builder_defs Selector_add_def empty_Selector_def valid_Selector_def valid_Matcher_def ident_def ident_char_def less_eq_char_def)
  have i: "list_all ident (map fst ?l)" by (simp add: ident_def ident_char_def less_eq_char_def)
  have q: "label_selector ?l = Selector_Eq (Selector_Eq empty_Selector ''a'' ''2'') ''b'' ''1''" by code_simp
  have r: "firsts (map m_Label (filter (\<lambda>m. m_Op m = ''='' \<or> m_Op m = ''=~'') (s_Matchers ?s))) = [''a'']" by code_simp
  show ?thesis using printed_labels_read_back [of "\<lambda>_. True" plain_lib ?l ?s "\<lambda>_. False"] v i q r by simp
qed

text \<open>A number of days past 64 bits of nanoseconds wraps: 213504 days are read as 25 minutes.\<close>

lemma parse_since_wraps: "parseSince lib ''213504d'' = Inr 1526290448384"
proof -
  have "CutSuffix ''213504d'' ''d'' = Some ''213504''" by code_simp
  moreover have "ParseInt ''213504'' = Some 213504"
    by (simp add: ParseInt_def is_digit_def dec_val_def digit_val_def int64_def less_eq_char_def)
  ultimately show ?thesis by (simp add: parseSince_def wrap64_def Let_def)
qed

end
