(* ===== verification/PluginMain.thy ===== *)
theory PluginMain
  imports CliCommand
begin

text \<open>
  The plugin as a process (\<^verbatim>\<open>cli/cmd/milo-telemetry\<close> and the commands declared in \<^verbatim>\<open>cli/internal/command\<close>): the
  root command with its flags and their defaults, what a run prints and its exit status. Cobra, which
  parses the arguments, and the datumctl plugin library, which serves the manifest, are parameters. A run
  that does not return is \<open>None\<close>.
\<close>

section \<open>Commands\<close>

datatype flag_value = StringValue string | IntValue int | BoolValue bool

record Flag =
  ff_Name :: string
  ff_Shorthand :: string
  ff_Default :: flag_value

text \<open>\<open>cm_Args n\<close>: the command takes \<open>n\<close> arguments.\<close>

record Command =
  cm_Use :: string
  cm_Args :: "nat \<Rightarrow> bool"
  cm_Flags :: "Flag list"

definition MinimumNArgs :: "nat \<Rightarrow> nat \<Rightarrow> bool" where "MinimumNArgs k n \<longleftrightarrow> k \<le> n"
definition MaximumNArgs :: "nat \<Rightarrow> nat \<Rightarrow> bool" where "MaximumNArgs k n \<longleftrightarrow> n \<le> k"

definition StringVar :: "string \<Rightarrow> string \<Rightarrow> Flag" where
  "StringVar name d = \<lparr>ff_Name = name, ff_Shorthand = [], ff_Default = StringValue d\<rparr>"
definition IntVar :: "string \<Rightarrow> int \<Rightarrow> Flag" where
  "IntVar name d = \<lparr>ff_Name = name, ff_Shorthand = [], ff_Default = IntValue d\<rparr>"
definition BoolVarP :: "string \<Rightarrow> string \<Rightarrow> bool \<Rightarrow> Flag" where
  "BoolVarP name short d = \<lparr>ff_Name = name, ff_Shorthand = short, ff_Default = BoolValue d\<rparr>"

definition defaultLimit :: int where "defaultLimit = 100"

definition logsCommand :: Command where
  "logsCommand = \<lparr>cm_Use = ''logs QUERY'', cm_Args = MinimumNArgs 1, cm_Flags =
     [StringVar ''since'' [], StringVar ''start'' [], StringVar ''end'' [], IntVar ''limit'' defaultLimit,
      BoolVarP ''follow'' ''f'' False, BoolVarP ''labels'' [] False, BoolVarP ''utc'' [] False]\<rparr>"

definition labelsCommand :: Command where
  "labelsCommand = \<lparr>cm_Use = ''labels [NAME]'', cm_Args = MaximumNArgs 1, cm_Flags =
     [StringVar ''since'' [], StringVar ''start'' [], StringVar ''end'' []]\<rparr>"

record RootCommand =
  rt_Use :: string
  rt_Version :: string
  rt_SilenceUsage :: bool
  rt_SilenceErrors :: bool
  rt_Commands :: "Command list"

definition newRoot :: RootCommand where
  "newRoot = \<lparr>rt_Use = ''telemetry'', rt_Version = [], rt_SilenceUsage = True, rt_SilenceErrors = True,
     rt_Commands = [logsCommand, labelsCommand]\<rparr>"

section \<open>Flags\<close>

text \<open>The flags given on the command line; any other has its default.\<close>

type_synonym given = "string \<rightharpoonup> flag_value"

definition flag_of :: "Command \<Rightarrow> given \<Rightarrow> string \<Rightarrow> flag_value option" where
  "flag_of cmd given name =
     (case given name of
        Some v \<Rightarrow> Some v
      | None \<Rightarrow> map_option ff_Default (find (\<lambda>f. ff_Name f = name) (cm_Flags cmd)))"

definition string_flag :: "Command \<Rightarrow> given \<Rightarrow> string \<Rightarrow> string" where
  "string_flag cmd given name = (case flag_of cmd given name of Some (StringValue s) \<Rightarrow> s | _ \<Rightarrow> [])"
definition int_flag :: "Command \<Rightarrow> given \<Rightarrow> string \<Rightarrow> int" where
  "int_flag cmd given name = (case flag_of cmd given name of Some (IntValue n) \<Rightarrow> n | _ \<Rightarrow> 0)"
definition bool_flag :: "Command \<Rightarrow> given \<Rightarrow> string \<Rightarrow> bool" where
  "bool_flag cmd given name = (case flag_of cmd given name of Some (BoolValue b) \<Rightarrow> b | _ \<Rightarrow> False)"

definition logs_options :: "given \<Rightarrow> logsOptions" where
  "logs_options given =
     \<lparr>lo_since = string_flag logsCommand given ''since'', lo_start = string_flag logsCommand given ''start'',
      lo_end = string_flag logsCommand given ''end'', lo_limit = int_flag logsCommand given ''limit'',
      lo_follow = bool_flag logsCommand given ''follow'', lo_labels = bool_flag logsCommand given ''labels'',
      lo_utc = bool_flag logsCommand given ''utc''\<rparr>"

section \<open>The process\<close>

text \<open>
  What cobra makes of the arguments: an error, a text it prints (help or the version), or a command to run, with the
  flags given, those of the plugin's root, and the arguments. \<open>cb_report\<close> is what it prints of an error itself.
\<close>

datatype parsed =
    BadArguments string
  | Shows string
  | RunsLogs given cmd_flags "string list"
  | RunsLabels given cmd_flags "string list"

record cobra =
  cb_parse :: "RootCommand \<Rightarrow> string list \<Rightarrow> parsed"
  cb_report :: "RootCommand \<Rightarrow> cmd_error \<Rightarrow> string list"

record Manifest =
  mn_Name :: string
  mn_Version :: string
  mn_Description :: string
  mn_APIVersion :: int
  mn_MinAPIVersion :: int

definition plugin_manifest :: "string \<Rightarrow> Manifest" where
  "plugin_manifest pluginVersion = \<lparr>mn_Name = ''telemetry'', mn_Version = pluginVersion,
     mn_Description = ''Query logs for the active project'', mn_APIVersion = 1, mn_MinAPIVersion = 1\<rparr>"

definition run_command ::
  "CmdLib \<Rightarrow> int \<Rightarrow> (string \<Rightarrow> cmd_error + 's) \<Rightarrow> 's api \<Rightarrow> parsed \<Rightarrow> (cmd_error option \<times> string list \<times> string list) option" where
  "run_command lib now client api p =
     (case p of
        BadArguments msg \<Rightarrow> Some (Some (CmdFlags msg), [], [])
      | Shows txt \<Rightarrow> Some (None, [txt], [])
      | RunsLogs given fl args \<Rightarrow>
          map_option (\<lambda>(err, p, notes). (err, pr_out p, notes)) (logsCommand_RunE lib now client api fl args (logs_options given))
      | RunsLabels given fl args \<Rightarrow>
          Some (labelsCommand_RunE lib now client api fl args (string_flag labelsCommand given ''since'')
            (string_flag labelsCommand given ''start'') (string_flag labelsCommand given ''end'')))"

record process_result =
  px_exit :: nat
  px_out :: "string list"
  px_err :: "string list"

text \<open>\<open>serve\<close> is \<^verbatim>\<open>plugin.ServeManifest\<close>: what it prints before it exits, when the arguments ask for the manifest.\<close>

definition plugin_main ::
  "string \<Rightarrow> (Manifest \<Rightarrow> string list \<Rightarrow> string option) \<Rightarrow> cobra \<Rightarrow> CmdLib \<Rightarrow> int \<Rightarrow> string \<Rightarrow> string \<Rightarrow> cli_state api \<Rightarrow>
   string list \<Rightarrow> process_result option" where
  "plugin_main pluginVersion serve cb lib now apiHost credentialsHelper api args =
     (case serve (plugin_manifest pluginVersion) args of
        Some txt \<Rightarrow> Some \<lparr>px_exit = 0, px_out = [txt], px_err = []\<rparr>
      | None \<Rightarrow>
          let root = newRoot\<lparr>rt_Version := pluginVersion\<rparr>;
              client = DatumctlClient (''milo-telemetry/'' @ pluginVersion) apiHost credentialsHelper in
          map_option (\<lambda>(err, out, notes).
              case err of
                None \<Rightarrow> \<lparr>px_exit = 0, px_out = out, px_err = notes\<rparr>
              | Some e \<Rightarrow> \<lparr>px_exit = 1, px_out = out, px_err = notes @ cb_report cb root e @ Render (ml_isp lib) e\<rparr>)
            (run_command lib now client api (cb_parse cb root args)))"

section \<open>Lemmas\<close>

text \<open>Cobra as documented: a command whose errors are silenced prints none.\<close>

definition silent_cobra :: "cobra \<Rightarrow> bool" where
  "silent_cobra cb \<longleftrightarrow> (\<forall>root e. rt_SilenceErrors root \<and> rt_SilenceUsage root \<longrightarrow> cb_report cb root e = [])"

lemma silenced: "silent_cobra cb \<Longrightarrow> cb_report cb (newRoot\<lparr>rt_Version := v\<rparr>) e = []"
  by (simp add: silent_cobra_def newRoot_def)

text \<open>The defaults of \<^verbatim>\<open>logs\<close>: the newest 100 lines, no window given, not followed.\<close>

lemma default_options:
  "logs_options Map.empty = \<lparr>lo_since = [], lo_start = [], lo_end = [], lo_limit = 100, lo_follow = False, lo_labels = False, lo_utc = False\<rparr>"
  by (simp add: logs_options_def string_flag_def int_flag_def bool_flag_def flag_of_def logsCommand_def StringVar_def IntVar_def
    BoolVarP_def defaultLimit_def)

lemma default_window: "resolveWindow lib now [] [] [] = Inr (now - 3600000000000, now)"
  by (simp add: resolveWindow_def window_end_def window_start_def defaultSince_def)

lemma datumctl_client:
  "apiHost \<noteq> [] \<Longrightarrow> helper \<noteq> [] \<Longrightarrow> project \<noteq> [] \<Longrightarrow>
   DatumctlClient ua apiHost helper project = Inr \<lparr>cs_client = new_client (ProjectURL apiHost project) True ua, cs_requests = [], cs_tokens = 0\<rparr>"
  by (simp add: DatumctlClient_def)

section \<open>Properties\<close>

text \<open>
  Run as \<^verbatim>\<open>datumctl telemetry logs QUERY\<close>, with no flags and the context datumctl passes in, against a log
  that does not change while it is read and of which no second fills a page, the plugin exits with 0
  having printed the newest 100 lines of the last hour, oldest first, and a note only when there is none.
\<close>

theorem plugin_shows_last_hour:
  assumes "serve (plugin_manifest v) args = None"
    "cb_parse cb (newRoot\<lparr>rt_Version := v\<rparr>) args = RunsLogs Map.empty \<lparr>fg_project = project, fg_projectChanged = ch, fg_output = []\<rparr> [query]"
    "TrimSpace query \<noteq> []" "apiHost \<noteq> []" "helper \<noteq> []" "project \<noteq> []"
    "serves D (ap_QueryRange api)" "distinct (map Entry_Key D)" "sparse 5000 (window_lines D (now - 3600000000000) now Forward)"
    "\<forall>n. ml_write lib n = None"
  shows "\<exists>notes. plugin_main v serve cb lib now apiHost helper api args =
      Some \<lparr>px_exit = 0, px_out = map (entry_text lib (new_printer ''text'' (logs_options Map.empty))) (shown D (now - 3600000000000) now 100),
        px_err = notes\<rparr> \<and> (notes = [] \<longleftrightarrow> shown D (now - 3600000000000) now 100 \<noteq> [])"
proof -
  let ?fl = "\<lparr>fg_project = project, fg_projectChanged = ch, fg_output = []\<rparr>"
  let ?o = "logs_options Map.empty"
  let ?c = "DatumctlClient (''milo-telemetry/'' @ v) apiHost helper"
  have f: "outputFormat lib ?fl = Inr ''text''" by (simp add: outputFormat_def)
  have w: "resolveWindow lib now (lo_since ?o) (lo_start ?o) (lo_end ?o) = Inr (now - 3600000000000, now)"
    by (simp add: default_options default_window)
  obtain s where s: "?c (fg_project ?fl) = Inr s" using assms(4-6) by (simp add: datumctl_client)
  have b: "backlog_lines api (TrimSpace query) (now - 3600000000000) now (lo_limit ?o) s = Some (None, shown D (now - 3600000000000) now 100, s)"
    using backlog_shown [OF assms(7-9), of "lo_limit ?o"] by (simp add: default_options)
  have l: "-1 \<le> lo_limit ?o" "lo_follow ?o \<longrightarrow> lo_end ?o = []" "\<not> lo_follow ?o" "lo_limit ?o \<noteq> 0" by (simp_all add: default_options)
  note run = runLogs_shows [where client = ?c and api = api, OF assms(3) f l(1,2) w s]
  have "nothing_matched lib api ?fl ?o (TrimSpace query) (now - 3600000000000) now s \<noteq> []" by (simp add: nothing_matched_def Let_def)
  then show ?thesis
    using assms(1,2) run show_lines_done [OF b assms(10) l(3)] l(4)
    by (simp add: plugin_main_def run_command_def logsCommand_RunE_def Let_def)
qed

text \<open>
  A run that fails exits with 1 and reports its error once, last on the error output, with its hint; a run
  without the context of datumctl or without a project fails before any request, printing nothing.
\<close>

theorem plugin_reports_failure:
  assumes "silent_cobra cb" "serve (plugin_manifest v) args = None"
    "run_command lib now (DatumctlClient (''milo-telemetry/'' @ v) apiHost helper) api (cb_parse cb (newRoot\<lparr>rt_Version := v\<rparr>) args) = Some (err, out, notes)"
  shows "plugin_main v serve cb lib now apiHost helper api args =
    Some \<lparr>px_exit = (if err = None then 0 else 1), px_out = out, px_err = notes @ (case err of None \<Rightarrow> [] | Some e \<Rightarrow> Render (ml_isp lib) e)\<rparr>"
  using assms by (simp add: plugin_main_def silenced Let_def split: option.split)

theorem plugin_needs_context:
  assumes "apiHost = [] \<or> helper = [] \<or> fg_project fl = []"
    "run_command lib now (DatumctlClient ua apiHost helper) api p = Some (err, out, notes)"
    "p = RunsLogs given fl args \<or> p = RunsLabels given fl args"
  shows "out = [] \<and> notes = [] \<and> (\<exists>msg hint. err = Some (UserError msg hint))"
proof -
  obtain msg hint where c: "DatumctlClient ua apiHost helper (fg_project fl) = Inl (UserError msg hint)"
    using assms(1) by (cases "apiHost = [] \<or> helper = []") (simp_all add: DatumctlClient_def)
  have w: "\<exists>msg hint. e = UserError msg hint" if "resolveWindow lib now a b d = Inl e" for a b d e
    using that by (auto simp: resolveWindow_def window_end_def window_start_def cmd_parseTime_def parseSince_def Let_def
      split: if_splits sum.splits option.splits)
  have f: "\<exists>msg hint. e = UserError msg hint" if "outputFormat lib fl = Inl e" for e
    using that by (auto simp: outputFormat_def split: if_splits)
  show ?thesis
  proof (cases "p = RunsLogs given fl args")
    case True
    then show ?thesis using assms(2) c w f
      by (auto simp: run_command_def logsCommand_RunE_def runLogs_def new_printer_def Let_def split: if_splits sum.splits)
  next
    case False
    then have "p = RunsLabels given fl args" using assms(3) by blast
    then show ?thesis using assms(2) c w f
      by (auto simp: run_command_def labelsCommand_RunE_def Let_def split: sum.splits)
  qed
qed

end
