(* ===== verification/E2EUtils.thy ===== *)
theory E2EUtils
  imports Prelude Numbers
begin

text \<open>
  The helpers of the operator's end-to-end suite (operator/test/utils): the commands they run, in which
  environment, and the private kubeconfig that keeps them on a local cluster. The process is a record:
  its environment, files, directory and clock, and the commands it has run. The operating system, the
  commands' answers and the readers of URLs and IP addresses are the parameter \<open>os\<close>.
\<close>

section \<open>The process\<close>

record executed =
  ex_Args :: "string list"
  ex_Env :: "string \<rightharpoonup> string"
  ex_Dir :: string

record process =
  ps_Env :: "string \<rightharpoonup> string"
  ps_Files :: "string \<rightharpoonup> string"
  ps_Dir :: string
  ps_Now :: int
  ps_Log :: "executed list"

text \<open>
  The n-th command: what it writes to its standard output and to both outputs, how it fails, and the
  nanoseconds it takes. \<open>os_Hostname\<close> is the host of a URL that parses, \<open>os_Loopback\<close> tells of an IP address
  whether it is a loopback one.
\<close>

record os =
  os_Stdout :: "nat \<Rightarrow> executed \<Rightarrow> string"
  os_Combined :: "nat \<Rightarrow> executed \<Rightarrow> string"
  os_Fails :: "nat \<Rightarrow> executed \<Rightarrow> string option"
  os_Took :: "nat \<Rightarrow> nat"
  os_Getwd :: "string option"
  os_Chdir :: "string \<Rightarrow> string option"
  os_CreateTemp :: "string + string"
  os_Write :: "string option"
  os_Close :: "string option"
  os_Setenv :: "string option"
  os_WriteFile :: "string \<Rightarrow> string option"
  os_Hostname :: "string \<Rightarrow> string option"
  os_Loopback :: "string \<Rightarrow> bool option"

datatype e2e_error =
    CommandFailed string string string
  | KubeconfigFailed string string
  | ServerFailed string
  | OsFailed string
  | NoServerHost string
  | NotOnLoopback string
  | NoCABundle
  | CodeNotFound string

definition execute :: "os \<Rightarrow> executed \<Rightarrow> process \<Rightarrow> (string \<times> string \<times> string option) \<times> process" where
  "execute os c s =
     (let n = length (ps_Log s) in
      ((os_Stdout os n c, os_Combined os n c, os_Fails os n c),
       s\<lparr>ps_Log := ps_Log s @ [c], ps_Now := ps_Now s + int (os_Took os n)\<rparr>))"

text \<open>A bare command inherits the environment and the directory.\<close>

definition bare :: "os \<Rightarrow> string list \<Rightarrow> process \<Rightarrow> (string \<times> string \<times> string option) \<times> process" where
  "bare os args s = execute os \<lparr>ex_Args = args, ex_Env = ps_Env s, ex_Dir = ps_Dir s\<rparr> s"

section \<open>Running commands\<close>

definition GetProjectDir :: "os \<Rightarrow> process \<Rightarrow> string \<times> e2e_error option" where
  "GetProjectDir os s =
     (case os_Getwd os of Some e \<Rightarrow> ([], Some (OsFailed e)) | None \<Rightarrow> (ReplaceAll (ps_Dir s) ''/test/e2e'' [], None))"

definition Run :: "os \<Rightarrow> string list \<Rightarrow> process \<Rightarrow> (string \<times> e2e_error option) \<times> process" where
  "Run os args s =
     (let dir = fst (GetProjectDir os s);
          s1 = (case os_Chdir os dir of Some _ \<Rightarrow> s | None \<Rightarrow> s\<lparr>ps_Dir := dir\<rparr>);
          command = JoinStr args '' '';
          ((_, output, err), s2) =
            execute os \<lparr>ex_Args = args, ex_Env = (ps_Env s1)(''GO111MODULE'' \<mapsto> ''on''), ex_Dir = dir\<rparr> s1 in
      ((output, map_option (\<lambda>e. CommandFailed command e output) err), s2))"

definition GetNonEmptyLines :: "string \<Rightarrow> string list" where
  "GetNonEmptyLines output = filter (\<lambda>element. element \<noteq> []) (SplitChar (CHR 0x0A) output)"

section \<open>Components of the cluster\<close>

definition prometheusOperatorURL :: string where
  "prometheusOperatorURL = ''https://github.com/prometheus-operator/prometheus-operator/releases/download/v0.77.1/bundle.yaml''"
definition certmanagerURL :: string where
  "certmanagerURL = ''https://github.com/cert-manager/cert-manager/releases/download/v1.16.3/cert-manager.yaml''"

definition InstallPrometheusOperator :: "os \<Rightarrow> process \<Rightarrow> e2e_error option \<times> process" where
  "InstallPrometheusOperator os s =
     (let ((_, err), s) = Run os [''kubectl'', ''create'', ''-f'', prometheusOperatorURL] s in (err, s))"

definition UninstallPrometheusOperator :: "os \<Rightarrow> process \<Rightarrow> process" where
  "UninstallPrometheusOperator os s = snd (Run os [''kubectl'', ''delete'', ''-f'', prometheusOperatorURL] s)"

text \<open>Whether a line of the output names one of the definitions.\<close>

definition names_any :: "string list \<Rightarrow> string list \<Rightarrow> bool" where
  "names_any crds ls = list_ex (\<lambda>crd. list_ex (\<lambda>line. ContainsStr line crd) ls) crds"

definition prometheusCRDs :: "string list" where
  "prometheusCRDs = [''prometheuses.monitoring.coreos.com'', ''prometheusrules.monitoring.coreos.com'', ''prometheusagents.monitoring.coreos.com'']"

definition IsPrometheusCRDsInstalled :: "os \<Rightarrow> process \<Rightarrow> bool \<times> process" where
  "IsPrometheusCRDsInstalled os s =
     (let ((output, err), s) = Run os [''kubectl'', ''get'', ''crds'', ''-o'', ''custom-columns=NAME:.metadata.name''] s in
      (if err \<noteq> None then False else names_any prometheusCRDs (GetNonEmptyLines output), s))"

definition certManagerCRDs :: "string list" where
  "certManagerCRDs = [''certificates.cert-manager.io'', ''issuers.cert-manager.io'', ''clusterissuers.cert-manager.io'',
     ''certificaterequests.cert-manager.io'', ''orders.acme.cert-manager.io'', ''challenges.acme.cert-manager.io'']"

definition IsCertManagerCRDsInstalled :: "os \<Rightarrow> process \<Rightarrow> bool \<times> process" where
  "IsCertManagerCRDsInstalled os s =
     (let ((output, err), s) = Run os [''kubectl'', ''get'', ''crds''] s in
      (if err \<noteq> None then False else names_any certManagerCRDs (GetNonEmptyLines output), s))"

definition certManagerLeaderLeases :: "string list" where
  "certManagerLeaderLeases = [''cert-manager-cainjector-leader-election'', ''cert-manager-controller'', ''cert-manager-webhook'']"

definition UninstallCertManager :: "os \<Rightarrow> process \<Rightarrow> process" where
  "UninstallCertManager os s =
     fold (\<lambda>lease s. snd (Run os [''kubectl'', ''delete'', ''lease'', lease, ''-n'', ''kube-system'', ''--ignore-not-found''] s))
       certManagerLeaderLeases (snd (Run os [''kubectl'', ''delete'', ''-f'', certmanagerURL] s))"

definition caBundleReady :: "os \<Rightarrow> process \<Rightarrow> bool \<times> process" where
  "caBundleReady os s =
     (let ((_, out, err), s) = bare os [''kubectl'', ''get'', ''validatingwebhookconfiguration'', ''cert-manager-webhook'',
            ''-o'', ''jsonpath={.webhooks[0].clientConfig.caBundle}''] s in
      (err = None \<and> TrimSpace out \<noteq> [], s))"

lemma caBundleReady_now: "caBundleReady os s = (found, s1) \<Longrightarrow> ps_Now s \<le> ps_Now s1"
  by (auto simp: caBundleReady_def bare_def execute_def Let_def)

text \<open>The loop polls every two seconds until the bundle is there or the deadline has passed.\<close>

function wait_caBundle :: "os \<Rightarrow> int \<Rightarrow> process \<Rightarrow> bool \<times> process" where
  "wait_caBundle os deadline s =
     (case caBundleReady os s of (found, s1) \<Rightarrow>
        if found then (True, s1)
        else if deadline < ps_Now s1 then (False, s1)
        else wait_caBundle os deadline (s1\<lparr>ps_Now := ps_Now s1 + 2 * second\<rparr>))"
  by pat_completeness auto
termination
  by (relation "measure (\<lambda>(os, deadline, s). nat (deadline - ps_Now s + 1))") (auto dest!: caBundleReady_now [OF sym])

declare wait_caBundle.simps [simp del]

definition InstallCertManager :: "os \<Rightarrow> process \<Rightarrow> e2e_error option \<times> process" where
  "InstallCertManager os s =
     (case Run os [''kubectl'', ''apply'', ''-f'', certmanagerURL] s of ((_, err), s) \<Rightarrow>
        if err \<noteq> None then (err, s)
        else case Run os [''kubectl'', ''wait'', ''deployment.apps/cert-manager-webhook'', ''--for'', ''condition=Available'',
            ''--namespace'', ''cert-manager'', ''--timeout'', ''5m''] s of ((_, err), s) \<Rightarrow>
          if err \<noteq> None then (err, s)
          else case wait_caBundle os (ps_Now s + 300 * second) s of (found, s) \<Rightarrow>
            (if found then None else Some NoCABundle, s))"

section \<open>The cluster the suite runs against\<close>

definition kindCluster :: "process \<Rightarrow> string" where
  "kindCluster s = (case ps_Env s ''KIND_CLUSTER'' of Some v \<Rightarrow> v | None \<Rightarrow> ''kind'')"

definition RequireLoopbackServer :: "os \<Rightarrow> string \<Rightarrow> e2e_error option" where
  "RequireLoopbackServer os server =
     (case os_Hostname os server of
        None \<Rightarrow> Some (NoServerHost server)
      | Some host \<Rightarrow>
          if host = [] then Some (NoServerHost server)
          else if host = ''localhost'' \<or> os_Loopback os host = Some True then None
          else Some (NotOnLoopback server))"

definition remove_file :: "string \<Rightarrow> process \<Rightarrow> process" where
  "remove_file path s = s\<lparr>ps_Files := (ps_Files s)(path := None)\<rparr>"

text \<open>The path of the private kubeconfig, whose removal is the cleanup returned.\<close>

definition IsolateKubeconfig :: "os \<Rightarrow> process \<Rightarrow> (e2e_error + string) \<times> process" where
  "IsolateKubeconfig os s =
     (let cluster = kindCluster s in
      case bare os [''kind'', ''get'', ''kubeconfig'', ''--name'', cluster] s of ((raw, _, err), s) \<Rightarrow>
      (case err of
         Some e \<Rightarrow> (Inl (KubeconfigFailed cluster e), s)
       | None \<Rightarrow>
      (case os_CreateTemp os of
         Inl e \<Rightarrow> (Inl (OsFailed e), s)
       | Inr path \<Rightarrow>
           let s = s\<lparr>ps_Files := (ps_Files s)(path \<mapsto> [])\<rparr> in
      (case os_Write os of
         Some e \<Rightarrow> (Inl (OsFailed e), remove_file path s)
       | None \<Rightarrow>
           let s = s\<lparr>ps_Files := (ps_Files s)(path \<mapsto> raw)\<rparr> in
      (case os_Close os of
         Some e \<Rightarrow> (Inl (OsFailed e), remove_file path s)
       | None \<Rightarrow>
           (case execute os \<lparr>ex_Args = [''kubectl'', ''config'', ''view'', ''--minify'', ''-o'', ''jsonpath={.clusters[0].cluster.server}''],
              ex_Env = (ps_Env s)(''KUBECONFIG'' \<mapsto> path), ex_Dir = ps_Dir s\<rparr> s of ((server, _, err), s) \<Rightarrow>
      (case err of
         Some e \<Rightarrow> (Inl (ServerFailed e), remove_file path s)
       | None \<Rightarrow>
      (case RequireLoopbackServer os (TrimSpace server) of
         Some e \<Rightarrow> (Inl e, remove_file path s)
       | None \<Rightarrow>
      (case os_Setenv os of
         Some e \<Rightarrow> (Inl (OsFailed e), remove_file path s)
       | None \<Rightarrow> (Inr path, s\<lparr>ps_Env := (ps_Env s)(''KUBECONFIG'' \<mapsto> path)\<rparr>))))))))))"

definition LoadImageToKindClusterWithName :: "os \<Rightarrow> string \<Rightarrow> process \<Rightarrow> e2e_error option \<times> process" where
  "LoadImageToKindClusterWithName os name s =
     (let ((_, err), s) = Run os [''kind'', ''load'', ''docker-image'', name, ''--name'', kindCluster s] s in (err, s))"

section \<open>Editing files\<close>

fun IndexStr :: "string \<Rightarrow> string \<Rightarrow> nat option" where
  "IndexStr s sub =
     (if HasPrefix s sub then Some 0 else case s of [] \<Rightarrow> None | _ # t \<Rightarrow> map_option Suc (IndexStr t sub))"

text \<open>
  The lines of \<^verbatim>\<open>bufio.Scanner\<close>: without their ends, a carriage return before it included; no empty line
  after the last end. The scanner stops at a line that does not fit its buffer.
\<close>

definition scan_lines :: "string \<Rightarrow> string list" where
  "scan_lines s =
     (let ls = SplitChar (CHR 0x0A) s in
      map (\<lambda>l. TrimSuffix l [CHR 0x0D]) (takeWhile (\<lambda>l. length l < 65536) (if last ls = [] then butlast ls else ls)))"

definition UncommentCode :: "os \<Rightarrow> string \<Rightarrow> string \<Rightarrow> string \<Rightarrow> process \<Rightarrow> e2e_error option \<times> process" where
  "UncommentCode os filename target pfx s =
     (case ps_Files s filename of
        None \<Rightarrow> (Some (OsFailed filename), s)
      | Some content \<Rightarrow>
     (case IndexStr content target of
        None \<Rightarrow> (Some (CodeNotFound target), s)
      | Some idx \<Rightarrow>
          let ls = scan_lines target in
          if ls = [] then (None, s)
          else
            let out = take idx content @ JoinStr (map (\<lambda>l. TrimPrefix l pfx) ls) [CHR 0x0A] @ drop (idx + length target) content in
            (case os_WriteFile os filename of
               Some e \<Rightarrow> (Some (OsFailed e), s)
             | None \<Rightarrow> (None, s\<lparr>ps_Files := (ps_Files s)(filename \<mapsto> out)\<rparr>))))"

section \<open>Lemmas\<close>

text \<open>What a helper may do: run commands that inherit the environment, and not touch a given file.\<close>

definition inherits :: "string \<Rightarrow> process \<Rightarrow> process \<Rightarrow> bool" where
  "inherits path s s' \<longleftrightarrow> ps_Env s' = ps_Env s \<and> ps_Files s' path = ps_Files s path \<and>
     (\<exists>cs. ps_Log s' = ps_Log s @ cs \<and> (\<forall>c \<in> set cs. ex_Env c ''KUBECONFIG'' = ps_Env s ''KUBECONFIG''))"

lemma inherits_refl: "inherits path s s"
  by (simp add: inherits_def)

lemma inherits_trans: "inherits path s s1 \<Longrightarrow> inherits path s1 s2 \<Longrightarrow> inherits path s s2"
  by (fastforce simp: inherits_def)

lemma execute_inherits: "ex_Env c ''KUBECONFIG'' = ps_Env s ''KUBECONFIG'' \<Longrightarrow> inherits path s (snd (execute os c s))"
  by (simp add: inherits_def execute_def Let_def)

lemma Run_inherits: "inherits path s (snd (Run os args s))"
  by (simp add: Run_def Let_def inherits_def execute_def split: option.split)

lemma bare_inherits: "inherits path s (snd (bare os args s))"
  by (simp add: bare_def execute_inherits)

lemma caBundleReady_inherits: "inherits path s (snd (caBundleReady os s))"
  using bare_inherits by (simp add: caBundleReady_def split_def Let_def)

lemma wait_inherits: "inherits path s (snd (wait_caBundle os deadline s))"
proof (induction os deadline s rule: wait_caBundle.induct)
  case (1 os deadline s)
  obtain found s1 where c: "caBundleReady os s = (found, s1)" by fastforce
  let ?s = "s1\<lparr>ps_Now := ps_Now s1 + 2 * second\<rparr>"
  have i: "inherits path s s1" using caBundleReady_inherits [of path s os] c by simp
  then have "inherits path s ?s" by (simp add: inherits_def)
  then show ?case using 1 [OF c [symmetric]] c i inherits_trans by (subst wait_caBundle.simps) auto
qed

lemma fold_inherits: "(\<And>x s. inherits path s (f x s)) \<Longrightarrow> inherits path s (fold f xs s)"
  by (induction xs arbitrary: s) (auto intro: inherits_refl inherits_trans)

text \<open>What the suite does once it is isolated: any of the helpers, in any order, and no edit of the kubeconfig.\<close>

inductive helper_step :: "os \<Rightarrow> string \<Rightarrow> process \<Rightarrow> process \<Rightarrow> bool" for os path where
  run: "helper_step os path s (snd (Run os args s))"
| bare: "helper_step os path s (snd (bare os args s))"
| install_prometheus: "helper_step os path s (snd (InstallPrometheusOperator os s))"
| uninstall_prometheus: "helper_step os path s (UninstallPrometheusOperator os s)"
| check_prometheus: "helper_step os path s (snd (IsPrometheusCRDsInstalled os s))"
| install_cert_manager: "helper_step os path s (snd (InstallCertManager os s))"
| uninstall_cert_manager: "helper_step os path s (UninstallCertManager os s)"
| check_cert_manager: "helper_step os path s (snd (IsCertManagerCRDsInstalled os s))"
| load_image: "helper_step os path s (snd (LoadImageToKindClusterWithName os name s))"
| uncomment: "filename \<noteq> path \<Longrightarrow> helper_step os path s (snd (UncommentCode os filename target pfx s))"

lemma InstallCertManager_inherits: "inherits path s (snd (InstallCertManager os s))"
proof -
  obtain o1 e1 s1 where 1: "Run os [''kubectl'', ''apply'', ''-f'', certmanagerURL] s = ((o1, e1), s1)" by (metis surj_pair)
  obtain o2 e2 s2 where 2: "Run os [''kubectl'', ''wait'', ''deployment.apps/cert-manager-webhook'', ''--for'', ''condition=Available'',
      ''--namespace'', ''cert-manager'', ''--timeout'', ''5m''] s1 = ((o2, e2), s2)" by (metis surj_pair)
  have r1: "inherits path s s1" using Run_inherits [of path s os] 1 by (metis snd_conv)
  have r2: "inherits path s s2" using inherits_trans [OF r1] Run_inherits [of path s1 os] 2 by (metis snd_conv)
  have "inherits path s (snd (wait_caBundle os (ps_Now s2 + 300 * second) s2))" by (rule inherits_trans [OF r2 wait_inherits])
  then show ?thesis using r1 r2 by (auto simp: InstallCertManager_def 1 2 split: prod.split)
qed

lemma helper_inherits: "helper_step os path s s' \<Longrightarrow> inherits path s s'"
proof (induction rule: helper_step.induct)
  case (uncomment filename s target pfx)
  then show ?case by (simp add: UncommentCode_def inherits_def Let_def split: option.split)
qed (simp_all add: Run_inherits bare_inherits InstallCertManager_inherits InstallPrometheusOperator_def UninstallPrometheusOperator_def
    IsPrometheusCRDsInstalled_def IsCertManagerCRDsInstalled_def LoadImageToKindClusterWithName_def split_def Let_def UninstallCertManager_def
    inherits_trans [OF Run_inherits fold_inherits [OF Run_inherits]] del: fold_simps)

lemma helpers_inherit: "(helper_step os path)\<^sup>*\<^sup>* s s' \<Longrightarrow> inherits path s s'"
  by (induction rule: rtranclp_induct) (auto intro: inherits_refl inherits_trans helper_inherits)

lemma isolate_fails:
  assumes "IsolateKubeconfig os s = (Inl e, s1)"
  shows "ps_Env s1 = ps_Env s \<and> (ps_Files s1 = ps_Files s \<or> (\<exists>path. os_CreateTemp os = Inr path \<and> ps_Files s1 = (ps_Files s)(path := None)))"
  using assms by (auto simp: IsolateKubeconfig_def bare_def execute_def remove_file_def Let_def split: option.splits sum.splits)

lemma isolate_succeeds:
  assumes "IsolateKubeconfig os s = (Inr path, s1)"
  shows "(\<exists>c1 c2 host. ps_Log s1 = ps_Log s @ [c1, c2] \<and> ex_Args c1 = [''kind'', ''get'', ''kubeconfig'', ''--name'', kindCluster s] \<and>
      ps_Files s1 path = Some (os_Stdout os (length (ps_Log s)) c1) \<and> ex_Env c2 ''KUBECONFIG'' = Some path \<and>
      os_Hostname os (TrimSpace (os_Stdout os (Suc (length (ps_Log s))) c2)) = Some host \<and>
      (host = ''localhost'' \<or> os_Loopback os host = Some True)) \<and> ps_Env s1 ''KUBECONFIG'' = Some path"
  using assms by (auto simp: IsolateKubeconfig_def RequireLoopbackServer_def bare_def execute_def Let_def split: option.splits sum.splits if_splits)

section \<open>Properties\<close>

text \<open>
  C40. The suite cannot reach another cluster. When the kubeconfig was isolated, the private file holds
  exactly what kind returned for its cluster, the server read back from that very file is on a loopback
  address, and every command of every helper run later, in whatever order, has that file as its
  kubeconfig, which no helper edits. When anything fails on the way, the environment is as it was and the
  private file, if it was created, is gone.
\<close>

theorem kubeconfig_isolated:
  "case IsolateKubeconfig os s of
     (Inl _, s1) \<Rightarrow> ps_Env s1 = ps_Env s \<and>
       (ps_Files s1 = ps_Files s \<or> (\<exists>path. os_CreateTemp os = Inr path \<and> ps_Files s1 = (ps_Files s)(path := None)))
   | (Inr path, s1) \<Rightarrow>
       (\<exists>c1 c2 host. ps_Log s1 = ps_Log s @ [c1, c2] \<and> ex_Args c1 = [''kind'', ''get'', ''kubeconfig'', ''--name'', kindCluster s] \<and>
          ps_Files s1 path = Some (os_Stdout os (length (ps_Log s)) c1) \<and> ex_Env c2 ''KUBECONFIG'' = Some path \<and>
          os_Hostname os (TrimSpace (os_Stdout os (Suc (length (ps_Log s))) c2)) = Some host \<and>
          (host = ''localhost'' \<or> os_Loopback os host = Some True)) \<and>
       (\<forall>s2. (helper_step os path)\<^sup>*\<^sup>* s1 s2 \<longrightarrow> ps_Files s2 path = ps_Files s1 path \<and>
          (\<exists>cs. ps_Log s2 = ps_Log s1 @ cs \<and> (\<forall>c \<in> set cs. ex_Env c ''KUBECONFIG'' = Some path)))"
proof -
  have later: "ps_Files s2 path = ps_Files s1 path \<and> (\<exists>cs. ps_Log s2 = ps_Log s1 @ cs \<and> (\<forall>c \<in> set cs. ex_Env c ''KUBECONFIG'' = Some path))"
    if "(helper_step os path)\<^sup>*\<^sup>* s1 s2" "ps_Env s1 ''KUBECONFIG'' = Some path" for s1 s2 path
    using helpers_inherit [OF that(1)] that(2) by (auto simp: inherits_def)
  show ?thesis
  proof (cases "IsolateKubeconfig os s")
    case (Pair r s1)
    show ?thesis
    proof (cases r)
      case (Inl e)
      then have p: "IsolateKubeconfig os s = (Inl e, s1)" using Pair by simp
      show ?thesis unfolding p prod.case sum.case by (rule isolate_fails [OF p])
    next
      case (Inr path)
      then have p: "IsolateKubeconfig os s = (Inr path, s1)" using Pair by simp
      note i = isolate_succeeds [OF p]
      show ?thesis unfolding p prod.case sum.case
        by (intro conjI [OF conjunct1 [OF i]] allI impI later [OF _ conjunct2 [OF i]])
    qed
  qed
qed

definition example_os :: os where
  "example_os = \<lparr>os_Stdout = (\<lambda>n _. if n = 0 then ''kubeconfig'' else ''https://127.0.0.1:6443''), os_Combined = (\<lambda>_ _. []), os_Fails = (\<lambda>_ _. None),
     os_Took = (\<lambda>_. 1), os_Getwd = None, os_Chdir = (\<lambda>_. None), os_CreateTemp = Inr ''/tmp/k'', os_Write = None, os_Close = None, os_Setenv = None,
     os_WriteFile = (\<lambda>_. None), os_Hostname = (\<lambda>_. Some ''127.0.0.1''), os_Loopback = (\<lambda>h. if h = ''127.0.0.1'' then Some True else None)\<rparr>"

definition example_process :: process where
  "example_process = \<lparr>ps_Env = [''KUBECONFIG'' \<mapsto> ''/home/production''], ps_Files = Map.empty, ps_Dir = ''/src/operator/test/e2e'', ps_Now = 0, ps_Log = []\<rparr>"

theorem kubeconfig_isolated_witness:
  "\<exists>s1. IsolateKubeconfig example_os example_process = (Inr ''/tmp/k'', s1) \<and>
     (\<exists>cs. ps_Log (UninstallPrometheusOperator example_os s1) = ps_Log s1 @ cs \<and> (\<forall>c \<in> set cs. ex_Env c ''KUBECONFIG'' = Some ''/tmp/k''))"
proof -
  obtain r s1 where i: "IsolateKubeconfig example_os example_process = (r, s1)" by fastforce
  have "fst (IsolateKubeconfig example_os example_process) = Inr ''/tmp/k''" by code_simp
  then have r: "r = Inr ''/tmp/k''" using i by simp
  have "(helper_step example_os ''/tmp/k'')\<^sup>*\<^sup>* s1 (UninstallPrometheusOperator example_os s1)"
    by (intro r_into_rtranclp helper_step.uninstall_prometheus)
  then show ?thesis using kubeconfig_isolated [where os = example_os and s = example_process] i r by simp
qed

end
