(* ===== verification/Spec2Isabelle.thy ===== *)
theory Spec2Isabelle
  imports QueryApi Pipeline Factories StatusMemory NKeyGenerator Migrate PluginMain E2EUtils
begin

text \<open>
  This development models the Go programs of the telemetry repository and proves what makes them
  correct: the query API that serves a project's logs and metrics, the client library and datumctl
  plugin that read them, the collector components that carry telemetry over NATS, the operator that
  turns export policies into Vector configurations, the generator of NATS keys and the ClickHouse
  migration job. Every definition is translated from the source under src/; code the repository only
  calls (the Kubernetes apiserver runtime, controller-runtime, the NATS and ClickHouse clients, OTLP
  marshalers, MetricsQL, cobra, JSON and YAML encoders) is a parameter, with what is relied on of it
  as a named hypothesis.

  \<^bold>\<open>How the parts fit together.\<close> A request reaches the query API through the apiserver runtime: its
  path is made canonical, the caller is authenticated, the route table describes the request, headers
  that ask to impersonate another user are honoured if the authorizer allows it, the guard and the
  configured authorizer review the request of the acting user, the tenancy middleware puts that user's
  project on the context, and a handler parses the parameters and the LogQL text and asks a store. The log store
  builds one ClickHouse statement, the metric store one request to a Prometheus-compatible backend.
  The client library asks the same API page by page or by polling, and the plugin prints the lines.
  Apart from that, telemetry travels from the collectors through the unbatch processor and the NATS
  exporter to a JetStream stream, from which the receiver feeds the sink collector.

  \<^bold>\<open>Theories, in the order they build on each other.\<close>

  \<^item> \<open>Prelude\<close>, \<open>Numbers\<close>, \<open>Strconv\<close>: Go's strings, trimming, splitting and joining, 64-bit integers and
    instants (Unix nanoseconds as integers, wrapped where the code takes \<^verbatim>\<open>UnixNano\<close>), decimal text, UTF-8
    and quoting, as far as the source uses them; results are sums, \<open>Inl\<close> the error.
  \<^item> \<open>LogQL\<close>, \<open>Selector\<close>: the parser of queryapi/internal/logql and the selector builder of cli/logql; what
    the parser accepts is well formed, and it reads every printed selector back.
  \<^item> \<open>Storage\<close>, \<open>MiloAuth\<close>, \<open>Authz\<close>, \<open>Routes\<close>: label sets and the storage contract, tenant resolution, the
    permission vocabulary and guard, the route table with \<^verbatim>\<open>http.ServeMux\<close> matching. The locale
    \<open>tenant_scoped\<close> is the isolation contract of a store.
  \<^item> \<open>Loki\<close>, \<open>ClickHouse\<close>, \<open>FakeStore\<close>, \<open>PromStore\<close>: grouping of rows into streams over any store that
    satisfies the locale \<open>log_iterator\<close>; the ClickHouse statements, row scanning and operations; the
    synthetic store; the metric backend. Both locales are interpreted on these stores.
  \<^item> \<open>Handlers\<close>, \<open>Server\<close>: configuration, parameters and all ten handlers; the choice of stores, the
    assembly of the server and the process.
  \<^item> \<open>Unbatch\<close>, \<open>NatsExporter\<close>, \<open>NatsReceiver\<close>: the collector components. OTLP trees have type variables
    as leaves; the locales \<open>unbatcher\<close> and \<open>delivery\<close> are interpreted for logs, traces and metrics. The
    stream is a step relation, \<open>delivery_step\<close>, whose runs redeliver in any order.
  \<^item> \<open>Factories\<close>: the collector's constructors and defaults, which read a configuration out of an interface value.
  \<^item> \<open>Pipeline\<close>: unbatching, publishing, the stream and the receiver together; the locale \<open>pipeline\<close> extends
    \<open>unbatcher\<close> and \<open>delivery\<close>.
  \<^item> \<open>ExportPolicy\<close>, \<open>Controller\<close>: the API types, admission, the Vector configuration, statuses and the
    reconciler, which runs over a log of Kubernetes API calls.
  \<^item> \<open>TaskGroup\<close>, \<open>OperatorMain\<close>: the operator's process (operator/cmd): what it sets up, in order, and how
    its goroutines run and stop, as sequences of events in any interleaving.
  \<^item> \<open>GoHeap\<close>, \<open>DeepCopy\<close>, \<open>StatusMemory\<close>: memory with addresses, slices and nil; the generated copies of the
    API types; the status reconciliation once more, writing where the code writes. The locale
    \<open>represents\<close> says what a struct in memory stands for and which addresses it reaches, and \<open>deep_copier\<close>
    extends it with the contract of a copy; both are interpreted or proved for every type copied.
  \<^item> \<open>E2EUtils\<close>: the helpers of the operator's end-to-end suite (operator/test/utils), over the commands they run.
  \<^item> \<open>NKeyGenerator\<close>, \<open>Migrate\<close>: the two jobs, the first over a store of API objects in which any call
    may fail, before or after it takes effect, and others write in between, the second over a file system and a database.
  \<^item> \<open>CliClient\<close>, \<open>CliPages\<close>, \<open>CliFollow\<close>, \<open>CliCommand\<close>: requests with their retry, paging, following and
    the two commands of the plugin. \<open>PluginMain\<close>: the plugin's process, with its flags and exit status.
  \<^item> \<open>ClientServer\<close>: the handlers over the ClickHouse store, and a query of the client answered by them.
  \<^item> \<open>QueryApi\<close>: a routed request answered by its handler over the stores the process chose, behind the
    instruments of its route.

  Records carry the fields of the Go structs under a short prefix, operations keep their Go names,
  with the package or receiver in front where two would clash, and every branch that returns an error
  or panics is a value. The state an operation changes is passed in and returned; instruments and log
  lines appear only where something depends on them.

  \<^bold>\<open>What is proved.\<close> Safety of the query API: a server that has started serves no route unreviewed, the
  permission reviewed is that of the route served, callers without a project are refused, and what is
  answered is a function of the data of the acting user's project, for each store and for every routed
  request as a whole; the acting user is the caller or one the authorizer let it impersonate. Refinement: a
  range request of an admitted caller is answered from exactly one statement, with its window, matchers,
  filters and clamped limit, and that statement means what the query says. Round trips: printed
  selectors are read back exactly, and so are printed label sets, unless empty or with a name that is no
  identifier; the lines a client returns are the rows of the statement its query means, over the window as
  the API reads it, which for bounds of less than 19 digits is not the one asked for. Equivalence and termination: the lazy
  iterator is the filtered window; paging ends and returns the window; grouping streams ends and
  loses nothing. Invariants by rule induction: the receiver acknowledges no decodable message before
  the next consumer took it, and drains; from collector to collector no record is lost or reaches
  another stream than the one it is routed to, by its own resource but for one case that is stated; the follower emits no line twice and loses none; the operator stops all it
  started when one part fails. Operator and jobs:
  admitted policies yield configurations confined to their project, deletion releases the finalizer
  last, the reconciler converges, and where an admitted policy makes it panic is stated; a copied policy shares no memory with its original, and treating policies as
  values is justified by what the status reconciliation does on memory; the end-to-end suite acts on a
  local cluster only; a key the generator could read in the NATS configuration is
  dropped only when its Secret is gone; a migration never
  starts with a placeholder left. Where the code deviates from what one would want of it (blank labels,
  windows before 1970, the last instant of the column, metric metadata, keys created in a race) the theorem
  says what it does there instead of assuming the case away. Each property is the theorem after the text
  that states it, and a property with hypotheses has a witness that meets them on a concrete input.

  \<^bold>\<open>Bounds.\<close> Loops that recurse on their data are total functions; the retry of a request has a
  measure on the attempts left. Loops that the source does not bound (pages of a window, polls of
  a follower, steps of a synthetic range query) are partial functions into \<open>option\<close>, and that they
  return is proved where the code relies on it: under enough room in a page, when the context ends, for
  a positive step. No fuel is used.

  \<^bold>\<open>Not modelled.\<close> Registration of types with a scheme, tracing and the declaration of instruments, which are
  calls into libraries, and the manifests, migrations and build files, which are data. The text of JSON
  and YAML documents is left to their encoders, floating point to the functions that read and print it,
  and real concurrency to sequences of steps: what others do appears as changes between calls. Of two errors that the code joins the first is
  kept; building an HTTP request to the metric backend and expanding the pattern of the migration files are
  taken not to fail, the size limit of a response not to be the largest 64-bit number, and the commands
  of the end-to-end suite not to edit the files it reads.
\<close>

section \<open>The query API over ClickHouse, end to end\<close>

text \<open>
  C6. From the request to the statement and back: for a caller the middleware admits as project
  \<open>p\<close>, a range request whose query and window parse is answered (it always returns) with the rows of
  exactly one statement, run on a connection that carries \<open>p\<close>: the statement whose text has a bound
  place for every value, with \<open>p\<close>, the window, the selector's matchers and filters and the clamped
  limit bound to them. No nil expression is ever dereferenced on the way.
\<close>

theorem range_request_runs_one_statement:
  assumes "Resolve_user (ctx_User ctx) = Some p" "Config_Validate cfg = []"
    and "parseLogQL lib (Get rq ''query'') = Inr q" "timeRange lib now rq = Inr tr"
  shows "Middleware (\<lambda>c. handle_lokiQueryRange lib (clickhouse_ops conn) cfg now c rq) ctx =
    Inr (Some (streams_response (conn p (sql_text (logs_sql p (logQuery cfg rq q tr)))
      (sql_args (logs_sql p (logQuery cfg rq q tr))))))"
  using assms by (rule range_request_statement)

theorem range_request_runs_one_statement_witness:
  "Middleware (\<lambda>c. handle_lokiQueryRange example_lib
      (clickhouse_ops (\<lambda>p t a. if p = ''acme'' then Inr \<lparr>rs_items = [[CTime 1500, CStr ''hello'', CStr ''api'', CStr [], CStr [], CStrs [''a''], CStrs [''b'']]],
         rs_err = None, rs_close = None\<rparr> else Inl NilPanic)) DefaultConfig 0 c example_params) (example_user ''acme'') =
   Inr (Some \<lparr>w_Status = 200, w_Body = StreamsBody [\<lparr>st_Stream = [(''service_name'', ''api''), (''a'', ''b'')],
     st_Values = [(''1500'', ''hello'')]\<rparr>]\<rparr>)"
proof -
  have u: "Resolve_user (ctx_User (example_user ''acme'')) = Some ''acme''" by code_simp
  have c: "Config_Validate DefaultConfig = []" by code_simp
  have q: "parseLogQL example_lib (Get example_params ''query'') = Inr example_parsed" by code_simp
  have t: "timeRange example_lib 0 example_params = Inr \<lparr>tr_Start = 1000, tr_End = 2000\<rparr>" by code_simp
  have "streams_response (Inr \<lparr>rs_items = [[CTime 1500, CStr ''hello'', CStr ''api'', CStr [], CStr [], CStrs [''a''], CStrs [''b'']]],
         rs_err = None, rs_close = None\<rparr>) =
    \<lparr>w_Status = 200, w_Body = StreamsBody [\<lparr>st_Stream = [(''service_name'', ''api''), (''a'', ''b'')],
     st_Values = [(''1500'', ''hello'')]\<rparr>]\<rparr>" by code_simp
  with range_request_runs_one_statement [OF u c q t] show ?thesis by simp
qed

end
